(* ===== verification/Prelude.thy ===== *)
theory Prelude
  imports Complex_Main "HOL-Library.Char_ord" "HOL-Library.List_Lexorder"
    "HOL-Library.Product_Lexorder" "HOL-Library.Word" "HOL-Library.Sublist"
    "HOL-Library.Multiset"
begin

text \<open>
  The shared vocabulary of the development: byte strings, Rust's string predicates that the
  sources use, error values, and the generic facts on lists and options that the component
  theories rely on. A Rust \<^verbatim>\<open>String\<close> and a \<^verbatim>\<open>Vec<u8>\<close> are both a \<^typ>\<open>string\<close>: an Isabelle character
  is one byte, so a Rust string is its UTF-8 bytes and the order of strings is the byte order
  that \<^verbatim>\<open>BTreeMap<String, _>\<close> uses.
\<close>

section \<open>Collections of facts\<close>

named_theorems outcome_splits \<open>case splits on what an operation returns\<close>

declare option.splits [outcome_splits] sum.splits [outcome_splits] prod.splits [outcome_splits] if_splits [outcome_splits]

section \<open>Types\<close>

type_synonym bytes = string

text \<open>\<^verbatim>\<open>anyhow::Error\<close>: the messages of the chain, outermost context first.\<close>

type_synonym anyhow = "string list"

text \<open>\<^verbatim>\<open>Result<T, E>\<close> is the sum \<^verbatim>\<open>E + T\<close>: \<^const>\<open>Inl\<close> is \<^verbatim>\<open>Err\<close>, \<^const>\<open>Inr\<close> is \<^verbatim>\<open>Ok\<close>.\<close>

fun join_with :: "string \<Rightarrow> string list \<Rightarrow> string" where
  "join_with sep [] = []"
| "join_with sep [s] = s"
| "join_with sep (s # t # ss) = s @ sep @ join_with sep (t # ss)"

text \<open>\<^verbatim>\<open>format!("{error:#}")\<close>: the whole chain on one line.\<close>

definition chain_message :: "anyhow \<Rightarrow> string" where
  "chain_message e = join_with '': '' e"

text \<open>\<^verbatim>\<open>with_context\<close> on a result.\<close>

definition with_context :: "string \<Rightarrow> anyhow + 'a \<Rightarrow> anyhow + 'a" where
  "with_context c r = (case r of Inl e \<Rightarrow> Inl (c # e) | Inr x \<Rightarrow> Inr x)"

lemma with_context_simps [simp]:
  "with_context c (Inl e) = Inl (c # e)"
  "with_context c (Inr x) = Inr x"
  by (simp_all add: with_context_def)

lemma with_context_eq_Inr [simp]: "with_context c r = Inr x \<longleftrightarrow> r = Inr x"
  by (cases r) simp_all

section \<open>Rust's byte and string predicates\<close>

text \<open>\<^verbatim>\<open>u8::is_ascii_whitespace\<close>: space, tab, line feed, form feed and carriage return.\<close>

definition is_ascii_whitespace :: "char \<Rightarrow> bool" where
  "is_ascii_whitespace c \<longleftrightarrow> of_char c \<in> {9, 10, 12, 13, 32 :: nat}"

definition is_ascii_digit :: "char \<Rightarrow> bool" where
  "is_ascii_digit c \<longleftrightarrow> (48 :: nat) \<le> of_char c \<and> of_char c \<le> (57 :: nat)"

definition is_ascii_uppercase :: "char \<Rightarrow> bool" where
  "is_ascii_uppercase c \<longleftrightarrow> (65 :: nat) \<le> of_char c \<and> of_char c \<le> (90 :: nat)"

definition is_ascii_lowercase :: "char \<Rightarrow> bool" where
  "is_ascii_lowercase c \<longleftrightarrow> (97 :: nat) \<le> of_char c \<and> of_char c \<le> (122 :: nat)"

definition is_ascii_alphanumeric :: "char \<Rightarrow> bool" where
  "is_ascii_alphanumeric c \<longleftrightarrow>
     is_ascii_digit c \<or> is_ascii_uppercase c \<or> is_ascii_lowercase c"

definition to_ascii_lower :: "char \<Rightarrow> char" where
  "to_ascii_lower c = (if is_ascii_uppercase c then char_of (of_char c + (32 :: nat)) else c)"

definition to_ascii_upper :: "char \<Rightarrow> char" where
  "to_ascii_upper c = (if is_ascii_lowercase c then char_of (of_char c - (32 :: nat)) else c)"

definition eq_ignore_ascii_case :: "string \<Rightarrow> string \<Rightarrow> bool" where
  "eq_ignore_ascii_case s t \<longleftrightarrow> map to_ascii_lower s = map to_ascii_lower t"

lemma eq_ignore_ascii_case_refl [simp]: "eq_ignore_ascii_case s s"
  by (simp add: eq_ignore_ascii_case_def)

lemma eq_ignore_ascii_case_sym: "eq_ignore_ascii_case s t \<longleftrightarrow> eq_ignore_ascii_case t s"
  by (auto simp: eq_ignore_ascii_case_def)

text \<open>
  The UTF-8 encodings of the code points with Unicode's White_Space property, which is what
  \<^verbatim>\<open>str::trim\<close> removes.
\<close>

definition white_space :: "string list" where
  "white_space =
     map (map char_of)
       ([[9], [10], [11], [12], [13], [32], [194, 133], [194, 160], [225, 154, 128]]
        @ map (\<lambda>b. [226, 128, b]) [128, 129, 130, 131, 132, 133, 134, 135, 136, 137, 138, 168, 169, 175]
        @ [[226, 129, 159], [227, 128, 128 :: nat]])"

text \<open>Drops one white-space character from the front; \<^const>\<open>None\<close> when there is none.\<close>

definition strip_white :: "string \<Rightarrow> string option" where
  "strip_white s = map_option (\<lambda>w. drop (length w) s) (find (\<lambda>w. prefix w s) white_space)"

lemma white_space_nonempty: "w \<in> set white_space \<Longrightarrow> w \<noteq> []"
  by (auto simp: white_space_def)

lemma strip_white_shorter: "strip_white s = Some t \<Longrightarrow> length t < length s"
proof -
  assume "strip_white s = Some t"
  then obtain w where w: "find (\<lambda>w. prefix w s) white_space = Some w" and t: "t = drop (length w) s"
    by (auto simp: strip_white_def)
  from w have "prefix w s" and "w \<in> set white_space"
    by (auto simp: find_Some_iff)
  then have "w \<noteq> []" and "length w \<le> length s"
    by (auto dest: white_space_nonempty prefix_length_le)
  with t show ?thesis by (cases w) auto
qed

text \<open>\<^verbatim>\<open>str::trim_start\<close>, and the test \<^verbatim>\<open>s.trim().is_empty()\<close> that the validations use.\<close>

function trim_start :: "string \<Rightarrow> string" where
  "trim_start s = (case strip_white s of None \<Rightarrow> s | Some t \<Rightarrow> trim_start t)"
  by pat_completeness auto
termination
  by (relation "measure length") (auto dest: strip_white_shorter)

declare trim_start.simps [simp del]

definition blank :: "string \<Rightarrow> bool" where
  "blank s \<longleftrightarrow> trim_start s = []"

lemma blank_Nil [simp]: "blank []"
proof -
  have "strip_white [] = None"
    by (auto simp: strip_white_def find_None_iff dest: white_space_nonempty)
  then show ?thesis by (simp add: blank_def trim_start.simps)
qed

text \<open>\<^verbatim>\<open>str::trim\<close>.\<close>

definition strip_white_end :: "string \<Rightarrow> string option" where
  "strip_white_end s =
     map_option (\<lambda>w. take (length s - length w) s) (find (\<lambda>w. suffix w s) white_space)"

lemma strip_white_end_shorter: "strip_white_end s = Some t \<Longrightarrow> length t < length s"
proof -
  assume "strip_white_end s = Some t"
  then obtain w where w: "find (\<lambda>w. suffix w s) white_space = Some w"
    and t: "t = take (length s - length w) s"
    by (auto simp: strip_white_end_def)
  from w have "suffix w s" and "w \<in> set white_space"
    by (auto simp: find_Some_iff)
  then have "w \<noteq> []" and "length w \<le> length s"
    by (auto dest: white_space_nonempty suffix_length_le)
  with t show ?thesis by (cases w) auto
qed

function trim_end :: "string \<Rightarrow> string" where
  "trim_end s = (case strip_white_end s of None \<Rightarrow> s | Some t \<Rightarrow> trim_end t)"
  by pat_completeness auto
termination
  by (relation "measure length") (auto dest: strip_white_end_shorter)

declare trim_end.simps [simp del]

definition trim :: "string \<Rightarrow> string" where
  "trim s = trim_end (trim_start s)"

text \<open>\<^verbatim>\<open>str::split\<close> on one character.\<close>

fun split_on :: "char \<Rightarrow> string \<Rightarrow> string list" where
  "split_on c [] = [[]]"
| "split_on c (x # xs) =
     (if x = c then [] # split_on c xs
      else case split_on c xs of [] \<Rightarrow> [[x]] | w # ws \<Rightarrow> (x # w) # ws)"

text \<open>\<^verbatim>\<open>str::replace\<close> of a two-character pattern by one character.\<close>

fun replace2 :: "char \<Rightarrow> char \<Rightarrow> char \<Rightarrow> string \<Rightarrow> string" where
  "replace2 a b r (x # y # s) = (if x = a \<and> y = b then r # replace2 a b r s else x # replace2 a b r (y # s))"
| "replace2 a b r s = s"

section \<open>Lists and options\<close>

text \<open>\<^verbatim>\<open>slice::starts_with\<close> is \<^const>\<open>prefix\<close>; \<^verbatim>\<open>position\<close> followed by \<^verbatim>\<open>remove\<close> is \<^const>\<open>remove1\<close>.\<close>

lemma find_SomeD: "find P xs = Some x \<Longrightarrow> x \<in> set xs \<and> P x"
  by (auto simp: find_Some_iff)

lemma distinct_map_ConsD: "distinct (map f (d # cs)) \<Longrightarrow> c \<in> set cs \<Longrightarrow> f c \<noteq> f d"
  by (force simp: image_iff)

lemma map_of_filter_fst [simp]:
  "map_of (filter (\<lambda>(k, v). P k) m) k = (if P k then map_of m k else None)"
  by (induction m) auto

lemma in_set_map_fst_iff: "k \<in> set (map fst m) \<longleftrightarrow> map_of m k \<noteq> None"
  by (induction m) auto

section \<open>Numbers as text\<close>

text \<open>A number as \<^verbatim>\<open>{}\<close> prints it.\<close>

fun decimal :: "nat \<Rightarrow> string" where
  "decimal n = (if n < 10 then [char_of (48 + n)] else decimal (n div 10) @ [char_of (48 + n mod 10)])"

declare decimal.simps [simp del]

text \<open>\<^verbatim>\<open>Iterator::find_map\<close>.\<close>

fun find_map :: "('a \<Rightarrow> 'b option) \<Rightarrow> 'a list \<Rightarrow> 'b option" where
  "find_map f [] = None"
| "find_map f (x # xs) = (case f x of Some y \<Rightarrow> Some y | None \<Rightarrow> find_map f xs)"

lemma find_map_Some:
  "find_map f xs = Some y \<Longrightarrow> \<exists>x \<in> set xs. f x = Some y"
  by (induction xs) (auto split: option.splits)

lemma find_map_None: "find_map f xs = None \<longleftrightarrow> (\<forall>x \<in> set xs. f x = None)"
  by (induction xs) (auto split: option.splits)

end
