(* ===== verification/Utf8.thy ===== *)
theory Utf8
  imports Prelude
begin

text \<open>
  The parts of Rust's UTF-8 handling that the sources use: \<^verbatim>\<open>str::is_char_boundary\<close>,
  \<^verbatim>\<open>String::from_utf8_lossy\<close> and the validity that \<^verbatim>\<open>std::str::from_utf8\<close> checks.
\<close>

section \<open>Decoding one character\<close>

abbreviation byte_of :: "char \<Rightarrow> nat" where
  "byte_of c \<equiv> of_char c"

definition continuation_byte :: "char \<Rightarrow> bool" where
  "continuation_byte c \<longleftrightarrow> 0x80 \<le> byte_of c \<and> byte_of c \<le> 0xBF"

text \<open>
  The length of the sequence that a leading byte opens, and the range of its second byte;
  \<^const>\<open>None\<close> for a byte that opens none.
\<close>

definition sequence_shape :: "char \<Rightarrow> (nat \<times> nat \<times> nat) option" where
  "sequence_shape c =
     (let b = byte_of c
      in if b < 0x80 then Some (1, 0, 0)
         else if 0xC2 \<le> b \<and> b \<le> 0xDF then Some (2, 0x80, 0xBF)
         else if b = 0xE0 then Some (3, 0xA0, 0xBF)
         else if b = 0xED then Some (3, 0x80, 0x9F)
         else if 0xE1 \<le> b \<and> b \<le> 0xEF then Some (3, 0x80, 0xBF)
         else if b = 0xF0 then Some (4, 0x90, 0xBF)
         else if 0xF1 \<le> b \<and> b \<le> 0xF3 then Some (4, 0x80, 0xBF)
         else if b = 0xF4 then Some (4, 0x80, 0x8F)
         else None)"

text \<open>
  The next unit of a byte string: whether it is a valid character, and its length; an invalid
  unit is the longest start of a sequence that is there, at least one byte.
\<close>

definition utf8_unit :: "char \<Rightarrow> bytes \<Rightarrow> bool \<times> nat" where
  "utf8_unit c rest =
     (case sequence_shape c of
        None \<Rightarrow> (False, 1)
      | Some (n, lo, hi) \<Rightarrow>
          if n = 1 then (True, 1)
          else
            (case rest of
               [] \<Rightarrow> (False, 1)
             | d # rest' \<Rightarrow>
                 if \<not> (lo \<le> byte_of d \<and> byte_of d \<le> hi) then (False, 1)
                 else
                   (let more = takeWhile continuation_byte (take (n - 2) rest')
                    in (length more = n - 2, 2 + length more))))"

lemma utf8_unit_positive: "utf8_unit c rest = (v, n) \<Longrightarrow> 0 < n"
  by (auto simp: utf8_unit_def Let_def split: option.splits list.splits if_splits)

definition replacement_character :: bytes where
  "replacement_character = map char_of [0xEF, 0xBF, 0xBD :: nat]"

function from_utf8_lossy :: "bytes \<Rightarrow> string" where
  "from_utf8_lossy [] = []"
| "from_utf8_lossy (c # rest) =
     (case utf8_unit c rest of
        (valid, n) \<Rightarrow>
          (if valid then take n (c # rest) else replacement_character)
          @ from_utf8_lossy (drop n (c # rest)))"
  by pat_completeness auto
termination
  by (relation "measure length") (auto dest!: utf8_unit_positive [OF sym])

function valid_utf8 :: "bytes \<Rightarrow> bool" where
  "valid_utf8 [] = True"
| "valid_utf8 (c # rest) =
     (case utf8_unit c rest of (valid, n) \<Rightarrow> valid \<and> valid_utf8 (drop n (c # rest)))"
  by pat_completeness auto
termination
  by (relation "measure length") (auto dest!: utf8_unit_positive [OF sym])

declare from_utf8_lossy.simps(2) [simp del] valid_utf8.simps(2) [simp del]

lemma from_utf8_lossy_valid: "valid_utf8 s \<Longrightarrow> from_utf8_lossy s = s"
proof (induction s rule: from_utf8_lossy.induct)
  case (2 c rest)
  obtain v n where u: "utf8_unit c rest = (v, n)" by force
  with 2 show ?case
    by (simp add: from_utf8_lossy.simps(2) valid_utf8.simps(2))
qed simp

section \<open>Character boundaries\<close>

text \<open>\<^verbatim>\<open>str::is_char_boundary\<close>: the ends, and every byte that is not a continuation byte.\<close>

definition is_char_boundary :: "string \<Rightarrow> nat \<Rightarrow> bool" where
  "is_char_boundary s i \<longleftrightarrow>
     i = 0 \<or> i = length s \<or> (i < length s \<and> \<not> continuation_byte (s ! i))"

lemma is_char_boundary_0 [simp]: "is_char_boundary s 0"
  by (simp add: is_char_boundary_def)

lemma sequence_shape_lead:
  "sequence_shape c = Some (n, lo, hi) \<Longrightarrow>
   \<not> continuation_byte c \<and> 1 \<le> n \<and> n \<le> 4 \<and> (n \<noteq> 1 \<longrightarrow> 0x80 \<le> lo \<and> hi \<le> 0xBF)"
  by (auto simp: sequence_shape_def continuation_byte_def Let_def split: if_splits)

text \<open>A valid unit is a leading byte followed by continuation bytes.\<close>

lemma utf8_unit_valid:
  assumes "utf8_unit c rest = (True, n)"
  shows "\<not> continuation_byte c \<and> n \<le> Suc (length rest)
    \<and> (\<forall>i. 0 < i \<longrightarrow> i < n \<longrightarrow> continuation_byte ((c # rest) ! i))"
proof -
  obtain m lo hi where sh: "sequence_shape c = Some (m, lo, hi)"
    using assms by (auto simp: utf8_unit_def split: option.splits)
  note lead = sequence_shape_lead [OF sh]
  show ?thesis
  proof (cases "m = 1")
    case True
    with assms sh lead show ?thesis by (auto simp: utf8_unit_def)
  next
    case False
    with assms sh obtain d rest' where rest: "rest = d # rest'"
      and d: "lo \<le> byte_of d" "byte_of d \<le> hi"
      and more: "length (takeWhile continuation_byte (take (m - 2) rest')) = m - 2"
      and n: "n = 2 + (m - 2)"
      by (auto simp: utf8_unit_def Let_def split: list.splits if_splits)
    have dc: "continuation_byte d" using d lead False by (auto simp: continuation_byte_def)
    have tk: "takeWhile continuation_byte (take (m - 2) rest') = take (m - 2) rest'" and len: "m - 2 \<le> length rest'"
    proof -
      have "m - 2 \<le> length (take (m - 2) rest')"
        using more length_takeWhile_le [of continuation_byte "take (m - 2) rest'"] by simp
      then show "m - 2 \<le> length rest'" by simp
      then show "takeWhile continuation_byte (take (m - 2) rest') = take (m - 2) rest'"
        using more by (metis length_take min.absorb2 takeWhile_eq_take take_all order_refl)
    qed
    have "continuation_byte (rest' ! j)" if "j < m - 2" for j
    proof -
      have "rest' ! j \<in> set (take (m - 2) rest')"
        using that len by (auto simp: in_set_conv_nth intro!: exI [of _ j])
      with tk show ?thesis by (metis set_takeWhileD)
    qed
    then have "continuation_byte ((c # rest) ! i)" if "0 < i" "i < n" for i
      using that n dc rest by (cases i; cases "i - 1") auto
    with lead n len rest show ?thesis by auto
  qed
qed

text \<open>Cutting a valid string at a character boundary leaves a valid string.\<close>

lemma utf8_unit_take:
  assumes "utf8_unit c rest = (True, n)" and "n \<le> Suc k"
  shows "utf8_unit c (take k rest) = (True, n)"
  using assms
  by (cases rest) (auto simp: utf8_unit_def Let_def take_Cons' min_def split: option.splits list.splits if_splits)

lemma valid_utf8_take:
  "valid_utf8 s \<Longrightarrow> is_char_boundary s i \<Longrightarrow> i \<le> length s \<Longrightarrow> valid_utf8 (take i s)"
proof (induction s arbitrary: i rule: valid_utf8.induct)
  case (2 c rest)
  obtain n where u: "utf8_unit c rest = (True, n)" and v: "valid_utf8 (drop n (c # rest))"
    using 2(2) by (auto simp: valid_utf8.simps(2))
  note facts = utf8_unit_valid [OF u] utf8_unit_positive [OF u]
  show ?case
  proof (cases "i = 0")
    case False
    have ni: "n \<le> i"
    proof (rule ccontr)
      assume "\<not> n \<le> i"
      with False facts have "continuation_byte ((c # rest) ! i)" by simp
      with 2(3) False \<open>\<not> n \<le> i\<close> facts show False
        by (auto simp: is_char_boundary_def)
    qed
    have "is_char_boundary (drop n (c # rest)) (i - n)"
      using 2(3,4) ni facts by (auto simp: is_char_boundary_def)
    with 2(1) [OF u [symmetric]] u v 2(4) ni have "valid_utf8 (take (i - n) (drop n (c # rest)))"
      by auto
    moreover have "utf8_unit c (take (i - 1) rest) = (True, n)"
      using u ni False by (intro utf8_unit_take) auto
    moreover have "take i (c # rest) = c # take (i - 1) rest"
      using False by (cases i) auto
    moreover have "drop n (take i (c # rest)) = take (i - n) (drop n (c # rest))"
      by (simp add: drop_take)
    ultimately show ?thesis
      by (simp add: valid_utf8.simps(2))
  qed simp
qed simp

end
