(* ===== verification/Rust_Numbers.thy ===== *)
theory Rust_Numbers
  imports Utf8
begin

text \<open>
  The parts of Rust's numbers that the usage crate computes with: signed 64-bit integers as
  \<^typ>\<open>int\<close> with the bounds written out, double-precision numbers by their value with
  the rounding of every operation, and the text forms that \<^verbatim>\<open>str::parse\<close> reads.
\<close>

section \<open>Signed 64-bit integers\<close>

definition i64_min :: int where
  "i64_min = - 9223372036854775808"

definition i64_max :: int where
  "i64_max = 9223372036854775807"

definition in_i64 :: "int \<Rightarrow> bool" where
  "in_i64 x \<longleftrightarrow> i64_min \<le> x \<and> x \<le> i64_max"

definition saturating_add :: "int \<Rightarrow> int \<Rightarrow> int" where
  "saturating_add a b = max i64_min (min i64_max (a + b))"

text \<open>\<^verbatim>\<open>checked_mul\<close> and \<^verbatim>\<open>checked_add\<close>: the exact result when it has the type.\<close>

definition checked_i64 :: "int \<Rightarrow> int option" where
  "checked_i64 x = (if in_i64 x then Some x else None)"

lemma saturating_add_exact: "in_i64 (a + b) \<Longrightarrow> saturating_add a b = a + b"
  by (auto simp: saturating_add_def in_i64_def)

lemma saturating_add_in_i64 [simp]: "in_i64 (saturating_add a b)"
  by (auto simp: saturating_add_def in_i64_def i64_min_def i64_max_def)

lemma in_i64_between: "in_i64 b \<Longrightarrow> 0 \<le> a \<Longrightarrow> a \<le> b \<Longrightarrow> in_i64 a"
  by (auto simp: in_i64_def i64_min_def)

text \<open>\<^verbatim>\<open>u64::try_from(value).unwrap_or_default()\<close> on a signed value.\<close>

definition unsigned_or_0 :: "int \<Rightarrow> nat" where
  "unsigned_or_0 v = nat v"

section \<open>Integers from text\<close>

fun digits_int :: "int \<Rightarrow> string \<Rightarrow> int" where
  "digits_int acc [] = acc"
| "digits_int acc (c # cs) = digits_int (10 * acc + (of_char c - 48)) cs"

definition all_digits :: "string \<Rightarrow> bool" where
  "all_digits s \<longleftrightarrow> list_all is_ascii_digit s"

definition unsigned_digits :: "string \<Rightarrow> int option" where
  "unsigned_digits s = (if s \<noteq> [] \<and> all_digits s then Some (digits_int 0 s) else None)"

text \<open>A sign, if there is one, and what follows.\<close>

fun take_sign :: "string \<Rightarrow> bool \<times> string" where
  "take_sign (c # s) = (if c = CHR ''-'' then (True, s) else if c = CHR ''+'' then (False, s) else (False, c # s))"
| "take_sign [] = (False, [])"

definition parse_i64 :: "string \<Rightarrow> int option" where
  "parse_i64 s =
     (case take_sign s of
        (negative, ds) \<Rightarrow>
          (case unsigned_digits ds of
             None \<Rightarrow> None
           | Some n \<Rightarrow> checked_i64 (if negative then - n else n)))"

lemma digit_value_range:
  assumes "is_ascii_digit c"
  shows "48 \<le> (of_char c :: int)" and "(of_char c :: int) \<le> 57"
proof -
  have "(48 :: nat) \<le> of_char c" and "of_char c \<le> (57 :: nat)"
    using assms by (simp_all only: is_ascii_digit_def)
  then have "int 48 \<le> int (of_char c)" and "int (of_char c) \<le> int 57"
    by (simp_all only: of_nat_le_iff)
  then show "48 \<le> (of_char c :: int)" and "(of_char c :: int) \<le> 57"
    by (simp_all only: of_nat_of_char of_nat_numeral)
qed

lemma digits_int_nonneg: "0 \<le> acc \<Longrightarrow> all_digits s \<Longrightarrow> 0 \<le> digits_int acc s"
proof (induction s arbitrary: acc)
  case (Cons c s)
  then have "is_ascii_digit c" and "all_digits s"
    by (simp_all add: all_digits_def)
  moreover have "0 \<le> 10 * acc + (of_char c - 48)"
    using digit_value_range(1) [OF \<open>is_ascii_digit c\<close>] Cons.prems(1) by linarith
  ultimately show ?case
    using Cons.IH by simp
qed simp

lemma digits_int_append: "digits_int acc (s @ t) = digits_int (digits_int acc s) t"
  by (induction s arbitrary: acc) auto

lemma parse_i64_range: "parse_i64 s = Some n \<Longrightarrow> in_i64 n"
  by (auto simp: parse_i64_def checked_i64_def split: outcome_splits)

section \<open>Double-precision numbers\<close>

text \<open>
  A double by its value. The sign of a zero and the payload of a NaN are not observed by the
  computations here; where the bits are (in a digest), the number is its \<^typ>\<open>64 word\<close>.
\<close>

datatype f64 = NaN | Infinite bool | Finite rat

function bit_length :: "int \<Rightarrow> int" where
  "bit_length n = (if n \<le> 0 then 0 else 1 + bit_length (n div 2))"
  by pat_completeness auto
termination
  by (relation "measure nat") auto

declare bit_length.simps [simp del]

definition pow2 :: "int \<Rightarrow> rat" where
  "pow2 e = (if 0 \<le> e then 2 ^ nat e else 1 / 2 ^ nat (- e))"

definition round_half_even :: "rat \<Rightarrow> int" where
  "round_half_even x =
     (let f = \<lfloor>x\<rfloor>; d = x - of_int f
      in if d < 1 / 2 then f else if d > 1 / 2 then f + 1 else if even f then f else f + 1)"

text \<open>
  The double nearest to an exact value: 53 significant bits, no bit below \<^verbatim>\<open>2^-1074\<close>, ties to
  the even significand, and an infinity from \<^verbatim>\<open>2^1024\<close> on.
\<close>

definition f64_nearest :: "rat \<Rightarrow> f64" where
  "f64_nearest r =
     (if r = 0 then Finite 0
      else
        (let a = \<bar>r\<bar>;
             e0 = (case quotient_of a of (p, q) \<Rightarrow> bit_length p - bit_length q);
             e = (if pow2 e0 \<le> a then e0 else e0 - 1);
             u = max (e - 52) (- 1074);
             v = of_int (round_half_even (a / pow2 u)) * pow2 u
         in if pow2 1024 \<le> v then Infinite (r < 0) else Finite (if r < 0 then - v else v)))"

text \<open>The number that 64 bits encode.\<close>

definition f64_from_bits :: "64 word \<Rightarrow> f64" where
  "f64_from_bits w =
     (let b = uint w;
          negative = 2 ^ 63 \<le> b;
          e = b div 2 ^ 52 mod 2 ^ 11;
          m = b mod 2 ^ 52;
          v = (if e = 0 then of_int m * pow2 (- 1074) else of_int (2 ^ 52 + m) * pow2 (e - 1075))
      in if e = 2047 then (if m = 0 then Infinite negative else NaN)
         else Finite (if negative then - v else v))"

fun f64_times :: "f64 \<Rightarrow> rat \<Rightarrow> f64" where
  "f64_times (Finite x) y = f64_nearest (x * y)"
| "f64_times (Infinite negative) y =
     (if y = 0 then NaN else Infinite (negative \<noteq> (y < 0)))"
| "f64_times NaN y = NaN"

text \<open>\<^verbatim>\<open>f64::round\<close>: to the nearest integer, ties away from zero.\<close>

definition round_half_away :: "rat \<Rightarrow> int" where
  "round_half_away x = (if 0 \<le> x then \<lfloor>x + 1 / 2\<rfloor> else - \<lfloor>- x + 1 / 2\<rfloor>)"

fun f64_round :: "f64 \<Rightarrow> f64" where
  "f64_round (Finite x) = Finite (of_int (round_half_away x))"
| "f64_round v = v"

section \<open>Doubles from text\<close>

definition exponent_of :: "string \<Rightarrow> int option" where
  "exponent_of s =
     (case s of
        [] \<Rightarrow> Some 0
      | c # t \<Rightarrow>
          if c \<in> {CHR ''e'', CHR ''E''}
          then (case take_sign t of
                  (negative, ds) \<Rightarrow> map_option (\<lambda>n. if negative then - n else n) (unsigned_digits ds))
          else None)"

definition pow10 :: "int \<Rightarrow> rat" where
  "pow10 e = (if 0 \<le> e then 10 ^ nat e else 1 / 10 ^ nat (- e))"

text \<open>Digits with at most one point among them, then an optional exponent: the exact value.\<close>

definition decimal_value :: "string \<Rightarrow> rat option" where
  "decimal_value s =
     (let whole = takeWhile is_ascii_digit s;
          after = dropWhile is_ascii_digit s;
          fraction = (case after of c # t \<Rightarrow> if c = CHR ''.'' then takeWhile is_ascii_digit t else [] | [] \<Rightarrow> []);
          rest = (case after of c # t \<Rightarrow> if c = CHR ''.'' then dropWhile is_ascii_digit t else after | [] \<Rightarrow> [])
      in if whole = [] \<and> fraction = [] then None
         else map_option
                (\<lambda>e. of_int (digits_int 0 (whole @ fraction)) * pow10 (e - int (length fraction)))
                (exponent_of rest))"

definition parse_f64 :: "string \<Rightarrow> f64 option" where
  "parse_f64 s =
     (case take_sign s of
        (negative, t) \<Rightarrow>
          if map to_ascii_lower t \<in> {''inf'', ''infinity''} then Some (Infinite negative)
          else if map to_ascii_lower t = ''nan'' then Some NaN
          else map_option (\<lambda>v. f64_nearest (if negative then - v else v)) (decimal_value t))"

end
