(* ===== verification/Ordered_Map.thy ===== *)
theory Ordered_Map
  imports Prelude
begin

text \<open>
  \<^verbatim>\<open>BTreeMap<K, V>\<close> as the sources use it: the entries in ascending key order, so that iteration
  visits the keys in order and the derived equality of two maps is the equality of their entry
  lists. The interface the clients rely on is the locale \<open>btree_map\<close>; the sorted association
  list below provides it.
\<close>

section \<open>The interface\<close>

locale btree_map =
  fixes empty :: "'m"
    and get :: "'m \<Rightarrow> 'k::linorder \<Rightarrow> 'v option"
    and insert :: "'k \<Rightarrow> 'v \<Rightarrow> 'm \<Rightarrow> 'm"
    and remove :: "'k \<Rightarrow> 'm \<Rightarrow> 'm"
    and keys :: "'m \<Rightarrow> 'k list"
    and valid :: "'m \<Rightarrow> bool"
  assumes get_empty: "get empty k = None"
    and get_insert: "get (insert k v m) = (get m)(k \<mapsto> v)"
    and get_remove: "get (remove k m) = (get m)(k := None)"
    and keys_get: "k \<in> set (keys m) \<longleftrightarrow> get m k \<noteq> None"
    and keys_sorted: "valid m \<Longrightarrow> sorted_wrt (<) (keys m)"
    and valid_empty: "valid empty"
    and valid_insert: "valid m \<Longrightarrow> valid (insert k v m)"
    and valid_remove: "valid m \<Longrightarrow> valid (remove k m)"
    and ext_eq: "valid m \<Longrightarrow> valid n \<Longrightarrow> get m = get n \<Longrightarrow> m = n"
begin

lemma insert_same: "valid m \<Longrightarrow> get m k = Some v \<Longrightarrow> insert k v m = m"
  by (rule ext_eq) (auto simp: get_insert valid_insert)

lemma remove_absent: "valid m \<Longrightarrow> get m k = None \<Longrightarrow> remove k m = m"
  by (rule ext_eq) (auto simp: get_remove valid_remove fun_upd_idem_iff)

lemma remove_insert: "valid m \<Longrightarrow> get m k = None \<Longrightarrow> remove k (insert k v m) = m"
  by (rule ext_eq) (auto simp: get_remove get_insert valid_remove valid_insert fun_upd_idem_iff)

lemma insert_insert: "valid m \<Longrightarrow> insert k w (insert k v m) = insert k w m"
  by (rule ext_eq) (auto simp: get_insert valid_insert)

lemma keys_cong: "valid m \<Longrightarrow> valid n \<Longrightarrow> dom (get m) = dom (get n) \<Longrightarrow> keys m = keys n"
proof -
  assume m: "valid m" and n: "valid n" and d: "dom (get m) = dom (get n)"
  have "set (keys x) = dom (get x)" for x
    by (auto simp: keys_get)
  with d have "set (keys m) = set (keys n)" by simp
  with keys_sorted [OF m] keys_sorted [OF n] show ?thesis
    by (meson sorted_distinct_set_unique strict_sorted_iff)
qed

end

section \<open>Sorted association lists\<close>

abbreviation om_get :: "('k \<times> 'v) list \<Rightarrow> 'k \<Rightarrow> 'v option" where
  "om_get \<equiv> map_of"

fun om_insert :: "'k::linorder \<Rightarrow> 'v \<Rightarrow> ('k \<times> 'v) list \<Rightarrow> ('k \<times> 'v) list" where
  "om_insert k v [] = [(k, v)]"
| "om_insert k v ((k', v') # m) =
     (if k < k' then (k, v) # (k', v') # m
      else if k = k' then (k, v) # m
      else (k', v') # om_insert k v m)"

definition om_remove :: "'k \<Rightarrow> ('k \<times> 'v) list \<Rightarrow> ('k \<times> 'v) list" where
  "om_remove k m = filter (\<lambda>(k', v). k' \<noteq> k) m"

definition om_keys :: "('k \<times> 'v) list \<Rightarrow> 'k list" where
  "om_keys m = map fst m"

definition om_wf :: "('k::linorder \<times> 'v) list \<Rightarrow> bool" where
  "om_wf m \<longleftrightarrow> sorted_wrt (<) (map fst m)"

lemma om_get_insert [simp]: "om_get (om_insert k v m) = (om_get m)(k \<mapsto> v)"
  by (induction k v m rule: om_insert.induct) (auto simp: fun_eq_iff)

lemma om_get_remove [simp]: "om_get (om_remove k m) = (om_get m)(k := None)"
  by (rule ext) (auto simp: om_remove_def)

lemma om_keys_get: "k \<in> set (om_keys m) \<longleftrightarrow> om_get m k \<noteq> None"
  by (simp only: om_keys_def in_set_map_fst_iff)

lemma om_wf_Nil [simp]: "om_wf []"
  by (simp add: om_wf_def)

lemma om_wf_Cons: "om_wf ((k, v) # m) \<longleftrightarrow> (\<forall>k' \<in> fst ` set m. k < k') \<and> om_wf m"
  by (simp add: om_wf_def)

lemma set_om_insert: "set (om_insert k v m) \<subseteq> insert (k, v) (set m)"
  by (induction k v m rule: om_insert.induct) auto

lemma set_om_remove: "set (om_remove k m) \<subseteq> set m"
  by (auto simp: om_remove_def)

lemma om_wf_insert [simp]: "om_wf m \<Longrightarrow> om_wf (om_insert k v m)"
proof (induction k v m rule: om_insert.induct)
  case (2 k v k' v' m)
  have "\<forall>k'' \<in> fst ` set (om_insert k v m). k' < k''" if "k' < k"
    using that 2(2) set_om_insert [of k v m] by (auto simp: om_wf_Cons)
  with 2 show ?case by (auto simp: om_wf_Cons not_less le_less)
qed (simp add: om_wf_Cons)

lemma om_wf_remove [simp]: "om_wf m \<Longrightarrow> om_wf (om_remove k m)"
  by (induction m) (auto simp: om_wf_Cons om_remove_def)

lemma om_wf_distinct: "om_wf m \<Longrightarrow> distinct (map fst m)"
  by (simp add: om_wf_def strict_sorted_iff)

lemma om_ext: "om_wf m \<Longrightarrow> om_wf n \<Longrightarrow> om_get m = om_get n \<Longrightarrow> m = n"
proof -
  assume m: "om_wf m" and n: "om_wf n" and e: "om_get m = om_get n"
  have "set m = set n"
    using m n e by (metis map_of_inject_set om_wf_distinct)
  moreover have "inj_on fst (set m)" "distinct m" "distinct n"
    using m n by (auto dest!: om_wf_distinct simp: distinct_map)
  ultimately show ?thesis
    using m n by (auto simp: om_wf_def strict_sorted_iff intro: map_sorted_distinct_set_unique)
qed

lemma om_keys_sorted: "om_wf m \<Longrightarrow> sorted_wrt (<) (om_keys m)"
  by (simp add: om_wf_def om_keys_def)

interpretation om: btree_map "[]" om_get om_insert om_remove om_keys om_wf
  by unfold_locales (auto simp: om_keys_get om_keys_sorted intro: om_ext)

lemma om_get_in_set: "om_wf m \<Longrightarrow> (k, v) \<in> set m \<longleftrightarrow> om_get m k = Some v"
  by (auto simp: om_wf_distinct)

end
