(* ===== verification/Usage.thy ===== *)
theory Usage
  imports Rust_Numbers Ordered_Map
begin

text \<open>
  The vocabulary of the usage crate (\<^verbatim>\<open>crates/usage/src/lib.rs\<close>): rollup keys, the additive
  measures, totals, dimensions and filters, and the reporting windows with their buckets. Unix
  times, offsets and counters are \<^verbatim>\<open>i64\<close>; counters saturate, and times stay so far from the
  bounds of the type that they are plain integers here.
\<close>

section \<open>Constants\<close>

definition HOUR :: int where
  "HOUR = 60 * 60"

definition DAY :: int where
  "DAY = 24 * HOUR"

definition HOURLY_RETENTION :: int where
  "HOURLY_RETENTION = 90 * DAY"

definition DAILY_RETENTION :: int where
  "DAILY_RETENTION = 395 * DAY"

definition RECEIPT_RETENTION :: int where
  "RECEIPT_RETENTION = 7 * DAY"

definition MAX_UTC_OFFSET_MINUTES :: int where
  "MAX_UTC_OFFSET_MINUTES = 14 * 60"

lemmas usage_seconds = HOUR_def DAY_def HOURLY_RETENTION_def DAILY_RETENTION_def RECEIPT_RETENTION_def

section \<open>Rollup keys and measures\<close>

datatype billing = Api | Subscription

fun billing_as_str :: "billing \<Rightarrow> string" where
  "billing_as_str Api = ''api''"
| "billing_as_str Subscription = ''subscription''"

datatype rollup_key =
  RollupKey (rk_bucket_start: int) (rk_subject: string) (rk_device_id: string)
    (rk_client_id: string) (rk_provider: string) (rk_model: string) (rk_billing: billing)

text \<open>The derived orders: the declaration order of the variants, then the fields in turn.\<close>

definition billing_rank :: "billing \<Rightarrow> nat" where
  "billing_rank b = (case b of Api \<Rightarrow> 0 | Subscription \<Rightarrow> 1)"

definition key_fields ::
    "rollup_key \<Rightarrow> int \<times> string \<times> string \<times> string \<times> string \<times> string \<times> nat" where
  "key_fields k =
     (rk_bucket_start k, rk_subject k, rk_device_id k, rk_client_id k, rk_provider k, rk_model k,
      billing_rank (rk_billing k))"

lemma key_fields_inject [simp]: "key_fields a = key_fields b \<longleftrightarrow> a = b"
  by (cases a; cases b) (auto simp: key_fields_def billing_rank_def split: billing.splits)

instantiation rollup_key :: linorder
begin

definition less_eq_rollup_key :: "rollup_key \<Rightarrow> rollup_key \<Rightarrow> bool" where
  "less_eq_rollup_key a b \<longleftrightarrow> key_fields a \<le> key_fields b"

definition less_rollup_key :: "rollup_key \<Rightarrow> rollup_key \<Rightarrow> bool" where
  "less_rollup_key a b \<longleftrightarrow> key_fields a < key_fields b"

instance
proof
  fix a b :: rollup_key
  show "a < b \<longleftrightarrow> a \<le> b \<and> \<not> b \<le> a"
    by (simp only: less_eq_rollup_key_def less_rollup_key_def less_le_not_le)
  show "a \<le> b \<Longrightarrow> b \<le> a \<Longrightarrow> a = b"
    unfolding less_eq_rollup_key_def by (metis antisym key_fields_inject)
qed (auto simp: less_eq_rollup_key_def)

end

record measures =
  me_requests :: int
  me_errors :: int
  me_input_tokens :: int
  me_output_tokens :: int
  me_cache_read_tokens :: int
  me_cache_write_tokens :: int
  me_cost_nanos :: int
  me_unpriced_requests :: int

definition measures_default :: measures where
  "measures_default =
     \<lparr>me_requests = 0, me_errors = 0, me_input_tokens = 0, me_output_tokens = 0,
      me_cache_read_tokens = 0, me_cache_write_tokens = 0, me_cost_nanos = 0,
      me_unpriced_requests = 0\<rparr>"

definition measures_add :: "measures \<Rightarrow> measures \<Rightarrow> measures" where
  "measures_add m other =
     \<lparr>me_requests = saturating_add (me_requests m) (me_requests other),
      me_errors = saturating_add (me_errors m) (me_errors other),
      me_input_tokens = saturating_add (me_input_tokens m) (me_input_tokens other),
      me_output_tokens = saturating_add (me_output_tokens m) (me_output_tokens other),
      me_cache_read_tokens = saturating_add (me_cache_read_tokens m) (me_cache_read_tokens other),
      me_cache_write_tokens = saturating_add (me_cache_write_tokens m) (me_cache_write_tokens other),
      me_cost_nanos = saturating_add (me_cost_nanos m) (me_cost_nanos other),
      me_unpriced_requests = saturating_add (me_unpriced_requests m) (me_unpriced_requests other)\<rparr>"

record usage_record =
  ur_id :: string
  ur_key :: rollup_key
  ur_measures :: measures

section \<open>Totals\<close>

record totals =
  to_requests :: int
  to_errors :: int
  to_input_tokens :: int
  to_output_tokens :: int
  to_cache_read_tokens :: int
  to_cache_write_tokens :: int
  to_cost_nanos :: int
  to_subscription_cost_nanos :: int
  to_subscription_requests :: int
  to_unpriced_requests :: int

definition totals_default :: totals where
  "totals_default =
     \<lparr>to_requests = 0, to_errors = 0, to_input_tokens = 0, to_output_tokens = 0,
      to_cache_read_tokens = 0, to_cache_write_tokens = 0, to_cost_nanos = 0,
      to_subscription_cost_nanos = 0, to_subscription_requests = 0, to_unpriced_requests = 0\<rparr>"

definition totals_add :: "totals \<Rightarrow> totals \<Rightarrow> totals" where
  "totals_add t other =
     \<lparr>to_requests = saturating_add (to_requests t) (to_requests other),
      to_errors = saturating_add (to_errors t) (to_errors other),
      to_input_tokens = saturating_add (to_input_tokens t) (to_input_tokens other),
      to_output_tokens = saturating_add (to_output_tokens t) (to_output_tokens other),
      to_cache_read_tokens = saturating_add (to_cache_read_tokens t) (to_cache_read_tokens other),
      to_cache_write_tokens = saturating_add (to_cache_write_tokens t) (to_cache_write_tokens other),
      to_cost_nanos = saturating_add (to_cost_nanos t) (to_cost_nanos other),
      to_subscription_cost_nanos =
        saturating_add (to_subscription_cost_nanos t) (to_subscription_cost_nanos other),
      to_subscription_requests =
        saturating_add (to_subscription_requests t) (to_subscription_requests other),
      to_unpriced_requests = saturating_add (to_unpriced_requests t) (to_unpriced_requests other)\<rparr>"

definition rank :: "totals \<Rightarrow> int \<times> int \<times> int" where
  "rank t =
     (saturating_add (to_cost_nanos t) (to_subscription_cost_nanos t),
      saturating_add (to_input_tokens t) (to_output_tokens t),
      to_requests t)"

text \<open>\<^verbatim>\<open>nanos as f64 / 1e9\<close>: the conversion and the division each round.\<close>

fun f64_over :: "f64 \<Rightarrow> rat \<Rightarrow> f64" where
  "f64_over (Finite x) y = f64_nearest (x / y)"
| "f64_over v y = v"

definition dollars :: "int \<Rightarrow> f64" where
  "dollars nanos = f64_over (f64_nearest (of_int nanos)) 1000000000"

record model_usage_totals =
  mt_requests :: nat
  mt_errors :: nat
  mt_input_tokens :: nat
  mt_output_tokens :: nat
  mt_cache_read_tokens :: nat
  mt_cache_write_tokens :: nat
  mt_cost_usd :: f64
  mt_subscription_cost_usd :: f64
  mt_subscription_requests :: nat
  mt_unpriced_requests :: nat

definition to_model :: "totals \<Rightarrow> model_usage_totals" where
  "to_model t =
     \<lparr>mt_requests = unsigned_or_0 (to_requests t),
      mt_errors = unsigned_or_0 (to_errors t),
      mt_input_tokens = unsigned_or_0 (to_input_tokens t),
      mt_output_tokens = unsigned_or_0 (to_output_tokens t),
      mt_cache_read_tokens = unsigned_or_0 (to_cache_read_tokens t),
      mt_cache_write_tokens = unsigned_or_0 (to_cache_write_tokens t),
      mt_cost_usd = dollars (to_cost_nanos t),
      mt_subscription_cost_usd = dollars (to_subscription_cost_nanos t),
      mt_subscription_requests = unsigned_or_0 (to_subscription_requests t),
      mt_unpriced_requests = unsigned_or_0 (to_unpriced_requests t)\<rparr>"

record fleet_usage_totals =
  ft_requests :: nat
  ft_errors :: nat
  ft_input_tokens :: nat
  ft_output_tokens :: nat
  ft_cache_read_tokens :: nat
  ft_cache_write_tokens :: nat
  ft_cost_nanos :: int
  ft_subscription_cost_nanos :: int
  ft_subscription_requests :: nat
  ft_unpriced_requests :: nat

definition to_proto :: "totals \<Rightarrow> fleet_usage_totals" where
  "to_proto t =
     \<lparr>ft_requests = unsigned_or_0 (to_requests t),
      ft_errors = unsigned_or_0 (to_errors t),
      ft_input_tokens = unsigned_or_0 (to_input_tokens t),
      ft_output_tokens = unsigned_or_0 (to_output_tokens t),
      ft_cache_read_tokens = unsigned_or_0 (to_cache_read_tokens t),
      ft_cache_write_tokens = unsigned_or_0 (to_cache_write_tokens t),
      ft_cost_nanos = to_cost_nanos t,
      ft_subscription_cost_nanos = to_subscription_cost_nanos t,
      ft_subscription_requests = unsigned_or_0 (to_subscription_requests t),
      ft_unpriced_requests = unsigned_or_0 (to_unpriced_requests t)\<rparr>"

section \<open>Dimensions and filters\<close>

datatype dimension = User | Device | Tool | Provider | Model

definition dimension_parse :: "string \<Rightarrow> dimension option" where
  "dimension_parse name =
     (if name = ''user'' then Some User
      else if name = ''device'' then Some Device
      else if name = ''tool'' then Some Tool
      else if name = ''provider'' then Some Provider
      else if name = ''model'' then Some Model
      else None)"

fun dimension_name :: "dimension \<Rightarrow> string" where
  "dimension_name User = ''user''"
| "dimension_name Device = ''device''"
| "dimension_name Tool = ''tool''"
| "dimension_name Provider = ''provider''"
| "dimension_name Model = ''model''"

lemma dimension_parse_name: "dimension_parse name = Some d \<longleftrightarrow> name = dimension_name d"
  by (cases d) (auto simp: dimension_parse_def)

type_synonym usage_filter = "(dimension \<times> string) list"

definition filter_with :: "usage_filter \<Rightarrow> dimension \<Rightarrow> string \<Rightarrow> usage_filter" where
  "filter_with f d v = f @ [(d, v)]"

definition filter_without :: "usage_filter \<Rightarrow> dimension list \<Rightarrow> usage_filter" where
  "filter_without f ds = filter (\<lambda>(d, v). d \<notin> set ds) f"

section \<open>Windows\<close>

record window =
  wi_start :: int
  wi_end :: int
  wi_bucket_seconds :: int
  wi_utc_offset_seconds :: int

text \<open>\<^verbatim>\<open>div_euclid\<close> by a positive number is \<^term>\<open>(div)\<close> on integers.\<close>

definition local_day_start :: "int \<Rightarrow> int \<Rightarrow> int" where
  "local_day_start timestamp utc_offset_seconds =
     (timestamp + utc_offset_seconds) div DAY * DAY - utc_offset_seconds"

definition preset :: "string \<Rightarrow> int \<Rightarrow> int \<Rightarrow> window option" where
  "preset period now utc_offset_minutes =
     (if \<not> (- MAX_UTC_OFFSET_MINUTES \<le> utc_offset_minutes \<and> utc_offset_minutes \<le> MAX_UTC_OFFSET_MINUTES)
      then None
      else
        (let utc_offset_seconds = utc_offset_minutes * 60
         in case (if period = ''24h'' then Some (HOUR, 24)
                  else if period = ''7d'' then Some (DAY, 7)
                  else if period = ''30d'' then Some (DAY, 30)
                  else if period = ''90d'' then Some (DAY, 90)
                  else None) of
              None \<Rightarrow> None
            | Some (bucket_seconds, buckets) \<Rightarrow>
                (let e = (if bucket_seconds = HOUR then now div HOUR * HOUR + HOUR
                          else local_day_start now utc_offset_seconds + DAY)
                 in Some \<lparr>wi_start = e - buckets * bucket_seconds, wi_end = e,
                          wi_bucket_seconds = bucket_seconds,
                          wi_utc_offset_seconds = utc_offset_seconds\<rparr>)))"

definition window_previous :: "window \<Rightarrow> int \<Rightarrow> window" where
  "window_previous w now =
     (let start = wi_start w - (wi_end w - wi_start w);
          start = (if start < now - HOURLY_RETENTION then (start + DAY div 2) div DAY * DAY else start)
      in w\<lparr>wi_start := start, wi_end := wi_start w\<rparr>)"

text \<open>Division of an \<^verbatim>\<open>i64\<close> truncates; the conversion to \<^verbatim>\<open>usize\<close> drops a negative count.\<close>

definition bucket_count :: "window \<Rightarrow> nat" where
  "bucket_count w = nat ((wi_end w - wi_start w) div wi_bucket_seconds w)"

definition bucket_start :: "window \<Rightarrow> nat \<Rightarrow> int" where
  "bucket_start w index = wi_start w + int index * wi_bucket_seconds w"

definition bucket_index :: "window \<Rightarrow> int \<Rightarrow> nat option" where
  "bucket_index w rollup_start =
     (let start = (if wi_bucket_seconds w = DAY
                   then local_day_start rollup_start (wi_utc_offset_seconds w)
                   else rollup_start div HOUR * HOUR)
      in if start < wi_start w \<or> wi_end w \<le> start then None
         else Some (nat ((start - wi_start w) div wi_bucket_seconds w)))"

section \<open>Windows and their buckets\<close>

text \<open>A window whose buckets tile it: what \<^const>\<open>preset\<close> gives.\<close>

definition window_ok :: "window \<Rightarrow> bool" where
  "window_ok w \<longleftrightarrow>
     (wi_bucket_seconds w = HOUR \<and> wi_start w mod HOUR = 0
      \<or> wi_bucket_seconds w = DAY \<and> (wi_start w + wi_utc_offset_seconds w) mod DAY = 0)
     \<and> wi_start w < wi_end w \<and> (wi_end w - wi_start w) mod wi_bucket_seconds w = 0"

lemma floor_multiple: "(0 :: int) < d \<Longrightarrow> x div d * d \<le> x \<and> x < x div d * d + d"
  by (metis add_le_cancel_left div_mult_mod_eq le_add_same_cancel1 pos_mod_bound pos_mod_sign
      add_strict_left_mono)

lemma quotient_less_iff:
  assumes "(0 :: int) < d"
  shows "x div d < k \<longleftrightarrow> x < k * d"
proof
  assume "x div d < k"
  then have "(x div d + 1) * d \<le> k * d"
    using assms by (intro mult_right_mono) auto
  then show "x < k * d"
    using floor_multiple [OF assms, of x] by (simp add: distrib_right)
next
  assume "x < k * d"
  then have "x div d * d < k * d"
    using floor_multiple [OF assms, of x] by linarith
  then show "x div d < k"
    using assms by (simp add: mult_less_cancel_right)
qed

lemma preset_cases:
  assumes "preset period now minutes = Some w"
  obtains (hours) "w = \<lparr>wi_start = now div HOUR * HOUR + HOUR - 24 * HOUR,
      wi_end = now div HOUR * HOUR + HOUR, wi_bucket_seconds = HOUR,
      wi_utc_offset_seconds = minutes * 60\<rparr>"
  | (days) n where "n \<in> {7, 30, 90}"
      "w = \<lparr>wi_start = local_day_start now (minutes * 60) + DAY - n * DAY,
        wi_end = local_day_start now (minutes * 60) + DAY, wi_bucket_seconds = DAY,
        wi_utc_offset_seconds = minutes * 60\<rparr>"
proof -
  have "HOUR \<noteq> DAY" by (simp add: usage_seconds)
  with assms that(1) that(2) [of 7] that(2) [of 30] that(2) [of 90] show thesis
    by (auto simp: preset_def Let_def split: if_splits)
qed

lemma preset_ok:
  assumes "preset period now minutes = Some w"
  shows "window_ok w"
  using assms
proof (cases rule: preset_cases)
  case hours
  then show ?thesis
    by (simp add: window_ok_def usage_seconds)
next
  case (days n)
  then show ?thesis
    by (auto simp: window_ok_def local_day_start_def usage_seconds)
qed

lemma preset_holds_now:
  assumes "preset period now minutes = Some w"
  shows "wi_end w - wi_bucket_seconds w \<le> now \<and> now < wi_end w"
  using assms
proof (cases rule: preset_cases)
  case hours
  then show ?thesis
    using floor_multiple [of HOUR now] by (simp add: usage_seconds)
next
  case (days n)
  then show ?thesis
    using floor_multiple [of DAY "now + minutes * 60"] by (simp add: local_day_start_def usage_seconds)
qed

text \<open>The bucket of a time is found by plain division, and every time of the window has one.\<close>

lemma aligned_index:
  assumes "(0 :: int) < d" and "(s + c) mod d = 0"
  shows "((x + c) div d * d - c - s) div d = (x - s) div d"
    and "(x + c) div d * d - c < s \<longleftrightarrow> x < s"
proof -
  obtain k where k: "s + c = k * d"
    using assms(2) by (metis dvd_def dvd_eq_mod_eq_0 mult.commute)
  have x: "x - s = (x + c) + (- k) * d"
    using k by (simp add: algebra_simps)
  have q: "(x - s) div d = (x + c) div d - k"
    unfolding x using assms(1) by (subst div_mult_self1) auto
  have "(x + c) div d * d - c - s = ((x + c) div d - k) * d"
    using k by (simp add: algebra_simps)
  then show "((x + c) div d * d - c - s) div d = (x - s) div d"
    using assms(1) q by simp
  have "(x + c) div d * d - c < s \<longleftrightarrow> (x + c) div d < k"
    using k assms(1) by (metis diff_less_eq mult_less_cancel_right_pos)
  also have "\<dots> \<longleftrightarrow> x + c < k * d"
    using assms(1) by (simp add: quotient_less_iff)
  also have "\<dots> \<longleftrightarrow> x < s"
    using k by auto
  finally show "(x + c) div d * d - c < s \<longleftrightarrow> x < s" .
qed

lemma bucket_index_eq:
  assumes "window_ok w"
  shows "bucket_index w x =
    (if wi_start w \<le> x \<and> x < wi_end w then Some (nat ((x - wi_start w) div wi_bucket_seconds w)) else None)"
proof -
  define d where "d = wi_bucket_seconds w"
  define c where "c = (if d = DAY then wi_utc_offset_seconds w else 0)"
  have d: "0 < d" and s: "(wi_start w + c) mod d = 0"
    using assms by (auto simp: window_ok_def d_def c_def usage_seconds)
  have e: "(wi_end w + c) mod d = 0"
  proof -
    have "(wi_end w - wi_start w) mod d = 0"
      using assms by (simp add: window_ok_def d_def)
    then have "((wi_start w + c) + (wi_end w - wi_start w)) mod d = 0"
      using s by (metis add_0 mod_0 mod_add_eq)
    then show ?thesis by (simp add: algebra_simps)
  qed
  have start: "(if wi_bucket_seconds w = DAY then local_day_start x (wi_utc_offset_seconds w)
      else x div HOUR * HOUR) = (x + c) div d * d - c"
    using assms by (auto simp: window_ok_def d_def c_def local_day_start_def usage_seconds)
  show ?thesis
    unfolding bucket_index_def Let_def start
    using aligned_index [OF d s, of x] aligned_index [OF d e, of x]
    by (auto simp: d_def not_less)
qed

lemma bucket_index_bound:
  "window_ok w \<Longrightarrow> bucket_index w x = Some i \<Longrightarrow> i < bucket_count w"
proof -
  assume ok: "window_ok w" and i: "bucket_index w x = Some i"
  have d: "0 < wi_bucket_seconds w"
    using ok by (auto simp: window_ok_def usage_seconds)
  from ok i have x: "wi_start w \<le> x" "x < wi_end w"
    and i': "i = nat ((x - wi_start w) div wi_bucket_seconds w)"
    by (auto simp: bucket_index_eq split: if_splits)
  have "wi_end w - wi_start w = (wi_end w - wi_start w) div wi_bucket_seconds w * wi_bucket_seconds w"
    using ok by (auto simp: window_ok_def)
  then have "x - wi_start w < (wi_end w - wi_start w) div wi_bucket_seconds w * wi_bucket_seconds w"
    using x by linarith
  then have "(x - wi_start w) div wi_bucket_seconds w < (wi_end w - wi_start w) div wi_bucket_seconds w"
    using d by (simp add: quotient_less_iff)
  moreover have "0 \<le> (x - wi_start w) div wi_bucket_seconds w"
    using x d by (simp add: pos_imp_zdiv_nonneg_iff)
  ultimately show ?thesis
    by (simp add: i' bucket_count_def)
qed

lemma window_end: "window_ok w \<Longrightarrow> wi_end w = bucket_start w (bucket_count w) \<and> 0 < wi_bucket_seconds w"
  by (auto simp: window_ok_def bucket_start_def bucket_count_def usage_seconds)

lemma bucket_interval_inside:
  assumes ok: "window_ok w" and i: "i < bucket_count w"
    and x: "bucket_start w i \<le> x \<and> x < bucket_start w (Suc i)"
  shows "wi_start w \<le> x \<and> x < wi_end w"
proof -
  have d: "0 < wi_bucket_seconds w" using window_end [OF ok] by simp
  have "0 \<le> int i * wi_bucket_seconds w" using d by simp
  moreover have "int (Suc i) * wi_bucket_seconds w \<le> int (bucket_count w) * wi_bucket_seconds w"
    using i d by (intro mult_right_mono) auto
  ultimately show ?thesis
    using x window_end [OF ok] unfolding bucket_start_def by linarith
qed

lemma bucket_index_interval:
  assumes ok: "window_ok w" and i: "i < bucket_count w"
  shows "bucket_index w x = Some i \<longleftrightarrow> bucket_start w i \<le> x \<and> x < bucket_start w (Suc i)"
proof -
  let ?q = "(x - wi_start w) div wi_bucket_seconds w"
  have d: "0 < wi_bucket_seconds w" using window_end [OF ok] by simp
  have "?q < int i \<longleftrightarrow> x < bucket_start w i" and "?q < int (Suc i) \<longleftrightarrow> x < bucket_start w (Suc i)"
    by (auto simp: quotient_less_iff [OF d] bucket_start_def)
  then have q: "?q = int i \<longleftrightarrow> bucket_start w i \<le> x \<and> x < bucket_start w (Suc i)"
    by linarith
  have "0 \<le> ?q" if "wi_start w \<le> x"
    using that d by (simp add: pos_imp_zdiv_nonneg_iff)
  then show ?thesis
    using q bucket_interval_inside [OF ok i, of x] by (auto simp: bucket_index_eq [OF ok] nat_eq_iff)
qed

end
