(* ===== verification/Usage_Store.thy ===== *)
theory Usage_Store
  imports Usage "HOL-Library.AList"
begin

text \<open>
  The usage tables (\<^verbatim>\<open>crates/usage/src/store.rs\<close> and \<^verbatim>\<open>migrations/0001_usage.sql\<close>) and the
  statements the store runs on them. A table is its rows by primary key. The database itself is
  a parameter: which statement it refuses, and with which message. A sum that leaves the
  \<^verbatim>\<open>BIGINT\<close> range fails its statement, as PostgreSQL does; the rows a
  transaction has written are discarded unless it commits.
\<close>

section \<open>Tables\<close>

datatype row_key =
  RowKey (ro_bucket_start: int) (ro_bucket_seconds: int) (ro_subject: string) (ro_device_id: string)
    (ro_client_id: string) (ro_provider: string) (ro_model: string) (ro_billing: string)

type_synonym rollup_row = "row_key \<times> measures"

record usage_db =
  ud_receipts :: "(string \<times> int) list"
  ud_rollups :: "rollup_row list"

datatype sql_statement =
    BeginTransaction
  | InsertReceipt string
  | InsertRollup row_key
  | Commit
  | CompactHours
  | DeleteHours
  | DeleteDays
  | DeleteReceipts
  | Select string

record usage_sql =
  us_refuses :: "sql_statement \<Rightarrow> string option"
  us_overflow :: string

text \<open>A statement that the database refuses fails with its message under the context.\<close>

definition run_statement :: "usage_sql \<Rightarrow> sql_statement \<Rightarrow> string list \<Rightarrow> anyhow + 'a \<Rightarrow> anyhow + 'a" where
  "run_statement sql stmt ctx next =
     (case us_refuses sql stmt of Some e \<Rightarrow> Inl (ctx @ [e]) | None \<Rightarrow> next)"

text \<open>The columns of a conflicting row, each the sum of the stored and the inserted value.\<close>

definition add_measures :: "measures \<Rightarrow> measures \<Rightarrow> measures" where
  "add_measures m n =
     \<lparr>me_requests = me_requests m + me_requests n,
      me_errors = me_errors m + me_errors n,
      me_input_tokens = me_input_tokens m + me_input_tokens n,
      me_output_tokens = me_output_tokens m + me_output_tokens n,
      me_cache_read_tokens = me_cache_read_tokens m + me_cache_read_tokens n,
      me_cache_write_tokens = me_cache_write_tokens m + me_cache_write_tokens n,
      me_cost_nanos = me_cost_nanos m + me_cost_nanos n,
      me_unpriced_requests = me_unpriced_requests m + me_unpriced_requests n\<rparr>"

definition measures_fit :: "measures \<Rightarrow> bool" where
  "measures_fit m \<longleftrightarrow>
     in_i64 (me_requests m) \<and> in_i64 (me_errors m) \<and> in_i64 (me_input_tokens m)
     \<and> in_i64 (me_output_tokens m) \<and> in_i64 (me_cache_read_tokens m)
     \<and> in_i64 (me_cache_write_tokens m) \<and> in_i64 (me_cost_nanos m)
     \<and> in_i64 (me_unpriced_requests m)"

text \<open>\<^verbatim>\<open>INSERT ... ON CONFLICT (primary key) DO UPDATE\<close>; \<^const>\<open>None\<close> when a sum overflows.\<close>

definition upsert :: "row_key \<Rightarrow> measures \<Rightarrow> rollup_row list \<Rightarrow> rollup_row list option" where
  "upsert k m rows =
     (case map_of rows k of
        None \<Rightarrow> Some (rows @ [(k, m)])
      | Some stored \<Rightarrow>
          (if measures_fit (add_measures stored m)
           then Some (AList.update k (add_measures stored m) rows) else None))"

section \<open>Storing records\<close>

fun store_receipts ::
    "usage_sql \<Rightarrow> int \<Rightarrow> usage_record list \<Rightarrow> (string \<times> int) list \<Rightarrow> (rollup_key \<times> measures) list
      \<Rightarrow> nat \<Rightarrow> anyhow + (string \<times> int) list \<times> (rollup_key \<times> measures) list \<times> nat" where
  "store_receipts sql received_at [] receipts rollups stored = Inr (receipts, rollups, stored)"
| "store_receipts sql received_at (r # rs) receipts rollups stored =
     run_statement sql (InsertReceipt (ur_id r)) [''store usage record identifier'']
       (if map_of receipts (ur_id r) \<noteq> None
        then store_receipts sql received_at rs receipts rollups stored
        else
          (let old = (case om_get rollups (ur_key r) of Some m \<Rightarrow> m | None \<Rightarrow> measures_default)
           in store_receipts sql received_at rs (receipts @ [(ur_id r, received_at)])
                (om_insert (ur_key r) (measures_add old (ur_measures r)) rollups) (stored + 1)))"

definition hourly_row :: "rollup_key \<Rightarrow> row_key" where
  "hourly_row k =
     RowKey (rk_bucket_start k) HOUR (rk_subject k) (rk_device_id k) (rk_client_id k)
       (rk_provider k) (rk_model k) (billing_as_str (rk_billing k))"

fun store_rollups ::
    "usage_sql \<Rightarrow> (rollup_key \<times> measures) list \<Rightarrow> rollup_row list \<Rightarrow> anyhow + rollup_row list" where
  "store_rollups sql [] rows = Inr rows"
| "store_rollups sql ((k, m) # ks) rows =
     run_statement sql (InsertRollup (hourly_row k)) [''store usage rollup'']
       (case upsert (hourly_row k) m rows of
          None \<Rightarrow> Inl [''store usage rollup'', us_overflow sql]
        | Some rows' \<Rightarrow> store_rollups sql ks rows')"

text \<open>The transaction's outcome and the tables after it: an error leaves them as they were.\<close>

definition ingest ::
    "usage_sql \<Rightarrow> usage_db \<Rightarrow> usage_record list \<Rightarrow> int \<Rightarrow> (anyhow + nat) \<times> usage_db" where
  "ingest sql db records received_at =
     (if records = [] then (Inr 0, db)
      else
        (case run_statement sql BeginTransaction []
                (case store_receipts sql received_at records (ud_receipts db) [] 0 of
                   Inl e \<Rightarrow> Inl e
                 | Inr (receipts, rollups, stored) \<Rightarrow>
                     (case store_rollups sql rollups (ud_rollups db) of
                        Inl e \<Rightarrow> Inl e
                      | Inr rows \<Rightarrow>
                          run_statement sql Commit []
                            (Inr (stored, \<lparr>ud_receipts = receipts, ud_rollups = rows\<rparr>)))) of
           Inl e \<Rightarrow> (Inl e, db)
         | Inr (stored, db') \<Rightarrow> (Inr stored, db')))"

section \<open>Compaction and expiry\<close>

text \<open>\<^verbatim>\<open>/\<close> on SQL integers truncates towards zero.\<close>

definition sql_div :: "int \<Rightarrow> int \<Rightarrow> int" where
  "sql_div a b = (if 0 \<le> a then a div b else - ((- a) div b))"

definition daily_row :: "row_key \<Rightarrow> row_key" where
  "daily_row k =
     RowKey (sql_div (ro_bucket_start k) 86400 * 86400) 86400 (ro_subject k) (ro_device_id k)
       (ro_client_id k) (ro_provider k) (ro_model k) (ro_billing k)"

definition sum_measures :: "measures list \<Rightarrow> measures" where
  "sum_measures ms = foldr add_measures ms measures_default"

definition old_hours :: "int \<Rightarrow> rollup_row \<Rightarrow> bool" where
  "old_hours before row \<longleftrightarrow> ro_bucket_seconds (fst row) = 3600 \<and> ro_bucket_start (fst row) < before"

text \<open>The grouped rows of the compacting \<^verbatim>\<open>SELECT\<close>, one for each day key.\<close>

definition day_groups :: "rollup_row list \<Rightarrow> rollup_row list" where
  "day_groups rows =
     map (\<lambda>d. (d, sum_measures (map snd (filter (\<lambda>row. daily_row (fst row) = d) rows))))
       (remdups (map (daily_row \<circ> fst) rows))"

fun upsert_all :: "rollup_row list \<Rightarrow> rollup_row list \<Rightarrow> rollup_row list option" where
  "upsert_all [] rows = Some rows"
| "upsert_all ((k, m) # new) rows =
     (case upsert k m rows of None \<Rightarrow> None | Some rows' \<Rightarrow> upsert_all new rows')"

definition compact_rows :: "int \<Rightarrow> rollup_row list \<Rightarrow> rollup_row list option" where
  "compact_rows before rows =
     (let groups = day_groups (filter (old_hours before) rows)
      in if list_all (\<lambda>(k, m). measures_fit m) groups then upsert_all groups rows else None)"

definition hourly_before :: "int \<Rightarrow> int" where
  "hourly_before now = (now - HOURLY_RETENTION) div DAY * DAY"

definition compact :: "usage_sql \<Rightarrow> usage_db \<Rightarrow> int \<Rightarrow> (anyhow + unit) \<times> usage_db" where
  "compact sql db now =
     (case run_statement sql BeginTransaction []
             (run_statement sql CompactHours [''compact hourly usage into days'']
               (case compact_rows (hourly_before now) (ud_rollups db) of
                  None \<Rightarrow> Inl [''compact hourly usage into days'', us_overflow sql]
                | Some rows \<Rightarrow>
                    run_statement sql DeleteHours [''delete compacted hourly usage'']
                      (run_statement sql Commit []
                        (Inr (db\<lparr>ud_rollups := filter (Not \<circ> old_hours (hourly_before now)) rows\<rparr>))))) of
        Inl e \<Rightarrow> (Inl e, db)
      | Inr db1 \<Rightarrow>
          (case us_refuses sql DeleteDays of
             Some e \<Rightarrow> (Inl [''delete expired daily usage'', e], db1)
           | None \<Rightarrow>
               (let db2 = db1\<lparr>ud_rollups :=
                       filter (\<lambda>(k, m). \<not> (ro_bucket_seconds k = 86400 \<and> ro_bucket_start k < now - DAILY_RETENTION))
                         (ud_rollups db1)\<rparr>
                in case us_refuses sql DeleteReceipts of
                     Some e \<Rightarrow> (Inl [''delete expired usage record identifiers'', e], db2)
                   | None \<Rightarrow>
                       (Inr (), db2\<lparr>ud_receipts :=
                          filter (\<lambda>(i, received_at). \<not> received_at < now - RECEIPT_RETENTION)
                            (ud_receipts db2)\<rparr>))))"

section \<open>Queries\<close>

text \<open>\<^verbatim>\<open>conditions\<close>: the period and the exact matches; \<^verbatim>\<open>Dimension::column\<close> names the column.\<close>

fun column_of :: "dimension \<Rightarrow> row_key \<Rightarrow> string" where
  "column_of User k = ro_subject k"
| "column_of Device k = ro_device_id k"
| "column_of Tool k = ro_client_id k"
| "column_of Provider k = ro_provider k"
| "column_of Model k = ro_model k"

definition conditions :: "int \<Rightarrow> int \<Rightarrow> usage_filter \<Rightarrow> row_key \<Rightarrow> bool" where
  "conditions start finish f k \<longleftrightarrow>
     start \<le> ro_bucket_start k \<and> ro_bucket_start k < finish
     \<and> list_all (\<lambda>(d, v). column_of d k = v) f"

definition selected :: "usage_db \<Rightarrow> int \<Rightarrow> int \<Rightarrow> usage_filter \<Rightarrow> rollup_row list" where
  "selected db start finish f = filter (\<lambda>row. conditions start finish f (fst row)) (ud_rollups db)"

definition sum_of :: "(rollup_row \<Rightarrow> int) \<Rightarrow> rollup_row list \<Rightarrow> int" where
  "sum_of column rows = sum_list (map column rows)"

definition subscription_row :: "rollup_row \<Rightarrow> bool" where
  "subscription_row row \<longleftrightarrow> ro_billing (fst row) = ''subscription''"

text \<open>The select-list \<^verbatim>\<open>TOTALS\<close>, decoded in field order by \<^verbatim>\<open>totals\<close>.\<close>

definition totals_of :: "rollup_row list \<Rightarrow> totals" where
  "totals_of rows =
     \<lparr>to_requests = sum_of (me_requests \<circ> snd) rows,
      to_errors = sum_of (me_errors \<circ> snd) rows,
      to_input_tokens = sum_of (me_input_tokens \<circ> snd) rows,
      to_output_tokens = sum_of (me_output_tokens \<circ> snd) rows,
      to_cache_read_tokens = sum_of (me_cache_read_tokens \<circ> snd) rows,
      to_cache_write_tokens = sum_of (me_cache_write_tokens \<circ> snd) rows,
      to_cost_nanos = sum_of (\<lambda>row. if subscription_row row then 0 else me_cost_nanos (snd row)) rows,
      to_subscription_cost_nanos =
        sum_of (\<lambda>row. if subscription_row row then me_cost_nanos (snd row) else 0) rows,
      to_subscription_requests =
        sum_of (\<lambda>row. if subscription_row row then me_requests (snd row) else 0) rows,
      to_unpriced_requests = sum_of (me_unpriced_requests \<circ> snd) rows\<rparr>"

definition totals_fit :: "totals \<Rightarrow> bool" where
  "totals_fit t \<longleftrightarrow>
     in_i64 (to_requests t) \<and> in_i64 (to_errors t) \<and> in_i64 (to_input_tokens t)
     \<and> in_i64 (to_output_tokens t) \<and> in_i64 (to_cache_read_tokens t)
     \<and> in_i64 (to_cache_write_tokens t) \<and> in_i64 (to_cost_nanos t)
     \<and> in_i64 (to_subscription_cost_nanos t) \<and> in_i64 (to_subscription_requests t)
     \<and> in_i64 (to_unpriced_requests t)"

record usage_summary =
  su_totals :: totals
  su_users :: nat
  su_devices :: nat

definition known_count :: "(row_key \<Rightarrow> string) \<Rightarrow> rollup_row list \<Rightarrow> nat" where
  "known_count column rows = length (remdups (filter (\<lambda>v. v \<noteq> []) (map (column \<circ> fst) rows)))"

definition summary ::
    "usage_sql \<Rightarrow> usage_db \<Rightarrow> int \<Rightarrow> int \<Rightarrow> usage_filter \<Rightarrow> anyhow + usage_summary" where
  "summary sql db start finish f =
     run_statement sql (Select ''summary'') [''summarize usage'']
       (let rows = selected db start finish f
        in if totals_fit (totals_of rows)
           then Inr \<lparr>su_totals = totals_of rows, su_users = known_count ro_subject rows,
                     su_devices = known_count ro_device_id rows\<rparr>
           else Inl [''summarize usage'', us_overflow sql])"

text \<open>\<^verbatim>\<open>GROUP BY\<close> one expression: its values in the given order, each with the totals of its rows.\<close>

definition grouped :: "(row_key \<Rightarrow> 'k) \<Rightarrow> 'k list \<Rightarrow> rollup_row list \<Rightarrow> ('k \<times> totals) list" where
  "grouped g ks rows = map (\<lambda>k. (k, totals_of (filter (\<lambda>row. g (fst row) = k) rows))) ks"

definition group_rows :: "usage_sql \<Rightarrow> string \<Rightarrow> ('k \<times> totals) list \<Rightarrow> anyhow + ('k \<times> totals) list" where
  "group_rows sql ctx groups =
     (if list_all (\<lambda>(k, t). totals_fit t) groups then Inr groups else Inl [ctx, us_overflow sql])"

definition series ::
    "usage_sql \<Rightarrow> usage_db \<Rightarrow> int \<Rightarrow> int \<Rightarrow> usage_filter \<Rightarrow> anyhow + (int \<times> totals) list" where
  "series sql db start finish f =
     run_statement sql (Select ''series'') [''load usage over time'']
       (let rows = selected db start finish f
        in group_rows sql ''load usage over time''
             (grouped ro_bucket_start (sort (remdups (map (ro_bucket_start \<circ> fst) rows))) rows))"

text \<open>
  The breakdown has no \<^verbatim>\<open>ORDER BY\<close>: the groups come in the order of their first rows here, and
  its clients rank them.
\<close>

definition breakdown ::
    "usage_sql \<Rightarrow> usage_db \<Rightarrow> int \<Rightarrow> int \<Rightarrow> usage_filter \<Rightarrow> dimension \<Rightarrow> anyhow + (string \<times> totals) list" where
  "breakdown sql db start finish f dimension =
     (let ctx = ''break usage down by '' @ dimension_name dimension
      in run_statement sql (Select (dimension_name dimension)) [ctx]
           (let rows = selected db start finish f
            in group_rows sql ctx
                 (grouped (column_of dimension) (remdups (map (column_of dimension \<circ> fst) rows)) rows)))"

section \<open>Labels\<close>

record usage_labels =
  la_users :: "(string \<times> string) list"
  la_devices :: "(string \<times> string) list"

definition insert_user :: "usage_labels \<Rightarrow> string \<Rightarrow> string \<Rightarrow> usage_labels" where
  "insert_user labels subject name = labels\<lparr>la_users := AList.update subject name (la_users labels)\<rparr>"

definition insert_device :: "usage_labels \<Rightarrow> string \<Rightarrow> string \<Rightarrow> usage_labels" where
  "insert_device labels device_id hostname =
     labels\<lparr>la_devices := AList.update device_id hostname (la_devices labels)\<rparr>"

fun labels_get :: "usage_labels \<Rightarrow> dimension \<Rightarrow> string \<Rightarrow> string option" where
  "labels_get labels User key = map_of (la_users labels) key"
| "labels_get labels Device key = map_of (la_devices labels) key"
| "labels_get labels _ key = None"

section \<open>The address of a database file\<close>

definition upper_hex_digit :: "nat \<Rightarrow> char" where
  "upper_hex_digit n = (if n < 10 then char_of (48 + n) else char_of (55 + n))"

definition url_byte :: "char \<Rightarrow> string" where
  "url_byte c =
     (if is_ascii_alphanumeric c \<or> c \<in> set ''-._~/'' then [c]
      else [CHR ''%'', upper_hex_digit (of_char c div 16), upper_hex_digit (of_char c mod 16)])"

text \<open>The path's bytes; a path that is not UTF-8 is refused.\<close>

definition sqlite_url :: "string \<Rightarrow> anyhow + string" where
  "sqlite_url p =
     (if valid_utf8 p then Inr (''sqlite:'' @ concat (map url_byte p) @ ''?mode=rwc'')
      else Inl [''usage database path '' @ from_utf8_lossy p @ '' is not UTF-8''])"

end
