(* ===== verification/Usage_Ledger.thy ===== *)
theory Usage_Ledger
  imports Usage_Store
begin

text \<open>
  What the usage tables add up to. Every column of the totals is additive in the stored measures;
  the locale \<open>additive_column\<close> carries the accounting of the store's statements once, for
  inserted rollups and for compaction, and is interpreted for the ten columns of
  \<^const>\<open>totals_of\<close>.
\<close>

section \<open>Weighted sums over keyed rows\<close>

definition keyed_sum :: "('k \<Rightarrow> 'v \<Rightarrow> int) \<Rightarrow> ('k \<times> 'v) list \<Rightarrow> int" where
  "keyed_sum f rows = sum_list (map (\<lambda>(k, v). f k v) rows)"

lemma keyed_sum_simps [simp]:
  "keyed_sum f [] = 0"
  "keyed_sum f ((k, v) # rows) = f k v + keyed_sum f rows"
  "keyed_sum f (rows @ rows') = keyed_sum f rows + keyed_sum f rows'"
  by (simp_all add: keyed_sum_def)

lemma keyed_sum_filter:
  "keyed_sum f (filter (\<lambda>row. P (fst row)) rows) = keyed_sum (\<lambda>k v. if P k then f k v else 0) rows"
  by (induction rows) (auto simp: keyed_sum_def)

lemma keyed_sum_set:
  "distinct (map fst rows) \<Longrightarrow> keyed_sum f rows = (\<Sum>(k, v) \<in> set rows. f k v)"
  by (auto simp: keyed_sum_def distinct_map sum_list_distinct_conv_sum_set)

text \<open>One entry replaced or added changes the sum by the difference.\<close>

lemma keyed_sum_update:
  assumes d: "distinct (map fst rows)" "distinct (map fst rows')"
    and m: "map_of rows' = (map_of rows)(k \<mapsto> v)"
  shows "keyed_sum f rows' =
    keyed_sum f rows + f k v - (case map_of rows k of None \<Rightarrow> 0 | Some w \<Rightarrow> f k w)"
proof -
  define R where "R = {(k', w). (k', w) \<in> set rows \<and> k' \<noteq> k}"
  have mem: "(k', w) \<in> set xs \<longleftrightarrow> map_of xs k' = Some w" if "distinct (map fst xs)" for xs k' w
    using that by simp
  have fin: "finite R"
    unfolding R_def by (rule finite_subset [of _ "set rows"]) auto
  have out: "(k, w) \<notin> R" for w
    by (simp add: R_def)
  have "set rows' = insert (k, v) R"
    using mem [OF d(2)] mem [OF d(1)] by (auto simp: m R_def split: if_splits)
  then have new: "keyed_sum f rows' = f k v + (\<Sum>(k, v) \<in> R. f k v)"
    using fin out by (simp add: keyed_sum_set [OF d(2)])
  have old: "keyed_sum f rows =
      (\<Sum>(k, v) \<in> R. f k v) + (case map_of rows k of None \<Rightarrow> 0 | Some w \<Rightarrow> f k w)"
  proof (cases "map_of rows k")
    case None
    then have "set rows = R"
      using mem [OF d(1)] by (fastforce simp: R_def)
    then show ?thesis
      using None by (simp add: keyed_sum_set [OF d(1)])
  next
    case (Some w)
    then have "set rows = insert (k, w) R"
      using mem [OF d(1)] by (fastforce simp: R_def)
    then show ?thesis
      using Some fin out by (simp add: keyed_sum_set [OF d(1)])
  qed
  show ?thesis using new old by simp
qed

text \<open>Rows summed group by group are summed once.\<close>

lemma sum_indicator: "distinct ds \<Longrightarrow> a \<in> set ds \<Longrightarrow> (\<Sum>d \<leftarrow> ds. if a = d then x else 0) = (x :: int)"
  by (subst sum_list_distinct_conv_sum_set) (auto simp: sum.delta')

lemma sum_by_groups:
  fixes f :: "'a \<Rightarrow> int"
  assumes "distinct ds" and "g ` set rows \<subseteq> set ds"
  shows "(\<Sum>d \<leftarrow> ds. \<Sum>row \<leftarrow> filter (\<lambda>row. g row = d) rows. f row) = (\<Sum>row \<leftarrow> rows. f row)"
  using assms(2)
proof (induction rows)
  case (Cons r rows)
  have "(\<Sum>d \<leftarrow> ds. \<Sum>row \<leftarrow> filter (\<lambda>row. g row = d) (r # rows). f row)
      = (\<Sum>d \<leftarrow> ds. (if g r = d then f r else 0) + (\<Sum>row \<leftarrow> filter (\<lambda>row. g row = d) rows. f row))"
    by (rule arg_cong [where f = sum_list], rule map_cong) auto
  also have "\<dots> = f r + (\<Sum>row \<leftarrow> rows. f row)"
    using Cons sum_indicator [OF assms(1), of "g r" "f r"] by (simp add: sum_list_addf)
  finally show ?case by simp
qed simp

section \<open>Additive columns\<close>

definition weigh :: "(string \<Rightarrow> measures \<Rightarrow> int) \<Rightarrow> (row_key \<Rightarrow> bool) \<Rightarrow> rollup_row list \<Rightarrow> int" where
  "weigh col P rows = keyed_sum (\<lambda>k m. if P k then col (ro_billing k) m else 0) rows"

lemma weigh_simps [simp]:
  "weigh col P [] = 0"
  "weigh col P ((k, m) # rows) = (if P k then col (ro_billing k) m else 0) + weigh col P rows"
  "weigh col P (rows @ rows') = weigh col P rows + weigh col P rows'"
  by (simp_all add: weigh_def)

lemma weigh_filter: "weigh col P (filter (\<lambda>row. Q (fst row)) rows) = weigh col (\<lambda>k. P k \<and> Q k) rows"
  unfolding weigh_def keyed_sum_filter by (rule arg_cong2 [where f = keyed_sum]) (auto simp: fun_eq_iff)

lemma weigh_cong:
  "(\<And>row. row \<in> set rows \<Longrightarrow> P (fst row) = Q (fst row)) \<Longrightarrow> weigh col P rows = weigh col Q rows"
  unfolding weigh_def keyed_sum_def
  by (rule arg_cong [where f = sum_list], rule map_cong) (auto simp: split_def)

lemma weigh_split: "weigh col P rows = weigh col (\<lambda>k. P k \<and> Q k) rows + weigh col (\<lambda>k. P k \<and> \<not> Q k) rows"
  by (induction rows) auto

lemma upsert_distinct:
  "upsert k m rows = Some rows' \<Longrightarrow> distinct (map fst rows) \<Longrightarrow> distinct (map fst rows')"
proof -
  assume u: "upsert k m rows = Some rows'" and d: "distinct (map fst rows)"
  show ?thesis
  proof (cases "map_of rows k")
    case None
    then have "k \<notin> set (map fst rows)"
      by (simp add: map_of_eq_None_iff)
    with u d None show ?thesis by (auto simp: upsert_def)
  next
    case (Some old)
    with u d show ?thesis
      by (auto simp: upsert_def distinct_update split: if_splits)
  qed
qed

lemma upsert_keys:
  "upsert k m rows = Some rows' \<Longrightarrow> fst ` set rows' = insert k (fst ` set rows)"
proof -
  assume u: "upsert k m rows = Some rows'"
  have dom: "fst ` set xs = dom (map_of xs)" for xs :: "rollup_row list"
    by (simp add: dom_map_of_conv_image_fst)
  show ?thesis
    unfolding dom using u
    by (auto simp: upsert_def update_conv' map_add_def split: option.splits if_splits)
qed

locale additive_column =
  fixes col :: "string \<Rightarrow> measures \<Rightarrow> int"
  assumes additive: "col b (add_measures m n) = col b m + col b n"
begin

lemma default_weight [simp]: "col b measures_default = 0"
  using additive [of b measures_default measures_default]
  by (simp add: measures_default_def add_measures_def)

lemma sum_weight: "col b (sum_measures ms) = (\<Sum>m \<leftarrow> ms. col b m)"
  by (induction ms) (auto simp: sum_measures_def additive)

lemma weigh_upsert:
  assumes "upsert k m rows = Some rows'" and "distinct (map fst rows)"
  shows "weigh col P rows' = weigh col P rows + (if P k then col (ro_billing k) m else 0)"
proof (cases "map_of rows k")
  case None
  with assms(1) show ?thesis by (auto simp: upsert_def)
next
  case (Some old)
  with assms(1) have r: "rows' = AList.update k (add_measures old m) rows"
    by (auto simp: upsert_def split: if_splits)
  have "map_of rows' = (map_of rows)(k \<mapsto> add_measures old m)"
    by (simp add: r update_conv')
  from keyed_sum_update [OF assms(2) _ this] upsert_distinct [OF assms]
  show ?thesis
    by (auto simp: weigh_def Some additive)
qed

lemma weigh_upsert_all:
  "upsert_all new rows = Some rows' \<Longrightarrow> distinct (map fst rows) \<Longrightarrow>
   weigh col P rows' = weigh col P rows + weigh col P new"
proof (induction new arbitrary: rows)
  case (Cons entry new)
  obtain k m where e: "entry = (k, m)" by (cases entry)
  with Cons.prems obtain rows1 where u: "upsert k m rows = Some rows1" and r: "upsert_all new rows1 = Some rows'"
    by (auto split: option.splits)
  show ?case
    using Cons.IH [OF r upsert_distinct [OF u Cons.prems(2)]] weigh_upsert [OF u Cons.prems(2)]
    by (simp add: e)
qed simp

lemma weigh_day_groups: "weigh col P (day_groups rows) = weigh col (\<lambda>k. P (daily_row k)) rows"
proof -
  let ?f = "\<lambda>row. if P (daily_row (fst row)) then col (ro_billing (fst row)) (snd row) else 0"
  let ?ds = "remdups (map (daily_row \<circ> fst) rows)"
  have billing: "ro_billing (daily_row k) = ro_billing k" for k
    by (simp add: daily_row_def)
  have group: "(if P d then col (ro_billing d) (sum_measures (map snd (filter (\<lambda>row. daily_row (fst row) = d) rows))) else 0)
      = (\<Sum>row \<leftarrow> filter (\<lambda>row. daily_row (fst row) = d) rows. ?f row)" for d
    by (induction rows) (auto simp: sum_weight billing additive sum_measures_def)
  have "weigh col P (day_groups rows)
      = (\<Sum>d \<leftarrow> ?ds. \<Sum>row \<leftarrow> filter (\<lambda>row. daily_row (fst row) = d) rows. ?f row)"
    unfolding weigh_def keyed_sum_def day_groups_def map_map
    by (rule arg_cong [where f = sum_list], rule map_cong) (simp_all add: group comp_def)
  also have "\<dots> = (\<Sum>row \<leftarrow> rows. ?f row)"
    by (rule sum_by_groups) auto
  finally show ?thesis
    by (simp add: weigh_def keyed_sum_def split_def)
qed

end

section \<open>The columns of the totals\<close>

datatype total_column =
  Requests | Errors | InputTokens | OutputTokens | CacheReadTokens | CacheWriteTokens | CostNanos
  | SubscriptionCostNanos | SubscriptionRequests | UnpricedRequests

primrec column_measure :: "total_column \<Rightarrow> string \<Rightarrow> measures \<Rightarrow> int" where
  "column_measure Requests b m = me_requests m"
| "column_measure Errors b m = me_errors m"
| "column_measure InputTokens b m = me_input_tokens m"
| "column_measure OutputTokens b m = me_output_tokens m"
| "column_measure CacheReadTokens b m = me_cache_read_tokens m"
| "column_measure CacheWriteTokens b m = me_cache_write_tokens m"
| "column_measure CostNanos b m = (if b = ''subscription'' then 0 else me_cost_nanos m)"
| "column_measure SubscriptionCostNanos b m = (if b = ''subscription'' then me_cost_nanos m else 0)"
| "column_measure SubscriptionRequests b m = (if b = ''subscription'' then me_requests m else 0)"
| "column_measure UnpricedRequests b m = me_unpriced_requests m"

primrec total_at :: "total_column \<Rightarrow> totals \<Rightarrow> int" where
  "total_at Requests t = to_requests t"
| "total_at Errors t = to_errors t"
| "total_at InputTokens t = to_input_tokens t"
| "total_at OutputTokens t = to_output_tokens t"
| "total_at CacheReadTokens t = to_cache_read_tokens t"
| "total_at CacheWriteTokens t = to_cache_write_tokens t"
| "total_at CostNanos t = to_cost_nanos t"
| "total_at SubscriptionCostNanos t = to_subscription_cost_nanos t"
| "total_at SubscriptionRequests t = to_subscription_requests t"
| "total_at UnpricedRequests t = to_unpriced_requests t"

interpretation column: additive_column "column_measure c" for c
  by unfold_locales (cases c; simp add: add_measures_def)

lemma totals_eqI: "(\<And>c. total_at c t = total_at c t') \<Longrightarrow> t = (t' :: totals)"
  using total_at.simps by (intro totals.equality) (metis, metis, metis, metis, metis, metis, metis, metis, metis, metis, simp)

lemma totals_of_column:
  "total_at c (totals_of rows) = (\<Sum>row \<leftarrow> rows. column_measure c (ro_billing (fst row)) (snd row))"
  by (cases c) (simp_all add: totals_of_def sum_of_def subscription_row_def comp_def)

lemma totals_of_selected:
  "total_at c (totals_of (filter (\<lambda>row. P (fst row)) rows)) = weigh (column_measure c) P rows"
  unfolding totals_of_column weigh_def keyed_sum_def
  by (induction rows) (auto simp: split_def)

lemma totals_of_append_column:
  "total_at c (totals_of (rows @ rows')) = total_at c (totals_of rows) + total_at c (totals_of rows')"
  by (simp add: totals_of_column)

lemma totals_fit_iff: "totals_fit t \<longleftrightarrow> (\<forall>c. in_i64 (total_at c t))"
proof
  assume "totals_fit t"
  show "\<forall>c. in_i64 (total_at c t)"
  proof
    fix c show "in_i64 (total_at c t)"
      using \<open>totals_fit t\<close> by (cases c) (simp_all add: totals_fit_def)
  qed
next
  assume all: "\<forall>c. in_i64 (total_at c t)"
  show "totals_fit t"
    using all [rule_format, of Requests] all [rule_format, of Errors] all [rule_format, of InputTokens]
      all [rule_format, of OutputTokens] all [rule_format, of CacheReadTokens]
      all [rule_format, of CacheWriteTokens] all [rule_format, of CostNanos]
      all [rule_format, of SubscriptionCostNanos] all [rule_format, of SubscriptionRequests]
      all [rule_format, of UnpricedRequests]
    by (simp add: totals_fit_def)
qed

section \<open>Well-formed tables\<close>

definition measures_within :: "int \<Rightarrow> measures \<Rightarrow> bool" where
  "measures_within b m \<longleftrightarrow>
     me_requests m \<in> {0..b} \<and> me_errors m \<in> {0..b} \<and> me_input_tokens m \<in> {0..b}
     \<and> me_output_tokens m \<in> {0..b} \<and> me_cache_read_tokens m \<in> {0..b}
     \<and> me_cache_write_tokens m \<in> {0..b} \<and> me_cost_nanos m \<in> {0..b}
     \<and> me_unpriced_requests m \<in> {0..b}"

definition measures_nonneg :: "measures \<Rightarrow> bool" where
  "measures_nonneg m \<longleftrightarrow>
     0 \<le> me_requests m \<and> 0 \<le> me_errors m \<and> 0 \<le> me_input_tokens m \<and> 0 \<le> me_output_tokens m
     \<and> 0 \<le> me_cache_read_tokens m \<and> 0 \<le> me_cache_write_tokens m \<and> 0 \<le> me_cost_nanos m
     \<and> 0 \<le> me_unpriced_requests m"

definition key_ok :: "row_key \<Rightarrow> bool" where
  "key_ok k \<longleftrightarrow>
     0 \<le> ro_bucket_start k
     \<and> (ro_bucket_seconds k = HOUR \<and> ro_bucket_start k mod HOUR = 0
        \<or> ro_bucket_seconds k = DAY \<and> ro_bucket_start k mod DAY = 0)"

definition row_ok :: "rollup_row \<Rightarrow> bool" where
  "row_ok row \<longleftrightarrow> key_ok (fst row) \<and> measures_nonneg (snd row)"

definition ledger_ok :: "usage_db \<Rightarrow> bool" where
  "ledger_ok db \<longleftrightarrow>
     distinct (map fst (ud_receipts db)) \<and> distinct (map fst (ud_rollups db))
     \<and> (\<forall>row \<in> set (ud_rollups db). row_ok row)"

lemma measures_within_nonneg: "measures_within b m \<Longrightarrow> measures_nonneg m"
  by (simp add: measures_within_def measures_nonneg_def)

lemma measures_nonneg_default [simp]: "measures_nonneg measures_default"
  by (simp add: measures_nonneg_def measures_default_def)

lemma measures_nonneg_add [simp]:
  "measures_nonneg m \<Longrightarrow> measures_nonneg n \<Longrightarrow> measures_nonneg (add_measures m n)"
  by (simp add: measures_nonneg_def add_measures_def)

lemma measures_nonneg_sum:
  "(\<And>m. m \<in> set ms \<Longrightarrow> measures_nonneg m) \<Longrightarrow> measures_nonneg (sum_measures ms)"
  by (induction ms) (auto simp: sum_measures_def)

lemma column_measure_nonneg: "measures_nonneg m \<Longrightarrow> 0 \<le> column_measure c b m"
  by (cases c) (simp_all add: measures_nonneg_def)

text \<open>Within the bound of the type, the saturating sum is the sum.\<close>

lemma measures_add_exact:
  assumes "measures_within a m" and "measures_within b n" and "a + b \<le> i64_max"
  shows "measures_add m n = add_measures m n" and "measures_within (a + b) (add_measures m n)"
proof -
  have "saturating_add x y = x + y" if "x \<in> {0..a}" and "y \<in> {0..b}" for x y
    using that assms(3) by (auto simp: i64_min_def in_i64_def intro!: saturating_add_exact)
  then show "measures_add m n = add_measures m n"
    using assms(1,2) by (simp add: measures_within_def measures_add_def add_measures_def)
  show "measures_within (a + b) (add_measures m n)"
    using assms(1,2) by (auto simp: measures_within_def add_measures_def)
qed

lemma upsert_row_ok:
  assumes "upsert k m rows = Some rows'" and "distinct (map fst rows)"
    and "row_ok (k, m)" and "\<forall>row \<in> set rows. row_ok row"
  shows "\<forall>row \<in> set rows'. row_ok row"
proof (cases "map_of rows k")
  case None
  with assms show ?thesis by (auto simp: upsert_def)
next
  case (Some old)
  with assms(1) have r: "rows' = AList.update k (add_measures old m) rows"
    by (auto simp: upsert_def split: if_splits)
  have d: "distinct (map fst rows')"
    using upsert_distinct assms(1,2) by blast
  have "row_ok (k, old)"
    using Some assms(4) by (auto dest: map_of_SomeD)
  then have new: "row_ok (k, add_measures old m)"
    using assms(3) by (simp add: row_ok_def)
  show ?thesis
  proof
    fix row assume "row \<in> set rows'"
    then have "map_of rows' (fst row) = Some (snd row)"
      using d by simp
    then have "((map_of rows)(k \<mapsto> add_measures old m)) (fst row) = Some (snd row)"
      by (simp add: r update_conv')
    then show "row_ok row"
      using new assms(4) by (cases row) (auto split: if_splits dest: map_of_SomeD)
  qed
qed

section \<open>Storing a batch\<close>

text \<open>The records of a batch whose identifier was not stored, each identifier once.\<close>

fun fresh_records :: "string set \<Rightarrow> usage_record list \<Rightarrow> usage_record list" where
  "fresh_records seen [] = []"
| "fresh_records seen (r # rs) =
     (if ur_id r \<in> seen then fresh_records seen rs
      else r # fresh_records (insert (ur_id r) seen) rs)"

definition record_row :: "usage_record \<Rightarrow> rollup_row" where
  "record_row r = (hourly_row (ur_key r), ur_measures r)"

text \<open>The largest measure of one request, and how many such requests a sum of the type holds.\<close>

definition record_limit :: int where
  "record_limit = 1000000000000000"

definition batch_limit :: nat where
  "batch_limit = 9223"

definition valid_record :: "usage_record \<Rightarrow> bool" where
  "valid_record r \<longleftrightarrow>
     measures_within record_limit (ur_measures r)
     \<and> 0 \<le> rk_bucket_start (ur_key r) \<and> rk_bucket_start (ur_key r) mod HOUR = 0"

lemma fresh_records_subset: "set (fresh_records seen rs) \<subseteq> set rs"
  by (induction rs arbitrary: seen) auto

lemma fresh_records_seen: "(\<And>r. r \<in> set rs \<Longrightarrow> ur_id r \<in> seen) \<Longrightarrow> fresh_records seen rs = []"
  by (induction rs) auto

lemma fresh_records_ids: "ur_id ` set rs \<subseteq> seen \<union> ur_id ` set (fresh_records seen rs)"
  by (induction rs arbitrary: seen) (auto, blast)

lemma fresh_records_new:
  "distinct (map ur_id (fresh_records seen rs)) \<and> ur_id ` set (fresh_records seen rs) \<inter> seen = {}"
proof (induction rs arbitrary: seen)
  case (Cons r rs)
  then show ?case
    using Cons.IH [of seen] Cons.IH [of "insert (ur_id r) seen"] by auto
qed simp

definition batch_weight ::
    "(string \<Rightarrow> measures \<Rightarrow> int) \<Rightarrow> (row_key \<Rightarrow> bool) \<Rightarrow> rollup_key \<Rightarrow> measures \<Rightarrow> int" where
  "batch_weight col P k m = (if P (hourly_row k) then col (ro_billing (hourly_row k)) m else 0)"

lemma weigh_record_row:
  "weigh col P (record_row r # rows) = batch_weight col P (ur_key r) (ur_measures r) + weigh col P rows"
  by (simp add: record_row_def batch_weight_def)

lemma run_statement_Inr [simp]:
  "run_statement sql stmt ctx next = Inr x \<longleftrightarrow> us_refuses sql stmt = None \<and> next = Inr x"
  by (auto simp: run_statement_def split: option.splits)

context additive_column
begin

lemma weigh_batch_entry:
  assumes "om_wf rollups"
    and "old = (case om_get rollups k of Some m \<Rightarrow> m | None \<Rightarrow> measures_default)"
  shows "keyed_sum (batch_weight col P) (om_insert k (add_measures old x) rollups) =
    keyed_sum (batch_weight col P) rollups + batch_weight col P k x"
proof -
  have "keyed_sum (batch_weight col P) (om_insert k (add_measures old x) rollups) =
      keyed_sum (batch_weight col P) rollups + batch_weight col P k (add_measures old x)
      - (case om_get rollups k of None \<Rightarrow> 0 | Some w \<Rightarrow> batch_weight col P k w)"
    by (rule keyed_sum_update) (simp_all add: assms(1) om_wf_distinct)
  then show ?thesis
    by (auto simp: assms(2) batch_weight_def additive split: option.splits)
qed

lemma weigh_store_rollups:
  "store_rollups sql ks rows = Inr rows' \<Longrightarrow> distinct (map fst rows) \<Longrightarrow>
   weigh col P rows' = weigh col P rows + keyed_sum (batch_weight col P) ks"
proof (induction ks arbitrary: rows)
  case (Cons entry ks)
  obtain k m where e: "entry = (k, m)" by (cases entry)
  with Cons.prems obtain rows1 where u: "upsert (hourly_row k) m rows = Some rows1"
    and r: "store_rollups sql ks rows1 = Inr rows'"
    by (auto split: option.splits)
  show ?case
    using Cons.IH [OF r upsert_distinct [OF u Cons.prems(2)]] weigh_upsert [OF u Cons.prems(2)]
    by (simp add: e batch_weight_def)
qed simp

end

text \<open>While a batch holds no more than its limit of records, no sum saturates.\<close>

definition batch_ok :: "nat \<Rightarrow> (rollup_key \<times> measures) list \<Rightarrow> bool" where
  "batch_ok i rollups \<longleftrightarrow>
     om_wf rollups \<and> (\<forall>entry \<in> set rollups. measures_within (int i * record_limit) (snd entry))"

definition add_record :: "usage_record \<Rightarrow> (rollup_key \<times> measures) list \<Rightarrow> (rollup_key \<times> measures) list" where
  "add_record r rollups =
     om_insert (ur_key r)
       (measures_add (case om_get rollups (ur_key r) of Some m \<Rightarrow> m | None \<Rightarrow> measures_default)
         (ur_measures r)) rollups"

lemma add_record_step:
  assumes ok: "batch_ok i rollups" and valid: "valid_record r" and room: "Suc i \<le> batch_limit"
  shows "batch_ok (Suc i) (add_record r rollups)"
    and "fst ` set (add_record r rollups) \<subseteq> insert (ur_key r) (fst ` set rollups)"
    and "additive_column col \<Longrightarrow>
      keyed_sum (batch_weight col P) (add_record r rollups) =
      keyed_sum (batch_weight col P) rollups + batch_weight col P (ur_key r) (ur_measures r)"
proof -
  define old where "old = (case om_get rollups (ur_key r) of Some m \<Rightarrow> m | None \<Rightarrow> measures_default)"
  have old: "measures_within (int i * record_limit) old"
  proof (cases "om_get rollups (ur_key r)")
    case None
    then show ?thesis by (simp add: old_def measures_within_def measures_default_def record_limit_def)
  next
    case (Some m)
    with ok show ?thesis by (fastforce simp: old_def batch_ok_def dest: map_of_SomeD)
  qed
  have bound: "int i * record_limit + record_limit \<le> i64_max"
    using room by (simp add: batch_limit_def record_limit_def i64_max_def)
  have exact: "measures_add old (ur_measures r) = add_measures old (ur_measures r)"
    and within: "measures_within (int (Suc i) * record_limit) (add_measures old (ur_measures r))"
    using measures_add_exact [OF old _ bound, of "ur_measures r"] valid
    by (simp_all add: valid_record_def algebra_simps)
  have eq: "add_record r rollups = om_insert (ur_key r) (add_measures old (ur_measures r)) rollups"
    by (simp add: add_record_def old_def [symmetric] exact)
  have sub: "set (add_record r rollups) \<subseteq> insert (ur_key r, add_measures old (ur_measures r)) (set rollups)"
    unfolding eq by (rule set_om_insert)
  then show "fst ` set (add_record r rollups) \<subseteq> insert (ur_key r) (fst ` set rollups)"
    by auto
  have wider: "measures_within (int (Suc i) * record_limit) m" if "measures_within (int i * record_limit) m" for m
    using that by (auto simp: measures_within_def record_limit_def)
  show "batch_ok (Suc i) (add_record r rollups)"
    unfolding batch_ok_def
  proof (intro conjI ballI)
    show "om_wf (add_record r rollups)" using ok by (simp add: eq batch_ok_def)
    fix entry assume "entry \<in> set (add_record r rollups)"
    with sub consider "snd entry = add_measures old (ur_measures r)" | "entry \<in> set rollups" by force
    then show "measures_within (int (Suc i) * record_limit) (snd entry)"
    proof cases
      case 2
      with ok show ?thesis by (intro wider) (simp add: batch_ok_def)
    qed (simp add: within del: of_nat_Suc)
  qed
  show "additive_column col \<Longrightarrow>
      keyed_sum (batch_weight col P) (add_record r rollups) =
      keyed_sum (batch_weight col P) rollups + batch_weight col P (ur_key r) (ur_measures r)"
    unfolding eq using ok old_def by (intro additive_column.weigh_batch_entry) (auto simp: batch_ok_def)
qed

text \<open>The receipts and the batch after a run over the records.\<close>

lemma store_receipts_batch:
  assumes "store_receipts sql t rs receipts rollups n = Inr (receipts', rollups', n')"
    and "batch_ok i rollups" and "\<forall>r \<in> set rs. valid_record r" and "i + length rs \<le> batch_limit"
    and "fresh = fresh_records (fst ` set receipts) rs"
  shows "receipts' = receipts @ map (\<lambda>r. (ur_id r, t)) fresh \<and> n' = n + length fresh
    \<and> batch_ok (i + length fresh) rollups'
    \<and> fst ` set rollups' \<subseteq> fst ` set rollups \<union> ur_key ` set fresh
    \<and> (additive_column col \<longrightarrow>
          keyed_sum (batch_weight col P) rollups' =
          keyed_sum (batch_weight col P) rollups + weigh col P (map record_row fresh))"
  using assms
proof (induction rs arbitrary: receipts rollups n i fresh)
  case Nil
  then show ?case by simp
next
  case (Cons r rs)
  show ?case
  proof (cases "map_of receipts (ur_id r)")
    case (Some t')
    then have seen: "ur_id r \<in> fst ` set receipts"
      by (force dest: map_of_SomeD)
    have "store_receipts sql t rs receipts rollups n = Inr (receipts', rollups', n')"
      using Cons.prems(1) Some by simp
    moreover have "fresh = fresh_records (fst ` set receipts) rs"
      using Cons.prems(5) seen by simp
    ultimately show ?thesis
      using Cons.IH Cons.prems(2,3,4) by simp
  next
    case None
    then have new: "ur_id r \<notin> fst ` set receipts"
      by (simp add: map_of_eq_None_iff)
    have run: "store_receipts sql t rs (receipts @ [(ur_id r, t)]) (add_record r rollups) (n + 1)
        = Inr (receipts', rollups', n')"
      using Cons.prems(1) None by (simp add: add_record_def Let_def)
    obtain rest where rest: "fresh = r # rest"
      "rest = fresh_records (fst ` set (receipts @ [(ur_id r, t)])) rs"
      using Cons.prems(5) new by simp
    have step: "valid_record r" "Suc i \<le> batch_limit"
      using Cons.prems(3,4) by simp_all
    note added = add_record_step [OF Cons.prems(2) step]
    have IH: "receipts' = (receipts @ [(ur_id r, t)]) @ map (\<lambda>r. (ur_id r, t)) rest
        \<and> n' = n + 1 + length rest \<and> batch_ok (Suc i + length rest) rollups'
        \<and> fst ` set rollups' \<subseteq> fst ` set (add_record r rollups) \<union> ur_key ` set rest
        \<and> (additive_column col \<longrightarrow>
          keyed_sum (batch_weight col P) rollups' =
          keyed_sum (batch_weight col P) (add_record r rollups) + weigh col P (map record_row rest))"
      using Cons.prems(3,4) by (intro Cons.IH [OF run added(1) _ _ rest(2)]) auto
    then have "fst ` set rollups' \<subseteq> fst ` set (add_record r rollups) \<union> ur_key ` set rest"
      by blast
    with added(2) have "fst ` set rollups' \<subseteq> fst ` set rollups \<union> ur_key ` set fresh"
      unfolding rest(1) by (simp only: list.simps image_insert) blast
    then show ?thesis
      using IH added(3) [of col P] by (simp add: rest(1) weigh_record_row)
  qed
qed

lemma store_rollups_ok:
  "store_rollups sql ks rows = Inr rows' \<Longrightarrow> distinct (map fst rows) \<Longrightarrow>
   \<forall>row \<in> set rows. row_ok row \<Longrightarrow> \<forall>(k, m) \<in> set ks. row_ok (hourly_row k, m) \<Longrightarrow>
   distinct (map fst rows') \<and> (\<forall>row \<in> set rows'. row_ok row)"
proof (induction ks arbitrary: rows)
  case (Cons entry ks)
  obtain k m where e: "entry = (k, m)" by (cases entry)
  with Cons.prems obtain rows1 where u: "upsert (hourly_row k) m rows = Some rows1"
    and r: "store_rollups sql ks rows1 = Inr rows'"
    by (auto split: option.splits)
  have "\<forall>row \<in> set rows1. row_ok row"
    using Cons.prems e by (intro upsert_row_ok [OF u]) auto
  then show ?case
    using Cons.prems(4) by (intro Cons.IH [OF r upsert_distinct [OF u Cons.prems(2)]]) auto
qed simp

text \<open>
  What a successful batch does to the tables: one receipt and one row's worth of every measure for
  each record that was not stored yet, and nothing else.
\<close>

lemma ingest_adds:
  assumes ok: "ledger_ok db" and run: "ingest sql db rs t = (Inr n, db')"
    and valid: "\<forall>r \<in> set rs. valid_record r" and small: "length rs \<le> batch_limit"
    and fresh: "fresh = fresh_records (fst ` set (ud_receipts db)) rs"
  shows "ledger_ok db'" and "n = length fresh"
    and "ud_receipts db' = ud_receipts db @ map (\<lambda>r. (ur_id r, t)) fresh"
    and "additive_column col \<Longrightarrow>
      weigh col P (ud_rollups db') = weigh col P (ud_rollups db) + weigh col P (map record_row fresh)"
proof -
  have all: "ledger_ok db' \<and> n = length fresh
    \<and> ud_receipts db' = ud_receipts db @ map (\<lambda>r. (ur_id r, t)) fresh
    \<and> (additive_column col \<longrightarrow>
      weigh col P (ud_rollups db') = weigh col P (ud_rollups db) + weigh col P (map record_row fresh))"
  proof (cases "rs = []")
    case True
    with run fresh ok show ?thesis by (simp add: ingest_def)
  next
    case False
    with run obtain receipts rollups rows
      where s: "store_receipts sql t rs (ud_receipts db) [] 0 = Inr (receipts, rollups, n)"
        and r: "store_rollups sql rollups (ud_rollups db) = Inr rows"
        and db': "db' = \<lparr>ud_receipts = receipts, ud_rollups = rows\<rparr>"
      by (auto simp: ingest_def split: sum.splits prod.splits)
    have batch: "batch_ok 0 []" by (simp add: batch_ok_def)
    note b = store_receipts_batch [OF s batch valid _ fresh, of col P]
    have room: "0 + length rs \<le> batch_limit" using small by simp
    note b = b [OF room]
    have rollups_ok: "\<forall>(k, m) \<in> set rollups. row_ok (hourly_row k, m)"
    proof clarify
      fix k m assume km: "(k, m) \<in> set rollups"
      then have "k \<in> ur_key ` set fresh" and "measures_nonneg m"
        using b by (force, auto simp: batch_ok_def dest!: measures_within_nonneg)
      moreover have "\<forall>r \<in> set fresh. valid_record r"
        using fresh_records_subset valid fresh by blast
      ultimately show "row_ok (hourly_row k, m)"
        by (auto simp: row_ok_def key_ok_def hourly_row_def valid_record_def)
    qed
    have d: "distinct (map fst (ud_rollups db))" "\<forall>row \<in> set (ud_rollups db). row_ok row"
      "distinct (map fst (ud_receipts db))"
      using ok by (simp_all add: ledger_ok_def)
    have "distinct (map fst receipts)"
      using b d(3) fresh_records_new [of "fst ` set (ud_receipts db)" rs] fresh
      by (auto simp: comp_def)
    then show ?thesis
      using b store_rollups_ok [OF r d(1,2) rollups_ok] additive_column.weigh_store_rollups [OF _ r d(1)]
      by (simp add: ledger_ok_def db')
  qed
  show "ledger_ok db'" "n = length fresh"
    "ud_receipts db' = ud_receipts db @ map (\<lambda>r. (ur_id r, t)) fresh"
    using all by simp_all
  show "additive_column col \<Longrightarrow>
      weigh col P (ud_rollups db') = weigh col P (ud_rollups db) + weigh col P (map record_row fresh)"
    using all by simp
qed

section \<open>Compaction\<close>

definition old_key :: "int \<Rightarrow> row_key \<Rightarrow> bool" where
  "old_key before k \<longleftrightarrow> ro_bucket_seconds k = 3600 \<and> ro_bucket_start k < before"

definition expired_key :: "int \<Rightarrow> row_key \<Rightarrow> bool" where
  "expired_key t k \<longleftrightarrow> ro_bucket_seconds k = 86400 \<and> ro_bucket_start k < t - DAILY_RETENTION"

lemma old_hours_key: "old_hours before = (\<lambda>row. old_key before (fst row))"
  by (simp add: fun_eq_iff old_hours_def old_key_def)

lemma daily_row_start:
  "key_ok k \<Longrightarrow> ro_bucket_start (daily_row k) = ro_bucket_start k div DAY * DAY"
  by (simp add: daily_row_def sql_div_def key_ok_def usage_seconds)

lemma daily_row_ok: "key_ok k \<Longrightarrow> key_ok (daily_row k)"
  by (auto simp: daily_row_def sql_div_def key_ok_def usage_seconds pos_imp_zdiv_nonneg_iff)

lemma not_old_daily [simp]: "\<not> old_key before (daily_row k)"
  by (simp add: old_key_def daily_row_def)

text \<open>A bound on UTC midnight, or one past the compacted hours, does not split a day.\<close>

definition whole_days :: "int \<Rightarrow> int \<Rightarrow> bool" where
  "whole_days before t \<longleftrightarrow> t mod DAY = 0 \<or> before \<le> t"

lemma daily_row_side:
  assumes "key_ok k" and "old_key before k" and "whole_days before t"
  shows "ro_bucket_start (daily_row k) < t \<longleftrightarrow> ro_bucket_start k < t"
proof -
  have day: "0 < DAY" by (simp add: usage_seconds)
  note fl = floor_multiple [OF day, of "ro_bucket_start k"]
  show ?thesis
  proof (cases "before \<le> t")
    case True
    with assms(2) fl show ?thesis
      by (auto simp: old_key_def daily_row_start [OF assms(1)])
  next
    case False
    with assms(3) have t: "t = t div DAY * DAY" by (auto simp: whole_days_def)
    have "ro_bucket_start k div DAY * DAY < t div DAY * DAY \<longleftrightarrow> ro_bucket_start k < t div DAY * DAY"
      using day by (simp add: quotient_less_iff mult_less_cancel_right)
    with t show ?thesis by (simp add: daily_row_start [OF assms(1)])
  qed
qed

lemma day_groups_keys: "fst ` set (day_groups rows) = daily_row ` fst ` set rows"
  by (auto simp: day_groups_def image_image)

lemma upsert_all_distinct:
  "upsert_all new rows = Some rows' \<Longrightarrow> distinct (map fst rows) \<Longrightarrow> distinct (map fst rows')"
  by (induction new arbitrary: rows) (auto split: option.splits, metis upsert_distinct)

lemma upsert_all_row_ok:
  "upsert_all new rows = Some rows' \<Longrightarrow> distinct (map fst rows) \<Longrightarrow> \<forall>row \<in> set new. row_ok row \<Longrightarrow>
   \<forall>row \<in> set rows. row_ok row \<Longrightarrow> \<forall>row \<in> set rows'. row_ok row"
proof (induction new arbitrary: rows)
  case (Cons entry new)
  obtain k m where e: "entry = (k, m)" by (cases entry)
  with Cons.prems obtain rows1 where u: "upsert k m rows = Some rows1" and r: "upsert_all new rows1 = Some rows'"
    by (auto split: option.splits)
  have "\<forall>row \<in> set rows1. row_ok row"
    using Cons.prems e by (intro upsert_row_ok [OF u]) auto
  then show ?case
    using Cons.prems(3) by (intro Cons.IH [OF r upsert_distinct [OF u Cons.prems(2)]]) auto
qed simp

text \<open>Rows whose keys a statement does not name stay where they are.\<close>

lemma filter_update: "\<not> P k \<Longrightarrow> filter (\<lambda>row. P (fst row)) (AList.update k m rows) = filter (\<lambda>row. P (fst row)) rows"
  by (induction rows) auto

lemma filter_upsert:
  "upsert k m rows = Some rows' \<Longrightarrow> \<not> P k \<Longrightarrow>
   filter (\<lambda>row. P (fst row)) rows' = filter (\<lambda>row. P (fst row)) rows"
  by (auto simp: upsert_def filter_update split: option.splits if_splits)

lemma filter_upsert_all:
  "upsert_all new rows = Some rows' \<Longrightarrow> (\<And>k. k \<in> fst ` set new \<Longrightarrow> \<not> P k) \<Longrightarrow>
   filter (\<lambda>row. P (fst row)) rows' = filter (\<lambda>row. P (fst row)) rows"
proof (induction new arbitrary: rows)
  case (Cons entry new)
  obtain k m where e: "entry = (k, m)" by (cases entry)
  with Cons.prems obtain rows1 where u: "upsert k m rows = Some rows1" and r: "upsert_all new rows1 = Some rows'"
    by (auto split: option.splits)
  show ?case
    using Cons.IH [OF r] filter_upsert [OF u] Cons.prems(2) by (simp add: e)
qed simp

context additive_column
begin

lemma weigh_compact_rows:
  assumes "compact_rows before rows = Some rows1" and "distinct (map fst rows)"
    and side: "\<And>row. row \<in> set rows \<Longrightarrow> old_key before (fst row) \<Longrightarrow> P (daily_row (fst row)) = P (fst row)"
  shows "weigh col P (filter (Not \<circ> old_hours before) rows1) = weigh col P rows"
proof -
  let ?old = "filter (\<lambda>row. old_key before (fst row)) rows"
  have "upsert_all (day_groups ?old) rows = Some rows1"
    using assms(1) by (auto simp: compact_rows_def Let_def old_hours_key split: if_splits)
  from weigh_upsert_all [OF this assms(2)]
  have "weigh col (\<lambda>k. P k \<and> \<not> old_key before k) rows1 =
      weigh col (\<lambda>k. P k \<and> \<not> old_key before k) rows + weigh col (\<lambda>k. P (daily_row k)) ?old"
    by (simp add: weigh_day_groups)
  also have "weigh col (\<lambda>k. P (daily_row k)) ?old = weigh col P ?old"
    using side by (intro weigh_cong) auto
  also have "\<dots> = weigh col (\<lambda>k. P k \<and> old_key before k) rows"
    by (rule weigh_filter)
  finally show ?thesis
    using weigh_filter [of col P "\<lambda>k. \<not> old_key before k" rows1]
      weigh_split [of col P rows "old_key before"]
    by (simp add: old_hours_key comp_def)
qed

end

text \<open>
  The tables after a maintenance run: as they were, or with the old hours compacted, and then
  perhaps without the expired days and receipts.
\<close>

lemma compact_outcome:
  assumes "compact sql db t = (r, db')"
  obtains (unchanged) e where "r = Inl e" "db' = db"
  | (compacted) rows keep receipts where
      "compact_rows (hourly_before t) (ud_rollups db) = Some rows"
      "ud_receipts db' = receipts
       \<and> ud_rollups db' = filter (\<lambda>row. keep (fst row)) (filter (Not \<circ> old_hours (hourly_before t)) rows)"
      "keep = (\<lambda>k. True) \<or> keep = (\<lambda>k. \<not> expired_key t k)"
      "receipts = ud_receipts db
       \<or> receipts = filter (\<lambda>(i, since). \<not> since < t - RECEIPT_RETENTION) (ud_receipts db)"
      "r = Inr () \<longrightarrow> keep = (\<lambda>k. \<not> expired_key t k)
        \<and> receipts = filter (\<lambda>(i, since). \<not> since < t - RECEIPT_RETENTION) (ud_receipts db)"
proof (cases "run_statement sql BeginTransaction []
             (run_statement sql CompactHours [''compact hourly usage into days'']
               (case compact_rows (hourly_before t) (ud_rollups db) of
                  None \<Rightarrow> Inl [''compact hourly usage into days'', us_overflow sql]
                | Some rows \<Rightarrow>
                    run_statement sql DeleteHours [''delete compacted hourly usage'']
                      (run_statement sql Commit []
                        (Inr (db\<lparr>ud_rollups := filter (Not \<circ> old_hours (hourly_before t)) rows\<rparr>)))))")
  case (Inl e)
  with assms have "r = Inl e" and "db' = db"
    unfolding compact_def Inl by simp_all
  then show thesis by (rule unchanged)
next
  case (Inr db1)
  then obtain rows where rows: "compact_rows (hourly_before t) (ud_rollups db) = Some rows"
    and db1: "db1 = db\<lparr>ud_rollups := filter (Not \<circ> old_hours (hourly_before t)) rows\<rparr>"
    by (auto split: option.splits)
  have expired: "(\<lambda>(k, m). \<not> (ro_bucket_seconds k = 86400 \<and> ro_bucket_start k < t - DAILY_RETENTION))
      = (\<lambda>row. \<not> expired_key t (fst row))"
    by (auto simp: fun_eq_iff expired_key_def)
  note body = assms [unfolded compact_def Inr sum.case Let_def expired]
  show thesis
  proof (cases "us_refuses sql DeleteDays")
    case (Some e)
    with body db1 show thesis
      by (intro compacted [OF rows, where keep = "\<lambda>k. True" and receipts = "ud_receipts db"]) (auto simp: comp_def)
  next
    case None
    show thesis
    proof (cases "us_refuses sql DeleteReceipts")
      case (Some e)
      with body None db1 show thesis
        by (intro compacted [OF rows, where keep = "\<lambda>k. \<not> expired_key t k" and receipts = "ud_receipts db"]) auto
    next
      case refused: None
      with body None db1 show thesis
        by (intro compacted [OF rows, where keep = "\<lambda>k. \<not> expired_key t k"
              and receipts = "filter (\<lambda>(i, since). \<not> since < t - RECEIPT_RETENTION) (ud_receipts db)"]) auto
    qed
  qed
qed

lemma compact_rows_ok:
  assumes "compact_rows before rows = Some rows1" and "distinct (map fst rows)"
    and "\<forall>row \<in> set rows. row_ok row"
  shows "distinct (map fst rows1)" and "\<forall>row \<in> set rows1. row_ok row"
proof -
  have u: "upsert_all (day_groups (filter (old_hours before) rows)) rows = Some rows1"
    using assms(1) by (auto simp: compact_rows_def Let_def split: if_splits)
  have "\<forall>row \<in> set (day_groups (filter (old_hours before) rows)). row_ok row"
    using assms(3)
    by (fastforce simp: day_groups_def row_ok_def intro!: daily_row_ok measures_nonneg_sum)
  then show "\<forall>row \<in> set rows1. row_ok row"
    using upsert_all_row_ok [OF u assms(2)] assms(3) by blast
  show "distinct (map fst rows1)"
    using upsert_all_distinct [OF u assms(2)] .
qed

lemma distinct_map_filter: "distinct (map f xs) \<Longrightarrow> distinct (map f (filter P xs))"
  by (induction xs) auto

lemma compact_ledger_ok:
  assumes "ledger_ok db" and "compact sql db t = (r, db')"
  shows "ledger_ok db'"
  using assms(2)
proof (cases rule: compact_outcome)
  case (unchanged e)
  with assms(1) show ?thesis by simp
next
  case (compacted rows keep receipts)
  have db: "distinct (map fst (ud_receipts db))" "distinct (map fst (ud_rollups db))"
    "\<forall>row \<in> set (ud_rollups db). row_ok row"
    using assms(1) unfolding ledger_ok_def by blast+
  note rows = compact_rows_ok [OF compacted(1) db(2,3)]
  have "distinct (map fst (ud_receipts db'))"
    using compacted(2,4) db(1) distinct_map_filter by metis
  moreover have "distinct (map fst (ud_rollups db'))"
    using compacted(2) rows(1) distinct_map_filter by metis
  moreover have "\<forall>row \<in> set (ud_rollups db'). row_ok row"
    using compacted(2) rows(2) by simp
  ultimately show ?thesis
    unfolding ledger_ok_def by blast
qed

text \<open>Every sum over whole days that have not expired is what it was.\<close>

lemma compact_keeps_totals:
  assumes ok: "ledger_ok db" and run: "compact sql db t = (r, db')"
    and days: "whole_days (hourly_before t) start" "whole_days (hourly_before t) finish"
    and kept: "t - DAILY_RETENTION \<le> start"
  shows "totals_of (selected db' start finish f) = totals_of (selected db start finish f)"
proof (rule totals_eqI)
  fix c
  let ?P = "conditions start finish f"
  have columns: "column_of d (daily_row k) = column_of d k" for d k
    by (cases d) (simp_all add: daily_row_def)
  have side: "?P (daily_row (fst row)) = ?P (fst row)"
    if "row \<in> set (ud_rollups db)" and "old_key (hourly_before t) (fst row)" for row
  proof -
    have "key_ok (fst row)" using ok that(1) by (auto simp: ledger_ok_def row_ok_def)
    from daily_row_side [OF this that(2)] days show ?thesis
      by (auto simp: conditions_def columns not_less [symmetric])
  qed
  have "weigh (column_measure c) ?P (ud_rollups db') = weigh (column_measure c) ?P (ud_rollups db)"
    using run
  proof (cases rule: compact_outcome)
    case (compacted rows keep receipts)
    have d: "distinct (map fst (ud_rollups db))" using ok by (simp add: ledger_ok_def)
    have "weigh (column_measure c) ?P (ud_rollups db')
        = weigh (column_measure c) (\<lambda>k. ?P k \<and> keep k) (filter (Not \<circ> old_hours (hourly_before t)) rows)"
      by (simp only: compacted(2) weigh_filter)
    also have "\<dots> = weigh (column_measure c) ?P (filter (Not \<circ> old_hours (hourly_before t)) rows)"
      using compacted(3) kept by (intro weigh_cong) (auto simp: conditions_def expired_key_def)
    also have "\<dots> = weigh (column_measure c) ?P (ud_rollups db)"
      by (rule column.weigh_compact_rows [OF compacted(1) d side])
    finally show ?thesis .
  qed simp
  then show "total_at c (totals_of (selected db' start finish f)) = total_at c (totals_of (selected db start finish f))"
    by (simp add: selected_def totals_of_selected)
qed

text \<open>Past the compacted hours not even a row changes.\<close>

lemma compact_keeps_rows:
  assumes ok: "ledger_ok db" and run: "compact sql db t = (r, db')"
    and past: "hourly_before t \<le> start" "t - DAILY_RETENTION \<le> start"
  shows "selected db' start finish f = selected db start finish f"
  using run
proof (cases rule: compact_outcome)
  case (compacted rows keep receipts)
  let ?P = "conditions start finish f"
  let ?new = "day_groups (filter (old_hours (hourly_before t)) (ud_rollups db))"
  have u: "upsert_all ?new (ud_rollups db) = Some rows"
    using compacted(1) by (auto simp: compact_rows_def Let_def split: if_splits)
  have "\<not> ?P k" if new: "k \<in> fst ` set ?new" for k
  proof -
    obtain row where row: "row \<in> set (ud_rollups db)" "old_key (hourly_before t) (fst row)"
      and k: "k = daily_row (fst row)"
      using new unfolding day_groups_keys old_hours_key image_image by auto
    have "key_ok (fst row)" using ok row(1) by (auto simp: ledger_ok_def row_ok_def)
    from daily_row_side [OF this row(2), of "hourly_before t"] row(2) past(1)
    show ?thesis by (auto simp: k conditions_def whole_days_def old_key_def)
  qed
  from filter_upsert_all [OF u this]
  have "filter (\<lambda>row. ?P (fst row)) rows = filter (\<lambda>row. ?P (fst row)) (ud_rollups db)" .
  moreover have "filter (\<lambda>row. ?P (fst row)) (ud_rollups db') = filter (\<lambda>row. ?P (fst row)) rows"
    using compacted(3) past
    by (auto simp: compacted(2) old_hours_key old_key_def expired_key_def conditions_def intro!: filter_cong)
  ultimately show ?thesis by (simp add: selected_def)
qed simp

end
