(* ===== verification/Usage_Report.thy ===== *)
theory Usage_Report
  imports Usage_Ledger
begin

text \<open>
  Usage reports (\<^verbatim>\<open>crates/usage/src/report.rs\<close>): the report of the administration pages and the
  report of one device, both from the store's queries. The current time is an argument. The
  theorems: maintenance never shows in a report, and a report is consistent in itself.
\<close>

section \<open>Definitions\<close>

definition MAX_BREAKDOWN_ROWS :: nat where
  "MAX_BREAKDOWN_ROWS = 200"

datatype usage_error = InvalidQuery string | Storage anyhow

text \<open>The operator \<^verbatim>\<open>?\<close>: on the store's errors through \<^verbatim>\<open>From\<close>, on the crate's own as they are.\<close>

fun stored :: "anyhow + 'a \<Rightarrow> ('a \<Rightarrow> usage_error + 'b) \<Rightarrow> usage_error + 'b" where
  "stored (Inl e) next = Inl (Storage e)"
| "stored (Inr x) next = next x"

fun check_query :: "usage_error + 'a \<Rightarrow> ('a \<Rightarrow> usage_error + 'b) \<Rightarrow> usage_error + 'b" where
  "check_query (Inl e) next = Inl e"
| "check_query (Inr x) next = next x"

record usage_query =
  uq_range :: "string option"
  uq_by :: "string option"
  uq_utc_offset_minutes :: "int option"
  uq_user :: "string option"
  uq_device :: "string option"
  uq_tool :: "string option"
  uq_provider :: "string option"
  uq_model :: "string option"

record usage_filter_option =
  fo_key :: string
  fo_label :: "string option"

record usage_filter_options =
  fos_user :: "usage_filter_option list"
  fos_device :: "usage_filter_option list"

record usage_breakdown_row =
  br_key :: string
  br_label :: "string option"
  br_totals :: model_usage_totals

record usage_report =
  rp_enabled :: bool
  rp_range :: string
  rp_from_unix_seconds :: int
  rp_to_unix_seconds :: int
  rp_bucket_seconds :: int
  rp_totals :: model_usage_totals
  rp_previous_totals :: model_usage_totals
  rp_active_users :: nat
  rp_active_devices :: nat
  rp_buckets :: "(nat \<times> model_usage_totals) list"
  rp_breakdowns :: "(string \<times> usage_breakdown_row list) list"
  rp_filter_options :: usage_filter_options

text \<open>\<^verbatim>\<open>if let Some((_, bucket)) = ...\<close>: the bucket the rollup falls in, if there is one.\<close>

definition add_rollup ::
    "window \<Rightarrow> int \<times> totals \<Rightarrow> (int \<times> totals) list \<Rightarrow> (int \<times> totals) list" where
  "add_rollup w rollup bs =
     (case bucket_index w (fst rollup) of
        None \<Rightarrow> bs
      | Some i \<Rightarrow>
          if i < length bs then bs[i := (fst (bs ! i), totals_add (snd (bs ! i)) (snd rollup))] else bs)"

definition buckets :: "window \<Rightarrow> (int \<times> totals) list \<Rightarrow> (int \<times> totals) list" where
  "buckets w rollups =
     fold (add_rollup w) rollups (map (\<lambda>i. (bucket_start w i, totals_default)) [0..<bucket_count w])"

text \<open>The comparison of \<^verbatim>\<open>ranked\<close>: the larger rank first, then the smaller key.\<close>

definition row_order :: "string \<times> totals \<Rightarrow> (int \<times> int \<times> int) \<times> string" where
  "row_order row = (case rank (snd row) of (cost, tokens, requests) \<Rightarrow> ((- cost, - tokens, - requests), fst row))"

definition ranked :: "(string \<times> totals) list \<Rightarrow> (string \<times> totals) list" where
  "ranked rows = take MAX_BREAKDOWN_ROWS (sort_key row_order rows)"

fun collect_dimensions :: "string list \<Rightarrow> usage_error + dimension list" where
  "collect_dimensions [] = Inr []"
| "collect_dimensions (name # names) =
     (case dimension_parse name of
        None \<Rightarrow> Inl (InvalidQuery ''unknown usage breakdown'')
      | Some d \<Rightarrow> check_query (collect_dimensions names) (\<lambda>ds. Inr (d # ds)))"

definition query_filter :: "usage_query \<Rightarrow> usage_filter" where
  "query_filter q =
     fold (\<lambda>(d, v) f. case v of Some v \<Rightarrow> filter_with f d v | None \<Rightarrow> f)
       [(User, uq_user q), (Device, uq_device q), (Tool, uq_tool q), (Provider, uq_provider q),
        (Model, uq_model q)] []"

fun collect_breakdowns ::
    "usage_sql \<Rightarrow> usage_db \<Rightarrow> usage_labels \<Rightarrow> window \<Rightarrow> usage_filter \<Rightarrow> dimension list
      \<Rightarrow> (string \<times> usage_breakdown_row list) list
      \<Rightarrow> usage_error + (string \<times> usage_breakdown_row list) list" where
  "collect_breakdowns sql db labels w f [] breakdowns = Inr breakdowns"
| "collect_breakdowns sql db labels w f (d # ds) breakdowns =
     stored (breakdown sql db (wi_start w) (wi_end w) f d) (\<lambda>rows.
       collect_breakdowns sql db labels w f ds
         (om_insert (dimension_name d)
           (map (\<lambda>(key, totals). \<lparr>br_key = key, br_label = labels_get labels d key, br_totals = to_model totals\<rparr>)
             (ranked rows)) breakdowns))"

definition options :: "usage_labels \<Rightarrow> (string \<times> totals) list \<Rightarrow> dimension \<Rightarrow> usage_filter_option list" where
  "options labels rows d =
     map (\<lambda>(key, totals). \<lparr>fo_key = key, fo_label = labels_get labels d key\<rparr>) (ranked rows)"

definition report ::
    "usage_sql \<Rightarrow> usage_db \<Rightarrow> int \<Rightarrow> usage_query \<Rightarrow> bool \<Rightarrow> usage_labels \<Rightarrow> usage_error + usage_report" where
  "report sql db now q enabled labels =
     (let period = (case uq_range q of Some r \<Rightarrow> r | None \<Rightarrow> ''7d'')
      in case preset period now (case uq_utc_offset_minutes q of Some m \<Rightarrow> m | None \<Rightarrow> 0) of
           None \<Rightarrow> Inl (InvalidQuery ''unknown usage range or UTC offset'')
         | Some w \<Rightarrow>
             check_query (collect_dimensions (filter (\<lambda>name. name \<noteq> [])
                 (split_on CHR '','' (case uq_by q of Some b \<Rightarrow> b | None \<Rightarrow> [])))) (\<lambda>dimensions.
             let f = query_filter q; previous_window = window_previous w now
             in stored (summary sql db (wi_start w) (wi_end w) f) (\<lambda>current.
                stored (summary sql db (wi_start previous_window) (wi_end previous_window) f) (\<lambda>previous.
                stored (series sql db (wi_start w) (wi_end w) f) (\<lambda>rollups.
                check_query (collect_breakdowns sql db labels w f dimensions []) (\<lambda>breakdowns.
                stored (breakdown sql db (wi_start w) (wi_end w) (filter_without f [User, Device]) User) (\<lambda>users.
                stored (breakdown sql db (wi_start w) (wi_end w) (filter_without f [Device]) Device) (\<lambda>devices.
                  Inr \<lparr>rp_enabled = enabled,
                       rp_range = period,
                       rp_from_unix_seconds = wi_start w,
                       rp_to_unix_seconds = wi_end w,
                       rp_bucket_seconds = wi_bucket_seconds w,
                       rp_totals = to_model (su_totals current),
                       rp_previous_totals = to_model (su_totals previous),
                       rp_active_users = su_users current,
                       rp_active_devices = su_devices current,
                       rp_buckets = map (\<lambda>(start, totals). (unsigned_or_0 start, to_model totals)) (buckets w rollups),
                       rp_breakdowns = breakdowns,
                       rp_filter_options =
                         \<lparr>fos_user = options labels users User, fos_device = options labels devices Device\<rparr>\<rparr>))))))))"

record device_usage_request =
  dr_range :: string
  dr_utc_offset_minutes :: int

record device_usage_response =
  du_enabled :: bool
  du_from_unix_seconds :: nat
  du_to_unix_seconds :: nat
  du_bucket_seconds :: nat
  du_totals :: fleet_usage_totals
  du_buckets :: "(nat \<times> fleet_usage_totals) list"
  du_by_tool :: "(string \<times> fleet_usage_totals) list"
  du_by_model :: "(string \<times> fleet_usage_totals) list"

definition groups :: "(string \<times> totals) list \<Rightarrow> (string \<times> fleet_usage_totals) list" where
  "groups rows = map (\<lambda>(key, totals). (key, to_proto totals)) (ranked rows)"

definition device_usage ::
    "usage_sql \<Rightarrow> usage_db \<Rightarrow> int \<Rightarrow> string option \<Rightarrow> device_usage_request \<Rightarrow> bool
      \<Rightarrow> usage_error + device_usage_response" where
  "device_usage sql db now device_id request enabled =
     (case preset (dr_range request) now (dr_utc_offset_minutes request) of
        None \<Rightarrow> Inl (InvalidQuery ''unknown usage range or UTC offset'')
      | Some w \<Rightarrow>
          (let f = (case device_id of Some d \<Rightarrow> filter_with [] Device d | None \<Rightarrow> [])
           in stored (summary sql db (wi_start w) (wi_end w) f) (\<lambda>current.
              stored (series sql db (wi_start w) (wi_end w) f) (\<lambda>rollups.
              stored (breakdown sql db (wi_start w) (wi_end w) f Tool) (\<lambda>tools.
              stored (breakdown sql db (wi_start w) (wi_end w) f Model) (\<lambda>models.
                Inr \<lparr>du_enabled = enabled,
                     du_from_unix_seconds = unsigned_or_0 (wi_start w),
                     du_to_unix_seconds = unsigned_or_0 (wi_end w),
                     du_bucket_seconds = unsigned_or_0 (wi_bucket_seconds w),
                     du_totals = to_proto (su_totals current),
                     du_buckets = map (\<lambda>(start, totals). (unsigned_or_0 start, to_proto totals)) (buckets w rollups),
                     du_by_tool = groups tools,
                     du_by_model = groups models\<rparr>))))))"

section \<open>Maintenance does not show\<close>

text \<open>Where a window lies, relative to what a maintenance run at an earlier time compacts.\<close>

lemma preset_past_compaction:
  assumes "preset period now minutes = Some w" and "t \<le> now"
  shows "hourly_before t \<le> wi_start w" and "t - DAILY_RETENTION \<le> wi_start w"
    and "hourly_before t \<le> wi_end w"
proof -
  have day: "0 < DAY" and hour: "0 < HOUR" by (simp_all add: usage_seconds)
  have before: "hourly_before t \<le> now - HOURLY_RETENTION"
    using floor_multiple [OF day, of "t - HOURLY_RETENTION"] assms(2) by (simp add: hourly_before_def)
  have start: "now - HOURLY_RETENTION < wi_start w"
    using assms(1)
  proof (cases rule: preset_cases)
    case hours
    then show ?thesis using floor_multiple [OF hour, of now] by (simp add: usage_seconds)
  next
    case (days n)
    then show ?thesis using floor_multiple [OF day, of "now + minutes * 60"]
      by (auto simp: local_day_start_def usage_seconds)
  qed
  show "hourly_before t \<le> wi_start w" using before start by linarith
  show "t - DAILY_RETENTION \<le> wi_start w" using assms(2) start by (simp add: usage_seconds)
  show "hourly_before t \<le> wi_end w"
    using before start preset_ok [OF assms(1)] by (simp add: window_ok_def)
qed

lemma previous_past_compaction:
  assumes "preset period now minutes = Some w" and "t \<le> now"
  shows "whole_days (hourly_before t) (wi_start (window_previous w now))"
    and "t - DAILY_RETENTION \<le> wi_start (window_previous w now)"
    and "wi_end (window_previous w now) = wi_start w"
proof -
  have day: "0 < DAY" by (simp add: usage_seconds)
  have before: "hourly_before t \<le> now - HOURLY_RETENTION"
    using floor_multiple [OF day, of "t - HOURLY_RETENTION"] assms(2) by (simp add: hourly_before_def)
  define start where "start = wi_start w - (wi_end w - wi_start w)"
  have start: "now - 181 * DAY \<le> start"
    using assms(1)
  proof (cases rule: preset_cases)
    case hours
    then show ?thesis using floor_multiple [of HOUR now] by (simp add: start_def usage_seconds)
  next
    case (days n)
    then show ?thesis using floor_multiple [OF day, of "now + minutes * 60"]
      by (auto simp: start_def local_day_start_def usage_seconds)
  qed
  have eq: "wi_start (window_previous w now) =
      (if start < now - HOURLY_RETENTION then (start + DAY div 2) div DAY * DAY else start)"
    by (simp add: window_previous_def start_def Let_def)
  show "whole_days (hourly_before t) (wi_start (window_previous w now))"
    using before by (auto simp: eq whole_days_def)
  show "t - DAILY_RETENTION \<le> wi_start (window_previous w now)"
    using floor_multiple [OF day, of "start + DAY div 2"] start assms(2)
    by (auto simp: eq usage_seconds)
  show "wi_end (window_previous w now) = wi_start w"
    by (simp add: window_previous_def Let_def)
qed

lemma queries_cong:
  assumes "\<And>f. selected db' start finish f = selected db start finish f"
  shows "summary sql db' start finish f = summary sql db start finish f"
    and "series sql db' start finish f = series sql db start finish f"
    and "breakdown sql db' start finish f d = breakdown sql db start finish f d"
  by (simp_all add: summary_def series_def breakdown_def assms)

lemma collect_breakdowns_cong:
  assumes "\<And>f d. breakdown sql db' (wi_start w) (wi_end w) f d = breakdown sql db (wi_start w) (wi_end w) f d"
  shows "collect_breakdowns sql db' labels w f ds acc = collect_breakdowns sql db labels w f ds acc"
  by (induction ds arbitrary: acc) (auto simp: assms)

text \<open>Only the totals of a summary count.\<close>

lemma stored_summary_totals:
  assumes "totals_of (selected db' start finish f) = totals_of (selected db start finish f)"
    and "\<And>s s'. su_totals s = su_totals s' \<Longrightarrow> next s = next s'"
  shows "stored (summary sql db' start finish f) next = stored (summary sql db start finish f) next"
proof (cases "us_refuses sql (Select ''summary'') = None \<and> totals_fit (totals_of (selected db start finish f))")
  case True
  then obtain s s' where s: "summary sql db start finish f = Inr s" "summary sql db' start finish f = Inr s'"
    and "su_totals s' = su_totals s"
    by (simp add: summary_def run_statement_def Let_def assms(1))
  then have "next s' = next s" by (intro assms(2))
  then show ?thesis by (simp add: s)
next
  case False
  then have "summary sql db' start finish f = summary sql db start finish f"
    by (auto simp: summary_def run_statement_def Let_def assms(1) split: option.splits)
  then show ?thesis by simp
qed

lemma stored_next: "(\<And>x. f x = g x) \<Longrightarrow> stored a f = stored a g"
  by (cases a) auto

lemma check_query_next: "(\<And>x. f x = g x) \<Longrightarrow> check_query a f = check_query a g"
  by (cases a) auto

lemma compaction_hidden_window:
  assumes "ledger_ok db" and "compact sql db t = (r, db')" and "t \<le> now"
    and w: "preset period now minutes = Some w"
  shows "selected db' (wi_start w) (wi_end w) f = selected db (wi_start w) (wi_end w) f"
    and "totals_of (selected db' (wi_start (window_previous w now)) (wi_end (window_previous w now)) f)
      = totals_of (selected db (wi_start (window_previous w now)) (wi_end (window_previous w now)) f)"
proof -
  note now = preset_past_compaction [OF w assms(3)]
  show "selected db' (wi_start w) (wi_end w) f = selected db (wi_start w) (wi_end w) f"
    by (rule compact_keeps_rows [OF assms(1,2) now(1,2)])
  have "whole_days (hourly_before t) (wi_end (window_previous w now))"
    using now(1) previous_past_compaction(3) [OF w assms(3)] by (simp add: whole_days_def)
  then show "totals_of (selected db' (wi_start (window_previous w now)) (wi_end (window_previous w now)) f)
      = totals_of (selected db (wi_start (window_previous w now)) (wi_end (window_previous w now)) f)"
    using previous_past_compaction [OF w assms(3)] by (intro compact_keeps_totals [OF assms(1,2)])
qed

lemma device_usage_compacted:
  assumes "ledger_ok db" and "compact sql db t = (r, db')" and "t \<le> now"
  shows "device_usage sql' db' now device_id request enabled = device_usage sql' db now device_id request enabled"
proof (cases "preset (dr_range request) now (dr_utc_offset_minutes request)")
  case None
  then show ?thesis by (simp add: device_usage_def)
next
  case (Some w)
  note same = queries_cong [OF compaction_hidden_window(1) [OF assms Some]]
  show ?thesis by (simp only: device_usage_def Some option.case same)
qed

lemma report_compacted:
  assumes "ledger_ok db" and "compact sql db t = (r, db')" and "t \<le> now"
  shows "report sql' db' now q enabled labels = report sql' db now q enabled labels"
proof (cases "preset (case uq_range q of Some r \<Rightarrow> r | None \<Rightarrow> ''7d'') now
    (case uq_utc_offset_minutes q of Some m \<Rightarrow> m | None \<Rightarrow> 0)")
  case None
  then show ?thesis unfolding report_def Let_def by (simp only: option.case)
next
  case (Some w)
  note same = queries_cong [OF compaction_hidden_window(1) [OF assms Some]]
  note previous = stored_summary_totals [OF compaction_hidden_window(2) [OF assms Some]]
  show ?thesis
    unfolding report_def Let_def Some option.case same collect_breakdowns_cong [OF same(3)]
    by (rule check_query_next, rule stored_next, rule previous) simp
qed

section \<open>Buckets\<close>

lemma total_at_add: "total_at c (totals_add t u) = saturating_add (total_at c t) (total_at c u)"
  by (cases c) (simp_all add: totals_add_def)

lemma total_at_default [simp]: "total_at c totals_default = 0"
  by (cases c) (simp_all add: totals_default_def)

lemma add_rollup_nth:
  "length (add_rollup w rollup bs) = length bs"
  "i < length bs \<Longrightarrow> add_rollup w rollup bs ! i =
    (if bucket_index w (fst rollup) = Some i then (fst (bs ! i), totals_add (snd (bs ! i)) (snd rollup)) else bs ! i)"
  by (auto simp: add_rollup_def split: option.splits)

definition bucket_share :: "window \<Rightarrow> nat \<Rightarrow> total_column \<Rightarrow> (int \<times> totals) list \<Rightarrow> int" where
  "bucket_share w i c rollups =
     (\<Sum>rollup \<leftarrow> rollups. if bucket_index w (fst rollup) = Some i then total_at c (snd rollup) else 0)"

lemma bucket_share_nonneg:
  "(\<And>rollup. rollup \<in> set rollups \<Longrightarrow> 0 \<le> total_at c (snd rollup)) \<Longrightarrow> 0 \<le> bucket_share w i c rollups"
  unfolding bucket_share_def by (rule sum_list_nonneg) auto

text \<open>As long as the sums fit, every bucket gains exactly its share.\<close>

lemma fold_add_rollup:
  assumes "\<And>rollup c. rollup \<in> set rollups \<Longrightarrow> 0 \<le> total_at c (snd rollup)"
    and "\<And>c. 0 \<le> total_at c (snd (bs ! i))"
    and "\<And>c. total_at c (snd (bs ! i)) + bucket_share w i c rollups \<le> i64_max"
    and "i < length bs"
  shows "length (fold (add_rollup w) rollups bs) = length bs
    \<and> fst (fold (add_rollup w) rollups bs ! i) = fst (bs ! i)
    \<and> total_at c (snd (fold (add_rollup w) rollups bs ! i)) =
        total_at c (snd (bs ! i)) + bucket_share w i c rollups"
  using assms
proof (induction rollups arbitrary: bs)
  case Nil
  then show ?case by (simp add: bucket_share_def)
next
  case (Cons rollup rollups)
  let ?bs = "add_rollup w rollup bs"
  let ?x = "\<lambda>c. if bucket_index w (fst rollup) = Some i then total_at c (snd rollup) else 0"
  have share: "bucket_share w i c (rollup # rollups) = ?x c + bucket_share w i c rollups" for c
    by (simp add: bucket_share_def)
  have rest: "0 \<le> bucket_share w i c rollups" for c
    using Cons.prems(1) by (intro bucket_share_nonneg) auto
  have x: "0 \<le> ?x c" for c
    using Cons.prems(1) [of rollup c] by simp
  have step: "total_at c (snd (?bs ! i)) = total_at c (snd (bs ! i)) + ?x c" for c
  proof -
    have "in_i64 (total_at c (snd (bs ! i)) + ?x c)"
      using Cons.prems(2,3) [of c] rest [of c] x [of c] by (simp add: share in_i64_def i64_min_def)
    then show ?thesis
      using Cons.prems(4) by (auto simp: add_rollup_nth total_at_add saturating_add_exact)
  qed
  have "length (fold (add_rollup w) rollups ?bs) = length ?bs
    \<and> fst (fold (add_rollup w) rollups ?bs ! i) = fst (?bs ! i)
    \<and> total_at c (snd (fold (add_rollup w) rollups ?bs ! i)) =
        total_at c (snd (?bs ! i)) + bucket_share w i c rollups"
  proof (rule Cons.IH)
    show "0 \<le> total_at c (snd (?bs ! i))" for c
      using Cons.prems(2) [of c] x [of c] by (simp add: step)
    show "total_at c (snd (?bs ! i)) + bucket_share w i c rollups \<le> i64_max" for c
      using Cons.prems(3) [of c] by (simp add: step share)
    show "i < length ?bs" using Cons.prems(4) by (simp add: add_rollup_nth)
  qed (use Cons.prems(1) in auto)
  moreover have "fst (?bs ! i) = fst (bs ! i)"
    using Cons.prems(4) by (simp add: add_rollup_nth)
  ultimately show ?case by (simp add: step share add_rollup_nth)
qed

text \<open>The share of a bucket in the store's series is the usage stored in its interval.\<close>

lemma grouped_share:
  assumes "g = (\<lambda>k. bucket_index w (ro_bucket_start k) = Some i)"
    and "distinct ks" and "(ro_bucket_start \<circ> fst) ` set rows \<subseteq> set ks"
  shows "bucket_share w i c (grouped ro_bucket_start ks rows) =
    total_at c (totals_of (filter (\<lambda>row. g (fst row)) rows))"
proof -
  let ?f = "\<lambda>row. if g (fst row) then column_measure c (ro_billing (fst row)) (snd row) else 0"
  have "bucket_share w i c (grouped ro_bucket_start ks rows) =
      (\<Sum>s \<leftarrow> ks. \<Sum>row \<leftarrow> filter (\<lambda>row. (ro_bucket_start \<circ> fst) row = s) rows. ?f row)"
    unfolding bucket_share_def grouped_def map_map
  proof (rule arg_cong [where f = sum_list], rule map_cong)
    fix s
    show "((\<lambda>rollup. if bucket_index w (fst rollup) = Some i then total_at c (snd rollup) else 0)
        \<circ> (\<lambda>k. (k, totals_of (filter (\<lambda>row. ro_bucket_start (fst row) = k) rows)))) s
      = (\<Sum>row \<leftarrow> filter (\<lambda>row. (ro_bucket_start \<circ> fst) row = s) rows. ?f row)"
      by (induction rows) (auto simp: totals_of_column assms(1))
  qed simp
  also have "\<dots> = (\<Sum>row \<leftarrow> rows. ?f row)"
    using assms(2,3) by (rule sum_by_groups)
  also have "\<dots> = total_at c (totals_of (filter (\<lambda>row. g (fst row)) rows))"
    by (simp add: totals_of_column sum_list_map_filter')
  finally show ?thesis .
qed

lemma selected_interval:
  assumes "window_ok w" and "i < bucket_count w"
  shows "filter (\<lambda>row. bucket_index w (ro_bucket_start (fst row)) = Some i) (selected db (wi_start w) (wi_end w) f)
    = selected db (bucket_start w i) (bucket_start w (Suc i)) f"
  unfolding selected_def filter_filter
proof (rule filter_cong [OF refl])
  fix row :: rollup_row
  show "(conditions (wi_start w) (wi_end w) f (fst row) \<and> bucket_index w (ro_bucket_start (fst row)) = Some i)
      = conditions (bucket_start w i) (bucket_start w (Suc i)) f (fst row)"
    using bucket_interval_inside [OF assms, of "ro_bucket_start (fst row)"]
    by (auto simp: conditions_def bucket_index_interval [OF assms])
qed

lemma totals_of_nonneg:
  "\<forall>row \<in> set rows. row_ok row \<Longrightarrow> 0 \<le> total_at c (totals_of rows)"
  unfolding totals_of_column by (rule sum_list_nonneg) (auto simp: row_ok_def column_measure_nonneg)

lemma selected_ok: "ledger_ok db \<Longrightarrow> \<forall>row \<in> set (selected db start finish f). row_ok row"
  by (auto simp: ledger_ok_def selected_def)

lemma totals_of_filter_le:
  assumes "\<forall>row \<in> set rows. row_ok row"
  shows "total_at c (totals_of (filter P rows)) \<le> total_at c (totals_of rows)"
  using assms unfolding totals_of_column
  by (induction rows) (auto simp: row_ok_def column_measure_nonneg intro: order_trans)

lemma series_rollups:
  assumes "series sql db start finish f = Inr rollups"
  shows "rollups = grouped ro_bucket_start (sort (remdups (map (ro_bucket_start \<circ> fst) (selected db start finish f))))
    (selected db start finish f)"
  using assms by (auto simp: series_def group_rows_def Let_def split: if_splits)

lemma buckets_exact:
  assumes db: "ledger_ok db" and w: "window_ok w"
    and run: "series sql db (wi_start w) (wi_end w) f = Inr rollups"
    and fit: "totals_fit (totals_of (selected db (wi_start w) (wi_end w) f))"
  shows "buckets w rollups =
    map (\<lambda>i. (bucket_start w i, totals_of (selected db (bucket_start w i) (bucket_start w (Suc i)) f)))
      [0..<bucket_count w]"
proof -
  let ?rows = "selected db (wi_start w) (wi_end w) f"
  let ?bs = "map (\<lambda>i. (bucket_start w i, totals_default)) [0..<bucket_count w]"
  note rollups = series_rollups [OF run]
  have nonneg: "0 \<le> total_at c (snd rollup)" if "rollup \<in> set rollups" for rollup c
    using that selected_ok [OF db] by (auto simp: rollups grouped_def intro!: totals_of_nonneg)
  have share: "bucket_share w i c rollups
      = total_at c (totals_of (selected db (bucket_start w i) (bucket_start w (Suc i)) f))"
    if "i < bucket_count w" for i c
    unfolding rollups selected_interval [OF w that, symmetric] by (rule grouped_share) auto
  have le: "total_at c (totals_of (selected db (bucket_start w i) (bucket_start w (Suc i)) f)) \<le> i64_max"
    if "i < bucket_count w" for i c
    unfolding selected_interval [OF w that, symmetric]
    using totals_of_filter_le [OF selected_ok [OF db]] fit [unfolded totals_fit_iff, rule_format, of c]
    unfolding in_i64_def by (meson order_trans)
  have fold: "length (fold (add_rollup w) rollups ?bs) = length ?bs
      \<and> fst (fold (add_rollup w) rollups ?bs ! i) = bucket_start w i
      \<and> total_at c (snd (fold (add_rollup w) rollups ?bs ! i))
        = total_at c (totals_of (selected db (bucket_start w i) (bucket_start w (Suc i)) f))"
    if i: "i < bucket_count w" for i c
    using fold_add_rollup [of rollups ?bs i w c] i nonneg share [OF i] le [OF i] by simp
  have "bucket_count w \<noteq> 0"
    using w window_end [OF w] by (cases "bucket_count w") (auto simp: window_ok_def bucket_start_def)
  then have "length (fold (add_rollup w) rollups ?bs) = bucket_count w"
    using fold [of 0] by simp
  then show ?thesis
    unfolding buckets_def using fold
    by (intro nth_equalityI) (auto simp: prod_eq_iff intro!: totals_eqI)
qed

lemma selected_split:
  assumes "a \<le> b" and "b \<le> e"
  shows "total_at c (totals_of (selected db a e f)) =
    total_at c (totals_of (selected db a b f)) + total_at c (totals_of (selected db b e f))"
proof -
  have "weigh (column_measure c) (conditions a e f) rows =
      weigh (column_measure c) (conditions a b f) rows + weigh (column_measure c) (conditions b e f) rows" for rows
    using assms by (induction rows) (auto simp: conditions_def)
  then show ?thesis by (simp add: selected_def totals_of_selected)
qed

text \<open>The buckets of a window add up to the window.\<close>

lemma buckets_sum:
  assumes "window_ok w"
  shows "(\<Sum>i \<leftarrow> [0..<bucket_count w].
      total_at c (totals_of (selected db (bucket_start w i) (bucket_start w (Suc i)) f)))
    = total_at c (totals_of (selected db (wi_start w) (wi_end w) f))"
proof -
  have d: "0 < wi_bucket_seconds w" and e: "wi_end w = bucket_start w (bucket_count w)"
    using window_end [OF assms] by simp_all
  have "(\<Sum>i \<leftarrow> [0..<n]. total_at c (totals_of (selected db (bucket_start w i) (bucket_start w (Suc i)) f)))
      = total_at c (totals_of (selected db (wi_start w) (bucket_start w n) f))" for n
  proof (induction n)
    case 0
    have "selected db (wi_start w) (bucket_start w 0) f = []"
      by (auto simp: selected_def conditions_def bucket_start_def filter_empty_conv)
    then show ?case by (simp add: totals_of_column)
  next
    case (Suc n)
    have "wi_start w \<le> bucket_start w n" and "bucket_start w n \<le> bucket_start w (Suc n)"
      using d by (auto simp: bucket_start_def distrib_right)
    from selected_split [OF this] show ?case by (simp add: Suc)
  qed
  then show ?thesis by (simp add: e)
qed

section \<open>A device's report\<close>

primrec proto_at :: "total_column \<Rightarrow> fleet_usage_totals \<Rightarrow> int" where
  "proto_at Requests t = int (ft_requests t)"
| "proto_at Errors t = int (ft_errors t)"
| "proto_at InputTokens t = int (ft_input_tokens t)"
| "proto_at OutputTokens t = int (ft_output_tokens t)"
| "proto_at CacheReadTokens t = int (ft_cache_read_tokens t)"
| "proto_at CacheWriteTokens t = int (ft_cache_write_tokens t)"
| "proto_at CostNanos t = ft_cost_nanos t"
| "proto_at SubscriptionCostNanos t = ft_subscription_cost_nanos t"
| "proto_at SubscriptionRequests t = int (ft_subscription_requests t)"
| "proto_at UnpricedRequests t = int (ft_unpriced_requests t)"

lemma proto_at_to_proto: "0 \<le> total_at c t \<Longrightarrow> proto_at c (to_proto t) = total_at c t"
  by (cases c) (simp_all add: to_proto_def unsigned_or_0_def)

definition device_filter :: "string option \<Rightarrow> usage_filter" where
  "device_filter device_id = (case device_id of Some d \<Rightarrow> filter_with [] Device d | None \<Rightarrow> [])"

lemma breakdown_groups:
  assumes "breakdown sql db start finish f d = Inr rows"
  shows "rows = grouped (column_of d) (remdups (map (column_of d \<circ> fst) (selected db start finish f)))
    (selected db start finish f)"
  using assms by (auto simp: breakdown_def group_rows_def Let_def split: if_splits)

text \<open>A breakdown that was not cut off adds up to the period's totals.\<close>

lemma groups_sum:
  assumes db: "ledger_ok db" and run: "breakdown sql db start finish f d = Inr rows"
    and whole: "length (groups rows) < MAX_BREAKDOWN_ROWS"
  shows "(\<Sum>row \<leftarrow> groups rows. proto_at c (snd row)) = total_at c (totals_of (selected db start finish f))"
proof -
  let ?rows = "selected db start finish f"
  have "length (ranked rows) = min (length rows) MAX_BREAKDOWN_ROWS"
    by (simp add: ranked_def)
  with whole have all: "ranked rows = sort_key row_order rows"
    by (simp add: groups_def ranked_def)
  have nonneg: "0 \<le> total_at c (snd row)" if "row \<in> set rows" for row
    using that selected_ok [OF db] unfolding breakdown_groups [OF run] grouped_def
    by (auto intro!: totals_of_nonneg)
  have "(\<Sum>row \<leftarrow> groups rows. proto_at c (snd row)) = (\<Sum>row \<leftarrow> sort_key row_order rows. total_at c (snd row))"
    unfolding groups_def all map_map
    by (rule arg_cong [where f = sum_list], rule map_cong [OF refl])
      (simp add: split_def proto_at_to_proto nonneg)
  also have "\<dots> = (\<Sum>row \<leftarrow> rows. total_at c (snd row))"
    by (simp only: sum_mset_sum_list [symmetric] mset_map mset_sort)
  also have "\<dots> = (\<Sum>k \<leftarrow> remdups (map (column_of d \<circ> fst) ?rows).
      \<Sum>row \<leftarrow> filter (\<lambda>row. (column_of d \<circ> fst) row = k) ?rows. column_measure c (ro_billing (fst row)) (snd row))"
    unfolding breakdown_groups [OF run] grouped_def map_map by (simp add: comp_def totals_of_column)
  also have "\<dots> = total_at c (totals_of ?rows)"
    unfolding totals_of_column by (rule sum_by_groups) auto
  finally show ?thesis .
qed

lemma summary_totals:
  assumes "summary sql db start finish f = Inr s"
  shows "su_totals s = totals_of (selected db start finish f) \<and> totals_fit (totals_of (selected db start finish f))"
  using assms by (auto simp: summary_def Let_def split: if_splits)

lemma stored_Inr: "stored a f = Inr x \<longleftrightarrow> (\<exists>y. a = Inr y \<and> f y = Inr x)"
  by (cases a) auto

text \<open>
  C37. A device's usage report is exact and consistent. On well-formed tables, if the report is
  returned then its buckets are the buckets of the requested window in order, each with exactly the
  usage stored in its interval for that device; every one of the ten totals is the sum over the
  buckets; and a breakdown by tool or by model that is not cut off at 200 rows adds up to the same
  totals.
\<close>

theorem device_usage_consistent:
  assumes "ledger_ok db" and "device_usage sql db now device_id request enabled = Inr response"
  shows "\<exists>w. preset (dr_range request) now (dr_utc_offset_minutes request) = Some w
    \<and> du_buckets response =
        map (\<lambda>i. (nat (bucket_start w i),
              to_proto (totals_of (selected db (bucket_start w i) (bucket_start w (Suc i)) (device_filter device_id)))))
          [0..<bucket_count w]
    \<and> (\<forall>c. (\<Sum>bucket \<leftarrow> du_buckets response. proto_at c (snd bucket)) = proto_at c (du_totals response))
    \<and> (length (du_by_tool response) < 200 \<longrightarrow>
        (\<forall>c. (\<Sum>row \<leftarrow> du_by_tool response. proto_at c (snd row)) = proto_at c (du_totals response)))
    \<and> (length (du_by_model response) < 200 \<longrightarrow>
        (\<forall>c. (\<Sum>row \<leftarrow> du_by_model response. proto_at c (snd row)) = proto_at c (du_totals response)))"
proof -
  let ?f = "device_filter device_id"
  obtain w where w: "preset (dr_range request) now (dr_utc_offset_minutes request) = Some w"
    using assms(2) by (auto simp: device_usage_def split: option.splits)
  obtain current rollups tools models
    where run: "summary sql db (wi_start w) (wi_end w) ?f = Inr current"
      "series sql db (wi_start w) (wi_end w) ?f = Inr rollups"
      "breakdown sql db (wi_start w) (wi_end w) ?f Tool = Inr tools"
      "breakdown sql db (wi_start w) (wi_end w) ?f Model = Inr models"
      and r: "du_totals response = to_proto (su_totals current)"
      "du_buckets response = map (\<lambda>(start, totals). (unsigned_or_0 start, to_proto totals)) (buckets w rollups)"
      "du_by_tool response = groups tools" "du_by_model response = groups models"
    using assms(2) unfolding device_usage_def w option.case Let_def device_filter_def [symmetric] stored_Inr
    by auto
  note ok = preset_ok [OF w] and current = summary_totals [OF run(1)]
  note bs = buckets_exact [OF assms(1) ok run(2) conjunct2 [OF current]]
  have totals: "proto_at c (du_totals response) = total_at c (totals_of (selected db (wi_start w) (wi_end w) ?f))" for c
    using current totals_of_nonneg [OF selected_ok [OF assms(1)]] by (simp add: r(1) proto_at_to_proto)
  have buckets: "du_buckets response =
        map (\<lambda>i. (nat (bucket_start w i),
              to_proto (totals_of (selected db (bucket_start w i) (bucket_start w (Suc i)) ?f))))
          [0..<bucket_count w]"
    by (simp add: r(2) bs unsigned_or_0_def comp_def)
  have "(\<Sum>bucket \<leftarrow> du_buckets response. proto_at c (snd bucket)) = proto_at c (du_totals response)" for c
    unfolding totals buckets_sum [OF ok, symmetric]
    by (simp add: buckets comp_def proto_at_to_proto totals_of_nonneg [OF selected_ok [OF assms(1)]])
  with w buckets show ?thesis
    using groups_sum [OF assms(1) run(3)] groups_sum [OF assms(1) run(4)]
    by (auto simp: r(3,4) totals MAX_BREAKDOWN_ROWS_def)
qed

section \<open>A small ledger\<close>

definition demo_sql :: usage_sql where
  "demo_sql = \<lparr>us_refuses = (\<lambda>_. None), us_overflow = ''integer out of range''\<rparr>"

definition demo_measures :: measures where
  "demo_measures = measures_default\<lparr>me_requests := 1, me_input_tokens := 10, me_cost_nanos := 5\<rparr>"

definition demo_row :: "int \<Rightarrow> string \<Rightarrow> rollup_row" where
  "demo_row start tool = (RowKey start 3600 ''ann'' ''dev'' tool ''openai'' ''gpt'' ''api'', demo_measures)"

definition demo_ledger :: usage_db where
  "demo_ledger =
     \<lparr>ud_receipts = [(''a'', 0), (''b'', 8640000)],
      ud_rollups = [demo_row 0 ''codex'', demo_row 3600 ''codex'', demo_row 8636400 ''codex'', demo_row 8636400 ''pi'']\<rparr>"

lemmas demo_defs = demo_sql_def demo_measures_def demo_row_def demo_ledger_def measures_default_def

lemma demo_ledger_ok: "ledger_ok demo_ledger"
  by (simp add: demo_defs ledger_ok_def row_ok_def key_ok_def measures_nonneg_def usage_seconds)

lemma demo_device_usage:
  "\<exists>response. device_usage demo_sql demo_ledger 8640000 (Some ''dev'') \<lparr>dr_range = ''24h'', dr_utc_offset_minutes = 0\<rparr> True
     = Inr response \<and> ft_requests (du_totals response) = 2"
  by (simp add: device_usage_def preset_def MAX_UTC_OFFSET_MINUTES_def usage_seconds summary_def series_def
      breakdown_def run_statement_def group_rows_def grouped_def Let_def demo_defs selected_def conditions_def
      filter_with_def totals_of_def sum_of_def subscription_row_def totals_fit_def in_i64_def i64_min_def
      i64_max_def to_proto_def unsigned_or_0_def)

theorem device_usage_consistent_witness:
  "\<exists>response w. device_usage demo_sql demo_ledger 8640000 (Some ''dev'')
      \<lparr>dr_range = ''24h'', dr_utc_offset_minutes = 0\<rparr> True = Inr response
    \<and> ft_requests (du_totals response) = 2 \<and> preset ''24h'' 8640000 0 = Some w
    \<and> length (du_buckets response) = bucket_count w
    \<and> (\<Sum>bucket \<leftarrow> du_buckets response. proto_at Requests (snd bucket)) = 2"
proof -
  obtain response where run: "device_usage demo_sql demo_ledger 8640000 (Some ''dev'')
      \<lparr>dr_range = ''24h'', dr_utc_offset_minutes = 0\<rparr> True = Inr response"
    and two: "ft_requests (du_totals response) = 2"
    using demo_device_usage by blast
  note consistent = device_usage_consistent [OF demo_ledger_ok run]
  have "\<exists>w. preset ''24h'' 8640000 0 = Some w \<and> length (du_buckets response) = bucket_count w"
    using consistent by auto
  moreover have "(\<Sum>bucket \<leftarrow> du_buckets response. proto_at Requests (snd bucket)) = proto_at Requests (du_totals response)"
    using consistent by blast
  ultimately show ?thesis
    using run two by auto
qed

text \<open>
  C36. Maintenance does not show in a report. On well-formed tables, whatever a maintenance run at
  an earlier time did (compacted hours into days, expired old days and receipts, or failed on the
  way), the tables are still well formed, and every later report for the administration pages
  or for a device (totals, previous totals, buckets, breakdowns, filter options or error) is the
  report the tables before the run give.
\<close>

theorem compaction_keeps_reports:
  assumes "ledger_ok db" and "compact sql db t = (r, db')" and "t \<le> now"
  shows "ledger_ok db'
    \<and> report sql' db' now query enabled labels = report sql' db now query enabled labels
    \<and> device_usage sql' db' now device_id request enabled = device_usage sql' db now device_id request enabled"
  using compact_ledger_ok [OF assms(1,2)] report_compacted [OF assms] device_usage_compacted [OF assms] by simp

lemma demo_compaction:
  "compact demo_sql demo_ledger 8640000 =
     (Inr (), \<lparr>ud_receipts = [(''b'', 8640000)],
       ud_rollups =
         [demo_row 8636400 ''codex'', demo_row 8636400 ''pi'',
          (RowKey 0 86400 ''ann'' ''dev'' ''codex'' ''openai'' ''gpt'' ''api'', add_measures demo_measures demo_measures)]\<rparr>)"
  by (simp add: compact_def run_statement_def compact_rows_def day_groups_def old_hours_def hourly_before_def
      usage_seconds demo_defs daily_row_def sql_div_def sum_measures_def add_measures_def measures_fit_def
      in_i64_def i64_min_def i64_max_def upsert_def Let_def)

theorem compaction_keeps_reports_witness:
  "device_usage demo_sql
     \<lparr>ud_receipts = [(''b'', 8640000)],
      ud_rollups =
        [demo_row 8636400 ''codex'', demo_row 8636400 ''pi'',
         (RowKey 0 86400 ''ann'' ''dev'' ''codex'' ''openai'' ''gpt'' ''api'', add_measures demo_measures demo_measures)]\<rparr>
     8640000 (Some ''dev'') \<lparr>dr_range = ''90d'', dr_utc_offset_minutes = 60\<rparr> True
   = device_usage demo_sql demo_ledger 8640000 (Some ''dev'') \<lparr>dr_range = ''90d'', dr_utc_offset_minutes = 60\<rparr> True"
  using compaction_keeps_reports [OF demo_ledger_ok demo_compaction order_refl] by blast

end
