(* ===== verification/Json.thy ===== *)
theory Json
  imports Ordered_Map
begin

text \<open>
  The JSON documents that the providers build and merge: \<^verbatim>\<open>serde_json::Value\<close> as a data type,
  with the accessors the sources call. The workspace builds \<^verbatim>\<open>serde_json\<close> without its
  \<^verbatim>\<open>preserve_order\<close> feature, so an object is a \<^verbatim>\<open>BTreeMap<String, Value>\<close>: an ordered map
  (theory \<open>Ordered_Map\<close>), and equality of values is structural. A finite double is represented
  by its value, which is what \<^verbatim>\<open>==\<close> compares.
\<close>

datatype number = PosInt "64 word" | NegInt int | Float rat

datatype json =
    Null
  | Bool bool
  | Number number
  | String string
  | Array "json list"
  | Object "(string \<times> json) list"

type_synonym entries = "(string \<times> json) list"

text \<open>A well-formed value: in every object, at every depth, the keys are in strict order.\<close>

fun json_wf :: "json \<Rightarrow> bool" where
  "json_wf (Array xs) = list_all json_wf xs"
| "json_wf (Object m) = (om_wf m \<and> list_all (\<lambda>(k, v). json_wf v) m)"
| "json_wf _ = True"

definition entries_wf :: "entries \<Rightarrow> bool" where
  "entries_wf m \<longleftrightarrow> om_wf m \<and> list_all (\<lambda>(k, v). json_wf v) m"

declare json_wf.simps(2) [simp del]

lemma json_wf_Object [simp]: "json_wf (Object m) = entries_wf m"
  by (simp add: entries_wf_def json_wf.simps(2))

lemma entries_wf_om [simp, dest]: "entries_wf m \<Longrightarrow> om_wf m"
  by (simp add: entries_wf_def)

lemma entries_wf_Nil [simp]: "entries_wf []"
  by (simp add: entries_wf_def)

lemma entries_wf_Cons:
  "entries_wf ((k, v) # m) \<longleftrightarrow> om_wf ((k, v) # m) \<and> json_wf v \<and> entries_wf m"
  by (auto simp: entries_wf_def om_wf_Cons)

lemma entries_wf_mem: "entries_wf m \<Longrightarrow> (k, v) \<in> set m \<Longrightarrow> json_wf v"
  by (auto simp: list_all_iff entries_wf_def)

lemma entries_wf_get: "entries_wf m \<Longrightarrow> om_get m k = Some v \<Longrightarrow> json_wf v"
  by (auto dest!: map_of_SomeD intro: entries_wf_mem)

lemma entries_wf_insert [simp]: "entries_wf m \<Longrightarrow> json_wf v \<Longrightarrow> entries_wf (om_insert k v m)"
  using set_om_insert [of k v m] by (fastforce simp: list_all_iff entries_wf_def)

lemma entries_wf_remove [simp]: "entries_wf m \<Longrightarrow> entries_wf (om_remove k m)"
  using set_om_remove [of k m] by (auto simp: list_all_iff entries_wf_def)

lemma entries_wf_ext: "entries_wf m \<Longrightarrow> entries_wf n \<Longrightarrow> om_get m = om_get n \<Longrightarrow> m = n"
  by (auto intro: om_ext)

section \<open>Accessors\<close>

fun is_object :: "json \<Rightarrow> bool" where
  "is_object (Object m) = True"
| "is_object _ = False"

fun is_array :: "json \<Rightarrow> bool" where
  "is_array (Array xs) = True"
| "is_array _ = False"

fun as_object :: "json \<Rightarrow> entries option" where
  "as_object (Object m) = Some m"
| "as_object _ = None"

fun as_array :: "json \<Rightarrow> json list option" where
  "as_array (Array xs) = Some xs"
| "as_array _ = None"

fun as_str :: "json \<Rightarrow> string option" where
  "as_str (String s) = Some s"
| "as_str _ = None"

fun as_bool :: "json \<Rightarrow> bool option" where
  "as_bool (Bool b) = Some b"
| "as_bool _ = None"

text \<open>\<^verbatim>\<open>Value::get(&str)\<close>.\<close>

fun get_field :: "json \<Rightarrow> string \<Rightarrow> json option" where
  "get_field (Object m) k = om_get m k"
| "get_field _ k = None"

text \<open>
  \<^verbatim>\<open>Value::pointer\<close> and \<^verbatim>\<open>Value::pointer_mut\<close> on a JSON pointer given as its reference tokens
  (RFC 6901): a token names an object's key or, in decimal, an array's index.
\<close>

fun digits_value :: "nat \<Rightarrow> string \<Rightarrow> nat option" where
  "digits_value acc [] = Some acc"
| "digits_value acc (c # cs) =
     (if is_ascii_digit c then digits_value (10 * acc + (of_char c - 48)) cs else None)"

definition parse_index :: "string \<Rightarrow> nat option" where
  "parse_index s =
     (if s = [] \<or> (hd s = CHR ''0'' \<and> length s \<noteq> 1) then None else digits_value 0 s)"

fun pointer_step :: "json \<Rightarrow> string \<Rightarrow> json option" where
  "pointer_step (Object m) t = om_get m t"
| "pointer_step (Array xs) t =
     (case parse_index t of None \<Rightarrow> None | Some i \<Rightarrow> if i < length xs then Some (xs ! i) else None)"
| "pointer_step _ t = None"

fun pointer :: "json \<Rightarrow> string list \<Rightarrow> json option" where
  "pointer v [] = Some v"
| "pointer v (t # ts) =
     (case pointer_step v t of None \<Rightarrow> None | Some w \<Rightarrow> pointer w ts)"

fun put_step :: "json \<Rightarrow> string \<Rightarrow> json \<Rightarrow> json" where
  "put_step (Object m) t w = Object (om_insert t w m)"
| "put_step (Array xs) t w =
     (case parse_index t of None \<Rightarrow> Array xs | Some i \<Rightarrow> Array (xs[i := w]))"
| "put_step v t w = v"

text \<open>The value with what the pointer names, if it names something, replaced.\<close>

fun pointer_put :: "json \<Rightarrow> string list \<Rightarrow> json \<Rightarrow> json" where
  "pointer_put v [] w = w"
| "pointer_put v (t # ts) w =
     (case pointer_step v t of None \<Rightarrow> v | Some x \<Rightarrow> put_step v t (pointer_put x ts w))"

lemma pointer_step_wf: "json_wf v \<Longrightarrow> pointer_step v t = Some w \<Longrightarrow> json_wf w"
  by (cases "(v, t)" rule: pointer_step.cases)
    (auto dest: entries_wf_get simp: list_all_iff split: option.splits if_splits)

lemma put_step_wf:
  assumes "json_wf v" and "json_wf w"
  shows "json_wf (put_step v t w)"
proof (cases v)
  case (Object m)
  with assms show ?thesis by simp
next
  case (Array xs)
  with assms show ?thesis
    by (auto simp: list_all_iff split: option.splits dest: set_update_subsetI dest!: subsetD [OF set_update_subset_insert])
qed (use assms in simp_all)

lemma pointer_put_wf: "json_wf v \<Longrightarrow> json_wf w \<Longrightarrow> json_wf (pointer_put v ts w)"
  by (induction v ts w rule: pointer_put.induct)
    (auto split: option.splits intro: put_step_wf dest: pointer_step_wf)

lemma pointer_put_absent: "pointer v ts = None \<Longrightarrow> json_wf v \<Longrightarrow> pointer_put v ts w = v"
proof (induction v ts w rule: pointer_put.induct)
  case (2 v t ts w)
  show ?case
  proof (cases "pointer_step v t")
    case (Some x)
    with 2 have x: "pointer_put x ts w = x"
      by (auto dest: pointer_step_wf)
    have "put_step v t x = v"
    proof (cases v)
      case (Object m)
      with Some 2(3) show ?thesis by (simp add: om.insert_same)
    next
      case (Array xs)
      with Some show ?thesis by (auto split: option.splits if_splits)
    qed (use Some in simp_all)
    with Some x show ?thesis by simp
  qed simp
qed simp

section \<open>Sizes, for the recursions over nested values\<close>

definition entries_size :: "entries \<Rightarrow> nat" where
  "entries_size m = size_list (size_prod (\<lambda>_. 0) size) m"

lemma entries_size_simps [simp]:
  "entries_size [] = 0"
  "entries_size ((k, v) # m) = size v + entries_size m + 2"
  by (simp_all add: entries_size_def)

lemma size_Object [simp]: "size (Object m) = Suc (entries_size m)"
  by (simp add: entries_size_def)

lemma entries_size_get: "om_get m k = Some v \<Longrightarrow> size v < entries_size m"
  by (induction m) (auto split: if_splits)

declare json.size(12) [simp del]

lemma entries_size_mem [termination_simp]: "(k, v) \<in> set m \<Longrightarrow> size v < Suc (entries_size m)"
  by (induction m) auto

end
