(* ===== verification/Os_Model.thy ===== *)
theory Os_Model
  imports Ordered_Map Utf8
begin

unbundle bit_operations_syntax

text \<open>
  The part of the operating system that the daemon's reconciliation uses, and
  \<^verbatim>\<open>crates/agent/src/secure_fs.rs\<close> on top of it. Paths are \<^verbatim>\<open>std::path\<close>'s component lists. The
  state of the system holds the nodes of the file system, the process umask and the source of
  randomness; which calls the system refuses is a parameter of that state, and a refused call
  changes nothing. Symbolic links are not modelled.
\<close>

section \<open>Paths\<close>

datatype component = Prefix string | RootDir | CurDir | ParentDir | Normal string

fun component_rank :: "component \<Rightarrow> nat \<times> string" where
  "component_rank (Prefix s) = (0, s)"
| "component_rank RootDir = (1, [])"
| "component_rank CurDir = (2, [])"
| "component_rank ParentDir = (3, [])"
| "component_rank (Normal s) = (4, s)"

lemma component_rank_inject: "component_rank c = component_rank d \<longleftrightarrow> c = d"
  by (cases c; cases d) auto

text \<open>The derived order of \<^verbatim>\<open>std::path::Component\<close>; a \<^verbatim>\<open>BTreeMap<PathBuf, _>\<close> is ordered by it.\<close>

instantiation component :: linorder
begin

definition less_eq_component :: "component \<Rightarrow> component \<Rightarrow> bool" where
  "less_eq_component c d \<longleftrightarrow> component_rank c \<le> component_rank d"

definition less_component :: "component \<Rightarrow> component \<Rightarrow> bool" where
  "less_component c d \<longleftrightarrow> component_rank c < component_rank d"

instance
  by standard
    (auto simp: less_eq_component_def less_component_def component_rank_inject
      dest: order_antisym)

end

type_synonym path = "component list"

fun component_str :: "component \<Rightarrow> string" where
  "component_str (Prefix s) = s"
| "component_str RootDir = []"
| "component_str CurDir = ''.''"
| "component_str ParentDir = ''..''"
| "component_str (Normal s) = s"

text \<open>\<^verbatim>\<open>Path::display\<close>, with the Unix separator.\<close>

definition path_display :: "path \<Rightarrow> string" where
  "path_display p = (if p = [RootDir] then ''/'' else join_with ''/'' (map component_str p))"

definition path_parent :: "path \<Rightarrow> path option" where
  "path_parent p =
     (if p = [] then None
      else case last p of RootDir \<Rightarrow> None | Prefix _ \<Rightarrow> None | _ \<Rightarrow> Some (butlast p))"

definition file_name :: "path \<Rightarrow> string option" where
  "file_name p = (if p = [] then None else case last p of Normal s \<Rightarrow> Some s | _ \<Rightarrow> None)"

text \<open>\<^verbatim>\<open>path.parent().filter(non-empty).unwrap_or(".")\<close>.\<close>

definition parent_or_dot :: "path \<Rightarrow> path" where
  "parent_or_dot p =
     (case path_parent p of None \<Rightarrow> [CurDir] | Some d \<Rightarrow> if d = [] then [CurDir] else d)"

text \<open>\<^verbatim>\<open>Path::with_file_name\<close> for a name that is a single component.\<close>

definition with_file_name :: "path \<Rightarrow> string \<Rightarrow> path" where
  "with_file_name p name = (if file_name p = None then p else butlast p) @ [Normal name]"

text \<open>
  \<^verbatim>\<open>Path::is_absolute\<close> on Unix, and \<^verbatim>\<open>Path::join\<close>: an absolute path replaces the directory, and a
  leading \<open>.\<close> of a relative one is not a component of the result.
\<close>

definition is_absolute :: "path \<Rightarrow> bool" where
  "is_absolute p \<longleftrightarrow> (case p of c # _ \<Rightarrow> c = RootDir | [] \<Rightarrow> False)"

definition path_join :: "path \<Rightarrow> path \<Rightarrow> path" where
  "path_join d p =
     (if is_absolute p then p
      else if d \<noteq> [] \<and> (case p of c # _ \<Rightarrow> c = CurDir | [] \<Rightarrow> False) then d @ tl p
      else d @ p)"

section \<open>The state of the system\<close>

datatype io_kind = NotFound | AlreadyExists | InvalidData | OtherKind

datatype io_error = IoError (kind: io_kind) (io_message: string)

type_synonym mode = "32 word"

text \<open>
  A file, a directory, or something that exists and that this process cannot read (the error
  is the one \<^verbatim>\<open>fs::read\<close> returns).
\<close>

datatype node = File bytes mode | Directory mode | Unreadable io_error mode

fun node_mode :: "node \<Rightarrow> mode" where
  "node_mode (File c m) = m"
| "node_mode (Directory m) = m"
| "node_mode (Unreadable e m) = m"

datatype os_call =
    CreateDirAll path
  | Inspect path
  | Restrict path
  | OpenNew path
  | WriteAll path
  | SyncAll path
  | Rename path path
  | RemoveFile path

record os =
  os_unix :: bool
  os_umask :: mode
  os_node :: "path \<Rightarrow> node option"
  os_refuses :: "os_call \<Rightarrow> io_error option"
  os_random :: "nat \<Rightarrow> 64 word"
  os_drawn :: nat

definition set_node :: "path \<Rightarrow> node option \<Rightarrow> 'a os_scheme \<Rightarrow> 'a os_scheme" where
  "set_node p n s = s\<lparr>os_node := (os_node s)(p := n)\<rparr>"

lemma set_node_fields [simp]:
  "os_node (set_node p n s) = (os_node s)(p := n)"
  "os_unix (set_node p n s) = os_unix s"
  "os_umask (set_node p n s) = os_umask s"
  "os_refuses (set_node p n s) = os_refuses s"
  "os_random (set_node p n s) = os_random s"
  "os_drawn (set_node p n s) = os_drawn s"
  by (simp_all add: set_node_def)

definition not_found :: io_error where
  "not_found = IoError NotFound ''No such file or directory (os error 2)''"

definition fs_read :: "'a os_scheme \<Rightarrow> path \<Rightarrow> io_error + bytes" where
  "fs_read s p =
     (case os_node s p of
        None \<Rightarrow> Inl not_found
      | Some (File c m) \<Rightarrow> Inr c
      | Some (Directory m) \<Rightarrow> Inl (IoError OtherKind ''Is a directory (os error 21)'')
      | Some (Unreadable e m) \<Rightarrow> Inl e)"

definition read_to_string :: "'a os_scheme \<Rightarrow> path \<Rightarrow> io_error + string" where
  "read_to_string s p =
     (case fs_read s p of
        Inl e \<Rightarrow> Inl e
      | Inr b \<Rightarrow>
          if valid_utf8 b then Inr b
          else Inl (IoError InvalidData ''stream did not contain valid UTF-8''))"

definition fs_exists :: "'a os_scheme \<Rightarrow> path \<Rightarrow> bool" where
  "fs_exists s p \<longleftrightarrow> os_node s p \<noteq> None"

fun is_dir :: "node option \<Rightarrow> bool" where
  "is_dir (Some (Directory m)) = True"
| "is_dir _ = False"

text \<open>
  \<^verbatim>\<open>fs::create_dir_all\<close>: the missing directories among the path and its ancestors are created;
  an ancestor that is not a directory is an error.
\<close>

definition ancestors :: "path \<Rightarrow> path list" where
  "ancestors p = filter (\<lambda>q. q \<noteq> []) (prefixes p)"

definition fs_create_dir_all :: "'a os_scheme \<Rightarrow> path \<Rightarrow> 'a os_scheme \<times> (io_error + unit)" where
  "fs_create_dir_all s p =
     (case os_refuses s (CreateDirAll p) of
        Some e \<Rightarrow> (s, Inl e)
      | None \<Rightarrow>
          if list_ex (\<lambda>q. os_node s q \<noteq> None \<and> \<not> is_dir (os_node s q)) (ancestors p)
          then (s, Inl (IoError OtherKind ''Not a directory (os error 20)''))
          else
            (s\<lparr>os_node := (\<lambda>q. if os_node s q = None \<and> q \<in> set (ancestors p)
                               then Some (Directory (0x1FF AND NOT (os_umask s)))
                               else os_node s q)\<rparr>, Inr ()))"

definition fs_remove_file :: "'a os_scheme \<Rightarrow> path \<Rightarrow> 'a os_scheme \<times> (io_error + unit)" where
  "fs_remove_file s p =
     (case os_refuses s (RemoveFile p) of
        Some e \<Rightarrow> (s, Inl e)
      | None \<Rightarrow>
          (case os_node s p of
             None \<Rightarrow> (s, Inl not_found)
           | Some (Directory m) \<Rightarrow> (s, Inl (IoError OtherKind ''Is a directory (os error 21)''))
           | Some _ \<Rightarrow> (set_node p None s, Inr ())))"

section \<open>Private directories and atomic writes\<close>

text \<open>An \<^verbatim>\<open>io::Result\<close> turned into an \<^verbatim>\<open>anyhow::Result\<close> with a context line.\<close>

definition io_context :: "string \<Rightarrow> io_error + 'b \<Rightarrow> anyhow + 'b" where
  "io_context c r = (case r of Inl e \<Rightarrow> Inl [c, io_message e] | Inr x \<Rightarrow> Inr x)"

lemma io_context_simps [simp]:
  "io_context c (Inl e) = Inl [c, io_message e]"
  "io_context c (Inr x) = Inr x"
  by (simp_all add: io_context_def)

fun chmod_node :: "mode \<Rightarrow> node option \<Rightarrow> node option" where
  "chmod_node m (Some (File c m')) = Some (File c m)"
| "chmod_node m (Some (Directory m')) = Some (Directory m)"
| "chmod_node m (Some (Unreadable e m')) = Some (Unreadable e m)"
| "chmod_node m None = None"

definition ensure_private_dir :: "'a os_scheme \<Rightarrow> path \<Rightarrow> 'a os_scheme \<times> (anyhow + unit)" where
  "ensure_private_dir s p =
     (case fs_create_dir_all s p of
        (s1, Inl e) \<Rightarrow> (s1, Inl [''create private directory '' @ path_display p, io_message e])
      | (s1, Inr _) \<Rightarrow>
          (case os_refuses s1 (Inspect p) of
             Some e \<Rightarrow> (s1, Inl [''inspect private directory '' @ path_display p, io_message e])
           | None \<Rightarrow>
               if \<not> is_dir (os_node s1 p) then
                 (s1, Inl [''private directory path is not a directory: '' @ path_display p])
               else
                 (case os_refuses s1 (Restrict p) of
                    Some e \<Rightarrow>
                      (s1, Inl [if os_unix s1 then ''restrict private directory '' @ path_display p
                                else ''restrict private Windows directory'', io_message e])
                  | None \<Rightarrow>
                      (if os_unix s1 then set_node p (chmod_node 0x1C0 (os_node s1 p)) s1 else s1,
                       Inr ()))))"

definition hex_digit :: "nat \<Rightarrow> char" where
  "hex_digit d = ''0123456789abcdef'' ! (d mod 16)"

text \<open>\<^verbatim>\<open>format!("{:016x}", w)\<close>.\<close>

definition hex16 :: "64 word \<Rightarrow> string" where
  "hex16 w = map (\<lambda>i. hex_digit (unat (drop_bit (4 * i) w))) (rev [0..<16])"

definition temporary_path :: "path \<Rightarrow> string \<Rightarrow> 64 word \<Rightarrow> path" where
  "temporary_path p name r =
     parent_or_dot p @ [Normal (''.'' @ name @ ''.agentdesktop.'' @ hex16 r @ ''.tmp'')]"

text \<open>
  Filling and installing an opened temporary file: a failure at any of the three calls removes
  the temporary file again (the result of that removal is ignored).
\<close>

definition install_temporary ::
  "'a os_scheme \<Rightarrow> path \<Rightarrow> path \<Rightarrow> bytes \<Rightarrow> mode \<Rightarrow> 'a os_scheme \<times> (anyhow + unit)" where
  "install_temporary s t p contents m =
     (let cleanup = (\<lambda>s' e. (fst (fs_remove_file s' t), Inl e))
      in case os_refuses s (WriteAll t) of
        Some e \<Rightarrow> cleanup s [''write temporary file '' @ path_display t, io_message e]
      | None \<Rightarrow>
          (let s1 = set_node t (Some (File contents m)) s
           in case os_refuses s1 (SyncAll t) of
             Some e \<Rightarrow> cleanup s1 [''sync temporary file '' @ path_display t, io_message e]
           | None \<Rightarrow>
               (case os_refuses s1 (Rename t p) of
                  Some e \<Rightarrow> cleanup s1 [''install managed file at '' @ path_display p, io_message e]
                | None \<Rightarrow>
                    if is_dir (os_node s1 p) then
                      cleanup s1 [''install managed file at '' @ path_display p,
                        ''Is a directory (os error 21)'']
                    else (set_node t None (set_node p (Some (File contents m)) s1), Inr ()))))"

text \<open>The mode a created file gets: on Unix the requested one less the umask.\<close>

definition created_mode :: "'a os_scheme \<Rightarrow> mode \<Rightarrow> mode" where
  "created_mode s m = (if os_unix s then m AND NOT (os_umask s) else 0x1B6 AND NOT (os_umask s))"

lemma created_mode_frame [simp]:
  "created_mode (s\<lparr>os_drawn := d\<rparr>) m = created_mode s m"
  "created_mode (set_node p n s) m = created_mode s m"
  by (simp_all add: created_mode_def)

fun atomic_attempts ::
  "nat \<Rightarrow> 'a os_scheme \<Rightarrow> path \<Rightarrow> string \<Rightarrow> bytes \<Rightarrow> mode \<Rightarrow> 'a os_scheme \<times> (anyhow + unit)" where
  "atomic_attempts 0 s p name contents m =
     (s, Inl [''could not allocate a unique temporary file for '' @ path_display p])"
| "atomic_attempts (Suc n) s p name contents m =
     (let t = temporary_path p name (os_random s (os_drawn s));
          s1 = s\<lparr>os_drawn := Suc (os_drawn s)\<rparr>
      in case os_refuses s1 (OpenNew t) of
        Some e \<Rightarrow>
          if kind e = AlreadyExists then atomic_attempts n s1 p name contents m
          else (s1, Inl [''create temporary file '' @ path_display t, io_message e])
      | None \<Rightarrow>
          if os_node s1 t \<noteq> None then atomic_attempts n s1 p name contents m
          else
            install_temporary (set_node t (Some (File [] (created_mode s1 m))) s1)
              t p contents (created_mode s1 m))"

definition atomic_write ::
  "'a os_scheme \<Rightarrow> path \<Rightarrow> bytes \<Rightarrow> mode \<Rightarrow> 'a os_scheme \<times> (anyhow + unit)" where
  "atomic_write s p contents m =
     (case file_name p of
        None \<Rightarrow> (s, Inl [''managed path has no UTF-8 file name''])
      | Some name \<Rightarrow>
          if valid_utf8 name then atomic_attempts 16 s p name contents m
          else (s, Inl [''managed path has no UTF-8 file name'']))"

section \<open>Facts about atomic writes\<close>

lemma temporary_path_neq: "file_name p = Some name \<Longrightarrow> temporary_path p name r \<noteq> p"
proof
  assume name: "file_name p = Some name" and eq: "temporary_path p name r = p"
  from name have "p \<noteq> []" and l: "last p = Normal name"
    by (auto simp: file_name_def split: if_splits component.splits)
  from eq have "last p = last (temporary_path p name r)" by simp
  with l have "name = ''.'' @ name @ ''.agentdesktop.'' @ hex16 r @ ''.tmp''"
    by (simp add: temporary_path_def)
  then have "length name = length (''.'' @ name @ ''.agentdesktop.'' @ hex16 r @ ''.tmp'')"
    by simp
  then show False by simp
qed

text \<open>The parameters of the state, which no operation changes.\<close>

definition same_params :: "'a os_scheme \<Rightarrow> 'a os_scheme \<Rightarrow> bool" where
  "same_params s t \<longleftrightarrow>
     os_unix t = os_unix s \<and> os_umask t = os_umask s \<and> os_refuses t = os_refuses s
     \<and> os_random t = os_random s \<and> os.more t = os.more s"

lemma same_params_refl [simp]: "same_params s s"
  by (simp add: same_params_def)

lemma same_params_trans: "same_params s t \<Longrightarrow> same_params t u \<Longrightarrow> same_params s u"
  by (simp add: same_params_def)

lemma same_params_set_node [simp]:
  "same_params s (set_node p n t) \<longleftrightarrow> same_params s t"
  "same_params (set_node p n s) t \<longleftrightarrow> same_params s t"
  "same_params s (t\<lparr>os_node := f\<rparr>) \<longleftrightarrow> same_params s t"
  by (simp_all add: same_params_def set_node_def)

lemma same_params_drawn [simp]:
  "same_params (s\<lparr>os_drawn := d\<rparr>) t \<longleftrightarrow> same_params s t"
  "same_params s (t\<lparr>os_drawn := d\<rparr>) \<longleftrightarrow> same_params s t"
  by (simp_all add: same_params_def)

text \<open>
  What an operation may do to a system state short of its purpose: the nodes that exist stay
  as they are.
\<close>

definition os_extends :: "'a os_scheme \<Rightarrow> 'a os_scheme \<Rightarrow> bool" where
  "os_extends s s' \<longleftrightarrow>
     (\<forall>q n. os_node s q = Some n \<longrightarrow> os_node s' q = Some n) \<and> same_params s s'"

lemma fs_remove_file_node:
  "fs_remove_file s p = (s', r) \<Longrightarrow> same_params s s' \<and> (\<forall>q. q \<noteq> p \<longrightarrow> os_node s' q = os_node s q)"
  by (auto simp: fs_remove_file_def split: option.splits node.splits)

lemma fs_remove_file_own:
  "fs_remove_file s p = (s', r) \<Longrightarrow>
   case r of Inl e \<Rightarrow> os_node s' p = os_node s p | Inr _ \<Rightarrow> os_node s' p = None"
  by (auto simp: fs_remove_file_def split: option.splits node.splits)

lemma install_temporary_cases:
  assumes "install_temporary s t p contents m = (s', r)" and "t \<noteq> p"
  shows "(r = Inr () \<and> os_node s' = (os_node s)(p := Some (File contents m), t := None)
      \<or> (\<exists>e. r = Inl e) \<and> (\<forall>q. q \<noteq> t \<longrightarrow> os_node s' q = os_node s q))
    \<and> same_params s s'"
proof -
  have cleanup: "(\<forall>q. q \<noteq> t \<longrightarrow> os_node (fst (fs_remove_file u t)) q = os_node u q)
    \<and> same_params u (fst (fs_remove_file u t))" for u :: "'a os_scheme"
    by (cases "fs_remove_file u t") (auto dest: fs_remove_file_node)
  show ?thesis
    using assms cleanup [of s] cleanup [of "set_node t (Some (File contents m)) s"]
    by (auto simp: install_temporary_def Let_def split: option.splits if_splits)
qed

text \<open>A name that the temporary files of atomic writes have.\<close>

definition temporary_name :: "path \<Rightarrow> bool" where
  "temporary_name p \<longleftrightarrow> (case file_name p of None \<Rightarrow> False | Some name \<Rightarrow> suffix ''.tmp'' name)"

lemma temporary_path_name [simp]: "temporary_name (temporary_path p name r)"
  by (simp add: temporary_name_def temporary_path_def file_name_def suffix_def)

lemma atomic_attempts_cases:
  assumes "atomic_attempts n s p name contents m = (s', r)" and "file_name p = Some name"
  shows "(r = Inr () \<and> (\<forall>q. q \<noteq> p \<longrightarrow> os_node s' q = os_node s q)
        \<and> os_node s' p = Some (File contents (created_mode s m))
      \<or> (\<exists>e. r = Inl e) \<and> os_node s' p = os_node s p
        \<and> (\<forall>q. os_node s' q = os_node s q \<or> os_node s q = None \<and> temporary_name q))
    \<and> same_params s s'"
  using assms(1)
proof (induction n arbitrary: s)
  case 0
  then show ?case by auto
next
  case (Suc n)
  let ?t = "temporary_path p name (os_random s (os_drawn s))"
  let ?s1 = "s\<lparr>os_drawn := Suc (os_drawn s)\<rparr>"
  have tp: "?t \<noteq> p" using assms(2) by (rule temporary_path_neq)
  consider (again) "atomic_attempts n ?s1 p name contents m = (s', r)"
    | (refused) e where "s' = ?s1" "r = Inl e"
    | (opened) "os_node s ?t = None"
        "install_temporary (set_node ?t (Some (File [] (created_mode ?s1 m))) ?s1) ?t p contents
           (created_mode ?s1 m) = (s', r)"
    using Suc.prems by (auto simp: Let_def split: option.splits if_splits)
  then show ?case
  proof cases
    case again
    from Suc.IH [OF this] show ?thesis by simp
  next
    case refused
    then show ?thesis by auto
  next
    case opened
    note eff = install_temporary_cases [OF opened(2) tp]
    show ?thesis
    proof (cases r)
      case (Inl e)
      have "os_node s' q = os_node s q \<or> os_node s q = None \<and> temporary_name q" for q
        using opened(1) eff Inl by (cases "q = ?t") auto
      with Inl eff tp show ?thesis by auto
    next
      case (Inr u)
      with eff opened(1) tp show ?thesis by auto
    qed
  qed
qed

lemma atomic_write_cases:
  assumes "atomic_write s p contents m = (s', r)"
  shows "(r = Inr () \<and> (\<forall>q. q \<noteq> p \<longrightarrow> os_node s' q = os_node s q)
        \<and> os_node s' p = Some (File contents (created_mode s m))
      \<or> (\<exists>e. r = Inl e) \<and> os_node s' p = os_node s p
        \<and> (\<forall>q. os_node s' q = os_node s q \<or> os_node s q = None \<and> temporary_name q))
    \<and> same_params s s'"
proof (cases "\<exists>name. file_name p = Some name \<and> valid_utf8 name")
  case True
  then obtain name where "file_name p = Some name" "valid_utf8 name" by blast
  with assms show ?thesis
    by (intro atomic_attempts_cases [of 16 s p name contents m s' r]) (simp_all add: atomic_write_def)
next
  case False
  with assms show ?thesis by (auto simp: atomic_write_def split: option.splits)
qed

text \<open>
  C5. A managed file is replaced atomically. When the write succeeds, the file holds exactly the
  planned contents at the planned mode (less the umask) and nothing else in the file system has
  changed; when it fails, at whichever call, the target is what it was before and every other
  file is untouched.
\<close>

theorem atomic_write_all_or_nothing:
  assumes "atomic_write s p contents m = (s', r)"
  shows "(r = Inr () \<and> os_node s' = (os_node s)(p \<mapsto> File contents (created_mode s m)))
    \<or> ((\<exists>e. r = Inl e) \<and> os_node s' p = os_node s p \<and> os_extends s s')"
proof (cases r)
  case (Inl e)
  have "os_node s' q = Some n" if "os_node s q = Some n" for q n
    using atomic_write_cases [OF assms] Inl that by (metis option.distinct(1) sum.distinct(1))
  with Inl atomic_write_cases [OF assms] show ?thesis by (auto simp: os_extends_def)
next
  case (Inr u)
  with atomic_write_cases [OF assms] show ?thesis by (auto simp: fun_eq_iff)
qed

definition demo_os :: os where
  "demo_os = \<lparr>os_unix = True, os_umask = 0x12, os_node = (\<lambda>_. None), os_refuses = (\<lambda>_. None),
     os_random = (\<lambda>_. 0), os_drawn = 0\<rparr>"

theorem atomic_write_all_or_nothing_witness:
  "\<exists>s'. atomic_write demo_os [RootDir, Normal ''f''] ''x'' 0x180 = (s', Inr ())
    \<and> os_node s' = [[RootDir, Normal ''f''] \<mapsto> File ''x'' 0x180]"
proof -
  let ?r = "atomic_write demo_os [RootDir, Normal ''f''] ''x'' 0x180"
  have "snd ?r = Inr ()"
    by (simp add: atomic_write_def demo_os_def file_name_def eval_nat_numeral Let_def
        install_temporary_def is_dir.simps temporary_path_def valid_utf8.simps utf8_unit_def
        sequence_shape_def)
  moreover have "created_mode demo_os 0x180 = 0x180"
    by (simp add: created_mode_def demo_os_def)
  ultimately show ?thesis
    using atomic_write_all_or_nothing [of demo_os "[RootDir, Normal ''f'']" "''x''" "0x180" "fst ?r" "snd ?r"]
    by (auto simp: prod_eq_iff demo_os_def)
qed

end
