(* ===== verification/Config.thy ===== *)
theory Config
  imports Json Os_Model
begin

text \<open>
  \<^verbatim>\<open>crates/core/src/config.rs\<close>: the daemon's and the controller's configuration and its validation.
  Every struct is a record with the source's fields, every enum a datatype. A \<^verbatim>\<open>url::Url\<close> is the
  record of the parts the sources read; \<^verbatim>\<open>Url::parse\<close> and the YAML parsers are parameters of the
  definitions that call them. A \<^verbatim>\<open>Duration\<close> is its length in nanoseconds. The serde attributes
  (names and defaults of fields) belong to the parsers.
\<close>

section \<open>Addresses, URLs and durations\<close>

datatype ip_addr = V4 "8 word" "8 word" "8 word" "8 word" | V6 "128 word"

fun ip_is_loopback :: "ip_addr \<Rightarrow> bool" where
  "ip_is_loopback (V4 a b c d) = (a = 127)"
| "ip_is_loopback (V6 w) = (w = 1)"

record socket_addr =
  sa_ip :: ip_addr
  sa_port :: "16 word"

record url =
  url_scheme :: string
  url_username :: string
  url_password :: "string option"
  url_host :: "string option"
  url_path :: string
  url_query :: "string option"
  url_fragment :: "string option"

type_synonym duration = nat

definition from_secs :: "nat \<Rightarrow> duration" where
  "from_secs n = n * 1000000000"

section \<open>Startup settings\<close>

record tool_config_path =
  tcp_config :: "path option"

record claude_desktop_startup =
  cds_config :: "path option"
  cds_credential_helper :: "path option"

record open_code_startup =
  ocs_config :: "path option"
  ocs_plugin :: "path option"

record vscode_startup =
  vss_config :: "path option"
  vss_settings :: "path option"

record pi_startup =
  pis_models :: "path option"
  pis_settings :: "path option"

record llm_proxy_startup =
  lps_listen :: "socket_addr option"
  lps_client_id :: "string option"

record usage_startup =
  us_listen :: socket_addr
  us_token_file :: path

record daemon_startup =
  ds_user :: bool
  ds_state_dir :: "path option"
  ds_socket :: "path option"
  ds_oidc_callback_listen :: "socket_addr option"
  ds_claude_code :: tool_config_path
  ds_claude_desktop :: claude_desktop_startup
  ds_codex :: tool_config_path
  ds_open_code :: open_code_startup
  ds_grok :: tool_config_path
  ds_copilot :: tool_config_path
  ds_vscode :: vscode_startup
  ds_pi :: pi_startup
  ds_llm_proxy :: llm_proxy_startup
  ds_usage :: "usage_startup option"
  ds_reconcile_interval :: "duration option"

section \<open>Gateway, sandbox and telemetry\<close>

record sandbox_network =
  sn_allowed_domains :: "string list"

record sandbox_filesystem =
  sf_writable :: "path list"
  sf_denied :: "path list"

record sandbox_config =
  sb_network :: sandbox_network
  sb_filesystem :: sandbox_filesystem

datatype proxy_unavailable = FailClosed | FailOpen

datatype github_token_source = DeviceFlow | Request

record github_oauth_config =
  gh_source :: github_token_source
  gh_client_id :: "string option"

datatype gateway_authentication =
    ControllerJwt (jwt_audience: string) (jwt_allowed_client_ids: "string list")
  | Oidc (oidc_issuer: url) (oidc_client_id: string) (oidc_redirect_uri: string)
      (oidc_scopes: "string list") (oidc_allow_insecure: bool) (oidc_device_authorization: bool)

definition uses_credential_helper :: "gateway_authentication \<Rightarrow> bool" where
  "uses_credential_helper a = True"

record llm_gateway_config =
  gw_url :: url
  gw_authentication :: "gateway_authentication option"
  gw_proxy_url :: "url option"
  gw_github_oauth :: "github_oauth_config option"
  gw_when_proxy_unavailable :: proxy_unavailable

datatype telemetry_event = SessionNew | ToolUse | ToolUseInput

text \<open>A \<^verbatim>\<open>BTreeSet\<close> is the list of its elements in order.\<close>

record telemetry_config =
  tel_events :: "telemetry_event list"

definition collects_tool_use :: "telemetry_config \<Rightarrow> bool" where
  "collects_tool_use t \<longleftrightarrow> ToolUse \<in> set (tel_events t) \<or> ToolUseInput \<in> set (tel_events t)"

definition includes_tool_input :: "telemetry_config \<Rightarrow> bool" where
  "includes_tool_input t \<longleftrightarrow> ToolUseInput \<in> set (tel_events t)"

definition collects_session_new :: "telemetry_config \<Rightarrow> bool" where
  "collects_session_new t \<longleftrightarrow> SessionNew \<in> set (tel_events t)"

record controller_connection =
  cc_address :: string
  cc_ca_certificate_path :: "path option"
  cc_heartbeat_interval :: duration
  cc_device_authorization :: bool

section \<open>Programs\<close>

datatype program_authentication = Subscription

datatype subscription_auth = CredentialHelper | ClientPassthrough

record claude_code_config =
  ccc_use_llm_gateway :: bool
  ccc_auth :: "program_authentication option"
  ccc_settings :: entries

record claude_desktop_config =
  cdc_use_llm_gateway :: bool
  cdc_auth :: "program_authentication option"
  cdc_settings :: entries

record codex_config =
  cx_use_llm_gateway :: bool
  cx_auth :: "program_authentication option"
  cx_managed_config :: entries

datatype open_code_api = OpenaiResponses | OpenaiCompletions

record open_code_config =
  oc_use_llm_gateway :: bool
  oc_model :: "string option"
  oc_models :: entries
  oc_api :: "open_code_api option"
  oc_managed_config :: entries

record grok_config =
  gk_use_llm_gateway :: bool
  gk_model :: "string option"
  gk_models :: entries
  gk_managed_config :: entries

datatype copilot_provider = Agentdesktop | AgentdesktopAnthropic

record copilot_model =
  cm_provider :: copilot_provider
  cm_model_id :: "string option"
  cm_extra :: entries

record copilot_config =
  cp_use_llm_gateway :: bool
  cp_models :: "(string \<times> copilot_model) list"

datatype vscode_copilot_chat = OwnModels | GithubModels

record vscode_model =
  vm_name :: "string option"
  vm_tool_calling :: bool
  vm_vision :: bool
  vm_max_input_tokens :: "64 word option"
  vm_max_output_tokens :: "64 word option"
  vm_extra :: entries

record vscode_config =
  vs_use_llm_gateway :: bool
  vs_copilot_chat :: vscode_copilot_chat
  vs_models :: "(string \<times> vscode_model) list"

record pi_config =
  pi_use_llm_gateway :: bool
  pi_model :: "string option"
  pi_models :: entries
  pi_api :: "string option"
  pi_managed_config :: entries

record programs_config =
  pg_claude_code :: "claude_code_config option"
  pg_claude_desktop :: "claude_desktop_config option"
  pg_codex :: "codex_config option"
  pg_open_code :: "open_code_config option"
  pg_grok :: "grok_config option"
  pg_copilot :: "copilot_config option"
  pg_vscode :: "vscode_config option"
  pg_pi :: "pi_config option"

definition default_programs :: programs_config where
  "default_programs = \<lparr>pg_claude_code = None, pg_claude_desktop = None, pg_codex = None, pg_open_code = None,
     pg_grok = None, pg_copilot = None, pg_vscode = None, pg_pi = None\<rparr>"

definition programs_is_empty :: "programs_config \<Rightarrow> bool" where
  "programs_is_empty p \<longleftrightarrow>
     pg_claude_code p = None \<and> pg_claude_desktop p = None \<and> pg_codex p = None \<and> pg_open_code p = None
     \<and> pg_grok p = None \<and> pg_copilot p = None \<and> pg_vscode p = None \<and> pg_pi p = None"

definition program_subscription_auth :: "programs_config \<Rightarrow> string \<Rightarrow> subscription_auth option" where
  "program_subscription_auth p client_id =
     (let found = (\<lambda>auth. if auth = Some Subscription then Some CredentialHelper else None)
      in if client_id = ''claude-code'' then Option.bind (pg_claude_code p) (\<lambda>c. found (ccc_auth c))
         else if client_id = ''claude-desktop'' then Option.bind (pg_claude_desktop p) (\<lambda>c. found (cdc_auth c))
         else if client_id = ''codex'' then Option.bind (pg_codex p) (\<lambda>c. found (cx_auth c))
         else None)"

record program_selection_config =
  allow_user_choice :: bool

record daemon_config =
  dc_daemon :: "daemon_startup option"
  dc_controller :: "controller_connection option"
  dc_llm_gateway :: "llm_gateway_config option"
  dc_sandbox :: "sandbox_config option"
  dc_telemetry :: telemetry_config
  dc_programs :: programs_config
  dc_program_selection :: program_selection_config
  dc_inventory_interval :: duration

definition default_inventory_interval :: duration where
  "default_inventory_interval = from_secs (15 * 60)"

definition default_daemon_config :: daemon_config where
  "default_daemon_config = \<lparr>dc_daemon = None, dc_controller = None, dc_llm_gateway = None, dc_sandbox = None,
     dc_telemetry = \<lparr>tel_events = []\<rparr>, dc_programs = default_programs,
     dc_program_selection = \<lparr>allow_user_choice = False\<rparr>, dc_inventory_interval = default_inventory_interval\<rparr>"

definition daemon_config_is_empty :: "daemon_config \<Rightarrow> bool" where
  "daemon_config_is_empty c \<longleftrightarrow>
     dc_llm_gateway c = None \<and> dc_sandbox c = None \<and> tel_events (dc_telemetry c) = []
     \<and> programs_is_empty (dc_programs c)"

section \<open>Model documents\<close>

definition provider_name :: "copilot_provider \<Rightarrow> string" where
  "provider_name p =
     (case p of Agentdesktop \<Rightarrow> ''agentdesktop'' | AgentdesktopAnthropic \<Rightarrow> ''agentdesktop-anthropic'')"

text \<open>\<^verbatim>\<open>for (key, value) in extra { object.insert(key, value) }\<close>.\<close>

definition insert_all :: "entries \<Rightarrow> entries \<Rightarrow> entries" where
  "insert_all extra m = fold (\<lambda>(k, v). om_insert k v) extra m"

definition copilot_model_document :: "string \<Rightarrow> copilot_model \<Rightarrow> json" where
  "copilot_model_document mid model =
     Object (insert_all (cm_extra model)
       (om_insert ''modelId'' (String (case cm_model_id model of None \<Rightarrow> mid | Some m \<Rightarrow> m))
       (om_insert ''id'' (String mid)
       (om_insert ''provider'' (String (provider_name (cm_provider model))) []))))"

definition copilot_model_documents :: "copilot_config \<Rightarrow> json list" where
  "copilot_model_documents c = map (\<lambda>(mid, m). copilot_model_document mid m) (cp_models c)"

definition insert_limit :: "string \<Rightarrow> 64 word option \<Rightarrow> entries \<Rightarrow> entries" where
  "insert_limit k limit m = (case limit of None \<Rightarrow> m | Some n \<Rightarrow> om_insert k (Number (PosInt n)) m)"

definition vscode_model_document :: "string \<Rightarrow> vscode_model \<Rightarrow> json" where
  "vscode_model_document mid model =
     Object (insert_all (vm_extra model)
       (insert_limit ''maxOutputTokens'' (vm_max_output_tokens model)
       (insert_limit ''maxInputTokens'' (vm_max_input_tokens model)
       (om_insert ''vision'' (Bool (vm_vision model))
       (om_insert ''toolCalling'' (Bool (vm_tool_calling model))
       (om_insert ''name'' (String (case vm_name model of None \<Rightarrow> mid @ '' (agentdesktop)'' | Some n \<Rightarrow> n))
       (om_insert ''id'' (String mid) [])))))))"

definition vscode_model_documents :: "vscode_config \<Rightarrow> json list" where
  "vscode_model_documents c = map (\<lambda>(mid, m). vscode_model_document mid m) (vs_models c)"

end
