(* ===== verification/Config_Check.thy ===== *)
theory Config_Check
  imports Config
begin

text \<open>
  The validation of configurations in \<^verbatim>\<open>crates/core/src/config.rs\<close>, and that it accepts exactly
  what the declarative description at the end says. A validation is the sequence of its checks
  in the source's order; the first that fails is the error.
\<close>

section \<open>Checks\<close>

type_synonym check = "anyhow + unit"

text \<open>\<^verbatim>\<open>if !condition { bail!(message) }\<close>.\<close>

definition ensure :: "bool \<Rightarrow> string \<Rightarrow> check" where
  "ensure condition message = (if condition then Inr () else Inl [message])"

fun checks :: "check list \<Rightarrow> check" where
  "checks [] = Inr ()"
| "checks (Inl e # cs) = Inl e"
| "checks (Inr _ # cs) = checks cs"

lemma checks_Cons: "checks (c # cs) = (case c of Inl e \<Rightarrow> Inl e | Inr _ \<Rightarrow> checks cs)"
  by (cases c) simp_all

lemma checks_ok [simp]: "checks cs = Inr () \<longleftrightarrow> list_all (\<lambda>c. c = Inr ()) cs"
  by (induction cs rule: checks.induct) simp_all

lemma ensure_ok [simp]: "ensure b m = Inr () \<longleftrightarrow> b"
  by (simp add: ensure_def)

text \<open>A check on an optional part.\<close>

definition check_some :: "'a option \<Rightarrow> ('a \<Rightarrow> check) \<Rightarrow> check" where
  "check_some x f = (case x of None \<Rightarrow> Inr () | Some v \<Rightarrow> f v)"

lemma check_some_ok [simp]: "check_some x f = Inr () \<longleftrightarrow> (\<forall>v. x = Some v \<longrightarrow> f v = Inr ())"
  by (simp add: check_some_def split: option.splits)

section \<open>The daemon's configuration\<close>

definition is_loopback :: "string \<Rightarrow> bool" where
  "is_loopback host \<longleftrightarrow> host \<in> {''localhost'', ''127.0.0.1'', ''::1'', ''[::1]''}"

definition valid_client_id :: "string \<Rightarrow> bool" where
  "valid_client_id cid \<longleftrightarrow>
     cid \<noteq> [] \<and> length cid \<le> 64
     \<and> list_all (\<lambda>c. is_ascii_alphanumeric c \<or> c \<in> {CHR ''-'', CHR ''_'', CHR ''.''}) cid"

definition validate_sandbox :: "programs_config \<Rightarrow> check" where
  "validate_sandbox p =
     checks
      [ensure (pg_claude_desktop p = None) ''sandbox is not supported for Claude Desktop'',
       ensure (pg_open_code p = None) ''sandbox is not supported for OpenCode'',
       ensure (pg_grok p = None) ''sandbox is not supported for Grok Build'',
       ensure (pg_copilot p = None) ''sandbox is not supported for GitHub Copilot CLI'',
       ensure (pg_vscode p = None) ''sandbox is not supported for VS Code'',
       ensure (pg_pi p = None) ''sandbox is not supported for Pi'']"

text \<open>The same four checks on \<^verbatim>\<open>url\<close> and \<^verbatim>\<open>proxyUrl\<close>.\<close>

definition validate_gateway_url :: "string \<Rightarrow> url \<Rightarrow> check" where
  "validate_gateway_url label u =
     checks
      [ensure (url_scheme u \<in> {''http'', ''https''})
         (''LLM gateway '' @ label @ '' must use HTTP or HTTPS, got '' @ url_scheme u),
       ensure (url_host u \<noteq> None) (''LLM gateway '' @ label @ '' must include a host''),
       ensure (url_username u = [] \<and> url_password u = None)
         (''LLM gateway '' @ label @ '' cannot include credentials''),
       ensure (url_query u = None \<and> url_fragment u = None)
         (''LLM gateway '' @ label @ '' cannot include a query or fragment'')]"

definition validate_github_oauth :: "llm_gateway_config \<Rightarrow> github_oauth_config \<Rightarrow> check" where
  "validate_github_oauth gateway github =
     checks
      [case gh_source github of
         DeviceFlow \<Rightarrow>
           ensure (\<not> blank (case gh_client_id github of None \<Rightarrow> [] | Some c \<Rightarrow> c))
             ''llmGateway.githubOAuth.clientId is required when source is deviceFlow''
       | Request \<Rightarrow> Inr (),
       ensure (gw_authentication gateway \<noteq> None) ''llmGateway.githubOAuth requires gateway authentication'']"

definition validate_issuer_scheme :: "url \<Rightarrow> bool \<Rightarrow> check" where
  "validate_issuer_scheme issuer allow_insecure =
     (if url_scheme issuer = ''https'' then Inr ()
      else if url_scheme issuer = ''http'' \<and> allow_insecure
              \<and> (case url_host issuer of None \<Rightarrow> False | Some h \<Rightarrow> is_loopback h) then Inr ()
      else if url_scheme issuer = ''http'' \<and> allow_insecure then
        Inl [''LLM gateway OIDC allowInsecure only permits loopback issuers'']
      else if url_scheme issuer = ''http'' then
        Inl [''LLM gateway OIDC issuer must use HTTPS; allowInsecure is only for isolated loopback development'']
      else Inl [''LLM gateway OIDC issuer must use HTTPS, got '' @ url_scheme issuer])"

text \<open>The parameter \<open>parse_url\<close> is \<^verbatim>\<open>Url::parse\<close>, with its error's message.\<close>

definition validate_authentication :: "(string \<Rightarrow> string + url) \<Rightarrow> gateway_authentication \<Rightarrow> check" where
  "validate_authentication parse_url authentication =
     (case authentication of
        ControllerJwt audience allowed \<Rightarrow>
          checks
           [ensure (\<not> blank audience) ''LLM gateway JWT audience cannot be empty'',
            ensure (allowed \<noteq> []) ''LLM gateway JWT allowedClientIds cannot be empty'',
            (case find (\<lambda>c. \<not> valid_client_id c) allowed of
               None \<Rightarrow> Inr ()
             | Some c \<Rightarrow> Inl [''invalid LLM gateway client ID '' @ c])]
      | Oidc issuer cid redirect_uri scopes allow_insecure device_authorization \<Rightarrow>
          checks
           [ensure (url_host issuer \<noteq> None) ''LLM gateway OIDC issuer must include a host'',
            validate_issuer_scheme issuer allow_insecure,
            ensure (url_username issuer = [] \<and> url_password issuer = None
                    \<and> url_query issuer = None \<and> url_fragment issuer = None)
              ''LLM gateway OIDC issuer cannot contain credentials, a query, or a fragment'',
            ensure (\<not> blank cid) ''LLM gateway OIDC clientId cannot be empty'',
            (case parse_url redirect_uri of
               Inl e \<Rightarrow> Inl [''parse LLM gateway OIDC redirectUri URL'', e]
             | Inr _ \<Rightarrow> Inr ()),
            ensure (scopes \<noteq> [] \<and> \<not> list_ex blank scopes) ''LLM gateway OIDC scopes cannot be empty''])"

definition validate_gateway :: "(string \<Rightarrow> string + url) \<Rightarrow> llm_gateway_config \<Rightarrow> check" where
  "validate_gateway parse_url gateway =
     checks
      [validate_gateway_url ''URL'' (gw_url gateway),
       check_some (gw_proxy_url gateway) (validate_gateway_url ''proxyUrl''),
       check_some (gw_github_oauth gateway) (validate_github_oauth gateway),
       check_some (gw_authentication gateway) (validate_authentication parse_url)]"

text \<open>One round of the subscription loop: the program's name, whether it has a subscription, whether it uses the gateway.\<close>

definition device_sign_in :: "gateway_authentication option \<Rightarrow> bool" where
  "device_sign_in a = (case a of Some (Oidc i c r s k d) \<Rightarrow> d | _ \<Rightarrow> False)"

definition validate_subscription :: "llm_gateway_config option \<Rightarrow> string \<times> bool \<times> bool \<Rightarrow> check" where
  "validate_subscription gateway program =
     (case program of (name, subscription, uses_gateway) \<Rightarrow>
        checks
         [ensure (\<not> (subscription \<and> (\<not> uses_gateway \<or> gateway = None)))
            (''programs.'' @ name @ ''.auth subscription requires that program to use an LLM gateway''),
          ensure (\<not> (subscription \<and> (case gateway of None \<Rightarrow> False | Some g \<Rightarrow> gw_authentication g = None)))
            (''programs.'' @ name @ ''.auth subscription requires oidc or controllerJwt gateway authentication''),
          ensure (\<not> (subscription \<and> (case gateway of None \<Rightarrow> False | Some g \<Rightarrow> device_sign_in (gw_authentication g))))
            (''programs.'' @ name @ ''.auth subscription requires a browser sign-in and cannot be combined with llmGateway OIDC deviceAuthorization'')])"

definition is_some_and :: "'a option \<Rightarrow> ('a \<Rightarrow> bool) \<Rightarrow> bool" where
  "is_some_and x f = (case x of None \<Rightarrow> False | Some v \<Rightarrow> f v)"

lemma is_some_and_simps [simp]: "\<not> is_some_and None f" "is_some_and (Some v) f = f v"
  by (simp_all add: is_some_and_def)

definition subscriptions :: "programs_config \<Rightarrow> (string \<times> bool \<times> bool) list" where
  "subscriptions p =
     [(''claudeCode'', is_some_and (pg_claude_code p) (\<lambda>c. ccc_auth c = Some Subscription),
        is_some_and (pg_claude_code p) ccc_use_llm_gateway),
      (''claudeDesktop'', is_some_and (pg_claude_desktop p) (\<lambda>c. cdc_auth c = Some Subscription),
        is_some_and (pg_claude_desktop p) cdc_use_llm_gateway),
      (''codex'', is_some_and (pg_codex p) (\<lambda>c. cx_auth c = Some Subscription),
        is_some_and (pg_codex p) cx_use_llm_gateway)]"

text \<open>The selected model of a program behind the gateway: required, and declared in its models.\<close>

definition validate_open_code :: "llm_gateway_config option \<Rightarrow> open_code_config \<Rightarrow> check" where
  "validate_open_code gateway c =
     (if gateway = None \<or> \<not> oc_use_llm_gateway c then Inr ()
      else case oc_model c of
        None \<Rightarrow> Inl [''OpenCode requires model when llmGateway is configured'']
      | Some model \<Rightarrow>
          if blank model then Inl [''OpenCode requires model when llmGateway is configured'']
          else ensure (om_get (oc_models c) model \<noteq> None)
                 (''OpenCode model '' @ model @ '' is not declared in models''))"

definition validate_grok :: "llm_gateway_config option \<Rightarrow> grok_config \<Rightarrow> check" where
  "validate_grok gateway c =
     (if gateway = None \<or> \<not> gk_use_llm_gateway c then Inr ()
      else case gk_model c of
        None \<Rightarrow> Inl [''Grok Build requires model when llmGateway is configured'']
      | Some model \<Rightarrow>
          if blank model then Inl [''Grok Build requires model when llmGateway is configured'']
          else ensure (gk_models c = [] \<or> om_get (gk_models c) model \<noteq> None)
                 (''Grok Build model '' @ model @ '' is not declared in models''))"

definition validate_pi :: "llm_gateway_config option \<Rightarrow> pi_config \<Rightarrow> check" where
  "validate_pi gateway c =
     (if gateway = None \<or> \<not> pi_use_llm_gateway c then Inr ()
      else case pi_model c of
        None \<Rightarrow> Inl [''Pi requires model when llmGateway is configured'']
      | Some model \<Rightarrow>
          if blank model then Inl [''Pi requires model when llmGateway is configured'']
          else
            checks
             [ensure (\<not> list_ex blank (om_keys (pi_models c))) ''Pi model IDs cannot be empty'',
              ensure (pi_models c = [] \<or> om_get (pi_models c) model \<noteq> None)
                (''Pi model '' @ model @ '' is not declared in models'')])"

definition reserved_key :: "string list \<Rightarrow> entries \<Rightarrow> string option" where
  "reserved_key reserved extra = find (\<lambda>k. list_ex (\<lambda>r. eq_ignore_ascii_case r k) reserved) (om_keys extra)"

definition has_api_key :: "entries \<Rightarrow> bool" where
  "has_api_key extra = list_ex (\<lambda>k. eq_ignore_ascii_case k ''apiKey'') (om_keys extra)"

definition copilot_model_check :: "string \<times> copilot_model \<Rightarrow> check" where
  "copilot_model_check entry =
     (case entry of (mid, model) \<Rightarrow>
        checks
         [ensure (\<not> blank mid) ''programs.copilot.models has an entry with an empty ID'',
          ensure (\<not> is_some_and (cm_model_id model) blank)
            (''programs.copilot.models.'' @ mid @ ''.modelId must not be empty''),
          (case reserved_key [''id''] (cm_extra model) of
             None \<Rightarrow> Inr ()
           | Some key \<Rightarrow>
               Inl [''programs.copilot.models.'' @ mid @ ''.'' @ key @ '' is set by agentdesktop and cannot be overridden'']),
          ensure (\<not> has_api_key (cm_extra model))
            (''programs.copilot.models.'' @ mid @ ''.apiKey is not allowed: the local proxy adds the gateway credential'')])"

definition copilot_validate :: "copilot_config \<Rightarrow> check" where
  "copilot_validate c = checks (map copilot_model_check (cp_models c))"

definition vscode_model_check :: "string \<times> vscode_model \<Rightarrow> check" where
  "vscode_model_check entry =
     (case entry of (mid, model) \<Rightarrow>
        checks
         [ensure (\<not> blank mid) ''programs.vscode.models has an entry with an empty ID'',
          ensure (\<not> has_api_key (vm_extra model))
            (''programs.vscode.models.'' @ mid @ ''.apiKey is not allowed: the local proxy adds the gateway credential''),
          (case reserved_key [''id'', ''url'', ''requestHeaders''] (vm_extra model) of
             None \<Rightarrow> Inr ()
           | Some key \<Rightarrow>
               Inl [''programs.vscode.models.'' @ mid @ ''.'' @ key @ '' is set by agentdesktop and cannot be overridden''])])"

definition vscode_validate :: "vscode_config \<Rightarrow> check" where
  "vscode_validate c =
     checks
      (ensure (\<not> (vs_copilot_chat c = GithubModels \<and> vs_models c \<noteq> []))
         ''programs.vscode.models is not allowed when copilotChat is githubModels: GitHub's own models are used instead''
       # map vscode_model_check (vs_models c))"

definition validate_copilot :: "llm_gateway_config option \<Rightarrow> copilot_config \<Rightarrow> check" where
  "validate_copilot gateway c =
     checks
      [copilot_validate c,
       ensure (\<not> (gateway \<noteq> None \<and> cp_use_llm_gateway c \<and> cp_models c = []))
         ''GitHub Copilot CLI requires at least one entry in models when llmGateway is configured'']"

definition validate_vscode :: "llm_gateway_config option \<Rightarrow> vscode_config \<Rightarrow> check" where
  "validate_vscode gateway c =
     checks
      [vscode_validate c,
       (case vs_copilot_chat c of
          OwnModels \<Rightarrow>
            ensure (\<not> (gateway \<noteq> None \<and> vs_use_llm_gateway c \<and> vs_models c = []))
              ''VS Code requires at least one entry in models when llmGateway is configured''
        | GithubModels \<Rightarrow>
            ensure (\<not> (vs_use_llm_gateway c \<and> is_some_and gateway (\<lambda>g. gw_proxy_url g = None)))
              ''VS Code copilotChat githubModels requires llmGateway.proxyUrl when the gateway is used'')]"

definition validate_daemon ::
  "(string \<Rightarrow> string + url) \<Rightarrow> llm_gateway_config option \<Rightarrow> sandbox_config option \<Rightarrow> programs_config \<Rightarrow> check" where
  "validate_daemon parse_url gateway sandbox p =
     checks
      ([check_some sandbox (\<lambda>_. validate_sandbox p),
        check_some gateway (validate_gateway parse_url)]
       @ map (validate_subscription gateway) (subscriptions p)
       @ [check_some (pg_open_code p) (validate_open_code gateway),
          check_some (pg_grok p) (validate_grok gateway),
          check_some (pg_copilot p) (validate_copilot gateway),
          check_some (pg_vscode p) (validate_vscode gateway),
          check_some (pg_pi p) (validate_pi gateway)])"

definition max_reconcile_interval :: duration where
  "max_reconcile_interval = from_secs (30 * 24 * 60 * 60)"

definition validate_local_daemon :: "(string \<Rightarrow> string + url) \<Rightarrow> daemon_config \<Rightarrow> check" where
  "validate_local_daemon parse_url c =
     checks
      [check_some (dc_controller c)
         (\<lambda>ctl. ensure (prefix ''https://'' (cc_address ctl)) ''controller address must use HTTPS''),
       ensure (dc_inventory_interval c \<noteq> 0) ''inventoryInterval must be greater than zero'',
       check_some (Option.bind (dc_daemon c) ds_reconcile_interval)
         (\<lambda>i. ensure (\<not> (i = 0 \<or> max_reconcile_interval < i))
            ''daemon.reconcileInterval must be greater than zero and at most 30 days (leave it unset for no periodic re-apply)''),
       check_some (Option.bind (dc_daemon c) ds_usage)
         (\<lambda>u. checks
            [ensure (dc_controller c = None)
               ''daemon.usage is for a daemon without a controller; the controller collects usage for enrolled devices'',
             ensure (ip_is_loopback (sa_ip (us_listen u))) ''daemon.usage.listen must be a loopback address'']),
       validate_daemon parse_url (dc_llm_gateway c) (dc_sandbox c) (dc_programs c)]"

text \<open>The parameter \<open>from_yaml\<close> is \<^verbatim>\<open>yamlviajson::from_str\<close>, with its error's chain.\<close>

definition parse_local_daemon ::
  "(string \<Rightarrow> anyhow + daemon_config) \<Rightarrow> (string \<Rightarrow> string + url) \<Rightarrow> string \<Rightarrow> anyhow + daemon_config" where
  "parse_local_daemon from_yaml parse_url contents =
     (case with_context ''parse daemon configuration'' (from_yaml contents) of
        Inl e \<Rightarrow> Inl e
      | Inr c \<Rightarrow> (case validate_local_daemon parse_url c of Inl e \<Rightarrow> Inl e | Inr _ \<Rightarrow> Inr c))"

definition parse_daemon ::
  "(string \<Rightarrow> anyhow + daemon_config) \<Rightarrow> (string \<Rightarrow> string + url) \<Rightarrow> string \<Rightarrow> anyhow + daemon_config" where
  "parse_daemon from_yaml parse_url contents =
     (case parse_local_daemon from_yaml parse_url contents of
        Inl e \<Rightarrow> Inl e
      | Inr c \<Rightarrow>
          if dc_daemon c \<noteq> None
          then Inl [''daemon startup settings are only allowed in the local configuration file'']
          else Inr c)"

definition load_daemon ::
  "(string \<Rightarrow> anyhow + daemon_config) \<Rightarrow> (string \<Rightarrow> string + url) \<Rightarrow> 'a os_scheme \<Rightarrow> path \<Rightarrow> anyhow + daemon_config" where
  "load_daemon from_yaml parse_url s p =
     (case read_to_string s p of
        Inl e \<Rightarrow> Inl [''read configuration from '' @ path_display p, io_message e]
      | Inr contents \<Rightarrow>
          with_context (''parse configuration from '' @ path_display p)
            (parse_local_daemon from_yaml parse_url contents))"

section \<open>The controller's configuration\<close>

record controller_oidc =
  co_issuer :: string
  co_client_id :: string
  co_redirect_uri :: string

record controller_daemon_config =
  cd_path :: path
  cd_revision :: "64 word"

record controller_gateway_jwt =
  cg_private_key :: path
  cg_issuer :: string
  cg_key_id :: string
  cg_lifetime :: duration

record controller_usage =
  cu_token_file :: path

record controller_tls_files =
  ct_certificate :: path
  ct_key :: path
  ct_client_ca_certificate :: path
  ct_client_ca_key :: path

datatype controller_tls = TlsDirectory path | TlsFiles controller_tls_files

fun tls_files :: "controller_tls \<Rightarrow> controller_tls_files" where
  "tls_files (TlsDirectory d) =
     \<lparr>ct_certificate = path_join d [Normal ''controller.pem''], ct_key = path_join d [Normal ''controller-key.pem''],
      ct_client_ca_certificate = path_join d [Normal ''device-ca.pem''],
      ct_client_ca_key = path_join d [Normal ''device-ca-key.pem'']\<rparr>"
| "tls_files (TlsFiles f) = f"

record controller_config =
  ctl_fleet_listen :: socket_addr
  ctl_admin_listen :: socket_addr
  ctl_database_url :: string
  ctl_oidc :: controller_oidc
  ctl_daemon_config :: "controller_daemon_config option"
  ctl_gateway_jwt :: "controller_gateway_jwt option"
  ctl_usage :: "controller_usage option"
  ctl_tls :: controller_tls
  ctl_allow_insecure_dev :: bool

definition validate_oidc_issuer :: "(string \<Rightarrow> string + url) \<Rightarrow> controller_config \<Rightarrow> check" where
  "validate_oidc_issuer parse_url c =
     (case parse_url (co_issuer (ctl_oidc c)) of
        Inl e \<Rightarrow> Inl [''parse oidc.issuer URL'', e]
      | Inr u \<Rightarrow>
          if url_scheme u = ''https'' then Inr ()
          else if url_scheme u = ''http'' \<and> ctl_allow_insecure_dev c then Inr ()
          else if url_scheme u = ''http'' then
            Inl [''oidc.issuer must use HTTPS; allowInsecureDev is only for isolated development'']
          else Inl [''oidc.issuer must use HTTPS, got '' @ url_scheme u])"

definition validate_controller :: "(string \<Rightarrow> string + url) \<Rightarrow> controller_config \<Rightarrow> check" where
  "validate_controller parse_url c =
     checks
      [ensure (ip_is_loopback (sa_ip (ctl_admin_listen c))) ''adminListen must use a loopback address'',
       ensure (\<not> blank (co_client_id (ctl_oidc c))) ''oidc.clientId cannot be empty'',
       validate_oidc_issuer parse_url c,
       (case parse_url (co_redirect_uri (ctl_oidc c)) of
          Inl e \<Rightarrow> Inl [''parse oidc.redirectUri URL'', e] | Inr _ \<Rightarrow> Inr ()),
       check_some (ctl_daemon_config c)
         (\<lambda>d. ensure (cd_revision d \<noteq> 0) ''daemonConfig.revision must be greater than zero''),
       check_some (ctl_gateway_jwt c)
         (\<lambda>g. checks
            [ensure (\<not> blank (cg_issuer g)) ''gatewayJwt.issuer cannot be empty'',
             ensure (\<not> blank (cg_key_id g)) ''gatewayJwt.keyId cannot be empty'',
             ensure (cg_lifetime g \<noteq> 0) ''gatewayJwt.lifetime must be greater than zero''])]"

definition parse_controller ::
  "(string \<Rightarrow> anyhow + controller_config) \<Rightarrow> (string \<Rightarrow> string + url) \<Rightarrow> string \<Rightarrow> anyhow + controller_config" where
  "parse_controller from_yaml parse_url contents =
     (case with_context ''parse controller configuration'' (from_yaml contents) of
        Inl e \<Rightarrow> Inl e
      | Inr c \<Rightarrow> (case validate_controller parse_url c of Inl e \<Rightarrow> Inl e | Inr _ \<Rightarrow> Inr c))"

definition resolve_relative :: "path \<Rightarrow> path \<Rightarrow> path" where
  "resolve_relative p directory = (if is_absolute p then p else path_join directory p)"

definition resolve_paths :: "path \<Rightarrow> controller_config \<Rightarrow> controller_config" where
  "resolve_paths directory c =
     c\<lparr>ctl_daemon_config := map_option (\<lambda>d. d\<lparr>cd_path := resolve_relative (cd_path d) directory\<rparr>) (ctl_daemon_config c),
       ctl_gateway_jwt := map_option (\<lambda>g. g\<lparr>cg_private_key := resolve_relative (cg_private_key g) directory\<rparr>) (ctl_gateway_jwt c),
       ctl_usage := map_option (\<lambda>u. u\<lparr>cu_token_file := resolve_relative (cu_token_file u) directory\<rparr>) (ctl_usage c),
       ctl_tls := (case ctl_tls c of
                     TlsDirectory d \<Rightarrow> TlsDirectory (resolve_relative d directory)
                   | TlsFiles f \<Rightarrow>
                       TlsFiles \<lparr>ct_certificate = resolve_relative (ct_certificate f) directory,
                                 ct_key = resolve_relative (ct_key f) directory,
                                 ct_client_ca_certificate = resolve_relative (ct_client_ca_certificate f) directory,
                                 ct_client_ca_key = resolve_relative (ct_client_ca_key f) directory\<rparr>)\<rparr>"

definition load_controller ::
  "(string \<Rightarrow> anyhow + controller_config) \<Rightarrow> (string \<Rightarrow> string + url) \<Rightarrow> 'a os_scheme \<Rightarrow> path \<Rightarrow> anyhow + controller_config" where
  "load_controller from_yaml parse_url s p =
     (case read_to_string s p of
        Inl e \<Rightarrow> Inl [''read controller configuration from '' @ path_display p, io_message e]
      | Inr contents \<Rightarrow>
          (case with_context (''parse controller configuration from '' @ path_display p)
                  (parse_controller from_yaml parse_url contents) of
             Inl e \<Rightarrow> Inl e
           | Inr c \<Rightarrow> Inr (resolve_paths (case path_parent p of None \<Rightarrow> [CurDir] | Some d \<Rightarrow> d) c)))"

section \<open>What the validation accepts\<close>

definition plain_http_url :: "url \<Rightarrow> bool" where
  "plain_http_url u \<longleftrightarrow>
     url_scheme u \<in> {''http'', ''https''} \<and> url_host u \<noteq> None \<and> url_username u = [] \<and> url_password u = None
     \<and> url_query u = None \<and> url_fragment u = None"

text \<open>An issuer that tokens may come from: HTTPS, or loopback HTTP where the configuration says so.\<close>

definition trusted_issuer :: "url \<Rightarrow> bool \<Rightarrow> bool" where
  "trusted_issuer u allow_insecure \<longleftrightarrow>
     plain_http_url u \<and>
     (url_scheme u = ''https'' \<or> allow_insecure \<and> is_some_and (url_host u) is_loopback)"

definition authentication_valid :: "(string \<Rightarrow> string + url) \<Rightarrow> gateway_authentication \<Rightarrow> bool" where
  "authentication_valid parse_url a \<longleftrightarrow>
     (case a of
        ControllerJwt audience allowed \<Rightarrow>
          \<not> blank audience \<and> allowed \<noteq> [] \<and> list_all valid_client_id allowed
      | Oidc issuer cid redirect scopes insecure device \<Rightarrow>
          trusted_issuer issuer insecure \<and> \<not> blank cid \<and> (\<exists>u. parse_url redirect = Inr u)
          \<and> scopes \<noteq> [] \<and> list_all (\<lambda>s. \<not> blank s) scopes)"

definition gateway_valid :: "(string \<Rightarrow> string + url) \<Rightarrow> llm_gateway_config \<Rightarrow> bool" where
  "gateway_valid parse_url g \<longleftrightarrow>
     plain_http_url (gw_url g)
     \<and> (\<forall>u. gw_proxy_url g = Some u \<longrightarrow> plain_http_url u)
     \<and> (\<forall>h. gw_github_oauth g = Some h \<longrightarrow>
          gw_authentication g \<noteq> None
          \<and> (gh_source h = DeviceFlow \<longrightarrow> (\<exists>c. gh_client_id h = Some c \<and> \<not> blank c)))
     \<and> (\<forall>a. gw_authentication g = Some a \<longrightarrow> authentication_valid parse_url a)"

lemma validate_gateway_url_ok: "validate_gateway_url label u = Inr () \<longleftrightarrow> plain_http_url u"
  by (auto simp: validate_gateway_url_def plain_http_url_def)

lemma validate_issuer_scheme_ok:
  "validate_issuer_scheme u insecure = Inr () \<longleftrightarrow>
   url_scheme u = ''https'' \<or> url_scheme u = ''http'' \<and> insecure \<and> is_some_and (url_host u) is_loopback"
  by (auto simp: validate_issuer_scheme_def is_some_and_def split: option.splits)

lemma validate_authentication_ok:
  "validate_authentication parse_url a = Inr () \<longleftrightarrow> authentication_valid parse_url a"
  by (cases a)
    (auto simp: validate_authentication_def authentication_valid_def trusted_issuer_def plain_http_url_def
      validate_issuer_scheme_ok find_None_iff list_all_iff list_ex_iff split: option.splits sum.splits dest: find_SomeD)

lemma validate_github_oauth_ok:
  "validate_github_oauth g h = Inr () \<longleftrightarrow>
   gw_authentication g \<noteq> None \<and> (gh_source h = DeviceFlow \<longrightarrow> (\<exists>c. gh_client_id h = Some c \<and> \<not> blank c))"
  by (cases "gh_source h"; cases "gh_client_id h") (auto simp: validate_github_oauth_def)

lemma validate_gateway_ok: "validate_gateway parse_url g = Inr () \<longleftrightarrow> gateway_valid parse_url g"
  by (simp add: validate_gateway_def gateway_valid_def validate_gateway_url_ok validate_authentication_ok
      validate_github_oauth_ok)

text \<open>A program that authenticates with a subscription does so through an authenticated gateway with a browser sign-in.\<close>

definition subscription_valid :: "llm_gateway_config option \<Rightarrow> bool \<Rightarrow> bool \<Rightarrow> bool" where
  "subscription_valid gateway subscription uses_gateway \<longleftrightarrow>
     (subscription \<longrightarrow> uses_gateway \<and>
       (\<exists>g. gateway = Some g \<and> gw_authentication g \<noteq> None
          \<and> (\<forall>issuer cid redirect scopes insecure device.
               gw_authentication g = Some (Oidc issuer cid redirect scopes insecure device) \<longrightarrow> \<not> device)))"

lemma validate_subscription_ok:
  "validate_subscription gateway (name, sub, uses) = Inr () \<longleftrightarrow> subscription_valid gateway sub uses"
  by (auto simp: validate_subscription_def subscription_valid_def device_sign_in_def
      split: option.splits gateway_authentication.splits)

definition behind_gateway :: "llm_gateway_config option \<Rightarrow> bool \<Rightarrow> bool" where
  "behind_gateway gateway uses_gateway \<longleftrightarrow> gateway \<noteq> None \<and> uses_gateway"

definition model_selected :: "string option \<Rightarrow> entries \<Rightarrow> bool" where
  "model_selected model models \<longleftrightarrow>
     (\<exists>m. model = Some m \<and> \<not> blank m \<and> (models = [] \<or> om_get models m \<noteq> None))"

text \<open>
  The keys that the daemon sets itself may not be configured again, in any capitalisation; model IDs
  are not blank.
\<close>

definition configures :: "entries \<Rightarrow> string \<Rightarrow> bool" where
  "configures extra name \<longleftrightarrow> (\<exists>k \<in> set (om_keys extra). map to_ascii_lower k = map to_ascii_lower name)"

definition copilot_models_valid :: "copilot_config \<Rightarrow> bool" where
  "copilot_models_valid c \<longleftrightarrow>
     (\<forall>(mid, model) \<in> set (cp_models c).
        \<not> blank mid \<and> (\<forall>i. cm_model_id model = Some i \<longrightarrow> \<not> blank i)
        \<and> \<not> configures (cm_extra model) ''id'' \<and> \<not> configures (cm_extra model) ''apiKey'')"

definition vscode_models_valid :: "vscode_config \<Rightarrow> bool" where
  "vscode_models_valid c \<longleftrightarrow>
     (vs_copilot_chat c = GithubModels \<longrightarrow> vs_models c = [])
     \<and> (\<forall>(mid, model) \<in> set (vs_models c).
        \<not> blank mid \<and> (\<forall>name \<in> {''apiKey'', ''id'', ''url'', ''requestHeaders''}. \<not> configures (vm_extra model) name))"

definition programs_valid :: "llm_gateway_config option \<Rightarrow> programs_config \<Rightarrow> bool" where
  "programs_valid gateway p \<longleftrightarrow>
     (\<forall>c. pg_claude_code p = Some c \<longrightarrow>
        subscription_valid gateway (ccc_auth c = Some Subscription) (ccc_use_llm_gateway c))
     \<and> (\<forall>c. pg_claude_desktop p = Some c \<longrightarrow>
        subscription_valid gateway (cdc_auth c = Some Subscription) (cdc_use_llm_gateway c))
     \<and> (\<forall>c. pg_codex p = Some c \<longrightarrow>
        subscription_valid gateway (cx_auth c = Some Subscription) (cx_use_llm_gateway c))
     \<and> (\<forall>c. pg_open_code p = Some c \<and> behind_gateway gateway (oc_use_llm_gateway c) \<longrightarrow>
        oc_models c \<noteq> [] \<and> model_selected (oc_model c) (oc_models c))
     \<and> (\<forall>c. pg_grok p = Some c \<and> behind_gateway gateway (gk_use_llm_gateway c) \<longrightarrow>
        model_selected (gk_model c) (gk_models c))
     \<and> (\<forall>c. pg_copilot p = Some c \<longrightarrow>
        copilot_models_valid c \<and> (behind_gateway gateway (cp_use_llm_gateway c) \<longrightarrow> cp_models c \<noteq> []))
     \<and> (\<forall>c. pg_vscode p = Some c \<longrightarrow>
        vscode_models_valid c \<and>
        (behind_gateway gateway (vs_use_llm_gateway c) \<longrightarrow>
          (case vs_copilot_chat c of
             OwnModels \<Rightarrow> vs_models c \<noteq> []
           | GithubModels \<Rightarrow> \<exists>g. gateway = Some g \<and> gw_proxy_url g \<noteq> None)))
     \<and> (\<forall>c. pg_pi p = Some c \<and> behind_gateway gateway (pi_use_llm_gateway c) \<longrightarrow>
        model_selected (pi_model c) (pi_models c) \<and> list_all (\<lambda>k. \<not> blank k) (om_keys (pi_models c)))"

definition daemon_valid ::
  "(string \<Rightarrow> string + url) \<Rightarrow> llm_gateway_config option \<Rightarrow> sandbox_config option \<Rightarrow> programs_config \<Rightarrow> bool" where
  "daemon_valid parse_url gateway sandbox p \<longleftrightarrow>
     (sandbox \<noteq> None \<longrightarrow> pg_claude_desktop p = None \<and> pg_open_code p = None \<and> pg_grok p = None
        \<and> pg_copilot p = None \<and> pg_vscode p = None \<and> pg_pi p = None)
     \<and> (\<forall>g. gateway = Some g \<longrightarrow> gateway_valid parse_url g)
     \<and> programs_valid gateway p"

lemma validate_open_code_ok:
  "validate_open_code gateway c = Inr () \<longleftrightarrow>
   (behind_gateway gateway (oc_use_llm_gateway c) \<longrightarrow> oc_models c \<noteq> [] \<and> model_selected (oc_model c) (oc_models c))"
  by (auto simp: validate_open_code_def behind_gateway_def model_selected_def split: option.splits)

lemma validate_grok_ok:
  "validate_grok gateway c = Inr () \<longleftrightarrow>
   (behind_gateway gateway (gk_use_llm_gateway c) \<longrightarrow> model_selected (gk_model c) (gk_models c))"
  by (auto simp: validate_grok_def behind_gateway_def model_selected_def split: option.splits)

lemma validate_pi_ok:
  "validate_pi gateway c = Inr () \<longleftrightarrow>
   (behind_gateway gateway (pi_use_llm_gateway c) \<longrightarrow>
     model_selected (pi_model c) (pi_models c) \<and> list_all (\<lambda>k. \<not> blank k) (om_keys (pi_models c)))"
  by (auto simp: validate_pi_def behind_gateway_def model_selected_def list_all_iff list_ex_iff split: option.splits)

lemma has_api_key_iff: "has_api_key extra \<longleftrightarrow> configures extra ''apiKey''"
  by (simp add: has_api_key_def configures_def list_ex_iff eq_ignore_ascii_case_def)

lemma reserved_key_None_iff: "reserved_key reserved extra = None \<longleftrightarrow> (\<forall>name \<in> set reserved. \<not> configures extra name)"
  by (auto simp: reserved_key_def configures_def find_None_iff list_ex_iff eq_ignore_ascii_case_def) (metis, metis)

lemma copilot_validate_ok: "copilot_validate c = Inr () \<longleftrightarrow> copilot_models_valid c"
proof -
  have "copilot_model_check (mid, model) = Inr () \<longleftrightarrow> \<not> blank mid \<and> (\<forall>i. cm_model_id model = Some i \<longrightarrow> \<not> blank i)
      \<and> \<not> configures (cm_extra model) ''id'' \<and> \<not> configures (cm_extra model) ''apiKey''" for mid model
    using reserved_key_None_iff [of "[''id'']" "cm_extra model"]
    by (cases "reserved_key [''id''] (cm_extra model)"; cases "cm_model_id model")
      (simp_all add: copilot_model_check_def has_api_key_iff is_some_and_def)
  then show ?thesis by (auto simp: copilot_validate_def copilot_models_valid_def list_all_iff)
qed

lemma vscode_validate_ok: "vscode_validate c = Inr () \<longleftrightarrow> vscode_models_valid c"
proof -
  have "vscode_model_check (mid, model) = Inr () \<longleftrightarrow>
      \<not> blank mid \<and> (\<forall>name \<in> {''apiKey'', ''id'', ''url'', ''requestHeaders''}. \<not> configures (vm_extra model) name)" for mid model
    using reserved_key_None_iff [of "[''id'', ''url'', ''requestHeaders'']" "vm_extra model"]
    by (cases "reserved_key [''id'', ''url'', ''requestHeaders''] (vm_extra model)")
      (auto simp: vscode_model_check_def has_api_key_iff)
  then show ?thesis by (auto simp: vscode_validate_def vscode_models_valid_def list_all_iff)
qed

lemma validate_copilot_ok:
  "validate_copilot gateway c = Inr () \<longleftrightarrow>
   copilot_models_valid c \<and> (behind_gateway gateway (cp_use_llm_gateway c) \<longrightarrow> cp_models c \<noteq> [])"
  by (auto simp: validate_copilot_def behind_gateway_def copilot_validate_ok)

lemma validate_vscode_ok:
  "validate_vscode gateway c = Inr () \<longleftrightarrow>
   vscode_models_valid c \<and>
   (behind_gateway gateway (vs_use_llm_gateway c) \<longrightarrow>
     (case vs_copilot_chat c of
        OwnModels \<Rightarrow> vs_models c \<noteq> []
      | GithubModels \<Rightarrow> \<exists>g. gateway = Some g \<and> gw_proxy_url g \<noteq> None))"
  by (cases gateway; cases "vs_copilot_chat c") (auto simp: validate_vscode_def behind_gateway_def vscode_validate_ok)

lemma subscriptions_ok:
  "list_all (\<lambda>c. c = Inr ()) (map (validate_subscription gateway) (subscriptions p)) \<longleftrightarrow>
   (\<forall>c. pg_claude_code p = Some c \<longrightarrow>
      subscription_valid gateway (ccc_auth c = Some Subscription) (ccc_use_llm_gateway c))
   \<and> (\<forall>c. pg_claude_desktop p = Some c \<longrightarrow>
      subscription_valid gateway (cdc_auth c = Some Subscription) (cdc_use_llm_gateway c))
   \<and> (\<forall>c. pg_codex p = Some c \<longrightarrow>
      subscription_valid gateway (cx_auth c = Some Subscription) (cx_use_llm_gateway c))"
  by (cases "pg_claude_code p"; cases "pg_claude_desktop p"; cases "pg_codex p")
    (simp_all add: subscriptions_def validate_subscription_ok subscription_valid_def [of gateway False])

lemma validate_sandbox_ok:
  "validate_sandbox p = Inr () \<longleftrightarrow> pg_claude_desktop p = None \<and> pg_open_code p = None \<and> pg_grok p = None
     \<and> pg_copilot p = None \<and> pg_vscode p = None \<and> pg_pi p = None"
  by (simp add: validate_sandbox_def)

lemma validate_daemon_ok:
  "validate_daemon parse_url gateway sandbox p = Inr () \<longleftrightarrow> daemon_valid parse_url gateway sandbox p"
proof -
  have "validate_daemon parse_url gateway sandbox p = Inr () \<longleftrightarrow>
    (sandbox \<noteq> None \<longrightarrow> validate_sandbox p = Inr ())
    \<and> (\<forall>g. gateway = Some g \<longrightarrow> gateway_valid parse_url g)
    \<and> list_all (\<lambda>c. c = Inr ()) (map (validate_subscription gateway) (subscriptions p))
    \<and> (\<forall>c. pg_open_code p = Some c \<longrightarrow> validate_open_code gateway c = Inr ())
    \<and> (\<forall>c. pg_grok p = Some c \<longrightarrow> validate_grok gateway c = Inr ())
    \<and> (\<forall>c. pg_copilot p = Some c \<longrightarrow> validate_copilot gateway c = Inr ())
    \<and> (\<forall>c. pg_vscode p = Some c \<longrightarrow> validate_vscode gateway c = Inr ())
    \<and> (\<forall>c. pg_pi p = Some c \<longrightarrow> validate_pi gateway c = Inr ())"
    unfolding validate_daemon_def by (simp add: validate_gateway_ok)
  then show ?thesis
    unfolding validate_sandbox_ok subscriptions_ok validate_open_code_ok validate_grok_ok validate_copilot_ok
      validate_vscode_ok validate_pi_ok daemon_valid_def programs_valid_def
    by blast
qed

text \<open>
  C11. The validation of a daemon configuration accepts exactly the configurations that the
  rules describe: gateway and proxy URLs are plain HTTP or HTTPS URLs without credentials, query
  or fragment; tokens come from an HTTPS issuer, or a loopback one where that was asked for; a
  subscription goes through an authenticated gateway with a browser sign-in; every program
  behind the gateway has a declared model; the models of Copilot and VS Code have IDs and configure
  none of the keys that the daemon sets, an API key least of all, in any capitalisation, and VS Code
  has no models of its own when it uses GitHub's; a sandbox only applies to programs that support it.
\<close>

theorem validate_daemon_exact:
  "validate_daemon parse_url gateway sandbox p = Inr () \<longleftrightarrow> daemon_valid parse_url gateway sandbox p"
  by (rule validate_daemon_ok)

end
