(* ===== verification/Usage_Otlp.thy ===== *)
theory Usage_Otlp
  imports Usage_Report Config_Check
begin

text \<open>
  agentgateway's access-log records (\<^verbatim>\<open>crates/usage/src/otlp.rs\<close>): the token check of the OTLP
  service, reading one record, its identifier, and the export handler that stores a batch. The
  SHA-256 digest, the base64 encoding and the \<^verbatim>\<open>uuid\<close> crate are parameters.
\<close>

section \<open>Records on the wire\<close>

datatype otlp_value =
    StringValue string
  | BoolValue bool
  | IntValue "64 word"
  | DoubleValue "64 word"
  | ArrayValue "otlp_value option list"
  | KvlistValue "(string \<times> otlp_value option option) list"
  | BytesValue bytes

text \<open>
  An \<^verbatim>\<open>AnyValue\<close> is a message with an optional value, and it is itself optional where it is used:
  \<^verbatim>\<open>value.and_then(|value| value.value.as_ref())\<close> joins the two.
\<close>

fun join_value :: "otlp_value option option \<Rightarrow> otlp_value option" where
  "join_value (Some v) = v"
| "join_value None = None"

record log_record =
  lr_time_unix_nano :: "64 word"
  lr_observed_time_unix_nano :: "64 word"
  lr_severity_number :: "32 word"
  lr_severity_text :: string
  lr_body :: "otlp_value option option"
  lr_attributes :: "(string \<times> otlp_value option option) list"
  lr_dropped_attributes_count :: "32 word"
  lr_flags :: "32 word"
  lr_trace_id :: bytes
  lr_span_id :: bytes
  lr_event_name :: string

record usage_codec =
  uc_sha256 :: "bytes \<Rightarrow> bytes"
  uc_base64 :: "bytes \<Rightarrow> string"
  uc_uuid :: "string \<Rightarrow> string option"

section \<open>Limits and attribute names\<close>

definition MIN_TOKEN_LENGTH :: nat where "MIN_TOKEN_LENGTH = 32"
definition MAX_LABEL_BYTES :: nat where "MAX_LABEL_BYTES = 128"
definition MAX_SUBJECT_BYTES :: nat where "MAX_SUBJECT_BYTES = 256"
definition MAX_TOKENS_PER_REQUEST :: int where "MAX_TOKENS_PER_REQUEST = 1000000000"
definition MAX_COST_NANOS_PER_REQUEST :: int where "MAX_COST_NANOS_PER_REQUEST = 1000000000000000"
definition MAX_CLOCK_SKEW :: int where "MAX_CLOCK_SKEW = 5 * 60"

abbreviation PROVIDER :: string where "PROVIDER \<equiv> ''gen_ai.provider.name''"
abbreviation REQUEST_MODEL :: string where "REQUEST_MODEL \<equiv> ''gen_ai.request.model''"
abbreviation RESPONSE_MODEL :: string where "RESPONSE_MODEL \<equiv> ''gen_ai.response.model''"
abbreviation INPUT_TOKENS :: string where "INPUT_TOKENS \<equiv> ''gen_ai.usage.input_tokens''"
abbreviation OUTPUT_TOKENS :: string where "OUTPUT_TOKENS \<equiv> ''gen_ai.usage.output_tokens''"
abbreviation CACHE_READ_TOKENS :: string where "CACHE_READ_TOKENS \<equiv> ''gen_ai.usage.cache_read.input_tokens''"
abbreviation CACHE_WRITE_TOKENS :: string where "CACHE_WRITE_TOKENS \<equiv> ''gen_ai.usage.cache_creation.input_tokens''"
abbreviation COST :: string where "COST \<equiv> ''agw.ai.usage.cost.total''"
abbreviation STATUS :: string where "STATUS \<equiv> ''http.response.status_code''"
abbreviation ERROR :: string where "ERROR \<equiv> ''error''"
abbreviation JWT_SUBJECT :: string where "JWT_SUBJECT \<equiv> ''jwt.sub''"
abbreviation USER_AGENT :: string where "USER_AGENT \<equiv> ''user_agent.original''"
abbreviation SUBJECT :: string where "SUBJECT \<equiv> ''agentdesktop.subject''"
abbreviation DEVICE :: string where "DEVICE \<equiv> ''agentdesktop.device''"
abbreviation CLIENT :: string where "CLIENT \<equiv> ''agentdesktop.client''"
abbreviation BILLING :: string where "BILLING \<equiv> ''agentdesktop.billing''"

definition USER_AGENT_TOOLS :: "(string \<times> string) list" where
  "USER_AGENT_TOOLS = [(''claude-cli/'', ''claude-code''), (''codex_'', ''codex'')]"

section \<open>The export token\<close>

text \<open>
  The interceptor: \<open>authorization\<close> is the header's value when there is one and it is text.
  \<^verbatim>\<open>verify_slices_are_equal\<close> compares the digests.
\<close>

definition token_check :: "usage_codec \<Rightarrow> bytes \<Rightarrow> string option \<Rightarrow> string + unit" where
  "token_check codec digest authorization =
     (case authorization of
        Some v \<Rightarrow>
          (if prefix ''Bearer '' v
           then (if uc_sha256 codec (drop 7 v) = digest then Inr () else Inl ''invalid usage export token'')
           else Inl ''missing usage export token'')
      | None \<Rightarrow> Inl ''missing usage export token'')"

definition is_ascii_graphic :: "char \<Rightarrow> bool" where
  "is_ascii_graphic c \<longleftrightarrow> (33 :: nat) \<le> of_char c \<and> of_char c \<le> (126 :: nat)"

definition load_token :: "'a os_scheme \<Rightarrow> path \<Rightarrow> anyhow + string" where
  "load_token s p =
     (case read_to_string s p of
        Inl e \<Rightarrow> Inl [''read usage token from '' @ path_display p, io_message e]
      | Inr contents \<Rightarrow>
          (let token = trim contents
           in if length token < MIN_TOKEN_LENGTH
              then Inl [''usage token in '' @ path_display p @ '' must be at least 32 characters'']
              else if \<not> list_all is_ascii_graphic token
              then Inl [''usage token in '' @ path_display p @ '' must be printable ASCII without spaces'']
              else Inr token))"

section \<open>Values\<close>

definition is_integer :: "rat \<Rightarrow> bool" where
  "is_integer x \<longleftrightarrow> of_int \<lfloor>x\<rfloor> = x"

fun integer :: "otlp_value \<Rightarrow> int option" where
  "integer (IntValue w) = Some (sint w)"
| "integer (DoubleValue w) =
     (case f64_from_bits w of
        Finite x \<Rightarrow> if is_integer x \<and> \<bar>x\<bar> < 9000000000000000 then Some \<lfloor>x\<rfloor> else None
      | _ \<Rightarrow> None)"
| "integer (StringValue s) = parse_i64 (trim s)"
| "integer _ = None"

definition dollars_to_nanos :: "f64 \<Rightarrow> int option" where
  "dollars_to_nanos d =
     (case f64_round (f64_times d 1000000000) of
        Finite nanos \<Rightarrow> if 0 \<le> nanos \<and> nanos < 9000000000000000000 then Some \<lfloor>nanos\<rfloor> else None
      | _ \<Rightarrow> None)"

text \<open>\<^verbatim>\<open>split_once('.')\<close>, or the whole text and no fraction.\<close>

definition split_point :: "string \<Rightarrow> string \<times> string" where
  "split_point s = (takeWhile (\<lambda>c. c \<noteq> CHR ''.'') s, drop 1 (dropWhile (\<lambda>c. c \<noteq> CHR ''.'') s))"

text \<open>The nine digits after the point, a missing one as zero.\<close>

fun nine_digits :: "nat \<Rightarrow> int \<Rightarrow> string \<Rightarrow> int" where
  "nine_digits 0 nanos ds = nanos"
| "nine_digits (Suc n) nanos [] = nine_digits n (nanos * 10) []"
| "nine_digits (Suc n) nanos (d # ds) = nine_digits n (nanos * 10 + (of_char d - 48)) ds"

definition decimal_nanos :: "string \<Rightarrow> int option" where
  "decimal_nanos s =
     (case split_point s of
        (whole, fraction) \<Rightarrow>
          if \<not> (\<not> (whole = [] \<and> fraction = []) \<and> list_all is_ascii_digit (whole @ fraction))
          then Option.bind (parse_f64 s) dollars_to_nanos
          else
            (case (if whole = [] then Some 0 else parse_i64 whole) of
               None \<Rightarrow> None
             | Some n \<Rightarrow>
                 (let nanos = nine_digits 9 0 fraction;
                      round_up = (9 < length fraction \<and> (53 :: nat) \<le> of_char (fraction ! 9))
                  in case checked_i64 (n * 1000000000) of
                       None \<Rightarrow> None
                     | Some m \<Rightarrow> checked_i64 (m + (nanos + (if round_up then 1 else 0))))))"

fun cost_nanos :: "otlp_value \<Rightarrow> int option" where
  "cost_nanos (StringValue s) = decimal_nanos (trim s)"
| "cost_nanos (DoubleValue w) = dollars_to_nanos (f64_from_bits w)"
| "cost_nanos (IntValue w) =
     (case checked_i64 (sint w * 1000000000) of
        Some nanos \<Rightarrow> if 0 \<le> nanos then Some nanos else None
      | None \<Rightarrow> None)"
| "cost_nanos _ = None"

text \<open>\<^verbatim>\<open>char::is_control\<close> on the bytes: a C0 control or DEL, or \<^verbatim>\<open>C2\<close> followed by \<^verbatim>\<open>80\<close> to \<^verbatim>\<open>9F\<close>.\<close>

fun has_control :: "string \<Rightarrow> bool" where
  "has_control [] = False"
| "has_control (c # s) =
     ((of_char c :: nat) < 32 \<or> (of_char c :: nat) = 127
      \<or> (of_char c :: nat) = 0xC2
        \<and> (case s of d # _ \<Rightarrow> (0x80 :: nat) \<le> of_char d \<and> of_char d \<le> (0x9F :: nat) | [] \<Rightarrow> False)
      \<or> has_control s)"

definition label :: "string \<Rightarrow> nat \<Rightarrow> string" where
  "label v max_bytes = (if max_bytes < length v \<or> has_control v then [] else v)"

definition occurred_at :: "log_record \<Rightarrow> int \<Rightarrow> string + int" where
  "occurred_at r now =
     (let nanos = (if lr_time_unix_nano r = 0 then lr_observed_time_unix_nano r else lr_time_unix_nano r)
      in if nanos = 0 then Inr now
         else
           (let seconds = uint nanos div 1000000000
            in if seconds > saturating_add now MAX_CLOCK_SKEW then Inr now
               else if seconds < now - DAILY_RETENTION then Inl ''record is older than usage retention''
               else Inr seconds))"

section \<open>Identifiers\<close>

definition be_bytes :: "nat \<Rightarrow> bytes" where
  "be_bytes n = map (\<lambda>i. char_of (n div 256 ^ (7 - i) mod 256)) [0..<8]"

definition hash_bytes :: "bytes \<Rightarrow> bytes" where
  "hash_bytes b = be_bytes (length b) @ b"

text \<open>What is fed to the hash for a value.\<close>

fun hash_some :: "otlp_value \<Rightarrow> bytes" where
  "hash_some (StringValue s) = char_of (1 :: nat) # hash_bytes s"
| "hash_some (BoolValue b) = [char_of (2 :: nat), char_of (if b then 1 else 0 :: nat)]"
| "hash_some (IntValue w) = char_of (3 :: nat) # be_bytes (unat w)"
| "hash_some (DoubleValue w) = char_of (4 :: nat) # be_bytes (unat w)"
| "hash_some (ArrayValue vs) =
     char_of (5 :: nat) # be_bytes (length vs)
     @ concat (map (\<lambda>v. case v of None \<Rightarrow> [char_of (0 :: nat)] | Some x \<Rightarrow> hash_some x) vs)"
| "hash_some (KvlistValue es) =
     char_of (6 :: nat) # be_bytes (length es)
     @ concat (map (\<lambda>(k, v). hash_bytes k
         @ (case v of
              None \<Rightarrow> [char_of (0 :: nat)]
            | Some None \<Rightarrow> [char_of (0 :: nat)]
            | Some (Some x) \<Rightarrow> hash_some x)) es)"
| "hash_some (BytesValue b) = char_of (7 :: nat) # hash_bytes b"

definition hash_value :: "otlp_value option option \<Rightarrow> bytes" where
  "hash_value v = (case join_value v of None \<Rightarrow> [char_of (0 :: nat)] | Some x \<Rightarrow> hash_some x)"

definition record_bytes :: "log_record \<Rightarrow> bytes" where
  "record_bytes r =
     (let attributes = sort_key fst (lr_attributes r)
      in be_bytes (unat (lr_time_unix_nano r)) @ be_bytes (unat (lr_observed_time_unix_nano r))
         @ hash_bytes (lr_trace_id r) @ hash_bytes (lr_span_id r)
         @ be_bytes (length attributes)
         @ concat (map (\<lambda>(k, v). hash_bytes k @ hash_value v) attributes)
         @ hash_value (lr_body r))"

definition record_id :: "usage_codec \<Rightarrow> log_record \<Rightarrow> string" where
  "record_id codec r = uc_base64 codec (uc_sha256 codec (record_bytes r))"

section \<open>Reading a record\<close>

definition attributes_of :: "log_record \<Rightarrow> (string \<times> otlp_value) list" where
  "attributes_of r =
     fold (\<lambda>(k, v) m. case join_value v of Some x \<Rightarrow> om_insert k x m | None \<Rightarrow> m) (lr_attributes r) []"

definition attribute_text :: "(string \<times> otlp_value) list \<Rightarrow> string \<Rightarrow> string option" where
  "attribute_text attributes key =
     (case om_get attributes key of Some (StringValue s) \<Rightarrow> Some s | _ \<Rightarrow> None)"

definition attribute_count :: "(string \<times> otlp_value) list \<Rightarrow> string \<Rightarrow> string + int" where
  "attribute_count attributes key =
     (case om_get attributes key of
        None \<Rightarrow> Inr 0
      | Some v \<Rightarrow>
          (case integer v of
             Some n \<Rightarrow>
               if 0 \<le> n \<and> n \<le> MAX_TOKENS_PER_REQUEST then Inr n
               else Inl (key @ '' must be an integer between 0 and 1000000000'')
           | None \<Rightarrow> Inl (key @ '' must be an integer between 0 and 1000000000'')))"

definition attribute_cost :: "(string \<times> otlp_value) list \<Rightarrow> string + int option" where
  "attribute_cost attributes =
     (case om_get attributes COST of
        None \<Rightarrow> Inr None
      | Some v \<Rightarrow>
          (case cost_nanos v of
             Some n \<Rightarrow>
               if n \<le> MAX_COST_NANOS_PER_REQUEST then Inr (Some n)
               else Inl (COST @ '' must be a dollar amount no greater than $1,000,000 per request'')
           | None \<Rightarrow> Inl (COST @ '' must be a dollar amount no greater than $1,000,000 per request'')))"

definition or_else :: "'a option \<Rightarrow> 'a option \<Rightarrow> 'a option" where
  "or_else a b = (case a of Some x \<Rightarrow> Some x | None \<Rightarrow> b)"

definition some_if :: "('a \<Rightarrow> bool) \<Rightarrow> 'a option \<Rightarrow> 'a option" where
  "some_if P a = (case a of Some x \<Rightarrow> if P x then Some x else None | None \<Rightarrow> None)"

definition or_empty :: "string option \<Rightarrow> string" where
  "or_empty a = (case a of Some x \<Rightarrow> x | None \<Rightarrow> [])"

fun bind_sum :: "'e + 'a \<Rightarrow> ('a \<Rightarrow> 'e + 'b) \<Rightarrow> 'e + 'b" where
  "bind_sum (Inl e) next = Inl e"
| "bind_sum (Inr x) next = next x"

definition record_client :: "(string \<times> otlp_value) list \<Rightarrow> string" where
  "record_client attributes =
     or_empty
       (or_else (some_if valid_client_id (attribute_text attributes CLIENT))
         (Option.bind (attribute_text attributes USER_AGENT) (\<lambda>user_agent.
            map_option snd (find (\<lambda>(start, tool). prefix start user_agent) USER_AGENT_TOOLS))))"

definition record_failed :: "(string \<times> otlp_value) list \<Rightarrow> bool" where
  "record_failed attributes \<longleftrightarrow>
     (case om_get attributes ERROR of Some v \<Rightarrow> v \<noteq> StringValue [] | None \<Rightarrow> False)
     \<or> 400 \<le> (case Option.bind (om_get attributes STATUS) integer of Some n \<Rightarrow> n | None \<Rightarrow> 0)"

definition parse_record :: "usage_codec \<Rightarrow> log_record \<Rightarrow> int \<Rightarrow> string + usage_record option" where
  "parse_record codec r now =
     (let attributes = attributes_of r; txt = attribute_text attributes
      in case some_if (\<lambda>p. p \<noteq> []) (txt PROVIDER) of
           None \<Rightarrow> Inr None
         | Some provider \<Rightarrow>
             (let model = or_empty (or_else (some_if (\<lambda>m. m \<noteq> []) (txt RESPONSE_MODEL)) (txt REQUEST_MODEL));
                  subject = or_empty (or_else (txt SUBJECT) (txt JWT_SUBJECT));
                  device_id = or_empty (Option.bind (txt DEVICE) (uc_uuid codec));
                  client_id = record_client attributes;
                  billing = (if txt BILLING = Some ''subscription'' then billing.Subscription else Api)
              in bind_sum (attribute_count attributes INPUT_TOKENS) (\<lambda>input_tokens.
                 bind_sum (attribute_count attributes OUTPUT_TOKENS) (\<lambda>output_tokens.
                 bind_sum (attribute_cost attributes) (\<lambda>cost.
                 bind_sum (occurred_at r now) (\<lambda>occurred.
                 bind_sum (attribute_count attributes CACHE_READ_TOKENS) (\<lambda>cache_read_tokens.
                 bind_sum (attribute_count attributes CACHE_WRITE_TOKENS) (\<lambda>cache_write_tokens.
                   Inr (Some
                     \<lparr>ur_id = record_id codec r,
                      ur_key =
                        RollupKey (occurred div HOUR * HOUR) (label subject MAX_SUBJECT_BYTES) device_id client_id
                          (label provider MAX_LABEL_BYTES) (label model MAX_LABEL_BYTES) billing,
                      ur_measures =
                        \<lparr>me_requests = 1,
                         me_errors = (if record_failed attributes then 1 else 0),
                         me_input_tokens = input_tokens,
                         me_output_tokens = output_tokens,
                         me_cache_read_tokens = cache_read_tokens,
                         me_cache_write_tokens = cache_write_tokens,
                         me_cost_nanos = (case cost of Some n \<Rightarrow> n | None \<Rightarrow> 0),
                         me_unpriced_requests =
                           (if cost = None \<and> 0 < saturating_add input_tokens output_tokens then 1 else 0)\<rparr>\<rparr>)))))))))"

section \<open>The export handler\<close>

text \<open>The records that are usage, how many were rejected, and the first rejection's message.\<close>

fun parse_records ::
    "usage_codec \<Rightarrow> int \<Rightarrow> log_record list \<Rightarrow> usage_record list \<Rightarrow> nat \<Rightarrow> string option
      \<Rightarrow> usage_record list \<times> nat \<times> string option" where
  "parse_records codec now [] records rejected first_error = (records, rejected, first_error)"
| "parse_records codec now (r # rs) records rejected first_error =
     (case parse_record codec r now of
        Inr (Some usage) \<Rightarrow> parse_records codec now rs (records @ [usage]) rejected first_error
      | Inr None \<Rightarrow> parse_records codec now rs records rejected first_error
      | Inl e \<Rightarrow> parse_records codec now rs records (rejected + 1) (or_else first_error (Some e)))"

type_synonym export_request = "log_record list list list"

definition export ::
    "usage_codec \<Rightarrow> usage_sql \<Rightarrow> int \<Rightarrow> export_request \<Rightarrow> usage_db \<Rightarrow> (string + (nat \<times> string) option) \<times> usage_db" where
  "export codec sql now request db =
     (case parse_records codec now (concat (concat request)) [] 0 None of
        (records, rejected, first_error) \<Rightarrow>
          (case ingest sql db records now of
             (Inl e, db') \<Rightarrow> (Inl ''usage storage is unavailable'', db')
           | (Inr n, db') \<Rightarrow> (Inr (map_option (\<lambda>e. (rejected, e)) first_error), db')))"

section \<open>What an accepted record holds\<close>

lemma bind_sum_Inr [simp]: "bind_sum a f = Inr x \<longleftrightarrow> (\<exists>y. a = Inr y \<and> f y = Inr x)"
  by (cases a) auto

lemma attribute_count_range:
  "attribute_count attributes key = Inr n \<Longrightarrow> 0 \<le> n \<and> n \<le> MAX_TOKENS_PER_REQUEST"
  by (auto simp: attribute_count_def MAX_TOKENS_PER_REQUEST_def split: outcome_splits)

lemma dollars_to_nanos_nonneg: "dollars_to_nanos d = Some n \<Longrightarrow> 0 \<le> n"
  by (auto simp: dollars_to_nanos_def split: f64.splits if_splits)

lemma parse_i64_digits: "whole \<noteq> [] \<Longrightarrow> all_digits whole \<Longrightarrow> parse_i64 whole = checked_i64 (digits_int 0 whole)"
proof (cases whole)
  case (Cons c s)
  assume "all_digits whole"
  moreover from this Cons have "c \<noteq> CHR ''-'' \<and> c \<noteq> CHR ''+''"
    by (auto simp: all_digits_def is_ascii_digit_def)
  ultimately show ?thesis
    by (simp add: Cons parse_i64_def unsigned_digits_def)
qed simp

lemma nine_digits_nonneg: "0 \<le> nanos \<Longrightarrow> all_digits ds \<Longrightarrow> 0 \<le> nine_digits n nanos ds"
proof (induction n nanos ds rule: nine_digits.induct)
  case (3 n nanos d ds)
  then have "0 \<le> nanos * 10 + (of_char d - 48)"
    using digit_value_range(1) [of d] by (simp add: all_digits_def)
  with 3 show ?case by (simp add: all_digits_def)
qed simp_all

text \<open>A plain decimal: digits with at most one point among them.\<close>

definition plain_decimal :: "string \<Rightarrow> string \<Rightarrow> bool" where
  "plain_decimal whole fraction \<longleftrightarrow> \<not> (whole = [] \<and> fraction = []) \<and> all_digits whole \<and> all_digits fraction"

definition round_up :: "string \<Rightarrow> bool" where
  "round_up fraction \<longleftrightarrow> 9 < length fraction \<and> (53 :: nat) \<le> of_char (fraction ! 9)"

lemma decimal_nanos_plain:
  assumes "split_point s = (whole, fraction)" and "plain_decimal whole fraction"
  shows "decimal_nanos s = Option.bind (checked_i64 (digits_int 0 whole)) (\<lambda>n.
    Option.bind (checked_i64 (n * 1000000000)) (\<lambda>m.
      checked_i64 (m + (nine_digits 9 0 fraction + (if round_up fraction then 1 else 0)))))"
proof (cases "whole = []")
  case True
  then show ?thesis
    using assms by (simp add: decimal_nanos_def plain_decimal_def all_digits_def round_up_def Let_def checked_i64_def
        in_i64_def i64_min_def i64_max_def)
next
  case False
  then have "parse_i64 whole = checked_i64 (digits_int 0 whole)"
    using assms(2) by (intro parse_i64_digits) (simp_all add: plain_decimal_def)
  with False assms show ?thesis
    by (simp add: decimal_nanos_def plain_decimal_def all_digits_def round_up_def Let_def Option.bind_eq_Some_conv
        split: option.splits)
qed

lemma decimal_nanos_other:
  assumes "split_point s = (whole, fraction)" and "\<not> plain_decimal whole fraction"
  shows "decimal_nanos s = Option.bind (parse_f64 s) dollars_to_nanos"
  using assms by (auto simp: decimal_nanos_def plain_decimal_def all_digits_def)

lemma decimal_nanos_nonneg:
  assumes "decimal_nanos s = Some n"
  shows "0 \<le> n"
proof -
  obtain whole fraction where sp: "split_point s = (whole, fraction)" by (cases "split_point s")
  show ?thesis
  proof (cases "plain_decimal whole fraction")
    case True
    then have "0 \<le> digits_int 0 whole" and "0 \<le> nine_digits 9 0 fraction"
      by (auto simp: plain_decimal_def intro: digits_int_nonneg nine_digits_nonneg)
    with assms show ?thesis
      by (auto simp: decimal_nanos_plain [OF sp True] checked_i64_def split: if_splits)
  next
    case False
    with assms show ?thesis
      by (auto simp: decimal_nanos_other [OF sp] Option.bind_eq_Some_conv dollars_to_nanos_nonneg)
  qed
qed

lemma cost_nanos_nonneg: "cost_nanos v = Some n \<Longrightarrow> 0 \<le> n"
  by (cases v) (auto simp: decimal_nanos_nonneg dollars_to_nanos_nonneg split: option.splits if_splits)

lemma attribute_cost_range:
  "attribute_cost attributes = Inr (Some n) \<Longrightarrow> 0 \<le> n \<and> n \<le> MAX_COST_NANOS_PER_REQUEST"
  by (auto simp: attribute_cost_def cost_nanos_nonneg split: outcome_splits)

lemma occurred_at_range:
  assumes "occurred_at r now = Inr t" and "in_i64 (now + MAX_CLOCK_SKEW)"
  shows "now - DAILY_RETENTION \<le> t" and "t \<le> now + MAX_CLOCK_SKEW"
  using assms by (auto simp: occurred_at_def Let_def MAX_CLOCK_SKEW_def usage_seconds saturating_add_exact
      split: if_splits)

lemma label_bounds: "length (label v n) \<le> n \<and> \<not> has_control (label v n)"
  by (simp add: label_def)

lemma record_client_cases:
  "record_client attributes = [] \<or> valid_client_id (record_client attributes)"
proof -
  have tools: "valid_client_id tool" if "(start, tool) \<in> set USER_AGENT_TOOLS" for start tool
    using that by (auto simp: USER_AGENT_TOOLS_def valid_client_id_def is_ascii_alphanumeric_def
        is_ascii_lowercase_def is_ascii_uppercase_def is_ascii_digit_def)
  show ?thesis
    using tools
    by (auto simp: record_client_def or_empty_def or_else_def some_if_def Option.bind_eq_Some_conv
        split: option.splits if_splits dest!: find_SomeD)
qed

text \<open>What an accepted record is: one request within the limits, in a bucket of the retention.\<close>

definition record_within :: "int \<Rightarrow> usage_record \<Rightarrow> bool" where
  "record_within now u \<longleftrightarrow>
     me_requests (ur_measures u) = 1 \<and> me_errors (ur_measures u) \<in> {0, 1}
     \<and> me_input_tokens (ur_measures u) \<in> {0..MAX_TOKENS_PER_REQUEST}
     \<and> me_output_tokens (ur_measures u) \<in> {0..MAX_TOKENS_PER_REQUEST}
     \<and> me_cache_read_tokens (ur_measures u) \<in> {0..MAX_TOKENS_PER_REQUEST}
     \<and> me_cache_write_tokens (ur_measures u) \<in> {0..MAX_TOKENS_PER_REQUEST}
     \<and> me_cost_nanos (ur_measures u) \<in> {0..MAX_COST_NANOS_PER_REQUEST}
     \<and> me_unpriced_requests (ur_measures u) \<in> {0, 1}
     \<and> (me_unpriced_requests (ur_measures u) = 1 \<longrightarrow>
          me_cost_nanos (ur_measures u) = 0
          \<and> 0 < me_input_tokens (ur_measures u) + me_output_tokens (ur_measures u))
     \<and> rk_bucket_start (ur_key u) mod HOUR = 0
     \<and> rk_bucket_start (ur_key u) \<in> {now - DAILY_RETENTION - HOUR..now + MAX_CLOCK_SKEW}
     \<and> length (rk_subject (ur_key u)) \<le> MAX_SUBJECT_BYTES \<and> \<not> has_control (rk_subject (ur_key u))
     \<and> length (rk_provider (ur_key u)) \<le> MAX_LABEL_BYTES \<and> \<not> has_control (rk_provider (ur_key u))
     \<and> length (rk_model (ur_key u)) \<le> MAX_LABEL_BYTES \<and> \<not> has_control (rk_model (ur_key u))
     \<and> (rk_client_id (ur_key u) = [] \<or> valid_client_id (rk_client_id (ur_key u)))"

lemma parse_record_cases:
  assumes "parse_record codec r now = Inr (Some u)"
  obtains inp out cost t cache_read cache_write where
    "attribute_count (attributes_of r) INPUT_TOKENS = Inr inp"
    "attribute_count (attributes_of r) OUTPUT_TOKENS = Inr out"
    "attribute_cost (attributes_of r) = Inr cost"
    "occurred_at r now = Inr t"
    "attribute_count (attributes_of r) CACHE_READ_TOKENS = Inr cache_read"
    "attribute_count (attributes_of r) CACHE_WRITE_TOKENS = Inr cache_write"
    "ur_id u = record_id codec r"
    "\<exists>subject device provider model b. ur_key u = RollupKey (t div HOUR * HOUR) (label subject MAX_SUBJECT_BYTES) device
      (record_client (attributes_of r)) (label provider MAX_LABEL_BYTES) (label model MAX_LABEL_BYTES) b"
    "ur_measures u = \<lparr>me_requests = 1, me_errors = (if record_failed (attributes_of r) then 1 else 0),
      me_input_tokens = inp, me_output_tokens = out, me_cache_read_tokens = cache_read,
      me_cache_write_tokens = cache_write, me_cost_nanos = (case cost of Some n \<Rightarrow> n | None \<Rightarrow> 0),
      me_unpriced_requests = (if cost = None \<and> 0 < saturating_add inp out then 1 else 0)\<rparr>"
proof (cases "some_if (\<lambda>p. p \<noteq> []) (attribute_text (attributes_of r) PROVIDER)")
  case None
  with assms show thesis by (simp add: parse_record_def Let_def)
next
  case (Some provider)
  note run = assms [unfolded parse_record_def Let_def Some option.case bind_sum_Inr]
  show thesis
    using run by (elim exE conjE) (rule that, assumption+, auto)
qed

lemma parse_record_within:
  assumes "parse_record codec r now = Inr (Some u)" and "in_i64 (now + MAX_CLOCK_SKEW)"
  shows "record_within now u \<and> ur_id u = record_id codec r"
  using assms(1)
proof (cases rule: parse_record_cases)
  case (1 inp out cost t cache_read cache_write)
  note counts = 1(1,2,5,6) [THEN attribute_count_range]
  have cost: "0 \<le> n \<and> n \<le> MAX_COST_NANOS_PER_REQUEST" if "cost = Some n" for n
    using that 1(3) attribute_cost_range by blast
  note time = occurred_at_range [OF 1(4) assms(2)]
  have hour: "t div HOUR * HOUR \<le> t \<and> t < t div HOUR * HOUR + HOUR"
    by (rule floor_multiple) (simp add: usage_seconds)
  have sum: "saturating_add inp out = inp + out"
    using counts by (intro saturating_add_exact) (auto simp: in_i64_def i64_min_def i64_max_def MAX_TOKENS_PER_REQUEST_def)
  obtain subject device provider model b where key: "ur_key u = RollupKey (t div HOUR * HOUR)
      (label subject MAX_SUBJECT_BYTES) device (record_client (attributes_of r)) (label provider MAX_LABEL_BYTES)
      (label model MAX_LABEL_BYTES) b"
    using 1(8) by blast
  show ?thesis
    unfolding record_within_def key 1(9) sum
    using counts cost time hour label_bounds record_client_cases 1(7)
    by (auto simp: MAX_COST_NANOS_PER_REQUEST_def split: option.splits)
qed

text \<open>
  C38. Every usage record the service accepts is within its limits. Whatever the log record
  contains, if it is read as usage then it counts as one request and at most one error, its
  token counts lie between 0 and one billion and its cost between 0 and one million dollars, it is
  unpriced only without a cost and with tokens, its hour lies in the retention and at most the
  clock skew ahead, and its labels respect their limits and hold no control character.
\<close>

theorem parse_record_within_limits:
  assumes "parse_record codec r now = Inr (Some u)" and "in_i64 (now + MAX_CLOCK_SKEW)"
  shows "record_within now u \<and> ur_id u = record_id codec r"
  by (rule parse_record_within [OF assms])

section \<open>Exports\<close>

definition accepted :: "usage_codec \<Rightarrow> int \<Rightarrow> log_record \<Rightarrow> usage_record option" where
  "accepted codec now r = (case parse_record codec r now of Inr u \<Rightarrow> u | Inl e \<Rightarrow> None)"

definition usage_records :: "usage_codec \<Rightarrow> int \<Rightarrow> export_request \<Rightarrow> usage_record list" where
  "usage_records codec now request = List.map_filter (accepted codec now) (concat (concat request))"

lemma parse_records_usage:
  "fst (parse_records codec now rs records n e) = records @ List.map_filter (accepted codec now) rs"
  by (induction rs arbitrary: records n e)
    (auto simp: accepted_def List.map_filter_simps split: sum.splits option.splits)

lemma export_ingest:
  "snd (export codec sql now request db) = snd (ingest sql db (usage_records codec now request) now)"
  "fst (export codec sql now request db) = Inr answer \<Longrightarrow>
    \<exists>n. fst (ingest sql db (usage_records codec now request) now) = Inr n"
proof -
  obtain rejected first_error where p: "parse_records codec now (concat (concat request)) [] 0 None
      = (usage_records codec now request, rejected, first_error)"
    using parse_records_usage [of codec now "concat (concat request)" "[]" 0 None]
    by (metis append_Nil prod.collapse usage_records_def)
  show "snd (export codec sql now request db) = snd (ingest sql db (usage_records codec now request) now)"
    by (auto simp: export_def p split: prod.splits sum.splits)
  show "fst (export codec sql now request db) = Inr answer \<Longrightarrow>
    \<exists>n. fst (ingest sql db (usage_records codec now request) now) = Inr n"
    by (auto simp: export_def p split: prod.splits sum.splits)
qed

lemma usage_records_length: "length (usage_records codec now request) \<le> length (concat (concat request))"
  by (simp add: usage_records_def List.map_filter_def)

lemma usage_records_valid:
  assumes "u \<in> set (usage_records codec now request)"
    and "DAILY_RETENTION + HOUR \<le> now" and "in_i64 (now + MAX_CLOCK_SKEW)"
  shows "valid_record u"
proof -
  obtain r where "parse_record codec r now = Inr (Some u)"
    using assms(1) by (auto simp: usage_records_def List.map_filter_def accepted_def split: sum.splits)
  then have "record_within now u"
    using parse_record_within assms(3) by blast
  with assms(2) show ?thesis
    by (auto simp: record_within_def valid_record_def measures_within_def record_limit_def
        MAX_TOKENS_PER_REQUEST_def MAX_COST_NANOS_PER_REQUEST_def)
qed

lemma occurred_at_earlier:
  assumes "occurred_at r now' = Inr t'" and "now \<le> now'"
  shows "\<exists>t. occurred_at r now = Inr t"
proof -
  have "saturating_add now MAX_CLOCK_SKEW \<le> saturating_add now' MAX_CLOCK_SKEW"
    using assms(2) by (auto simp: saturating_add_def)
  with assms show ?thesis
    by (auto simp: occurred_at_def Let_def split: if_splits)
qed

text \<open>A record that counts as usage later counted as usage before, under the same identifier.\<close>

lemma accepted_earlier:
  assumes "accepted codec now' r = Some u'" and "now \<le> now'"
  shows "\<exists>u. accepted codec now r = Some u \<and> ur_id u = ur_id u'"
proof -
  have run: "parse_record codec r now' = Inr (Some u')"
    using assms(1) by (auto simp: accepted_def split: sum.splits)
  then obtain provider where p: "some_if (\<lambda>p. p \<noteq> []) (attribute_text (attributes_of r) PROVIDER) = Some provider"
    by (cases "some_if (\<lambda>p. p \<noteq> []) (attribute_text (attributes_of r) PROVIDER)")
      (auto simp: parse_record_def Let_def)
  from run have "\<exists>u. parse_record codec r now = Inr (Some u) \<and> ur_id u = ur_id u'"
  proof (cases rule: parse_record_cases)
    case (1 inp out cost t' cache_read cache_write)
    obtain t where t: "occurred_at r now = Inr t"
      using occurred_at_earlier [OF 1(4) assms(2)] by blast
    show ?thesis
      by (simp add: parse_record_def Let_def p 1(1,2,3,5,6,7) t del: bind_sum_Inr)
  qed
  then show ?thesis by (auto simp: accepted_def)
qed

lemma usage_records_mem:
  "u \<in> set (usage_records codec now request) \<longleftrightarrow> (\<exists>r \<in> set (concat (concat request)). accepted codec now r = Some u)"
  by (force simp: usage_records_def List.map_filter_def)

lemma usage_records_earlier:
  assumes "u' \<in> set (usage_records codec now' request)" and "now \<le> now'"
  shows "\<exists>u \<in> set (usage_records codec now request). ur_id u = ur_id u'"
  using assms(1) accepted_earlier [OF _ assms(2)] unfolding usage_records_mem Bex_def by blast

text \<open>A batch of stored records changes nothing.\<close>

lemma store_receipts_seen:
  "\<forall>r \<in> set rs. ur_id r \<in> fst ` set receipts \<Longrightarrow>
   store_receipts sql t rs receipts rollups n = Inr (receipts, rollups, n)
   \<or> (\<exists>e. store_receipts sql t rs receipts rollups n = Inl e)"
proof (induction rs)
  case (Cons r rs)
  then have "map_of receipts (ur_id r) \<noteq> None"
    by (auto simp: map_of_eq_None_iff)
  with Cons show ?case
    by (auto simp: run_statement_def split: option.splits)
qed simp

lemma ingest_seen:
  assumes "\<forall>r \<in> set rs. ur_id r \<in> fst ` set (ud_receipts db)"
  shows "snd (ingest sql db rs t) = db"
  using store_receipts_seen [OF assms, of sql t "[]" 0]
  by (auto simp: ingest_def run_statement_def split: option.splits sum.splits prod.splits)

text \<open>
  C35. An export counts every request once. On well-formed tables, after an export that was answered
  with success, the totals of any period under any filter are the totals before plus exactly the
  measures of the usage records whose identifiers were not stored yet, each identifier counted
  once; and sending the same export again, at the same time or later, leaves the tables as they
  are, whether or not the database accepts it. The clock is past the retention, and the export
  holds at most 9,223 records, so that no sum of a batch can saturate.
\<close>

theorem export_counts_once:
  assumes "ledger_ok db" and "export codec sql now request db = (Inr answer, db')"
    and "length (concat (concat request)) \<le> batch_limit"
    and "DAILY_RETENTION + HOUR \<le> now" and "in_i64 (now + MAX_CLOCK_SKEW)"
  shows "ledger_ok db'
    \<and> totals_of (selected db' start finish f) =
        totals_of (selected db start finish f
          @ filter (\<lambda>row. conditions start finish f (fst row))
              (map record_row (fresh_records (fst ` set (ud_receipts db)) (usage_records codec now request))))
    \<and> (now \<le> now' \<longrightarrow> snd (export codec sql' now' request db') = db')"
proof -
  let ?us = "usage_records codec now request"
  let ?fresh = "fresh_records (fst ` set (ud_receipts db)) ?us"
  obtain n where run: "ingest sql db ?us now = (Inr n, db')"
    using export_ingest [of codec sql now request db] assms(2) by (metis fst_conv prod.collapse snd_conv)
  have valid: "\<forall>u \<in> set ?us. valid_record u"
    using usage_records_valid assms(4,5) by blast
  have small: "length ?us \<le> batch_limit"
    using usage_records_length assms(3) order_trans by blast
  note added = ingest_adds [OF assms(1) run valid small refl]
  have "totals_of (selected db' start finish f) =
      totals_of (selected db start finish f @ filter (\<lambda>row. conditions start finish f (fst row)) (map record_row ?fresh))"
  proof (rule totals_eqI)
    fix c
    have "weigh (column_measure c) (conditions start finish f) (ud_rollups db') =
        weigh (column_measure c) (conditions start finish f) (ud_rollups db)
        + weigh (column_measure c) (conditions start finish f) (map record_row ?fresh)"
      by (rule added(4)) unfold_locales
    then show "total_at c (totals_of (selected db' start finish f)) = total_at c (totals_of
        (selected db start finish f @ filter (\<lambda>row. conditions start finish f (fst row)) (map record_row ?fresh)))"
      by (simp only: totals_of_append_column selected_def totals_of_selected)
  qed
  moreover have "snd (export codec sql' now' request db') = db'" if "now \<le> now'"
  proof -
    have "ur_id u' \<in> fst ` set (ud_receipts db')" if "u' \<in> set (usage_records codec now' request)" for u'
    proof -
      from usage_records_earlier [OF that \<open>now \<le> now'\<close>]
      obtain u where "u \<in> set ?us" and "ur_id u = ur_id u'" by blast
      moreover have "fst ` set (ud_receipts db') = fst ` set (ud_receipts db) \<union> ur_id ` set ?fresh"
        by (simp add: added(3) image_Un image_image)
      ultimately show ?thesis
        using fresh_records_ids [of ?us "fst ` set (ud_receipts db)"] by (metis image_eqI subsetD)
    qed
    then show ?thesis
      using ingest_seen export_ingest(1) by metis
  qed
  ultimately show ?thesis
    using added(1) by simp
qed

definition demo_usage_codec :: usage_codec where
  "demo_usage_codec = \<lparr>uc_sha256 = (\<lambda>_. ''digest''), uc_base64 = (\<lambda>b. b), uc_uuid = Some\<rparr>"

definition demo_log :: log_record where
  "demo_log =
     \<lparr>lr_time_unix_nano = 0, lr_observed_time_unix_nano = 0, lr_severity_number = 9, lr_severity_text = ''INFO'', lr_body = None,
      lr_attributes = [(PROVIDER, Some (Some (StringValue ''openai''))), (INPUT_TOKENS, Some (Some (IntValue 7)))],
      lr_dropped_attributes_count = 0, lr_flags = 0, lr_trace_id = ''t'', lr_span_id = [], lr_event_name = []\<rparr>"

definition demo_usage :: usage_record where
  "demo_usage =
     \<lparr>ur_id = ''digest'', ur_key = RollupKey 39999600 [] [] [] ''openai'' [] Api,
      ur_measures = measures_default\<lparr>me_requests := 1, me_input_tokens := 7, me_unpriced_requests := 1\<rparr>\<rparr>"

lemma demo_attributes: "attributes_of demo_log = [(PROVIDER, StringValue ''openai''), (INPUT_TOKENS, IntValue 7)]"
  by code_simp

lemma demo_parse: "parse_record demo_usage_codec demo_log 40000000 = Inr (Some demo_usage)"
  by (simp add: parse_record_def demo_attributes attribute_text_def attribute_count_def attribute_cost_def some_if_def
      or_else_def or_empty_def occurred_at_def record_client_def record_failed_def record_id_def demo_usage_codec_def
      label_def MAX_LABEL_BYTES_def MAX_SUBJECT_BYTES_def MAX_TOKENS_PER_REQUEST_def usage_seconds demo_usage_def
      measures_default_def saturating_add_def i64_min_def i64_max_def Let_def del: bind_sum_Inr)
    (simp add: demo_log_def)

theorem parse_record_within_limits_witness: "record_within 40000000 demo_usage"
  using parse_record_within_limits [OF demo_parse] by (simp add: in_i64_def i64_min_def i64_max_def MAX_CLOCK_SKEW_def)

lemma demo_export:
  "export demo_usage_codec demo_sql 40000000 [[[demo_log, demo_log]]] \<lparr>ud_receipts = [], ud_rollups = []\<rparr> =
     (Inr None, \<lparr>ud_receipts = [(''digest'', 40000000)], ud_rollups = [record_row demo_usage]\<rparr>)"
  by (simp add: export_def demo_parse ingest_def run_statement_def demo_sql_def Let_def upsert_def record_row_def
      demo_usage_def measures_add_def measures_default_def saturating_add_def i64_min_def i64_max_def)

theorem export_counts_once_witness:
  "totals_of (selected \<lparr>ud_receipts = [(''digest'', 40000000)], ud_rollups = [record_row demo_usage]\<rparr> 0 50000000 [])
     = totals_of [record_row demo_usage]
   \<and> snd (export demo_usage_codec demo_sql 40000001 [[[demo_log, demo_log]]]
       \<lparr>ud_receipts = [(''digest'', 40000000)], ud_rollups = [record_row demo_usage]\<rparr>)
     = \<lparr>ud_receipts = [(''digest'', 40000000)], ud_rollups = [record_row demo_usage]\<rparr>"
  using export_counts_once [OF _ demo_export, of 0 50000000 "[]" 40000001 demo_sql]
  by (simp add: ledger_ok_def batch_limit_def usage_seconds in_i64_def i64_min_def i64_max_def MAX_CLOCK_SKEW_def
      usage_records_def List.map_filter_def accepted_def demo_parse selected_def conditions_def record_row_def
      hourly_row_def demo_usage_def)

end
