(* ===== verification/Usage_Identity.thy ===== *)
theory Usage_Identity
  imports Usage_Otlp
begin

text \<open>
  The identifier of a usage record is the digest of an encoding of the log record. The encoding
  is shown to determine the record: the bytes fed to the hash are equal exactly for records that
  agree in their times, identifiers, body and attributes, up to the order of attributes with
  different keys; the remaining fields are not part of it. A plain decimal cost is shown to be the exact amount, rounded to the nearest
  billionth.
\<close>

section \<open>Fixed-width numbers\<close>

lemma length_be_bytes [simp]: "length (be_bytes n) = 8"
  by (simp add: be_bytes_def)

lemma equal_digits:
  "(\<And>i. i < k \<Longrightarrow> m div 256 ^ i mod 256 = n div 256 ^ i mod (256 :: nat)) \<Longrightarrow> m mod 256 ^ k = n mod 256 ^ k"
proof (induction k)
  case (Suc k)
  have "x mod 256 ^ Suc k = 256 ^ k * (x div 256 ^ k mod 256) + x mod 256 ^ k" for x :: nat
    by (simp add: mod_mult2_eq mult.commute [of 256])
  with Suc show ?case by simp
qed simp

lemma be_bytes_inject:
  assumes "be_bytes m = be_bytes n" and "m < 2 ^ 64" and "n < 2 ^ 64"
  shows "m = n"
proof -
  have "m div 256 ^ i mod 256 = n div 256 ^ i mod 256" if "i < 8" for i
  proof -
    have digit: "be_bytes x ! (7 - i) = char_of (x div 256 ^ i mod 256)" for x
      unfolding be_bytes_def using that by (subst nth_map) (simp_all add: nth_upt del: upt_Suc)
    have "char_of (m div 256 ^ i mod 256) = (char_of (n div 256 ^ i mod 256) :: char)"
      using assms(1) by (simp only: digit [symmetric])
    then have "of_char (char_of (m div 256 ^ i mod 256) :: char) = (of_char (char_of (n div 256 ^ i mod 256) :: char) :: nat)"
      by simp
    then show ?thesis by (simp only: of_char_of mod_mod_trivial)
  qed
  then have "m mod 256 ^ 8 = n mod 256 ^ 8" by (rule equal_digits)
  with assms(2,3) show ?thesis by simp
qed

lemma be_bytes_prefix:
  assumes "be_bytes m @ r = be_bytes n @ r'" and "m < 2 ^ 64" and "n < 2 ^ 64"
  shows "m = n \<and> r = r'"
  using assms be_bytes_inject by (metis append_eq_append_conv length_be_bytes)

lemma hash_bytes_prefix:
  assumes "hash_bytes b @ r = hash_bytes b' @ r'" and "length b < 2 ^ 64" and "length b' < 2 ^ 64"
  shows "b = b' \<and> r = r'"
proof -
  have "length b = length b' \<and> b @ r = b' @ r'"
    using assms by (intro be_bytes_prefix) (simp_all add: hash_bytes_def)
  then show ?thesis by auto
qed

section \<open>Values\<close>

text \<open>Lengths that a \<^verbatim>\<open>u64\<close> holds, which every length in memory is.\<close>

fun sized :: "otlp_value \<Rightarrow> bool" where
  "sized (StringValue s) = (length s < 2 ^ 64)"
| "sized (BytesValue b) = (length b < 2 ^ 64)"
| "sized (ArrayValue vs) =
     (length vs < 2 ^ 64 \<and> list_all (\<lambda>v. case v of Some x \<Rightarrow> sized x | None \<Rightarrow> True) vs)"
| "sized (KvlistValue es) =
     (length es < 2 ^ 64
      \<and> list_all (\<lambda>(k, v). length k < 2 ^ 64 \<and> (case v of Some (Some x) \<Rightarrow> sized x | _ \<Rightarrow> True)) es)"
| "sized _ = True"

text \<open>An absent message and a message without a value are the same to the hash.\<close>

fun canon :: "otlp_value \<Rightarrow> otlp_value" where
  "canon (ArrayValue vs) = ArrayValue (map (\<lambda>v. case v of Some x \<Rightarrow> Some (canon x) | None \<Rightarrow> None) vs)"
| "canon (KvlistValue es) =
     KvlistValue (map (\<lambda>(k, v). (k, case v of Some (Some x) \<Rightarrow> Some (Some (canon x)) | _ \<Rightarrow> None)) es)"
| "canon v = v"

definition canon_field :: "otlp_value option option \<Rightarrow> otlp_value option" where
  "canon_field v = map_option canon (join_value v)"

definition sized_field :: "otlp_value option option \<Rightarrow> bool" where
  "sized_field v \<longleftrightarrow> (case join_value v of Some x \<Rightarrow> sized x | None \<Rightarrow> True)"

lemma concat_prefix:
  assumes "length xs = length ys"
    and "\<And>x y r r'. x \<in> set xs \<Longrightarrow> y \<in> set ys \<Longrightarrow> enc x @ r = enc y @ r' \<Longrightarrow> c x = c y \<and> r = r'"
    and "concat (map enc xs) @ r = concat (map enc ys) @ r'"
  shows "map c xs = map c ys \<and> r = r'"
  using assms
proof (induction xs ys arbitrary: r r' rule: list_induct2)
  case (Cons x xs y ys)
  have "c x = c y \<and> concat (map enc xs) @ r = concat (map enc ys) @ r'"
    using Cons.prems(2) by (intro Cons.prems(1)) simp_all
  moreover have "map c xs = map c ys \<and> r = r'"
    using Cons.prems(1) calculation by (intro Cons.IH) auto
  ultimately show ?case by simp
qed simp

definition prefix_free :: "otlp_value \<Rightarrow> bool" where
  "prefix_free v \<longleftrightarrow>
     (\<forall>v' r r'. sized v \<longrightarrow> sized v' \<longrightarrow> hash_some v @ r = hash_some v' @ r' \<longrightarrow> canon v = canon v' \<and> r = r')"

lemma zero_tag: "char_of (0 :: nat) # r \<noteq> hash_some v @ r'"
  by (cases v) auto

lemma option_prefix:
  assumes "\<And>x. v = Some x \<Longrightarrow> prefix_free x \<and> sized x" and "\<And>x. v' = Some x \<Longrightarrow> sized x"
    and "(case v of None \<Rightarrow> [char_of (0 :: nat)] | Some x \<Rightarrow> hash_some x) @ r
      = (case v' of None \<Rightarrow> [char_of (0 :: nat)] | Some x \<Rightarrow> hash_some x) @ r'"
  shows "map_option canon v = map_option canon v' \<and> r = r'"
proof (cases v)
  case None
  with assms(3) zero_tag show ?thesis by (cases v') fastforce+
next
  case (Some x)
  show ?thesis
  proof (cases v')
    case None
    with Some assms(3) zero_tag [of r' x r] show ?thesis by simp
  next
    case (Some y)
    with \<open>v = Some x\<close> assms show ?thesis unfolding prefix_free_def by auto
  qed
qed

lemma hash_value_join:
  "hash_value v = (case join_value v of None \<Rightarrow> [char_of (0 :: nat)] | Some x \<Rightarrow> hash_some x)"
  by (simp add: hash_value_def)

lemma hash_field_case:
  "(case v of None \<Rightarrow> [char_of (0 :: nat)] | Some None \<Rightarrow> [char_of (0 :: nat)] | Some (Some x) \<Rightarrow> hash_some x)
    = hash_value v"
  by (auto simp: hash_value_def split: option.splits)

lemma field_prefix:
  assumes "\<And>x. v = Some (Some x) \<Longrightarrow> prefix_free x" and "sized_field v" and "sized_field v'"
    and "hash_value v @ r = hash_value v' @ r'"
  shows "canon_field v = canon_field v' \<and> r = r'"
proof -
  have "v = Some (Some x)" if "join_value v = Some x" for x
    using that by (cases v) auto
  then show ?thesis
    unfolding canon_field_def using assms
    by (intro option_prefix) (auto simp: hash_value_join sized_field_def)
qed

lemma entries_prefix:
  assumes "length es = length es'"
    and "\<And>k v. (k, v) \<in> set es \<Longrightarrow> length k < 2 ^ 64 \<and> sized_field v \<and> (\<forall>x. v = Some (Some x) \<longrightarrow> prefix_free x)"
    and "\<And>k v. (k, v) \<in> set es' \<Longrightarrow> length k < 2 ^ 64 \<and> sized_field v"
    and "concat (map (\<lambda>(k, v). hash_bytes k @ hash_value v) es) @ r
      = concat (map (\<lambda>(k, v). hash_bytes k @ hash_value v) es') @ r'"
  shows "map (\<lambda>(k, v). (k, canon_field v)) es = map (\<lambda>(k, v). (k, canon_field v)) es' \<and> r = r'"
proof (rule concat_prefix [OF assms(1) _ assms(4)])
  fix e e' r r'
  assume e: "e \<in> set es" "e' \<in> set es'"
    and eq: "(case e of (k, v) \<Rightarrow> hash_bytes k @ hash_value v) @ r = (case e' of (k, v) \<Rightarrow> hash_bytes k @ hash_value v) @ r'"
  obtain k v k' v' where kv: "e = (k, v)" "e' = (k', v')" by (cases e; cases e')
  note sizes = assms(2) [OF e(1) [unfolded kv]] assms(3) [OF e(2) [unfolded kv]]
  have "k = k' \<and> hash_value v @ r = hash_value v' @ r'"
    using eq sizes by (intro hash_bytes_prefix) (simp_all add: kv)
  moreover from this have "canon_field v = canon_field v' \<and> r = r'"
    using sizes by (intro field_prefix) auto
  ultimately show "(case e of (k, v) \<Rightarrow> (k, canon_field v)) = (case e' of (k, v) \<Rightarrow> (k, canon_field v)) \<and> r = r'"
    by (simp add: kv)
qed

lemma canon_nested:
  "canon (ArrayValue vs) = ArrayValue (map (map_option canon) vs)"
  "canon (KvlistValue es) = KvlistValue (map (\<lambda>(k, c). (k, map_option Some c)) (map (\<lambda>(k, v). (k, canon_field v)) es))"
  by (auto simp: canon_field_def map_option_case split: option.splits)

lemma hash_nested:
  "hash_some (ArrayValue vs) = char_of (5 :: nat) # be_bytes (length vs) @ concat (map (hash_value \<circ> Some) vs)"
  "hash_some (KvlistValue es) =
     char_of (6 :: nat) # be_bytes (length es) @ concat (map (\<lambda>(k, v). hash_bytes k @ hash_value v) es)"
  by (simp_all add: hash_field_case hash_value_join comp_def)

lemma sized_nested:
  "sized (ArrayValue vs) \<longleftrightarrow> length vs < 2 ^ 64 \<and> (\<forall>v \<in> set vs. sized_field (Some v))"
  "sized (KvlistValue es) \<longleftrightarrow> length es < 2 ^ 64 \<and> (\<forall>(k, v) \<in> set es. length k < 2 ^ 64 \<and> sized_field v)"
proof -
  have "sized_field (Some v) = (case v of Some x \<Rightarrow> sized x | None \<Rightarrow> True)" for v
    by (simp add: sized_field_def)
  then show "sized (ArrayValue vs) \<longleftrightarrow> length vs < 2 ^ 64 \<and> (\<forall>v \<in> set vs. sized_field (Some v))"
    by (simp only: sized.simps list_all_iff)
  have "sized_field v = (case v of Some (Some x) \<Rightarrow> sized x | _ \<Rightarrow> True)" for v
    by (cases v) (auto simp: sized_field_def split: option.splits)
  then show "sized (KvlistValue es) \<longleftrightarrow>
      length es < 2 ^ 64 \<and> (\<forall>(k, v) \<in> set es. length k < 2 ^ 64 \<and> sized_field v)"
    by (simp only: sized.simps list_all_iff)
qed

lemma array_prefix:
  assumes "\<And>v x. v \<in> set vs \<Longrightarrow> v = Some x \<Longrightarrow> prefix_free x"
  shows "prefix_free (ArrayValue vs)"
  unfolding prefix_free_def
proof (intro allI impI)
  fix v' r r'
  assume sv: "sized (ArrayValue vs)" and sv': "sized v'" and eq: "hash_some (ArrayValue vs) @ r = hash_some v' @ r'"
  obtain vs' where v': "v' = ArrayValue vs'"
    using eq by (cases v') (auto simp del: hash_some.simps(5,6) simp: hash_nested)
  have "length vs = length vs' \<and> concat (map (hash_value \<circ> Some) vs) @ r = concat (map (hash_value \<circ> Some) vs') @ r'"
    using eq sv sv' by (intro be_bytes_prefix) (simp_all add: v' hash_nested del: hash_some.simps(5,6))
  then have "map (canon_field \<circ> Some) vs = map (canon_field \<circ> Some) vs' \<and> r = r'"
  proof (elim conjE, intro concat_prefix [where enc = "hash_value \<circ> Some"])
    fix v w r r' assume "v \<in> set vs" "w \<in> set vs'" "(hash_value \<circ> Some) v @ r = (hash_value \<circ> Some) w @ r'"
    then show "(canon_field \<circ> Some) v = (canon_field \<circ> Some) w \<and> r = r'"
      using sv sv' assms unfolding v' sized_nested
      by (simp only: comp_def) (intro field_prefix, auto)
  qed
  then show "canon (ArrayValue vs) = canon v' \<and> r = r'"
    by (simp add: v' canon_nested canon_field_def comp_def del: canon.simps(1,2))
qed

lemma kvlist_prefix:
  assumes "\<And>k x. (k, Some (Some x)) \<in> set es \<Longrightarrow> prefix_free x"
  shows "prefix_free (KvlistValue es)"
  unfolding prefix_free_def
proof (intro allI impI)
  fix v' r r'
  assume sv: "sized (KvlistValue es)" and sv': "sized v'" and eq: "hash_some (KvlistValue es) @ r = hash_some v' @ r'"
  obtain es' where v': "v' = KvlistValue es'"
    using eq by (cases v') (auto simp del: hash_some.simps(5,6) simp: hash_nested)
  have len: "length es = length es' \<and> concat (map (\<lambda>(k, v). hash_bytes k @ hash_value v) es) @ r
      = concat (map (\<lambda>(k, v). hash_bytes k @ hash_value v) es') @ r'"
    using eq sv sv' by (intro be_bytes_prefix) (simp_all add: v' hash_nested del: hash_some.simps(5,6))
  have "map (\<lambda>(k, v). (k, canon_field v)) es = map (\<lambda>(k, v). (k, canon_field v)) es' \<and> r = r'"
    using len sv sv' assms unfolding v' sized_nested
    by (intro entries_prefix) auto
  then show "canon (KvlistValue es) = canon v' \<and> r = r'"
    by (simp only: v' canon_nested)
qed

lemma be_bytes_word [simp]: "be_bytes (unat x) = be_bytes (unat y) \<longleftrightarrow> x = y"
  for x y :: "64 word"
proof
  assume eq: "be_bytes (unat x) = be_bytes (unat y)"
  have "unat x < 2 ^ 64" and "unat y < 2 ^ 64"
    using unsigned_less [of x] unsigned_less [of y] by simp_all
  with be_bytes_inject [OF eq] show "x = y" by (simp add: word_unat_eq_iff)
qed simp

lemma scalar_prefix:
  "prefix_free (StringValue s)" "prefix_free (BytesValue s)" "prefix_free (BoolValue b)"
  "prefix_free (IntValue w)" "prefix_free (DoubleValue w)"
  unfolding prefix_free_def
proof (intro allI impI)
  fix v' r r'
  assume "sized (StringValue s)" "sized v'" "hash_some (StringValue s) @ r = hash_some v' @ r'"
  then show "canon (StringValue s) = canon v' \<and> r = r'"
    by (cases v') (auto dest!: hash_bytes_prefix)
next
  show "\<forall>v' r r'. sized (BytesValue s) \<longrightarrow> sized v' \<longrightarrow>
      hash_some (BytesValue s) @ r = hash_some v' @ r' \<longrightarrow> canon (BytesValue s) = canon v' \<and> r = r'"
    by (intro allI impI, case_tac v') (auto dest!: hash_bytes_prefix)
  show "\<forall>v' r r'. sized (BoolValue b) \<longrightarrow> sized v' \<longrightarrow>
      hash_some (BoolValue b) @ r = hash_some v' @ r' \<longrightarrow> canon (BoolValue b) = canon v' \<and> r = r'"
    by (intro allI impI, case_tac v') (auto split: if_splits)
  show "\<forall>v' r r'. sized (IntValue w) \<longrightarrow> sized v' \<longrightarrow>
      hash_some (IntValue w) @ r = hash_some v' @ r' \<longrightarrow> canon (IntValue w) = canon v' \<and> r = r'"
    by (intro allI impI, case_tac v') auto
  show "\<forall>v' r r'. sized (DoubleValue w) \<longrightarrow> sized v' \<longrightarrow>
      hash_some (DoubleValue w) @ r = hash_some v' @ r' \<longrightarrow> canon (DoubleValue w) = canon v' \<and> r = r'"
    by (intro allI impI, case_tac v') auto
qed

lemma hash_some_prefix: "prefix_free v"
proof (induction v)
  case (ArrayValue vs)
  then show ?case by (intro array_prefix) force
next
  case (KvlistValue es)
  then show ?case by (intro kvlist_prefix) (force simp: snds.simps)
qed (rule scalar_prefix)+

lemma hash_some_canon: "hash_some (canon v) = hash_some v"
proof (induction v)
  case (ArrayValue vs)
  have "(hash_value \<circ> Some) (map_option canon v) = (hash_value \<circ> Some) v" if "v \<in> set vs" for v
    using ArrayValue [OF that] by (cases v) (auto simp: hash_value_join)
  then show ?case
    by (simp add: hash_nested canon_nested comp_def del: hash_some.simps(5,6) canon.simps(1,2) cong: map_cong)
next
  case (KvlistValue es)
  have "hash_value (map_option Some (canon_field v)) = hash_value v" if "(k, v) \<in> set es" for k v
    using KvlistValue [OF that, of v] by (cases v) (auto simp: hash_value_join canon_field_def snds.simps split: option.splits)
  then show ?case
    by (auto simp: hash_nested canon_nested comp_def split_def simp del: hash_some.simps(5,6) canon.simps(1,2)
        intro!: arg_cong [where f = concat] map_cong)
qed simp_all

lemma hash_value_canon: "canon_field v = canon_field v' \<Longrightarrow> hash_value v = hash_value v'"
  using hash_some_canon
  by (auto simp: canon_field_def hash_value_join split: option.splits) (metis)+

section \<open>Records\<close>

definition sized_record :: "log_record \<Rightarrow> bool" where
  "sized_record r \<longleftrightarrow>
     length (lr_trace_id r) < 2 ^ 64 \<and> length (lr_span_id r) < 2 ^ 64 \<and> length (lr_attributes r) < 2 ^ 64
     \<and> (\<forall>(k, v) \<in> set (lr_attributes r). length k < 2 ^ 64 \<and> sized_field v) \<and> sized_field (lr_body r)"

definition canon_attributes :: "log_record \<Rightarrow> (string \<times> otlp_value option) list" where
  "canon_attributes r = map (\<lambda>(k, v). (k, canon_field v)) (sort_key fst (lr_attributes r))"

definition same_record :: "log_record \<Rightarrow> log_record \<Rightarrow> bool" where
  "same_record r r' \<longleftrightarrow>
     lr_time_unix_nano r = lr_time_unix_nano r'
     \<and> lr_observed_time_unix_nano r = lr_observed_time_unix_nano r'
     \<and> lr_trace_id r = lr_trace_id r' \<and> lr_span_id r = lr_span_id r'
     \<and> canon_attributes r = canon_attributes r'
     \<and> canon_field (lr_body r) = canon_field (lr_body r')"

lemma same_record_bytes:
  assumes "same_record r r'"
  shows "record_bytes r = record_bytes r'"
proof -
  have bytes: "(\<lambda>(k, v). hash_bytes k @ hash_value v)
      = (\<lambda>(k, c). hash_bytes k @ hash_value (map_option Some c)) \<circ> (\<lambda>(k, v). (k, canon_field v))"
    by (auto simp: fun_eq_iff canon_field_def hash_some_canon hash_value_join split: option.splits)
  have "concat (map (\<lambda>(k, v). hash_bytes k @ hash_value v) (sort_key fst (lr_attributes x)))
      = concat (map (\<lambda>(k, c). hash_bytes k @ hash_value (map_option Some c)) (canon_attributes x))" for x
    by (simp only: bytes canon_attributes_def map_map)
  moreover have "length (sort_key fst (lr_attributes x)) = length (canon_attributes x)" for x
    by (simp add: canon_attributes_def)
  moreover have "hash_value (lr_body r) = hash_value (lr_body r')"
    using assms by (intro hash_value_canon) (simp add: same_record_def)
  ultimately show ?thesis
    using assms by (simp only: record_bytes_def Let_def same_record_def)
qed

lemma record_bytes_same:
  assumes eq: "record_bytes r = record_bytes r'" and sr: "sized_record r" and sr': "sized_record r'"
  shows "same_record r r'"
proof -
  let ?as = "sort_key fst (lr_attributes r)" and ?as' = "sort_key fst (lr_attributes r')"
  have times: "lr_time_unix_nano r = lr_time_unix_nano r'"
    "lr_observed_time_unix_nano r = lr_observed_time_unix_nano r'"
    and ids: "hash_bytes (lr_trace_id r) @ hash_bytes (lr_span_id r) @ be_bytes (length ?as)
        @ concat (map (\<lambda>(k, v). hash_bytes k @ hash_value v) ?as) @ hash_value (lr_body r)
      = hash_bytes (lr_trace_id r') @ hash_bytes (lr_span_id r') @ be_bytes (length ?as')
        @ concat (map (\<lambda>(k, v). hash_bytes k @ hash_value v) ?as') @ hash_value (lr_body r')"
    using eq by (auto simp: record_bytes_def Let_def)
  have sizes: "length (lr_trace_id x) < 2 ^ 64" "length (lr_span_id x) < 2 ^ 64"
    "length (sort_key fst (lr_attributes x)) < 2 ^ 64" "sized_field (lr_body x)"
    "(k, v) \<in> set (sort_key fst (lr_attributes x)) \<Longrightarrow> length k < 2 ^ 64 \<and> sized_field v"
    if "sized_record x" for x k v
    using that by (auto simp: sized_record_def)
  note trace = hash_bytes_prefix [OF ids sizes(1) [OF sr] sizes(1) [OF sr']]
  note span = hash_bytes_prefix [OF conjunct2 [OF trace] sizes(2) [OF sr] sizes(2) [OF sr']]
  note count = be_bytes_prefix [OF conjunct2 [OF span] sizes(3) [OF sr] sizes(3) [OF sr']]
  have attributes: "canon_attributes r = canon_attributes r' \<and> hash_value (lr_body r) = hash_value (lr_body r')"
    unfolding canon_attributes_def
    by (rule entries_prefix [OF conjunct1 [OF count] _ _ conjunct2 [OF count]])
      (simp_all only: sizes(5) [OF sr] sizes(5) [OF sr'] hash_some_prefix simp_thms)
  have "canon_field (lr_body r) = canon_field (lr_body r')"
    using field_prefix [of "lr_body r" "lr_body r'" "[]" "[]"] sizes(4) [OF sr] sizes(4) [OF sr'] hash_some_prefix
      conjunct2 [OF attributes] by simp
  then show ?thesis
    using times trace span attributes by (simp only: same_record_def simp_thms)
qed

text \<open>
  C39. What a record's identifier digests. Two log records are fed to the hash as the same bytes exactly
  when they agree in both times, in the trace and span identifiers, in the body, and in the attributes
  sorted by key (an absent value and a message without one being the same), so a record sent again has
  the same identifier, and records that differ there can share one only by a collision of the digest.
  The severity, its text, the flags, the event name and the count of dropped attributes are not
  digested: records that differ only in those have the same identifier.
\<close>

theorem record_bytes_identify:
  assumes "sized_record r" and "sized_record r'"
  shows "(record_bytes r = record_bytes r' \<longleftrightarrow> same_record r r')
    \<and> record_bytes (r\<lparr>lr_severity_number := severity, lr_severity_text := name, lr_dropped_attributes_count := dropped,
        lr_flags := flags, lr_event_name := event\<rparr>) = record_bytes r"
proof -
  have "same_record (r\<lparr>lr_severity_number := severity, lr_severity_text := name, lr_dropped_attributes_count := dropped,
      lr_flags := flags, lr_event_name := event\<rparr>) r"
    by (simp add: same_record_def canon_attributes_def)
  then show ?thesis using record_bytes_same [OF _ assms] same_record_bytes by blast
qed

theorem record_bytes_identify_witness:
  "record_bytes demo_log \<noteq> record_bytes (demo_log\<lparr>lr_span_id := ''s''\<rparr>)
   \<and> record_bytes demo_log = record_bytes (demo_log\<lparr>lr_attributes := rev (lr_attributes demo_log)\<rparr>)
   \<and> record_bytes (demo_log\<lparr>lr_severity_number := 17, lr_severity_text := ''ERROR'', lr_dropped_attributes_count := 1,
        lr_flags := 1, lr_event_name := ''e''\<rparr>) = record_bytes demo_log"
proof -
  have sized: "sized_record demo_log" "sized_record (demo_log\<lparr>lr_span_id := ''s''\<rparr>)"
    "sized_record (demo_log\<lparr>lr_attributes := rev (lr_attributes demo_log)\<rparr>)"
    by (simp_all add: sized_record_def sized_field_def demo_log_def)
  have "canon_attributes demo_log = canon_attributes (demo_log\<lparr>lr_attributes := rev (lr_attributes demo_log)\<rparr>)"
    by code_simp
  then have "same_record demo_log (demo_log\<lparr>lr_attributes := rev (lr_attributes demo_log)\<rparr>)"
    "\<not> same_record demo_log (demo_log\<lparr>lr_span_id := ''s''\<rparr>)"
    by (simp_all add: same_record_def demo_log_def)
  then show ?thesis
    using record_bytes_identify [OF sized(1,2)] record_bytes_identify [OF sized(1,3)] by blast
qed

section \<open>Amounts\<close>

lemma digits_int_shift: "digits_int acc s = acc * 10 ^ length s + digits_int 0 s"
proof (induction s arbitrary: acc)
  case (Cons c s)
  show ?case
    unfolding digits_int.simps list.size
    by (subst Cons [of "10 * acc + (of_char c - 48)"], subst Cons [of "10 * 0 + (of_char c - 48)"])
      (simp add: algebra_simps)
qed simp

lemma digits_int_bound: "all_digits s \<Longrightarrow> digits_int 0 s < 10 ^ length s"
proof (induction s)
  case (Cons c s)
  then have "is_ascii_digit c" and IH: "digits_int 0 s < 10 ^ length s"
    by (simp_all add: all_digits_def)
  then have "of_char c - 48 \<le> (9 :: int)"
    using digit_value_range(2) [of c] by linarith
  then have "(of_char c - 48) * 10 ^ length s \<le> (9 :: int) * 10 ^ length s"
    by (intro mult_right_mono) auto
  moreover have "digits_int 0 (c # s) = (of_char c - 48) * 10 ^ length s + digits_int 0 s"
    using digits_int_shift [of "of_char c - 48" s] by simp
  moreover have "(10 :: int) ^ length (c # s) = 10 * 10 ^ length s"
    by simp
  ultimately show ?case
    using IH by linarith
qed simp

lemma floor_half: "\<lfloor>of_int n + (1 / 2 :: rat)\<rfloor> = n"
  by (rule floor_unique) simp_all

lemma floor_tenths:
  assumes "(0 :: rat) \<le> x" and "x < 1" and "0 \<le> d" and "d \<le> 9"
  shows "5 \<le> d \<Longrightarrow> \<lfloor>of_int n + (d + x) / 10 + 1 / 2\<rfloor> = n + 1"
    and "d \<le> 4 \<Longrightarrow> \<lfloor>of_int n + (d + x) / 10 + 1 / 2\<rfloor> = n"
  using assms by (auto intro!: floor_unique simp: add_divide_distrib)

lemma nine_digits_take:
  "nine_digits n acc ds = digits_int acc (take n ds) * 10 ^ (n - length ds)"
  by (induction n acc ds rule: nine_digits.induct) (simp_all add: algebra_simps)

definition nanos_of :: "string \<Rightarrow> string \<Rightarrow> rat" where
  "nanos_of whole fraction =
     of_int (digits_int 0 (whole @ fraction)) / 10 ^ length fraction * 1000000000"

lemma nanos_of_split:
  "nanos_of whole fraction =
    of_int (digits_int 0 whole * 1000000000) + of_int (digits_int 0 fraction) / 10 ^ length fraction * 1000000000"
  unfolding nanos_of_def digits_int_append digits_int_shift [of "digits_int 0 whole"]
  by (simp add: field_simps)

text \<open>The tenth digit decides; what follows it is less than one unit of that digit.\<close>

lemma tenth_digit:
  assumes "all_digits fraction" and long: "9 < length fraction"
  obtains d :: int and rest :: rat where "0 \<le> d" "d \<le> 9" "0 \<le> rest" "rest < 1" "round_up fraction \<longleftrightarrow> 5 \<le> d"
    "of_int (digits_int 0 fraction) / 10 ^ length fraction * 1000000000
      = of_int (nine_digits 9 0 fraction) + (of_int d + rest) / (10 :: rat)"
proof -
  define a b where "a = take 9 fraction" and "b = drop 10 fraction"
  define d where "d = (of_char (fraction ! 9) :: int) - 48"
  have split: "fraction = a @ fraction ! 9 # b"
    using long id_take_nth_drop [of 9 fraction] by (simp add: a_def b_def)
  have len: "length fraction = 10 + length b" using long by (simp add: b_def)
  have "all_digits (a @ fraction ! 9 # b)"
    using assms(1) by (simp only: split [symmetric])
  then have digit: "is_ascii_digit (fraction ! 9)" and b: "all_digits b"
    by (simp_all add: all_digits_def)
  have bounds: "(0 :: rat) \<le> of_int (digits_int 0 b)" "(of_int (digits_int 0 b) :: rat) < of_int (10 ^ length b)"
    using digits_int_nonneg [OF _ b, of 0] digits_int_bound [OF b] by (simp_all only: of_int_less_iff of_int_0_le_iff order_refl)
  define rest :: rat where "rest = of_int (digits_int 0 b) / 10 ^ length b"
  have B: "0 \<le> rest" "rest < 1"
    using bounds by (simp_all add: rest_def divide_less_eq)
  have "digits_int 0 fraction = (10 * digits_int 0 a + d) * 10 ^ length b + digits_int 0 b"
    by (subst split) (simp only: digits_int_append digits_int.simps d_def [symmetric]
        digits_int_shift [of "10 * digits_int 0 a + d" b])
  then have amount: "of_int (digits_int 0 fraction) / 10 ^ length fraction * 1000000000
      = of_int (digits_int 0 a) + (of_int d + rest) / (10 :: rat)"
    by (simp add: len power_add rest_def field_simps)
  have five: "round_up fraction \<longleftrightarrow> 5 \<le> d"
  proof -
    have "(53 :: nat) \<le> of_char (fraction ! 9) \<longleftrightarrow> int 53 \<le> int (of_char (fraction ! 9))"
      by (simp only: of_nat_le_iff)
    then show ?thesis using long by (simp add: round_up_def d_def of_nat_of_char)
  qed
  have d: "0 \<le> d" "d \<le> 9"
    using digit_value_range [OF digit] by (simp_all add: d_def)
  have "nine_digits 9 0 fraction = digits_int 0 a"
    using long by (simp add: nine_digits_take a_def)
  with d B five amount show thesis
    by (intro that [of d rest]) simp_all
qed

lemma fraction_nanos:
  assumes "all_digits fraction"
  shows "nine_digits 9 0 fraction + (if round_up fraction then 1 else 0)
    = \<lfloor>of_int (digits_int 0 fraction) / 10 ^ length fraction * 1000000000 + (1 / 2 :: rat)\<rfloor>"
proof (cases "length fraction \<le> 9")
  case True
  then have exact: "of_int (digits_int 0 fraction) / 10 ^ length fraction * 1000000000
      = (of_int (digits_int 0 fraction * 10 ^ (9 - length fraction)) :: rat)"
    using power_add [of "10 :: rat" "9 - length fraction" "length fraction"] by (simp add: field_simps)
  show ?thesis
    unfolding exact floor_half using True by (simp add: nine_digits_take round_up_def)
next
  case False
  then have "9 < length fraction" by simp
  from tenth_digit [OF assms this] obtain d and rest :: rat
    where d: "0 \<le> d" "d \<le> 9" and B: "0 \<le> rest" "rest < 1" and five: "round_up fraction \<longleftrightarrow> 5 \<le> d"
      and amount: "of_int (digits_int 0 fraction) / 10 ^ length fraction * 1000000000
        = of_int (nine_digits 9 0 fraction) + (of_int d + rest) / (10 :: rat)" .
  have range: "0 \<le> (of_int d :: rat)" "(of_int d :: rat) \<le> 9" using d by simp_all
  show ?thesis
  proof (cases "5 \<le> d")
    case True
    then have "(5 :: rat) \<le> of_int d" by simp
    note floor_tenths(1) [OF B range this]
    with True show ?thesis by (simp only: amount five if_True)
  next
    case False
    then have "d \<le> 4" by simp
    then have "(of_int d :: rat) \<le> 4" by simp
    note floor_tenths(2) [OF B range this]
    with False show ?thesis by (simp only: amount five if_False add_0_right)
  qed
qed

text \<open>
  C40. A cost given as a plain decimal is counted exactly. For digits with at most one point among
  them, the amount in billionths of a dollar is the exact decimal value rounded to the nearest
  billionth, halves up, and there is none exactly when that does not fit a 64-bit integer.
\<close>

theorem decimal_nanos_exact:
  assumes "split_point s = (whole, fraction)" and "plain_decimal whole fraction"
  shows "decimal_nanos s = checked_i64 \<lfloor>nanos_of whole fraction + 1 / 2\<rfloor>"
proof -
  define w where "w = digits_int 0 whole"
  define x where "x = nine_digits 9 0 fraction + (if round_up fraction then 1 else 0)"
  have digits: "all_digits whole" "all_digits fraction"
    using assms(2) by (simp_all add: plain_decimal_def)
  have w: "0 \<le> w" and x: "0 \<le> x"
    using digits_int_nonneg [OF _ digits(1)] nine_digits_nonneg [OF _ digits(2)] by (simp_all add: w_def x_def)
  have "\<lfloor>nanos_of whole fraction + 1 / 2\<rfloor> = w * 1000000000
      + \<lfloor>of_int (digits_int 0 fraction) / 10 ^ length fraction * 1000000000 + (1 / 2 :: rat)\<rfloor>"
    unfolding nanos_of_split w_def add.assoc by (rule int_add_floor [symmetric])
  then have "\<lfloor>nanos_of whole fraction + 1 / 2\<rfloor> = w * 1000000000 + x"
    by (simp only: fraction_nanos [OF digits(2)] x_def)
  moreover have "decimal_nanos s = checked_i64 (w * 1000000000 + x)"
    unfolding decimal_nanos_plain [OF assms] x_def [symmetric] w_def [symmetric]
    using w x by (auto simp: checked_i64_def in_i64_def i64_min_def)
  ultimately show ?thesis by simp
qed

theorem decimal_nanos_exact_witness:
  "decimal_nanos ''12.34567890150'' = checked_i64 \<lfloor>nanos_of ''12'' ''34567890150'' + 1 / 2\<rfloor>"
proof (rule decimal_nanos_exact)
  show "split_point ''12.34567890150'' = (''12'', ''34567890150'')" by code_simp
  show "plain_decimal ''12'' ''34567890150''" by code_simp
qed

end
