(* ===== verification/Effects.thy ===== *)
theory Effects
  imports Prelude
begin

text \<open>
  The loop \<^verbatim>\<open>for change in changes { apply(change)?; }\<close>: changes are applied in order and the
  first error stops the loop, leaving the earlier ones applied. The daemon's apply has three
  such loops (private directories, file operations, registry keys). What they have in common
  is proved once here, in locales over the step, and each loop interprets them.
\<close>

section \<open>The loop\<close>

fun try_each ::
  "nat \<Rightarrow> ('c \<Rightarrow> 's \<Rightarrow> 's \<times> ('e + unit)) \<Rightarrow> 'c list \<Rightarrow> 's \<Rightarrow> 's \<times> (nat \<times> 'c \<times> 'e + unit)" where
  "try_each i step [] s = (s, Inr ())"
| "try_each i step (c # cs) s =
     (case step c s of
        (s', Inl e) \<Rightarrow> (s', Inl (i, c, e))
      | (s', Inr _) \<Rightarrow> try_each (Suc i) step cs s')"

lemma try_each_index:
  "try_each i step cs s = (s', Inl (j, c, e)) \<Longrightarrow> i \<le> j \<and> j < i + length cs \<and> c = cs ! (j - i)"
proof (induction cs arbitrary: i s)
  case (Cons d cs)
  obtain s1 r where st: "step d s = (s1, r)" by force
  show ?case
  proof (cases r)
    case (Inl e')
    with Cons.prems st show ?thesis by auto
  next
    case (Inr u)
    with Cons.prems st have "try_each (Suc i) step cs s1 = (s', Inl (j, c, e))" by simp
    from Cons.IH [OF this] show ?thesis by (auto simp: nth_Cons')
  qed
qed simp

text \<open>A property that every step keeps is kept by the loop.\<close>

lemma try_each_invariant:
  assumes "\<And>c s t r. c \<in> set cs \<Longrightarrow> step c s = (t, r) \<Longrightarrow> I s \<Longrightarrow> I t"
    and "try_each i step cs s = (t, r)" and "I s"
  shows "I t"
  using assms
proof (induction cs arbitrary: i s)
  case (Cons c cs)
  obtain s1 r1 where st: "step c s = (s1, r1)" by force
  from Cons.prems(1) [OF _ st] Cons.prems(3) have I1: "I s1" by simp
  show ?case
  proof (cases r1)
    case (Inl e)
    with Cons.prems st I1 show ?thesis by auto
  next
    case (Inr u)
    with Cons.prems(2) st have run: "try_each (Suc i) step cs s1 = (t, r)" by simp
    show ?thesis
    proof (rule Cons.IH [OF _ run I1])
      fix c' s2 t2 r2
      assume "c' \<in> set cs" "step c' s2 = (t2, r2)" "I s2"
      then show "I t2" using Cons.prems(1) [of c' s2 t2 r2] by simp
    qed
  qed
qed simp

section \<open>What the steps promise\<close>

text \<open>
  A step on a change concerns the resource that \<open>key\<close> names. \<open>same k s t\<close> says that the
  resource \<open>k\<close> is the same in the two states.
\<close>

locale keyed_steps =
  fixes step :: "'c \<Rightarrow> 's \<Rightarrow> 's \<times> ('e + unit)"
    and key :: "'c \<Rightarrow> 'k"
    and same :: "'k \<Rightarrow> 's \<Rightarrow> 's \<Rightarrow> bool"
  assumes same_refl: "same k s s"
    and same_trans: "same k s t \<Longrightarrow> same k t u \<Longrightarrow> same k s u"
    and step_other: "step c s = (t, r) \<Longrightarrow> k \<noteq> key c \<Longrightarrow> same k s t"
begin

text \<open>A resource that no change names is left alone, whether or not the loop completes.\<close>

lemma untouched:
  "try_each i step cs s = (t, r) \<Longrightarrow> k \<notin> key ` set cs \<Longrightarrow> same k s t"
proof (induction cs arbitrary: i s)
  case (Cons c cs)
  obtain s1 r1 where st: "step c s = (s1, r1)" by force
  with Cons.prems have k: "same k s s1" by (auto intro: step_other)
  show ?case
  proof (cases r1)
    case (Inl e)
    with Cons.prems st k show ?thesis by auto
  next
    case (Inr u)
    with Cons st have "same k s1 t" by auto
    with k show ?thesis by (rule same_trans)
  qed
qed (simp add: same_refl)

text \<open>Where the loop stops, the resources of the later changes are left alone.\<close>

lemma stopped_later_untouched:
  assumes "try_each i step cs s = (t, Inl (j, c, e))" and "distinct (map key cs)"
    and "j - i < n" and "n < length cs"
  shows "same (key (cs ! n)) s t"
  using assms
proof (induction cs arbitrary: i s n)
  case (Cons d cs)
  from Cons.prems(3) obtain n' where n: "n = Suc n'" by (cases n) auto
  obtain s1 r where st: "step d s = (s1, r)" by force
  have "key (cs ! n') \<in> set (map key cs)" using Cons.prems(4) n by simp
  with Cons.prems(2) have "key (cs ! n') \<noteq> key d" by auto
  with st have one: "same (key (cs ! n')) s s1" by (rule step_other)
  show ?case
  proof (cases r)
    case (Inl e')
    with Cons.prems(1) st one n show ?thesis by auto
  next
    case (Inr u)
    with Cons.prems(1) st have run: "try_each (Suc i) step cs s1 = (t, Inl (j, c, e))" by simp
    with try_each_index [OF run] Cons.prems n have "same (key (cs ! n')) s1 t"
      by (auto intro: Cons.IH)
    with one n show ?thesis by (auto intro: same_trans)
  qed
qed simp

end

text \<open>Steps that change nothing of their own resource when they fail.\<close>

locale atomic_steps = keyed_steps step key same
  for step :: "'c \<Rightarrow> 's \<Rightarrow> 's \<times> ('e + unit)" and key :: "'c \<Rightarrow> 'k" and same :: "'k \<Rightarrow> 's \<Rightarrow> 's \<Rightarrow> bool" +
  assumes step_failed: "step c s = (t, Inl e) \<Longrightarrow> same (key c) s t"
begin

lemma stopped_at_untouched:
  assumes "try_each i step cs s = (t, Inl (j, c, e))" and "distinct (map key cs)"
  shows "same (key c) s t"
  using assms
proof (induction cs arbitrary: i s)
  case (Cons d cs)
  obtain s1 r where st: "step d s = (s1, r)" by force
  show ?case
  proof (cases r)
    case (Inl e')
    with Cons.prems st show ?thesis by (auto intro: step_failed)
  next
    case (Inr u)
    with Cons.prems st have run: "try_each (Suc i) step cs s1 = (t, Inl (j, c, e))" by simp
    have "c \<in> set cs" using try_each_index [OF run] by auto
    with Cons.prems(2) have "key c \<noteq> key d" by (rule distinct_map_ConsD)
    with st have "same (key c) s s1" by (rule step_other)
    moreover have "same (key c) s1 t" using run Cons.prems(2) by (auto intro: Cons.IH)
    ultimately show ?thesis by (rule same_trans)
  qed
qed simp

end

text \<open>
  Steps that, from a state in which the change is \<open>ready\<close> to be applied, put it into effect
  (\<open>holds\<close>) when they succeed.
\<close>

locale effective_steps = keyed_steps step key same
  for step :: "'c \<Rightarrow> 's \<Rightarrow> 's \<times> ('e + unit)" and key :: "'c \<Rightarrow> 'k" and same :: "'k \<Rightarrow> 's \<Rightarrow> 's \<Rightarrow> bool" +
  fixes ready :: "'c \<Rightarrow> 's \<Rightarrow> bool"
    and holds :: "'c \<Rightarrow> 's \<Rightarrow> bool"
  assumes step_holds: "step c s = (t, Inr ()) \<Longrightarrow> ready c s \<Longrightarrow> holds c t"
    and holds_same: "holds c s \<Longrightarrow> same (key c) s t \<Longrightarrow> holds c t"
    and ready_same: "ready c s \<Longrightarrow> same (key c) s t \<Longrightarrow> ready c t"
begin

lemma ready_later:
  assumes "step d s = (t, r)" and "distinct (map key (d # cs))" and "\<forall>c \<in> set (d # cs). ready c s"
  shows "\<forall>c \<in> set cs. ready c t"
proof
  fix c
  assume c: "c \<in> set cs"
  with assms(2) have "key c \<noteq> key d" by (rule distinct_map_ConsD)
  with assms(1) have "same (key c) s t" by (rule step_other)
  with assms(3) c show "ready c t" by (auto intro: ready_same)
qed

text \<open>
  The changes before the one where the loop stopped, and all of them when it completed, are in
  effect.
\<close>

lemma in_effect:
  assumes "try_each i step cs s = (t, r)" and "distinct (map key cs)" and "\<forall>c \<in> set cs. ready c s"
    and "n < length cs" and "case r of Inl (j, _) \<Rightarrow> n < j - i | Inr _ \<Rightarrow> True"
  shows "holds (cs ! n) t"
  using assms
proof (induction cs arbitrary: i s n)
  case (Cons d cs)
  obtain s1 r1 where st: "step d s = (s1, r1)" by force
  have r1: "r1 = Inr ()"
    using Cons.prems(1,5) st by (cases r1) auto
  with Cons.prems(1) st have run: "try_each (Suc i) step cs s1 = (t, r)" by simp
  have later: "\<forall>c \<in> set cs. ready c s1"
    using st Cons.prems(2,3) by (rule ready_later)
  show ?case
  proof (cases n)
    case 0
    have "same (key d) s1 t"
      using run Cons.prems(2) by (auto intro: untouched)
    with st r1 Cons.prems(3) 0 show ?thesis by (auto intro: holds_same step_holds)
  next
    case (Suc n')
    have "holds (cs ! n') t"
      using run later Cons.prems(2,4,5) Suc
      by (intro Cons.IH) (auto split: sum.splits)
    with Suc show ?thesis by simp
  qed
qed simp

lemma completed:
  assumes "try_each i step cs s = (t, Inr ())" and "distinct (map key cs)"
    and "\<forall>c \<in> set cs. ready c s" and "c \<in> set cs"
  shows "holds c t"
proof -
  from assms(4) obtain n where "n < length cs" "c = cs ! n" by (auto simp: in_set_conv_nth)
  with assms show ?thesis by (auto intro: in_effect)
qed

end

end
