(* ===== verification/Registry.thy ===== *)
theory Registry
  imports Os_Model Effects
begin

text \<open>
  \<^verbatim>\<open>crates/agent/src/reconcile/registry.rs\<close>: the Windows registry as a reconcile target. The hive
  extends the system state with the existing keys and their values (the data of a \<^verbatim>\<open>REG_SZ\<close>
  value, or \<^const>\<open>None\<close> for a value of another type); which registry calls the system refuses is a
  parameter of that state. Key names are compared as given. The system matches value names without
  regard to case and keeps the name a value was created with; its folding is that of the ASCII
  letters here. The UTF-16 form in which the API passes names and data is not modelled.
\<close>

section \<open>Keys and plans\<close>

datatype registry_root = LocalMachine | CurrentUser

record registry_key =
  rk_root :: registry_root
  rk_path :: string

definition local_machine :: "string \<Rightarrow> registry_key" where
  "local_machine p = \<lparr>rk_root = LocalMachine, rk_path = p\<rparr>"

definition backslash :: char where
  "backslash = char_of (92 :: nat)"

definition root_name :: "registry_root \<Rightarrow> string" where
  "root_name r = (case r of LocalMachine \<Rightarrow> ''HKLM'' | CurrentUser \<Rightarrow> ''HKCU'')"

definition display_path :: "registry_key \<Rightarrow> path" where
  "display_path k = map Normal (root_name (rk_root k) # split_on backslash (rk_path k))"

type_synonym registry_values = "(string \<times> string option) list"

record registry_key_plan =
  rkp_key :: registry_key
  rkp_observed :: registry_values
  rkp_changes :: "(string \<times> string option) list"
  rkp_delete_key_when_empty :: bool

section \<open>The hive\<close>

datatype reg_call =
    RegOpen registry_key
  | RegEnumValues registry_key
  | RegCreate registry_key
  | RegSetValue registry_key string
  | RegDeleteValue registry_key string
  | RegQueryInfo registry_key
  | RegDeleteKey registry_key

record win_os = os +
  os_hive :: "(registry_key \<times> registry_values) list"
  os_reg_refuses :: "reg_call \<Rightarrow> io_error option"

definition put_key :: "registry_key \<Rightarrow> registry_values \<Rightarrow> win_os \<Rightarrow> win_os" where
  "put_key k v s = s\<lparr>os_hive := (k, v) # filter (\<lambda>(k', v). k' \<noteq> k) (os_hive s)\<rparr>"

definition drop_key :: "registry_key \<Rightarrow> win_os \<Rightarrow> win_os" where
  "drop_key k s = s\<lparr>os_hive := filter (\<lambda>(k', v). k' \<noteq> k) (os_hive s)\<rparr>"

text \<open>The values under a key; none when the key does not exist.\<close>

definition hive_values :: "win_os \<Rightarrow> registry_key \<Rightarrow> registry_values" where
  "hive_values s k = (case map_of (os_hive s) k of None \<Rightarrow> [] | Some v \<Rightarrow> v)"

definition same_name :: "string \<Rightarrow> string \<times> 'a \<Rightarrow> bool" where
  "same_name name v \<longleftrightarrow> eq_ignore_ascii_case (fst v) name"

definition value_under :: "registry_values \<Rightarrow> string \<Rightarrow> string option option" where
  "value_under vs name = map_option snd (find (same_name name) vs)"

definition set_value :: "string \<Rightarrow> string \<Rightarrow> registry_values \<Rightarrow> registry_values" where
  "set_value name data vs =
     (if list_ex (same_name name) vs then map (\<lambda>v. if same_name name v then (fst v, Some data) else v) vs
      else om_insert name (Some data) vs)"

definition delete_value :: "string \<Rightarrow> registry_values \<Rightarrow> registry_values" where
  "delete_value name vs = filter (\<lambda>v. \<not> same_name name v) vs"

definition has_subkeys :: "win_os \<Rightarrow> registry_key \<Rightarrow> bool" where
  "has_subkeys s k \<longleftrightarrow>
     list_ex (\<lambda>(k', v). rk_root k' = rk_root k \<and> prefix (rk_path k @ [backslash]) (rk_path k')) (os_hive s)"

text \<open>\<^verbatim>\<open>RegCreateKeyExW\<close> creates the key and the missing keys above it.\<close>

definition key_ancestors :: "registry_key \<Rightarrow> registry_key list" where
  "key_ancestors k =
     map (\<lambda>names. k\<lparr>rk_path := join_with [backslash] names\<rparr>)
       (filter (\<lambda>names. names \<noteq> []) (prefixes (split_on backslash (rk_path k))))"

definition reg_create :: "registry_key \<Rightarrow> win_os \<Rightarrow> win_os" where
  "reg_create k s =
     s\<lparr>os_hive := map (\<lambda>k'. (k', [])) (filter (\<lambda>k'. map_of (os_hive s) k' = None) (key_ancestors k)) @ os_hive s\<rparr>"

section \<open>Reading and applying\<close>

definition read_values :: "win_os \<Rightarrow> registry_key \<Rightarrow> io_error + registry_values" where
  "read_values s k =
     (case os_reg_refuses s (RegOpen k) of
        Some e \<Rightarrow> if kind e = NotFound then Inr [] else Inl e
      | None \<Rightarrow>
          (case map_of (os_hive s) k of
             None \<Rightarrow> Inr []
           | Some v \<Rightarrow>
               (case os_reg_refuses s (RegEnumValues k) of Some e \<Rightarrow> Inl e | None \<Rightarrow> Inr v)))"

definition apply_value :: "registry_key \<Rightarrow> string \<times> string option \<Rightarrow> win_os \<Rightarrow> win_os \<times> (anyhow + unit)" where
  "apply_value k change s =
     (case change of
        (name, Some data) \<Rightarrow>
          (case os_reg_refuses s (RegSetValue k name) of
             Some e \<Rightarrow> (s, Inl [''write '' @ path_display (display_path k) @ [backslash] @ name, io_message e])
           | None \<Rightarrow> (put_key k (set_value name data (hive_values s k)) s, Inr ()))
      | (name, None) \<Rightarrow>
          (case os_reg_refuses s (RegDeleteValue k name) of
             Some e \<Rightarrow>
               if kind e = NotFound then (s, Inr ())
               else (s, Inl [''remove '' @ path_display (display_path k) @ [backslash] @ name, io_message e])
           | None \<Rightarrow> (put_key k (delete_value name (hive_values s k)) s, Inr ())))"

text \<open>Whether the key has no values and no subkeys left.\<close>

definition key_is_empty :: "win_os \<Rightarrow> registry_key \<Rightarrow> io_error + bool" where
  "key_is_empty s k =
     (case os_reg_refuses s (RegQueryInfo k) of
        Some e \<Rightarrow> Inl e
      | None \<Rightarrow> Inr (\<not> has_subkeys s k \<and> hive_values s k = []))"

definition apply_registry :: "registry_key_plan \<Rightarrow> win_os \<Rightarrow> win_os \<times> (anyhow + unit)" where
  "apply_registry plan s =
     (let k = rkp_key plan
      in case os_reg_refuses s (RegCreate k) of
        Some e \<Rightarrow> (s, Inl [''open '' @ path_display (display_path k), io_message e])
      | None \<Rightarrow>
          (case try_each 0 (apply_value k) (rkp_changes plan) (reg_create k s) of
             (s1, Inl (i, c, e)) \<Rightarrow> (s1, Inl e)
           | (s1, Inr _) \<Rightarrow>
               if \<not> rkp_delete_key_when_empty plan then (s1, Inr ())
               else
                 (case key_is_empty s1 k of
                    Inl e \<Rightarrow> (s1, Inl [io_message e])
                  | Inr False \<Rightarrow> (s1, Inr ())
                  | Inr True \<Rightarrow>
                      (case os_reg_refuses s1 (RegDeleteKey k) of
                         Some e \<Rightarrow>
                           if kind e = NotFound then (s1, Inr ())
                           else (s1, Inl [''remove '' @ path_display (display_path k), io_message e])
                       | None \<Rightarrow> (drop_key k s1, Inr ())))))"

section \<open>Facts\<close>

lemma value_under_Nil [simp]: "value_under [] name = None"
  by (simp add: value_under_def)

lemma value_under_Cons:
  "value_under (v # vs) name = (if same_name name v then Some (snd v) else value_under vs name)"
  by (simp add: value_under_def)

lemma same_name_same: "same_name name v \<Longrightarrow> same_name other v \<longleftrightarrow> eq_ignore_ascii_case name other"
  by (auto simp: same_name_def eq_ignore_ascii_case_def)

lemma value_under_insert:
  "\<not> list_ex (same_name name) vs \<Longrightarrow>
   value_under (om_insert name d vs) other = (if eq_ignore_ascii_case name other then Some d else value_under vs other)"
  by (induction name d vs rule: om_insert.induct)
    (auto simp: value_under_Cons same_name_def eq_ignore_ascii_case_def)

lemma value_under_set_value:
  "value_under (set_value name d vs) other =
     (if eq_ignore_ascii_case name other then Some (Some d) else value_under vs other)"
proof -
  have "value_under (map (\<lambda>v. if same_name name v then (fst v, Some d) else v) vs) other =
      (if eq_ignore_ascii_case name other \<and> list_ex (same_name name) vs then Some (Some d) else value_under vs other)"
    by (induction vs) (auto simp: value_under_Cons same_name_def eq_ignore_ascii_case_def)
  then show ?thesis by (simp add: set_value_def value_under_insert)
qed

lemma value_under_delete_value:
  "value_under (delete_value name vs) other = (if eq_ignore_ascii_case name other then None else value_under vs other)"
  by (induction vs) (auto simp: delete_value_def value_under_Cons same_name_def eq_ignore_ascii_case_def)

lemma hive_values_put [simp]: "hive_values (put_key k v s) = (hive_values s)(k := v)"
  by (rule ext) (auto simp: hive_values_def put_key_def)

lemma hive_values_drop [simp]: "hive_values (drop_key k s) = (hive_values s)(k := [])"
  by (rule ext) (auto simp: hive_values_def drop_key_def)

lemma map_of_fresh:
  "map_of (map (\<lambda>k. (k, [])) ks @ h) k = (if k \<in> set ks then Some [] else map_of h k)"
  by (induction ks) auto

lemma hive_values_create [simp]: "hive_values (reg_create k s) = hive_values s"
  by (rule ext) (simp add: hive_values_def reg_create_def map_of_fresh del: map_of_append split: option.splits)

text \<open>What the registry operations leave alone: the file system and the parameters of the state.\<close>

definition reg_frame :: "win_os \<Rightarrow> win_os \<Rightarrow> bool" where
  "reg_frame s t \<longleftrightarrow> os_node t = os_node s \<and> os_unix t = os_unix s \<and> os_reg_refuses t = os_reg_refuses s"

lemma reg_frame_refl [simp]: "reg_frame s s"
  by (simp add: reg_frame_def)

lemma reg_frame_trans: "reg_frame s t \<Longrightarrow> reg_frame t u \<Longrightarrow> reg_frame s u"
  by (simp add: reg_frame_def)

lemma reg_frame_steps [simp]:
  "reg_frame s (put_key k v s)" "reg_frame s (drop_key k s)" "reg_frame s (reg_create k s)"
  by (simp_all add: reg_frame_def put_key_def drop_key_def reg_create_def)

lemma apply_value_frame:
  "apply_value k c s = (t, r) \<Longrightarrow> reg_frame s t \<and> (\<forall>k'. k' \<noteq> k \<longrightarrow> hive_values t k' = hive_values s k')"
  by (auto simp: apply_value_def split: prod.splits option.splits if_splits)

lemma apply_values_frame:
  assumes "try_each i (apply_value k) cs s = (t, r)"
  shows "reg_frame s t \<and> (\<forall>k'. k' \<noteq> k \<longrightarrow> hive_values t k' = hive_values s k')"
proof (rule try_each_invariant [OF _ assms])
  fix c u v r'
  assume "apply_value k c u = (v, r')"
    and "reg_frame s u \<and> (\<forall>k'. k' \<noteq> k \<longrightarrow> hive_values u k' = hive_values s k')"
  with apply_value_frame [of k c u v r']
  show "reg_frame s v \<and> (\<forall>k'. k' \<noteq> k \<longrightarrow> hive_values v k' = hive_values s k')"
    by (auto intro: reg_frame_trans)
qed simp

lemma apply_registry_frame:
  assumes "apply_registry plan s = (t, r)"
  shows "reg_frame s t \<and> (\<forall>k'. k' \<noteq> rkp_key plan \<longrightarrow> hive_values t k' = hive_values s k')"
proof -
  let ?k = "rkp_key plan"
  obtain s1 r1 where run: "try_each 0 (apply_value ?k) (rkp_changes plan) (reg_create ?k s) = (s1, r1)"
    by force
  from apply_values_frame [OF run] have 1: "reg_frame s s1"
      "\<forall>k'. k' \<noteq> ?k \<longrightarrow> hive_values s1 k' = hive_values s k'"
    by (auto intro: reg_frame_trans [OF reg_frame_steps(3)])
  have "t = s \<or> t = s1 \<or> t = drop_key ?k s1"
    using assms run by (auto simp: apply_registry_def Let_def split: option.splits sum.splits if_splits bool.splits)
  with 1 show ?thesis
    by (auto intro: reg_frame_trans)
qed

text \<open>The registry keys are a family of resources that the steps of the registry loop touch one at a time.\<close>

definition same_key :: "registry_key \<Rightarrow> win_os \<Rightarrow> win_os \<Rightarrow> bool" where
  "same_key k s t \<longleftrightarrow> reg_frame s t \<and> hive_values t k = hive_values s k"

interpretation reg_steps: keyed_steps apply_registry rkp_key same_key
  by unfold_locales (auto simp: same_key_def dest: apply_registry_frame intro: reg_frame_trans)

text \<open>The values that a sequence of changes leads to.\<close>

fun changed_values :: "(string \<times> string option) list \<Rightarrow> (string \<rightharpoonup> string option) \<Rightarrow> (string \<rightharpoonup> string option)" where
  "changed_values [] m = m"
| "changed_values ((name, v) # cs) m =
     changed_values cs (\<lambda>other. if eq_ignore_ascii_case name other then map_option Some v else m other)"

text \<open>
  \<^verbatim>\<open>ERROR_FILE_NOT_FOUND\<close> from opening a key or deleting a value means that there is no such key
  or value: it is not one of the refusals.
\<close>

definition not_found_honest :: "(reg_call \<Rightarrow> io_error option) \<Rightarrow> bool" where
  "not_found_honest refuses \<longleftrightarrow> (\<forall>call e. refuses call = Some e \<longrightarrow> kind e \<noteq> NotFound)"

lemma apply_values_result:
  assumes "try_each i (apply_value k) cs s = (t, Inr ())" and "not_found_honest (os_reg_refuses s)"
  shows "value_under (hive_values t k) = changed_values cs (value_under (hive_values s k))"
  using assms
proof (induction cs arbitrary: i s)
  case (Cons c cs)
  obtain name v where c: "c = (name, v)" by force
  obtain s1 r where st: "apply_value k c s = (s1, r)" by force
  with Cons.prems(1) have r: "r = Inr ()" and run: "try_each (Suc i) (apply_value k) cs s1 = (t, Inr ())"
    by (auto split: sum.splits)
  have "not_found_honest (os_reg_refuses s1)"
    using Cons.prems(2) apply_value_frame [OF st] by (simp add: reg_frame_def)
  note Cons.IH [OF run this]
  moreover have "value_under (hive_values s1 k) =
      (\<lambda>other. if eq_ignore_ascii_case name other then map_option Some v else value_under (hive_values s k) other)"
    using st r c Cons.prems(2)
    by (auto simp: apply_value_def not_found_honest_def value_under_set_value value_under_delete_value
        split: option.splits if_splits)
  ultimately show ?case using c by simp
qed simp

lemma apply_registry_result:
  assumes "apply_registry plan s = (t, Inr ())" and "not_found_honest (os_reg_refuses s)"
  shows "value_under (hive_values t (rkp_key plan)) =
    changed_values (rkp_changes plan) (value_under (hive_values s (rkp_key plan)))"
proof -
  let ?k = "rkp_key plan"
  obtain s1 where run: "try_each 0 (apply_value ?k) (rkp_changes plan) (reg_create ?k s) = (s1, Inr ())"
    and t: "t = s1 \<or> t = drop_key ?k s1 \<and> hive_values s1 ?k = []"
    using assms(1)
    by (auto simp: apply_registry_def key_is_empty_def Let_def
        split: option.splits sum.splits if_splits bool.splits prod.splits)
  have "value_under (hive_values s1 ?k) = changed_values (rkp_changes plan) (value_under (hive_values s ?k))"
    using apply_values_result [OF run] assms(2) reg_frame_steps(3) [of s ?k]
    by (simp add: reg_frame_def)
  with t show ?thesis by auto
qed

definition key_ready :: "registry_key_plan \<Rightarrow> win_os \<Rightarrow> bool" where
  "key_ready plan s \<longleftrightarrow> not_found_honest (os_reg_refuses s) \<and> hive_values s (rkp_key plan) = rkp_observed plan"

text \<open>A key's changes are in effect: its values are those observed, with the planned changes.\<close>

definition key_holds :: "registry_key_plan \<Rightarrow> win_os \<Rightarrow> bool" where
  "key_holds plan s \<longleftrightarrow>
     value_under (hive_values s (rkp_key plan)) = changed_values (rkp_changes plan) (value_under (rkp_observed plan))"

interpretation reg_effects: effective_steps apply_registry rkp_key same_key key_ready key_holds
  by unfold_locales
    (auto simp: key_ready_def key_holds_def same_key_def reg_frame_def dest: apply_registry_result)

lemma read_values_Inr:
  "read_values s k = Inr v \<Longrightarrow> not_found_honest (os_reg_refuses s) \<Longrightarrow> hive_values s k = v"
  by (auto simp: read_values_def hive_values_def not_found_honest_def split: option.splits if_splits)

end
