(* ===== verification/Plan.thy ===== *)
theory Plan
  imports Registry
begin

unbundle bit_operations_syntax

text \<open>
  \<^verbatim>\<open>crates/agent/src/reconcile/plan.rs\<close>, with the dry-run report of \<^verbatim>\<open>reconcile/mod.rs\<close> that it
  fills: a plan is a snapshot of the files that were read together with the changes to make,
  and applying it checks the snapshot before it changes anything. The interior mutability of
  the Rust plan is explicit state passing here. The registry parts, which the source compiles
  on Windows only, run in a state whose \<^const>\<open>os_unix\<close> is false.
\<close>

section \<open>The plan\<close>

record file_change =
  fc_path :: path
  fc_contents :: "bytes option"
  fc_permissions :: mode

record dry_run_change =
  dc_display_name :: string
  dc_description :: string
  dc_action :: string
  dc_path :: path
  dc_before :: "string option"
  dc_after :: "string option"

record dry_run_report =
  rep_changes :: "dry_run_change list"
  rep_inactive :: "string list"

definition report_record ::
  "string \<Rightarrow> string \<Rightarrow> string \<Rightarrow> path \<Rightarrow> bytes option \<Rightarrow> bytes option \<Rightarrow> dry_run_report \<Rightarrow> dry_run_report" where
  "report_record display_name description action p before after rep =
     rep\<lparr>rep_changes := rep_changes rep @
       [\<lparr>dc_display_name = display_name, dc_description = description, dc_action = action,
         dc_path = p, dc_before = map_option from_utf8_lossy before,
         dc_after = map_option from_utf8_lossy after\<rparr>]\<rparr>"

record reconcile_plan =
  rp_observed :: "(path \<times> bytes option) list"
  rp_operations :: "file_change list"
  rp_registry :: "registry_key_plan list"
  rp_private_dirs :: "path list"
  rp_report :: dry_run_report
  rp_inactive :: "string option"

definition empty_plan :: reconcile_plan where
  "empty_plan = \<lparr>rp_observed = [], rp_operations = [], rp_registry = [], rp_private_dirs = [],
     rp_report = \<lparr>rep_changes = [], rep_inactive = []\<rparr>, rp_inactive = None\<rparr>"

datatype apply_stop =
    ConflictStop
  | ObservedStop path
  | PrivateDirStop path
  | OperationStop nat
  | RegistryStop nat path

section \<open>Planning\<close>

definition read_optional :: "'a os_scheme \<Rightarrow> path \<Rightarrow> io_error + bytes option" where
  "read_optional s p =
     (case fs_read s p of
        Inr contents \<Rightarrow> Inr (Some contents)
      | Inl e \<Rightarrow> if kind e = NotFound then Inr None else Inl e)"

definition plan_read :: "'a os_scheme \<Rightarrow> path \<Rightarrow> reconcile_plan \<Rightarrow> reconcile_plan \<times> (io_error + bytes)" where
  "plan_read s p plan =
     (let result = (\<lambda>c. case c of None \<Rightarrow> Inl (IoError NotFound ''entity not found'') | Some b \<Rightarrow> Inr b)
      in case om_get (rp_observed plan) p of
        Some c \<Rightarrow> (plan, result c)
      | None \<Rightarrow>
          (case read_optional s p of
             Inl e \<Rightarrow> (plan, Inl e)
           | Inr c \<Rightarrow> (plan\<lparr>rp_observed := om_insert p c (rp_observed plan)\<rparr>, result c)))"

definition push_operation :: "file_change \<Rightarrow> reconcile_plan \<Rightarrow> reconcile_plan" where
  "push_operation c plan = plan\<lparr>rp_operations := rp_operations plan @ [c]\<rparr>"

definition plan_write_file ::
  "'a os_scheme \<Rightarrow> path \<Rightarrow> bytes \<Rightarrow> mode \<Rightarrow> reconcile_plan \<Rightarrow> reconcile_plan \<times> (anyhow + unit)" where
  "plan_write_file s p contents m plan =
     (let change = \<lparr>fc_path = p, fc_contents = Some contents, fc_permissions = m\<rparr>
      in case plan_read s p plan of
        (plan1, Inr _) \<Rightarrow> (push_operation change plan1, Inr ())
      | (plan1, Inl e) \<Rightarrow>
          if kind e = NotFound then (push_operation change plan1, Inr ())
          else (plan1, Inl [''read '' @ path_display p @ '' before planning write'', io_message e]))"

definition plan_remove_file :: "'a os_scheme \<Rightarrow> path \<Rightarrow> reconcile_plan \<Rightarrow> reconcile_plan \<times> (io_error + unit)" where
  "plan_remove_file s p plan =
     (case plan_read s p plan of
        (plan1, Inl e) \<Rightarrow> (plan1, Inl e)
      | (plan1, Inr _) \<Rightarrow>
          (push_operation \<lparr>fc_path = p, fc_contents = None, fc_permissions = 0\<rparr> plan1, Inr ()))"

definition plan_ensure_private_dir :: "path \<Rightarrow> reconcile_plan \<Rightarrow> reconcile_plan" where
  "plan_ensure_private_dir d plan = plan\<lparr>rp_private_dirs := rp_private_dirs plan @ [d]\<rparr>"

definition plan_registry_key :: "registry_key_plan \<Rightarrow> reconcile_plan \<Rightarrow> reconcile_plan" where
  "plan_registry_key k plan = plan\<lparr>rp_registry := rp_registry plan @ [k]\<rparr>"

definition plan_record_diff ::
  "string \<Rightarrow> string \<Rightarrow> string \<Rightarrow> path \<Rightarrow> bytes option \<Rightarrow> bytes option \<Rightarrow> reconcile_plan \<Rightarrow> reconcile_plan" where
  "plan_record_diff display_name description action p before after plan =
     plan\<lparr>rp_report := report_record display_name description action p before after (rp_report plan)\<rparr>"

definition plan_record ::
  "'a os_scheme \<Rightarrow> string \<Rightarrow> string \<Rightarrow> string \<Rightarrow> path \<Rightarrow> reconcile_plan \<Rightarrow> reconcile_plan" where
  "plan_record s display_name description action p plan =
     (let (plan1, before) =
            (if action = ''remove''
             then (case plan_read s p plan of
                     (plan1, Inl e) \<Rightarrow> (plan1, None)
                   | (plan1, Inr b) \<Rightarrow> (plan1, Some b))
             else (plan, None))
      in plan_record_diff display_name description action p before None plan1)"

definition set_inactive :: "string \<Rightarrow> reconcile_plan \<Rightarrow> reconcile_plan" where
  "set_inactive reason plan = plan\<lparr>rp_inactive := Some reason\<rparr>"

definition skipped :: "string \<Rightarrow> reconcile_plan" where
  "skipped reason =
     (let plan = set_inactive reason empty_plan
      in plan\<lparr>rp_report := (rp_report plan)\<lparr>rep_inactive := rep_inactive (rp_report plan) @ [reason]\<rparr>\<rparr>)"

definition has_conflicts :: "reconcile_plan \<Rightarrow> bool" where
  "has_conflicts plan \<longleftrightarrow> list_ex (\<lambda>c. dc_action c = ''conflict'') (rep_changes (rp_report plan))"

section \<open>Summary and combination\<close>

record plan_summary =
  ps_changes :: bool
  ps_conflicts :: "string list"
  ps_inactive :: "string option"
  ps_paths :: "path list"

definition push_new :: "path list \<Rightarrow> path \<Rightarrow> path list" where
  "push_new ps p = (if p \<in> set ps then ps else ps @ [p])"

definition conflict_line :: "dry_run_change \<Rightarrow> string" where
  "conflict_line c =
     dc_description c @ '' at '' @ path_display (dc_path c)
       @ '': conflicting or invalid existing configuration''"

definition plan_summary_of :: "reconcile_plan \<Rightarrow> plan_summary" where
  "plan_summary_of plan =
     (let changes = rep_changes (rp_report plan);
          differs = list_ex (\<lambda>c. om_get (rp_observed plan) (fc_path c) \<noteq> Some (fc_contents c)) (rp_operations plan);
          recorded = list_ex (\<lambda>c. dc_action c \<in> {''create'', ''update'', ''remove''}) changes;
          conflicts = map conflict_line (filter (\<lambda>c. dc_action c = ''conflict'') changes);
          paths = foldl push_new (om_keys (rp_observed plan)) (map fc_path (rp_operations plan))
      in \<lparr>ps_changes = (differs \<or> recorded) \<or> rp_registry plan \<noteq> [],
          ps_conflicts = conflicts,
          ps_inactive = rp_inactive plan,
          ps_paths = paths @ map (\<lambda>k. display_path (rkp_key k)) (rp_registry plan)\<rparr>)"

fun append_observed ::
  "(path \<times> bytes option) list \<Rightarrow> (path \<times> bytes option) list
   \<Rightarrow> (path \<times> bytes option) list \<times> (anyhow \<times> path + unit)" where
  "append_observed obs [] = (obs, Inr ())"
| "append_observed obs ((p, expected) # rest) =
     (case om_get obs p of
        Some previous \<Rightarrow>
          if previous \<noteq> expected
          then (obs, Inl ([path_display p @ '' changed while planning reconciliation''], p))
          else append_observed (om_insert p expected obs) rest
      | None \<Rightarrow> append_observed (om_insert p expected obs) rest)"

fun append_operations ::
  "file_change list \<Rightarrow> file_change list \<Rightarrow> file_change list \<times> (anyhow \<times> path + unit)" where
  "append_operations ops [] = (ops, Inr ())"
| "append_operations ops (c # cs) =
     (if list_ex (\<lambda>d. fc_path d = fc_path c) ops
      then (ops, Inl ([''multiple providers plan to modify '' @ path_display (fc_path c)], fc_path c))
      else append_operations (ops @ [c]) cs)"

fun append_registry ::
  "registry_key_plan list \<Rightarrow> registry_key_plan list \<Rightarrow> registry_key_plan list \<times> (anyhow \<times> path + unit)" where
  "append_registry ks [] = (ks, Inr ())"
| "append_registry ks (k # rest) =
     (if list_ex (\<lambda>d. rkp_key d = rkp_key k) ks
      then (ks, Inl ([''multiple providers plan to modify '' @ path_display (display_path (rkp_key k))],
                     display_path (rkp_key k)))
      else append_registry (ks @ [k]) rest)"

definition append_attributed :: "reconcile_plan \<Rightarrow> reconcile_plan \<Rightarrow> reconcile_plan \<times> (anyhow \<times> path + unit)" where
  "append_attributed plan other =
     (case append_observed (rp_observed plan) (rp_observed other) of
        (obs, Inl e) \<Rightarrow> (plan\<lparr>rp_observed := obs\<rparr>, Inl e)
      | (obs, Inr _) \<Rightarrow>
          (let plan1 = plan\<lparr>rp_observed := obs, rp_private_dirs := rp_private_dirs plan @ rp_private_dirs other\<rparr>
           in case append_operations (rp_operations plan) (rp_operations other) of
             (ops, Inl e) \<Rightarrow> (plan1\<lparr>rp_operations := ops\<rparr>, Inl e)
           | (ops, Inr _) \<Rightarrow>
               (let plan2 = plan1\<lparr>rp_operations := ops\<rparr>
                in case append_registry (rp_registry plan) (rp_registry other) of
                  (ks, Inl e) \<Rightarrow> (plan2\<lparr>rp_registry := ks\<rparr>, Inl e)
                | (ks, Inr _) \<Rightarrow>
                    (plan2\<lparr>rp_registry := ks,
                       rp_report := \<lparr>rep_changes = rep_changes (rp_report plan) @ rep_changes (rp_report other),
                                     rep_inactive = rep_inactive (rp_report plan) @ rep_inactive (rp_report other)\<rparr>\<rparr>,
                     Inr ()))))"

section \<open>Applying\<close>

definition grants_beyond :: "'a os_scheme \<Rightarrow> path \<Rightarrow> mode \<Rightarrow> bool" where
  "grants_beyond s p m \<longleftrightarrow>
     os_unix s \<and> (case os_node s p of None \<Rightarrow> False | Some n \<Rightarrow> node_mode n AND NOT m AND 0x1FF \<noteq> 0)"

definition already_in_place ::
  "'a os_scheme \<Rightarrow> path \<Rightarrow> bytes \<Rightarrow> mode \<Rightarrow> (path \<times> bytes option) list \<Rightarrow> bool" where
  "already_in_place s p contents m observed \<longleftrightarrow>
     om_get observed p = Some (Some contents) \<and> fs_exists s p \<and> \<not> grants_beyond s p m"

fun check_observed :: "'a os_scheme \<Rightarrow> (path \<times> bytes option) list \<Rightarrow> anyhow \<times> apply_stop + unit" where
  "check_observed s [] = Inr ()"
| "check_observed s ((p, expected) # rest) =
     (case read_optional s p of
        Inl e \<Rightarrow>
          Inl ([''validate '' @ path_display p @ '' before applying plan'', io_message e], ObservedStop p)
      | Inr current \<Rightarrow>
          if current \<noteq> expected
          then Inl ([path_display p @ '' changed since reconciliation was planned; retry reconciliation''],
                    ObservedStop p)
          else check_observed s rest)"

fun check_registry :: "win_os \<Rightarrow> registry_key_plan list \<Rightarrow> anyhow \<times> apply_stop + unit" where
  "check_registry s [] = Inr ()"
| "check_registry s (k # rest) =
     (let display = display_path (rkp_key k)
      in case read_values s (rkp_key k) of
        Inl e \<Rightarrow>
          Inl ([''validate '' @ path_display display @ '' before applying plan'', io_message e],
               ObservedStop display)
      | Inr current \<Rightarrow>
          if current \<noteq> rkp_observed k
          then Inl ([path_display display @ '' changed since reconciliation was planned; retry reconciliation''],
                    ObservedStop display)
          else check_registry s rest)"

definition make_private_dir :: "path \<Rightarrow> 'a os_scheme \<Rightarrow> 'a os_scheme \<times> (anyhow + unit)" where
  "make_private_dir d s = (if fs_exists s d then (s, Inr ()) else ensure_private_dir s d)"

definition apply_operation ::
  "(path \<times> bytes option) list \<Rightarrow> file_change \<Rightarrow> 'a os_scheme \<Rightarrow> 'a os_scheme \<times> (anyhow + unit)" where
  "apply_operation observed c s =
     (case fc_contents c of
        Some contents \<Rightarrow>
          if already_in_place s (fc_path c) contents (fc_permissions c) observed then (s, Inr ())
          else
            (let parent = parent_or_dot (fc_path c)
             in case fs_create_dir_all s parent of
               (s1, Inl e) \<Rightarrow> (s1, Inl [''create directory '' @ path_display parent, io_message e])
             | (s1, Inr _) \<Rightarrow> atomic_write s1 (fc_path c) contents (fc_permissions c))
      | None \<Rightarrow>
          (case fs_remove_file s (fc_path c) of
             (s1, r) \<Rightarrow> (s1, io_context (''remove '' @ path_display (fc_path c)) r)))"

definition apply_tracked :: "reconcile_plan \<Rightarrow> win_os \<Rightarrow> win_os \<times> (anyhow \<times> apply_stop + unit)" where
  "apply_tracked plan s =
     (case find (\<lambda>c. dc_action c = ''conflict'') (rep_changes (rp_report plan)) of
        Some c \<Rightarrow>
          (s, Inl ([''refusing to change '' @ dc_display_name c @ '' '' @ dc_description c @ '' at ''
                      @ path_display (dc_path c) @ '': conflicting or invalid existing configuration''],
                   ConflictStop))
      | None \<Rightarrow>
          (case check_observed s (rp_observed plan) of
             Inl stop \<Rightarrow> (s, Inl stop)
           | Inr _ \<Rightarrow>
               (case (if os_unix s then Inr () else check_registry s (rp_registry plan)) of
                  Inl stop \<Rightarrow> (s, Inl stop)
                | Inr _ \<Rightarrow>
                    (case try_each 0 make_private_dir (rp_private_dirs plan) s of
                       (s1, Inl (i, d, e)) \<Rightarrow> (s1, Inl (e, PrivateDirStop d))
                     | (s1, Inr _) \<Rightarrow>
                         (case try_each 0 (apply_operation (rp_observed plan)) (rp_operations plan) s1 of
                            (s2, Inl (i, c, e)) \<Rightarrow> (s2, Inl (e, OperationStop i))
                          | (s2, Inr _) \<Rightarrow>
                              if os_unix s2 then (s2, Inr ())
                              else
                                (case try_each 0 apply_registry (rp_registry plan) s2 of
                                   (s3, Inl (i, k, e)) \<Rightarrow>
                                     (s3, Inl (e, RegistryStop i (display_path (rkp_key k))))
                                 | (s3, Inr _) \<Rightarrow> (s3, Inr ())))))))"

definition apply_plan :: "reconcile_plan \<Rightarrow> win_os \<Rightarrow> win_os \<times> (anyhow + unit)" where
  "apply_plan plan s = (case apply_tracked plan s of (s', Inl (e, stop)) \<Rightarrow> (s', Inl e) | (s', Inr _) \<Rightarrow> (s', Inr ()))"

section \<open>What a step leaves alone\<close>

text \<open>
  The node at a path is the same in two states: it is equal, or it appeared as a directory
  (created on the way to another file), or the path is that of a temporary file.
\<close>

definition same_node :: "path \<Rightarrow> node option \<Rightarrow> node option \<Rightarrow> bool" where
  "same_node q n n' \<longleftrightarrow> n' = n \<or> n = None \<and> (is_dir n' \<or> temporary_name q)"

definition same_path :: "path \<Rightarrow> 'a os_scheme \<Rightarrow> 'a os_scheme \<Rightarrow> bool" where
  "same_path q s t \<longleftrightarrow> same_params s t \<and> same_node q (os_node s q) (os_node t q)"

lemma same_node_Some [simp]: "same_node q (Some n) n' \<longleftrightarrow> n' = Some n"
  by (auto simp: same_node_def)

lemma same_path_refl [simp]: "same_path q s s"
  by (simp add: same_path_def same_node_def)

lemma same_path_trans: "same_path q s t \<Longrightarrow> same_path q t u \<Longrightarrow> same_path q s u"
  by (auto simp: same_path_def same_node_def intro: same_params_trans)

lemma same_path_Some: "same_path q s t \<Longrightarrow> os_node s q = Some n \<Longrightarrow> os_node t q = Some n"
  by (auto simp: same_path_def same_node_def)

lemma is_dir_cases: "is_dir n \<longleftrightarrow> (\<exists>m. n = Some (Directory m))"
  by (cases n rule: is_dir.cases) auto

lemma create_dir_all_same: "fs_create_dir_all s p = (t, r) \<Longrightarrow> same_path q s t"
  by (auto simp: fs_create_dir_all_def same_path_def same_node_def split: option.splits if_splits)

lemma ensure_private_dir_same:
  assumes "ensure_private_dir s d = (t, r)" and "os_node s d = None"
  shows "same_path q s t"
proof -
  obtain s1 r1 where c: "fs_create_dir_all s d = (s1, r1)" by force
  note same1 = create_dir_all_same [OF c]
  show ?thesis
  proof (cases "t = s1")
    case True
    with same1 show ?thesis by simp
  next
    case False
    with assms(1) c have "is_dir (os_node s1 d)" and t: "t = set_node d (chmod_node 0x1C0 (os_node s1 d)) s1"
      by (auto simp: ensure_private_dir_def split: sum.splits option.splits if_splits)
    then show ?thesis
      using same1 [of q] assms(2) by (auto simp: same_path_def same_node_def is_dir_cases)
  qed
qed

lemma make_private_dir_same: "make_private_dir d s = (t, r) \<Longrightarrow> same_path q s t"
  by (auto simp: make_private_dir_def fs_exists_def intro: ensure_private_dir_same split: if_splits)

lemma atomic_write_same:
  assumes "atomic_write s p contents m = (t, r)" and "q \<noteq> p \<or> (\<exists>e. r = Inl e)"
  shows "same_path q s t"
  using atomic_write_cases [OF assms(1)] assms(2) by (auto simp: same_path_def same_node_def)

lemma apply_operation_same:
  assumes "apply_operation obs c s = (t, r)" and "q \<noteq> fc_path c \<or> (\<exists>e. r = Inl e)"
  shows "same_path q s t"
proof (cases "fc_contents c")
  case None
  with assms show ?thesis
    using fs_remove_file_node [of s "fc_path c" t] fs_remove_file_own [of s "fc_path c" t]
    by (cases "q = fc_path c") (auto simp: apply_operation_def same_path_def same_node_def io_context_def split: prod.splits sum.splits)
next
  case (Some contents)
  obtain s1 r1 where c: "fs_create_dir_all s (parent_or_dot (fc_path c)) = (s1, r1)" by force
  note same1 = create_dir_all_same [OF c]
  consider "t = s" | "t = s1" | (written) "atomic_write s1 (fc_path c) contents (fc_permissions c) = (t, r)"
    using assms(1) Some c by (auto simp: apply_operation_def Let_def split: if_splits sum.splits)
  then show ?thesis
  proof cases
    case written
    then have "same_path q s1 t" using assms(2) by (rule atomic_write_same)
    with same1 show ?thesis by (rule same_path_trans)
  qed (use same1 [of q] in simp_all)
qed

lemma apply_operation_params: "apply_operation obs c s = (t, r) \<Longrightarrow> same_params s t"
proof -
  assume run: "apply_operation obs c s = (t, r)"
  have "fc_path c \<noteq> CurDir # fc_path c" by simp
  with run have "same_path (CurDir # fc_path c) s t" by (intro apply_operation_same) auto
  then show ?thesis by (simp add: same_path_def)
qed

section \<open>What a step achieves\<close>

text \<open>The mode grants nothing beyond the planned one (a promise on Unix only).\<close>

definition mode_within :: "'a os_scheme \<Rightarrow> mode \<Rightarrow> mode \<Rightarrow> bool" where
  "mode_within s m planned \<longleftrightarrow> (os_unix s \<longrightarrow> m AND NOT planned AND 0x1FF = 0)"

lemma created_mode_within [simp]: "same_params s t \<Longrightarrow> mode_within t (created_mode s m) m"
  by (auto simp: mode_within_def created_mode_def same_params_def bit_eq_iff bit_simps)

text \<open>
  A change is in effect: the planned file is there with the planned bytes and grants no
  permission beyond the planned mode; a removed file is gone.
\<close>

definition op_holds :: "file_change \<Rightarrow> 'a os_scheme \<Rightarrow> bool" where
  "op_holds c s \<longleftrightarrow>
     (case fc_contents c of
        Some contents \<Rightarrow>
          (case os_node s (fc_path c) of
             Some (File b m) \<Rightarrow> b = contents \<and> mode_within s m (fc_permissions c)
           | _ \<Rightarrow> False)
      | None \<Rightarrow> os_node s (fc_path c) = None \<or> is_dir (os_node s (fc_path c)) \<or> temporary_name (fc_path c))"

text \<open>What was observed of the change's file is still so.\<close>

definition op_ready :: "(path \<times> bytes option) list \<Rightarrow> file_change \<Rightarrow> 'a os_scheme \<Rightarrow> bool" where
  "op_ready obs c s \<longleftrightarrow> (\<forall>b. om_get obs (fc_path c) = Some (Some b) \<longrightarrow> fs_read s (fc_path c) = Inr b)"

lemma fs_read_Inr: "fs_read s p = Inr b \<longleftrightarrow> (\<exists>m. os_node s p = Some (File b m))"
  by (auto simp: fs_read_def split: option.splits node.splits)

lemma apply_operation_holds:
  assumes "apply_operation obs c s = (t, Inr ())" and "op_ready obs c s"
  shows "op_holds c t"
proof (cases "fc_contents c")
  case None
  with assms(1) show ?thesis
    using fs_remove_file_own [of s "fc_path c" t "Inr ()"]
    by (auto simp: apply_operation_def op_holds_def io_context_def split: prod.splits sum.splits)
next
  case (Some contents)
  show ?thesis
  proof (cases "already_in_place s (fc_path c) contents (fc_permissions c) obs")
    case True
    with assms Some obtain m where "t = s" "os_node s (fc_path c) = Some (File contents m)"
      by (auto simp: apply_operation_def already_in_place_def op_ready_def fs_read_Inr)
    with True Some show ?thesis
      by (auto simp: op_holds_def already_in_place_def grants_beyond_def mode_within_def)
  next
    case False
    with assms(1) Some obtain s1 where
        "atomic_write s1 (fc_path c) contents (fc_permissions c) = (t, Inr ())"
      by (auto simp: apply_operation_def Let_def split: prod.splits sum.splits)
    from atomic_write_cases [OF this] Some show ?thesis by (auto simp: op_holds_def)
  qed
qed

lemma op_holds_same: "op_holds c s \<Longrightarrow> same_path (fc_path c) s t \<Longrightarrow> op_holds c t"
  by (auto simp: op_holds_def same_path_def same_node_def mode_within_def same_params_def
      split: option.splits node.splits)

lemma op_ready_same: "op_ready obs c s \<Longrightarrow> same_path (fc_path c) s t \<Longrightarrow> op_ready obs c t"
  by (auto simp: op_ready_def fs_read_Inr dest: same_path_Some)

interpretation dir_steps: keyed_steps make_private_dir "\<lambda>d. d" same_path
  by unfold_locales (auto intro: same_path_trans make_private_dir_same)

interpretation file_steps: effective_steps "apply_operation obs" fc_path same_path "op_ready obs" op_holds
  for obs
  by unfold_locales
    (auto intro: same_path_trans apply_operation_same apply_operation_holds op_holds_same op_ready_same)

interpretation file_atomic: atomic_steps "apply_operation obs" fc_path same_path for obs
  by unfold_locales (auto intro: apply_operation_same)

lemma private_dirs_same: "try_each i make_private_dir ds s = (t, r) \<Longrightarrow> same_path q s t"
  by (rule try_each_invariant [where I = "same_path q s"])
    (auto intro: same_path_trans make_private_dir_same)

section \<open>Plans\<close>

text \<open>
  A plan that can be applied: one change per file and per registry key, and every changed file
  was observed.
\<close>

definition plan_ok :: "reconcile_plan \<Rightarrow> bool" where
  "plan_ok plan \<longleftrightarrow>
     om_wf (rp_observed plan)
     \<and> distinct (map fc_path (rp_operations plan))
     \<and> distinct (map rkp_key (rp_registry plan))
     \<and> (\<forall>c \<in> set (rp_operations plan). om_get (rp_observed plan) (fc_path c) \<noteq> None)"

lemma check_observed_ok:
  "check_observed s obs = Inr () \<longleftrightarrow> (\<forall>(p, c) \<in> set obs. read_optional s p = Inr c)"
  by (induction s obs rule: check_observed.induct) (auto split: sum.splits)

lemma check_registry_ok:
  "check_registry s ks = Inr () \<longleftrightarrow> (\<forall>k \<in> set ks. read_values s (rkp_key k) = Inr (rkp_observed k))"
  by (induction s ks rule: check_registry.induct) (auto simp: Let_def split: sum.splits)

lemma check_observed_stop: "check_observed s obs = Inl (e, stop) \<Longrightarrow> \<exists>p. stop = ObservedStop p"
  by (induction s obs rule: check_observed.induct) (auto split: sum.splits if_splits)

lemma check_registry_stop: "check_registry s ks = Inl (e, stop) \<Longrightarrow> \<exists>p. stop = ObservedStop p"
  by (induction s ks rule: check_registry.induct) (auto simp: Let_def split: sum.splits if_splits)

lemma observed_ready:
  assumes "check_observed s obs = Inr ()" and "om_wf obs"
  shows "op_ready obs c s"
  using assms
  by (auto simp: op_ready_def check_observed_ok read_optional_def om_get_in_set [symmetric]
      split: sum.splits if_splits)

lemma registry_ready:
  assumes "check_registry s ks = Inr ()" and "not_found_honest (os_reg_refuses s)" and "k \<in> set ks"
  shows "key_ready k s"
  using assms by (auto simp: key_ready_def check_registry_ok intro: read_values_Inr)

text \<open>The phases of an apply, by the way it ends.\<close>

lemma apply_tracked_before_writes:
  assumes "apply_tracked plan s = (t, Inl (e, stop))" and "stop = ConflictStop \<or> (\<exists>p. stop = ObservedStop p)"
  shows "t = s"
  using assms
  by (auto simp: apply_tracked_def split: outcome_splits)

lemma apply_tracked_completedE:
  assumes "apply_tracked plan s = (t, Inr ())"
  obtains s1 s2 where "check_observed s (rp_observed plan) = Inr ()"
    and "os_unix s \<or> check_registry s (rp_registry plan) = Inr ()"
    and "try_each 0 make_private_dir (rp_private_dirs plan) s = (s1, Inr ())"
    and "try_each 0 (apply_operation (rp_observed plan)) (rp_operations plan) s1 = (s2, Inr ())"
    and "os_unix s2 \<and> t = s2 \<or> \<not> os_unix s2 \<and> try_each 0 apply_registry (rp_registry plan) s2 = (t, Inr ())"
proof -
  show thesis
    using assms that
    by (auto simp: apply_tracked_def split: outcome_splits)
qed

lemma apply_tracked_stoppedE:
  assumes "apply_tracked plan s = (t, Inl (e, OperationStop i))"
  obtains s1 c where "check_observed s (rp_observed plan) = Inr ()"
    and "try_each 0 make_private_dir (rp_private_dirs plan) s = (s1, Inr ())"
    and "try_each 0 (apply_operation (rp_observed plan)) (rp_operations plan) s1 = (t, Inl (i, c, e))"
proof -
  show thesis
    using assms that
    by (auto simp: apply_tracked_def split: outcome_splits
        dest!: check_observed_stop check_registry_stop)
qed

lemma files_after_registry:
  "try_each i apply_registry ks s = (t, r) \<Longrightarrow> reg_frame s t"
  by (rule try_each_invariant [where I = "reg_frame s"])
    (auto dest: apply_registry_frame intro: reg_frame_trans)

lemma op_holds_frame: "op_holds c s \<Longrightarrow> reg_frame s t \<Longrightarrow> op_holds c t"
  by (simp add: op_holds_def reg_frame_def mode_within_def split: option.splits node.splits)

lemma key_ready_params: "key_ready k s \<Longrightarrow> same_params s t \<Longrightarrow> key_ready k t"
proof -
  assume ready: "key_ready k s" and same: "same_params s t"
  from same have "win_os.more s = win_os.more t" "os_hive t = os_hive s" "os_reg_refuses t = os_reg_refuses s"
    by (cases s; cases t; simp add: same_params_def os.defs)+
  with ready show ?thesis by (simp add: key_ready_def hive_values_def)
qed

lemma apply_tracked_completed_files:
  assumes "apply_tracked plan s = (t, Inr ())" and "plan_ok plan"
  shows "(\<forall>c \<in> set (rp_operations plan). op_holds c t)
    \<and> (\<forall>q. q \<notin> fc_path ` set (rp_operations plan) \<longrightarrow> same_node q (os_node s q) (os_node t q))"
proof -
  let ?obs = "rp_observed plan" and ?ops = "rp_operations plan"
  obtain s1 s2 where obs: "check_observed s ?obs = Inr ()"
    and dirs: "try_each 0 make_private_dir (rp_private_dirs plan) s = (s1, Inr ())"
    and files: "try_each 0 (apply_operation ?obs) ?ops s1 = (s2, Inr ())"
    and last: "os_unix s2 \<and> t = s2 \<or> \<not> os_unix s2 \<and> try_each 0 apply_registry (rp_registry plan) s2 = (t, Inr ())"
    using assms(1) by (rule apply_tracked_completedE)
  have ok: "om_wf ?obs" "distinct (map fc_path ?ops)"
    using assms(2) by (auto simp: plan_ok_def)
  have same1: "same_path q s s1" for q using dirs by (rule private_dirs_same)
  have same2: "same_path q s s2" if "q \<notin> fc_path ` set ?ops" for q
    using same1 file_steps.untouched [OF files that] by (rule same_path_trans)
  have frame: "reg_frame s2 t" using last files_after_registry by auto
  have "op_ready ?obs c s1" for c
    using observed_ready [OF obs ok(1)] same1 by (rule op_ready_same)
  then have "op_holds c t" if "c \<in> set ?ops" for c
    using file_steps.completed [OF files ok(2) _ that] frame by (auto intro: op_holds_frame)
  moreover have "same_node q (os_node s q) (os_node t q)" if "q \<notin> fc_path ` set ?ops" for q
    using same2 [OF that] frame by (simp add: same_path_def reg_frame_def)
  ultimately show ?thesis by blast
qed

lemma apply_tracked_completed_keys:
  assumes "apply_tracked plan s = (t, Inr ())" and "plan_ok plan" and "not_found_honest (os_reg_refuses s)"
    and "k \<in> set (rp_registry plan)" and "\<not> os_unix s"
  shows "key_holds k t"
proof -
  let ?obs = "rp_observed plan" and ?ops = "rp_operations plan" and ?ks = "rp_registry plan"
  obtain s1 s2 where reg: "os_unix s \<or> check_registry s ?ks = Inr ()"
    and dirs: "try_each 0 make_private_dir (rp_private_dirs plan) s = (s1, Inr ())"
    and files: "try_each 0 (apply_operation ?obs) ?ops s1 = (s2, Inr ())"
    and last: "os_unix s2 \<and> t = s2 \<or> \<not> os_unix s2 \<and> try_each 0 apply_registry ?ks s2 = (t, Inr ())"
    using assms(1) by (rule apply_tracked_completedE)
  have params: "same_params s s2"
    using private_dirs_same [OF dirs, of "[]"] try_each_invariant [OF _ files, of "same_params s"]
    by (auto simp: same_path_def dest!: apply_operation_params intro: same_params_trans)
  have "\<not> os_unix s2" using params assms(5) by (simp add: same_params_def)
  with last have run: "try_each 0 apply_registry ?ks s2 = (t, Inr ())" by auto
  have "\<forall>k \<in> set ?ks. key_ready k s2"
    using registry_ready [OF _ assms(3)] reg assms(5) params by (auto intro: key_ready_params)
  with run assms(2,4) show ?thesis by (auto simp: plan_ok_def intro: reg_effects.completed)
qed

text \<open>
  C6. A completed apply has put the whole plan into effect: every planned file holds the planned
  bytes and grants no permission beyond the planned mode, every file planned for removal is
  gone, every registry key holds the values that were observed with the planned changes, and
  whatever else existed in the file system is as it was.
\<close>

theorem apply_tracked_completes:
  assumes "apply_tracked plan s = (t, Inr ())" and "plan_ok plan"
    and "not_found_honest (os_reg_refuses s)"
  shows "(\<forall>c \<in> set (rp_operations plan). op_holds c t)
    \<and> (\<forall>k \<in> set (rp_registry plan). os_unix s \<or> key_holds k t)
    \<and> (\<forall>q. q \<notin> fc_path ` set (rp_operations plan) \<longrightarrow> same_node q (os_node s q) (os_node t q))"
  using apply_tracked_completed_files [OF assms(1,2)] apply_tracked_completed_keys [OF assms] by blast

definition demo_win :: win_os where
  "demo_win = os.extend demo_os \<lparr>os_hive = [], os_reg_refuses = (\<lambda>_. None)\<rparr>"

definition demo_write :: file_change where
  "demo_write = \<lparr>fc_path = [RootDir, Normal ''f''], fc_contents = Some ''x'', fc_permissions = 0x180\<rparr>"

definition demo_plan :: reconcile_plan where
  "demo_plan = empty_plan\<lparr>rp_observed := [([RootDir, Normal ''f''], None)], rp_operations := [demo_write]\<rparr>"

lemma demo_plan_completes: "snd (apply_tracked demo_plan demo_win) = Inr ()"
  by code_simp

lemma demo_plan_ok: "plan_ok demo_plan" "not_found_honest (os_reg_refuses demo_win)"
  by (simp_all add: plan_ok_def demo_plan_def empty_plan_def om_wf_def not_found_honest_def
      demo_win_def demo_write_def os.defs)

theorem apply_tracked_completes_witness:
  "\<exists>t. apply_tracked demo_plan demo_win = (t, Inr ()) \<and> op_holds demo_write t"
  using apply_tracked_completes [of demo_plan demo_win "fst (apply_tracked demo_plan demo_win)"]
    demo_plan_completes demo_plan_ok
  by (auto simp: prod_eq_iff demo_plan_def)

lemma apply_tracked_stopped_files:
  assumes "apply_tracked plan s = (t, Inl (e, OperationStop i))" and "plan_ok plan"
  shows "i < length (rp_operations plan)
    \<and> (\<forall>n < i. op_holds (rp_operations plan ! n) t)
    \<and> (\<forall>n < length (rp_operations plan). i \<le> n \<longrightarrow> same_path (fc_path (rp_operations plan ! n)) s t)
    \<and> (\<forall>q. q \<notin> fc_path ` set (rp_operations plan) \<longrightarrow> same_path q s t)"
proof -
  let ?obs = "rp_observed plan" and ?ops = "rp_operations plan"
  obtain s1 c where obs: "check_observed s ?obs = Inr ()"
    and dirs: "try_each 0 make_private_dir (rp_private_dirs plan) s = (s1, Inr ())"
    and files: "try_each 0 (apply_operation ?obs) ?ops s1 = (t, Inl (i, c, e))"
    using assms(1) by (rule apply_tracked_stoppedE)
  have ok: "om_wf ?obs" "distinct (map fc_path ?ops)"
    using assms(2) by (auto simp: plan_ok_def)
  have same1: "same_path q s s1" for q using dirs by (rule private_dirs_same)
  note index = try_each_index [OF files]
  have "op_ready ?obs d s1" for d
    using observed_ready [OF obs ok(1)] same1 by (rule op_ready_same)
  then have "op_holds (?ops ! n) t" if "n < i" for n
    using file_steps.in_effect [OF files ok(2)] that index by auto
  moreover have "same_path (fc_path (?ops ! n)) s t" if "n < length ?ops" "i \<le> n" for n
  proof -
    have "same_path (fc_path (?ops ! n)) s1 t"
      using file_steps.stopped_later_untouched [OF files ok(2), of n]
        file_atomic.stopped_at_untouched [OF files ok(2)] index that
      by (cases "n = i") auto
    with same1 show ?thesis by (rule same_path_trans)
  qed
  moreover have "same_path q s t" if "q \<notin> fc_path ` set ?ops" for q
    using same1 file_steps.untouched [OF files that] by (rule same_path_trans)
  ultimately show ?thesis using index by auto
qed

text \<open>
  C7. An apply that stops at a file operation says exactly how far it got: the operations before
  the reported index are in effect, the failed one and all later ones have not touched their
  files, and nothing outside the plan was changed.
\<close>

theorem apply_tracked_stops_between:
  assumes "apply_tracked plan s = (t, Inl (e, OperationStop i))" and "plan_ok plan"
  shows "i < length (rp_operations plan)
    \<and> (\<forall>n < i. op_holds (rp_operations plan ! n) t)
    \<and> (\<forall>n < length (rp_operations plan). i \<le> n \<longrightarrow> same_path (fc_path (rp_operations plan ! n)) s t)
    \<and> (\<forall>q. q \<notin> fc_path ` set (rp_operations plan) \<longrightarrow> same_path q s t)"
  using assms by (rule apply_tracked_stopped_files)

definition demo_blocked :: win_os where
  "demo_blocked = demo_win\<lparr>os_refuses := (\<lambda>call. case call of CreateDirAll p \<Rightarrow> Some (IoError OtherKind ''denied'')
     | _ \<Rightarrow> None)\<rparr>"

theorem apply_tracked_stops_between_witness:
  "\<exists>t e. apply_tracked demo_plan demo_blocked = (t, Inl (e, OperationStop 0))
    \<and> same_path [RootDir, Normal ''f''] demo_blocked t"
proof -
  let ?r = "apply_tracked demo_plan demo_blocked"
  have "snd ?r = Inl ([''create directory /'', ''denied''], OperationStop 0)"
    by code_simp
  then have run: "?r = (fst ?r, Inl ([''create directory /'', ''denied''], OperationStop 0))"
    by (simp add: prod_eq_iff)
  from apply_tracked_stops_between [OF run demo_plan_ok(1)]
  have "same_path [RootDir, Normal ''f''] demo_blocked (fst ?r)"
    by (auto simp: demo_plan_def demo_write_def)
  with run show ?thesis by blast
qed

text \<open>
  C8. An apply never acts on a stale or conflicting plan: if the plan records a conflict, or any
  file it was computed from is no longer what it was, the apply fails and the system is exactly
  as it was before.
\<close>

theorem apply_tracked_refuses_stale:
  assumes "has_conflicts plan \<or> (\<exists>(p, c) \<in> set (rp_observed plan). read_optional s p \<noteq> Inr c)"
  shows "\<exists>e stop. apply_tracked plan s = (s, Inl (e, stop))
    \<and> (stop = ConflictStop \<longleftrightarrow> has_conflicts plan)"
proof (cases "find (\<lambda>c. dc_action c = ''conflict'') (rep_changes (rp_report plan))")
  case None
  then have nc: "\<not> has_conflicts plan" by (auto simp: has_conflicts_def find_None_iff list_ex_iff)
  with assms have "check_observed s (rp_observed plan) \<noteq> Inr ()"
    by (auto simp: check_observed_ok)
  then obtain e stop where "check_observed s (rp_observed plan) = Inl (e, stop)"
    by (cases "check_observed s (rp_observed plan)") auto
  with None nc show ?thesis
    by (auto simp: apply_tracked_def dest: check_observed_stop)
next
  case (Some c)
  then have "has_conflicts plan" by (auto simp: has_conflicts_def list_ex_iff find_Some_iff)
  with Some show ?thesis by (simp add: apply_tracked_def)
qed

theorem apply_tracked_refuses_stale_witness:
  "\<exists>e stop. apply_tracked demo_plan (set_node [RootDir, Normal ''f''] (Some (File ''new'' 0)) demo_win)
     = (set_node [RootDir, Normal ''f''] (Some (File ''new'' 0)) demo_win, Inl (e, stop))"
  using apply_tracked_refuses_stale [of demo_plan "set_node [RootDir, Normal ''f''] (Some (File ''new'' 0)) demo_win"]
  by (auto simp: demo_plan_def empty_plan_def read_optional_def fs_read_def)

section \<open>Combining plans\<close>

lemma append_observed_result:
  assumes "append_observed obs other = (obs', r)" and "om_wf obs" and "distinct (map fst other)"
  shows "om_wf obs' \<and> (\<forall>p. om_get obs p \<noteq> None \<longrightarrow> om_get obs' p = om_get obs p)
    \<and> (case r of Inr _ \<Rightarrow> om_get obs' = om_get obs ++ om_get other
       | Inl (e, p) \<Rightarrow> om_get obs p \<noteq> None \<and> om_get other p \<noteq> None \<and> om_get obs p \<noteq> om_get other p)"
  using assms
proof (induction obs other rule: append_observed.induct)
  case (2 obs p expected rest)
  show ?case
  proof (cases "om_get obs p \<noteq> None \<and> om_get obs p \<noteq> Some expected")
    case True
    with 2(3,4) show ?thesis by (auto split: option.splits)
  next
    case False
    then have agree: "om_get obs p = None \<or> om_get obs p = Some expected" by auto
    with 2(3) have rec: "append_observed (om_insert p expected obs) rest = (obs', r)"
      by (auto split: if_splits)
    have fresh: "om_get rest p = None" using 2(5) by (simp add: map_of_eq_None_iff)
    have IH: "om_wf obs' \<and> (\<forall>q. om_get (om_insert p expected obs) q \<noteq> None \<longrightarrow> om_get obs' q = om_get (om_insert p expected obs) q)
      \<and> (case r of Inr _ \<Rightarrow> om_get obs' = om_get (om_insert p expected obs) ++ om_get rest
         | Inl (e, q) \<Rightarrow> om_get (om_insert p expected obs) q \<noteq> None \<and> om_get rest q \<noteq> None
             \<and> om_get (om_insert p expected obs) q \<noteq> om_get rest q)"
      using agree 2(1,2) rec 2(4,5) by auto
    have upd: "(om_get obs)(p \<mapsto> expected) ++ om_get rest = om_get obs ++ (om_get rest)(p \<mapsto> expected)"
      using fresh by (auto simp: map_add_def fun_eq_iff split: option.splits)
    have kept: "om_get obs' q = om_get obs q" if "om_get obs q \<noteq> None" for q
    proof -
      have "om_get (om_insert p expected obs) q = om_get obs q" using agree that by auto
      with IH that show ?thesis by metis
    qed
    show ?thesis
    proof (cases r)
      case (Inl e)
      with IH agree fresh kept show ?thesis by (auto split: if_splits)
    next
      case (Inr u)
      with IH upd kept show ?thesis by auto
    qed
  qed
qed auto

lemma append_operations_result:
  assumes "append_operations ops cs = (ops', r)" and "distinct (map fc_path ops)"
  shows "distinct (map fc_path ops') \<and>
    (case r of Inr _ \<Rightarrow> ops' = ops @ cs | Inl (e, p) \<Rightarrow> p \<in> fc_path ` set cs \<and> (\<exists>cs'. prefix cs' cs \<and> ops' = ops @ cs'))"
  using assms
proof (induction ops cs rule: append_operations.induct)
  case (2 ops c cs)
  show ?case
  proof (cases "list_ex (\<lambda>d. fc_path d = fc_path c) ops")
    case True
    with 2(2,3) show ?thesis by (auto intro: exI [of _ "[]"])
  next
    case False
    then have "fc_path c \<notin> fc_path ` set ops" by (auto simp: list_ex_iff)
    with False 2 have IH: "distinct (map fc_path ops') \<and>
        (case r of Inr _ \<Rightarrow> ops' = (ops @ [c]) @ cs
         | Inl (e, p) \<Rightarrow> p \<in> fc_path ` set cs \<and> (\<exists>cs'. prefix cs' cs \<and> ops' = (ops @ [c]) @ cs'))"
      by simp
    then have "distinct (map fc_path ops')" ..
    moreover have "case r of Inr _ \<Rightarrow> ops' = ops @ c # cs
        | Inl (e, p) \<Rightarrow> p \<in> fc_path ` set (c # cs) \<and> (\<exists>cs'. prefix cs' (c # cs) \<and> ops' = ops @ cs')"
      using IH [THEN conjunct2] by (cases r) (auto intro: exI [of _ "c # _"])
    ultimately show ?thesis ..
  qed
qed auto

lemma append_registry_result:
  assumes "append_registry ks rest = (ks', r)" and "distinct (map rkp_key ks)"
  shows "distinct (map rkp_key ks') \<and>
    (case r of Inr _ \<Rightarrow> ks' = ks @ rest | Inl (e, p) \<Rightarrow> p \<in> (\<lambda>k. display_path (rkp_key k)) ` set rest)"
  using assms
proof (induction ks rest rule: append_registry.induct)
  case (2 ks k rest)
  show ?case
  proof (cases "list_ex (\<lambda>d. rkp_key d = rkp_key k) ks")
    case True
    with 2(2,3) show ?thesis by auto
  next
    case False
    then have "rkp_key k \<notin> rkp_key ` set ks" by (auto simp: list_ex_iff)
    with False 2 show ?thesis by (auto split: sum.splits)
  qed
qed auto

text \<open>The part of \<^const>\<open>plan_ok\<close> that every single provider's plan has.\<close>

definition plan_snapshot :: "reconcile_plan \<Rightarrow> bool" where
  "plan_snapshot plan \<longleftrightarrow>
     om_wf (rp_observed plan)
     \<and> (\<forall>c \<in> set (rp_operations plan). om_get (rp_observed plan) (fc_path c) \<noteq> None)"

lemma append_attributed_ok:
  assumes "append_attributed plan other = (plan', Inr ())" and "plan_ok plan" and "plan_snapshot other"
  shows "plan_ok plan'
    \<and> rp_operations plan' = rp_operations plan @ rp_operations other
    \<and> rp_registry plan' = rp_registry plan @ rp_registry other
    \<and> rp_private_dirs plan' = rp_private_dirs plan @ rp_private_dirs other
    \<and> om_get (rp_observed plan') = om_get (rp_observed plan) ++ om_get (rp_observed other)
    \<and> (\<forall>p. om_get (rp_observed plan) p \<noteq> None \<longrightarrow> om_get (rp_observed plan') p = om_get (rp_observed plan) p)"
proof -
  obtain obs ops ks where obs: "append_observed (rp_observed plan) (rp_observed other) = (obs, Inr ())"
    and ops: "append_operations (rp_operations plan) (rp_operations other) = (ops, Inr ())"
    and ks: "append_registry (rp_registry plan) (rp_registry other) = (ks, Inr ())"
    and plan': "rp_observed plan' = obs" "rp_operations plan' = ops" "rp_registry plan' = ks"
      "rp_private_dirs plan' = rp_private_dirs plan @ rp_private_dirs other"
    using assms(1) by (auto simp: append_attributed_def Let_def split: prod.splits sum.splits)
  have pre: "om_wf (rp_observed plan)" "distinct (map fst (rp_observed other))"
      "distinct (map fc_path (rp_operations plan))" "distinct (map rkp_key (rp_registry plan))"
    using assms(2,3) by (auto simp: plan_ok_def plan_snapshot_def om_wf_distinct)
  have o: "om_wf obs" "om_get obs = om_get (rp_observed plan) ++ om_get (rp_observed other)"
      "\<forall>p. om_get (rp_observed plan) p \<noteq> None \<longrightarrow> om_get obs p = om_get (rp_observed plan) p"
    using append_observed_result [OF obs pre(1,2)] by auto
  note p1 = append_operations_result [OF ops pre(3), THEN conjunct1]
  have p2: "ops = rp_operations plan @ rp_operations other"
    using append_operations_result [OF ops pre(3)] by simp
  note k1 = append_registry_result [OF ks pre(4), THEN conjunct1]
  have k2: "ks = rp_registry plan @ rp_registry other"
    using append_registry_result [OF ks pre(4)] by simp
  have "om_get obs (fc_path c) \<noteq> None" if "c \<in> set ops" for c
    using assms(2,3) that o(2) p2 by (auto simp: plan_ok_def plan_snapshot_def map_add_def split: option.splits)
  then have "plan_ok plan'"
    unfolding plan_ok_def plan' using o(1) p1 k1 by blast
  with plan' o p2 k2 show ?thesis by simp
qed

end
