(* ===== verification/Planning.thy ===== *)
theory Planning
  imports Plan
begin

text \<open>
  The plans that planning can produce: everything a provider can do to a plan, as an inductive
  relation over the operations of \<^verbatim>\<open>reconcile/plan.rs\<close>, with the invariants that hold of every
  such plan and what they mean for applying it.
\<close>

inductive planned :: "win_os \<Rightarrow> reconcile_plan \<Rightarrow> bool" for s where
  planned_empty: "planned s empty_plan"
| planned_skipped: "planned s (skipped reason)"
| planned_read: "planned s plan \<Longrightarrow> plan_read s p plan = (plan', r) \<Longrightarrow> planned s plan'"
| planned_write: "planned s plan \<Longrightarrow> plan_write_file s p b m plan = (plan', r) \<Longrightarrow> planned s plan'"
| planned_remove: "planned s plan \<Longrightarrow> plan_remove_file s p plan = (plan', r) \<Longrightarrow> planned s plan'"
| planned_dir: "planned s plan \<Longrightarrow> planned s (plan_ensure_private_dir d plan)"
| planned_registry:
    "planned s plan \<Longrightarrow> read_values s (rkp_key k) = Inr (rkp_observed k) \<Longrightarrow> planned s (plan_registry_key k plan)"
| planned_record: "planned s plan \<Longrightarrow> planned s (plan_record s n d a p plan)"
| planned_record_diff: "planned s plan \<Longrightarrow> planned s (plan_record_diff n d a p before after plan)"
| planned_inactive: "planned s plan \<Longrightarrow> planned s (set_inactive reason plan)"
| planned_append:
    "planned s plan \<Longrightarrow> planned s other \<Longrightarrow> append_attributed plan other = (plan', Inr ()) \<Longrightarrow> planned s plan'"

text \<open>
  The \<^verbatim>\<open>?\<close> operator on a planning step: an error ends the planning with the plan as it is.
\<close>

definition plan_seq ::
  "reconcile_plan \<times> (anyhow + 'a) \<Rightarrow> ('a \<Rightarrow> reconcile_plan \<Rightarrow> reconcile_plan \<times> (anyhow + 'b))
   \<Rightarrow> reconcile_plan \<times> (anyhow + 'b)" where
  "plan_seq m k = (case m of (plan, Inl e) \<Rightarrow> (plan, Inl e) | (plan, Inr x) \<Rightarrow> k x plan)"

lemma plan_seq_simps [simp]:
  "plan_seq (plan, Inl e) k = (plan, Inl e)"
  "plan_seq (plan, Inr x) k = k x plan"
  by (simp_all add: plan_seq_def)

lemma plan_seq_planned [intro]:
  assumes "planned s (fst m)" and "\<And>x plan. planned s plan \<Longrightarrow> planned s (fst (k x plan))"
  shows "planned s (fst (plan_seq m k))"
  using assms by (cases m; cases "snd m") auto

lemma planned_fst [intro]:
  assumes "planned s plan"
  shows "planned s (fst (plan_read s p plan))" "planned s (fst (plan_write_file s p b mode plan))"
    "planned s (fst (plan_remove_file s p plan))"
  by (rule planned_read planned_write planned_remove, rule assms, rule prod.collapse [symmetric])+

lemma plan_seq_Inr:
  "plan_seq m k = (plan', Inr y) \<Longrightarrow> \<exists>plan x. m = (plan, Inr x) \<and> k x plan = (plan', Inr y)"
  by (cases m; cases "snd m") auto

section \<open>The snapshot is what the system holds\<close>

definition plan_fresh :: "win_os \<Rightarrow> reconcile_plan \<Rightarrow> bool" where
  "plan_fresh s plan \<longleftrightarrow>
     plan_snapshot plan
     \<and> (\<forall>p c. om_get (rp_observed plan) p = Some c \<longrightarrow> read_optional s p = Inr c)
     \<and> (\<forall>k \<in> set (rp_registry plan). read_values s (rkp_key k) = Inr (rkp_observed k))"

lemma plan_read_cases:
  assumes "plan_read s p plan = (plan', r)"
  shows "(plan' = plan \<or> (\<exists>c. om_get (rp_observed plan) p = None \<and> read_optional s p = Inr c
      \<and> plan' = plan\<lparr>rp_observed := om_insert p c (rp_observed plan)\<rparr>))
    \<and> (case r of Inl e \<Rightarrow> kind e = NotFound \<longrightarrow> om_get (rp_observed plan') p = Some None
       | Inr b \<Rightarrow> om_get (rp_observed plan') p = Some (Some b))"
  using assms
  by (auto simp: plan_read_def Let_def read_optional_def split: option.splits sum.splits if_splits)

lemma plan_fresh_read: "plan_fresh s plan \<Longrightarrow> plan_read s p plan = (plan', r) \<Longrightarrow> plan_fresh s plan'"
  by (drule plan_read_cases) (auto simp: plan_fresh_def plan_snapshot_def split: if_splits)

lemma plan_fresh_push:
  "plan_fresh s plan \<Longrightarrow> om_get (rp_observed plan) (fc_path c) \<noteq> None \<Longrightarrow> plan_fresh s (push_operation c plan)"
  by (auto simp: plan_fresh_def plan_snapshot_def push_operation_def)

lemma plan_fresh_write:
  assumes "plan_fresh s plan" and "plan_write_file s p b m plan = (plan', r)"
  shows "plan_fresh s plan'"
proof -
  obtain plan1 r1 where rd: "plan_read s p plan = (plan1, r1)" by force
  with assms(1) have "plan_fresh s plan1" by (rule plan_fresh_read)
  with assms(2) rd plan_read_cases [OF rd] show ?thesis
    by (auto simp: plan_write_file_def Let_def intro!: plan_fresh_push split: sum.splits if_splits)
qed

lemma plan_fresh_remove:
  assumes "plan_fresh s plan" and "plan_remove_file s p plan = (plan', r)"
  shows "plan_fresh s plan'"
proof -
  obtain plan1 r1 where rd: "plan_read s p plan = (plan1, r1)" by force
  with assms(1) have "plan_fresh s plan1" by (rule plan_fresh_read)
  with assms(2) rd plan_read_cases [OF rd] show ?thesis
    by (auto simp: plan_remove_file_def intro!: plan_fresh_push split: sum.splits)
qed

lemma plan_fresh_report [simp]:
  "plan_fresh s (plan\<lparr>rp_report := rep\<rparr>) \<longleftrightarrow> plan_fresh s plan"
  "plan_fresh s (plan\<lparr>rp_inactive := i\<rparr>) \<longleftrightarrow> plan_fresh s plan"
  "plan_fresh s (plan\<lparr>rp_private_dirs := ds\<rparr>) \<longleftrightarrow> plan_fresh s plan"
  by (simp_all add: plan_fresh_def plan_snapshot_def)

lemma plan_fresh_record:
  assumes "plan_fresh s plan"
  shows "plan_fresh s (plan_record s n d a p plan)"
proof -
  obtain plan1 r where rd: "plan_read s p plan = (plan1, r)" by force
  from plan_fresh_read [OF assms rd] assms rd show ?thesis
    by (auto simp: plan_record_def plan_record_diff_def split: sum.splits)
qed

lemma append_operations_ok: "append_operations ops cs = (ops', Inr ()) \<Longrightarrow> ops' = ops @ cs"
  by (induction ops cs rule: append_operations.induct) (auto split: if_splits)

lemma append_registry_ok: "append_registry ks rest = (ks', Inr ()) \<Longrightarrow> ks' = ks @ rest"
  by (induction ks rest rule: append_registry.induct) (auto split: if_splits)

lemma plan_fresh_append:
  assumes "plan_fresh s plan" and "plan_fresh s other" and "append_attributed plan other = (plan', Inr ())"
  shows "plan_fresh s plan'"
proof -
  obtain obs where obs: "append_observed (rp_observed plan) (rp_observed other) = (obs, Inr ())"
    and plan': "rp_observed plan' = obs" "rp_operations plan' = rp_operations plan @ rp_operations other"
      "rp_registry plan' = rp_registry plan @ rp_registry other"
    using assms(3)
    by (auto simp: append_attributed_def Let_def dest!: append_operations_ok append_registry_ok
        split: prod.splits sum.splits)
  have "om_wf obs \<and> om_get obs = om_get (rp_observed plan) ++ om_get (rp_observed other)"
    using append_observed_result [OF obs] assms(1,2)
    by (simp add: plan_fresh_def plan_snapshot_def om_wf_distinct)
  with assms(1,2) show ?thesis
    unfolding plan_fresh_def plan_snapshot_def plan'
    by (auto simp: map_add_Some_iff)
qed

lemma planned_fresh: "planned s plan \<Longrightarrow> plan_fresh s plan"
proof (induction rule: planned.induct)
  case planned_empty
  show ?case by (simp add: plan_fresh_def plan_snapshot_def empty_plan_def)
next
  case (planned_skipped reason)
  show ?case by (simp add: plan_fresh_def plan_snapshot_def empty_plan_def skipped_def set_inactive_def)
next
  case (planned_registry plan k)
  then show ?case by (auto simp: plan_fresh_def plan_snapshot_def plan_registry_key_def)
qed (auto simp: plan_ensure_private_dir_def plan_record_diff_def set_inactive_def
    intro: plan_fresh_read plan_fresh_write plan_fresh_remove plan_fresh_record plan_fresh_append)

lemma plan_fresh_checks:
  assumes "plan_fresh s plan"
  shows "check_observed s (rp_observed plan) = Inr ()" and "check_registry s (rp_registry plan) = Inr ()"
  using assms by (auto simp: check_observed_ok check_registry_ok plan_fresh_def plan_snapshot_def om_get_in_set)

text \<open>
  A plan that is applied in the state it was made from is never refused as stale: with no
  conflict recorded, an apply that stops has stopped at a private directory, a file operation or
  a registry key.
\<close>

lemma fresh_plan_is_not_stale:
  assumes "planned s plan" and "\<not> has_conflicts plan" and "apply_tracked plan s = (t, Inl (e, stop))"
  shows "stop \<noteq> ConflictStop \<and> (\<forall>p. stop \<noteq> ObservedStop p)"
proof -
  note checks = plan_fresh_checks [OF planned_fresh [OF assms(1)]]
  have "find (\<lambda>c. dc_action c = ''conflict'') (rep_changes (rp_report plan)) = None"
    using assms(2) by (auto simp: find_None_iff has_conflicts_def list_ex_iff)
  with assms(3) checks show ?thesis
    by (auto simp: apply_tracked_def split: prod.splits sum.splits if_splits)
qed

text \<open>
  Combining the plans of two providers made from the same state either gives one plan that
  carries both providers' changes, in order, with one change per file and per registry key, or
  fails because both change the same file or key, which the error names; the two snapshots never
  disagree.
\<close>

lemma append_attributed_combines:
  assumes "planned s plan" and "plan_ok plan" and "planned s other"
    and "append_attributed plan other = (plan', r)"
  shows "case r of
      Inr _ \<Rightarrow> plan_ok plan' \<and> rp_operations plan' = rp_operations plan @ rp_operations other
        \<and> rp_registry plan' = rp_registry plan @ rp_registry other
    | Inl (e, p) \<Rightarrow> p \<in> fc_path ` set (rp_operations other)
        \<or> p \<in> (\<lambda>k. display_path (rkp_key k)) ` set (rp_registry other)"
proof (cases r)
  case (Inr u)
  with assms append_attributed_ok [of plan other plan'] show ?thesis
    by (auto dest!: planned_fresh simp: plan_fresh_def)
next
  case (Inl ep)
  obtain e p where ep: "ep = (e, p)" by force
  have fresh: "plan_fresh s plan" "plan_fresh s other" using assms(1,3) by (auto dest: planned_fresh)
  have pre: "om_wf (rp_observed plan)" "distinct (map fst (rp_observed other))"
    using fresh by (auto simp: plan_fresh_def plan_snapshot_def om_wf_distinct)
  have agree: "om_get (rp_observed plan) q = om_get (rp_observed other) q"
    if "om_get (rp_observed plan) q \<noteq> None" "om_get (rp_observed other) q \<noteq> None" for q
    using fresh that by (force simp: plan_fresh_def)
  consider obs where "append_observed (rp_observed plan) (rp_observed other) = (obs, Inl ep)"
    | ops where "append_operations (rp_operations plan) (rp_operations other) = (ops, Inl ep)"
    | ks where "append_registry (rp_registry plan) (rp_registry other) = (ks, Inl ep)"
    using assms(4) Inl by (auto simp: append_attributed_def Let_def split: prod.splits sum.splits)
  then show ?thesis
  proof cases
    case 1
    from append_observed_result [OF this pre] ep agree show ?thesis by auto
  next
    case 2
    with append_operations_result [OF this] assms(2) ep Inl show ?thesis by (simp add: plan_ok_def)
  next
    case 3
    with append_registry_result [OF this] assms(2) ep Inl show ?thesis by (simp add: plan_ok_def)
  qed
qed

section \<open>Applying again\<close>

lemma in_place_skipped:
  assumes "op_holds c s" and "fc_contents c = Some b" and "om_get obs (fc_path c) = Some (Some b)"
  shows "apply_operation obs c s = (s, Inr ())"
  using assms
  by (auto simp: apply_operation_def already_in_place_def op_holds_def fs_exists_def grants_beyond_def
      mode_within_def split: option.splits node.splits)

lemma in_place_run:
  "(\<And>c. c \<in> set cs \<Longrightarrow> step c s = (s, Inr ())) \<Longrightarrow> try_each i step cs s = (s, Inr ())"
  by (induction cs arbitrary: i) auto

lemma in_place_plan:
  assumes "planned t plan" and "\<forall>c \<in> set (rp_operations plan). op_holds c t \<and> fc_contents c \<noteq> None"
    and "rp_private_dirs plan = []" and "rp_registry plan = []" and "\<not> has_conflicts plan"
  shows "apply_tracked plan t = (t, Inr ())"
proof -
  let ?obs = "rp_observed plan"
  have fresh: "plan_fresh t plan" using assms(1) by (rule planned_fresh)
  have "apply_operation ?obs c t = (t, Inr ())" if c: "c \<in> set (rp_operations plan)" for c
  proof -
    have own: "op_holds c t" using assms(2) c by simp
    obtain b where b: "fc_contents c = Some b" using assms(2) c by auto
    with own obtain m where "os_node t (fc_path c) = Some (File b m)"
      by (auto simp: op_holds_def split: option.splits node.splits)
    then have "read_optional t (fc_path c) = Inr (Some b)"
      by (simp add: read_optional_def fs_read_def)
    moreover from fresh c obtain x where "om_get ?obs (fc_path c) = Some x" "read_optional t (fc_path c) = Inr x"
      by (auto simp: plan_fresh_def plan_snapshot_def)
    ultimately show ?thesis using own b by (simp add: in_place_skipped)
  qed
  then have "try_each 0 (apply_operation ?obs) (rp_operations plan) t = (t, Inr ())"
    by (rule in_place_run)
  moreover have "find (\<lambda>c. dc_action c = ''conflict'') (rep_changes (rp_report plan)) = None"
    using assms(5) by (auto simp: find_None_iff has_conflicts_def list_ex_iff)
  ultimately show ?thesis
    using plan_fresh_checks [OF fresh] assms(3,4) by (simp add: apply_tracked_def)
qed

text \<open>
  C9. Reconciliation settles: once a plan of file writes has been applied, planning the same
  writes again and applying them changes nothing at all, not even a rewrite of a file.
\<close>

theorem reapply_changes_nothing:
  assumes "apply_tracked plan s = (t, Inr ())" and "plan_ok plan"
    and "planned t again" and "rp_operations again = rp_operations plan"
    and "\<forall>c \<in> set (rp_operations plan). fc_contents c \<noteq> None"
    and "rp_private_dirs again = []" and "rp_registry again = []" and "\<not> has_conflicts again"
  shows "apply_tracked again t = (t, Inr ())"
  using assms apply_tracked_completed_files [OF assms(1,2)] by (intro in_place_plan) auto

theorem reapply_changes_nothing_witness:
  "\<exists>t again. apply_tracked demo_plan demo_win = (t, Inr ()) \<and> rp_operations again = [demo_write]
    \<and> apply_tracked again t = (t, Inr ())"
proof -
  let ?t = "fst (apply_tracked demo_plan demo_win)"
  let ?again = "fst (plan_write_file ?t [RootDir, Normal ''f''] ''x'' 0x180 empty_plan)"
  have run: "apply_tracked demo_plan demo_win = (?t, Inr ())"
    using demo_plan_completes by (simp add: prod_eq_iff)
  have planned: "planned ?t ?again"
    by (rule planned_write [OF planned_empty prod.collapse [symmetric]])
  have ops: "rp_operations demo_plan = [demo_write]"
    by (simp add: demo_plan_def)
  have again: "rp_operations ?again = [demo_write]" by code_simp
  have rest: "rp_private_dirs ?again = [] \<and> rp_registry ?again = [] \<and> \<not> has_conflicts ?again"
    by code_simp
  have "apply_tracked ?again ?t = (?t, Inr ())"
    using reapply_changes_nothing [OF run demo_plan_ok(1) planned] ops again rest
    by (simp add: demo_write_def)
  with run again show ?thesis by blast
qed

section \<open>Private directories\<close>

lemma ensure_private_dir_mode:
  assumes "ensure_private_dir s d = (t, Inr ())" and "os_unix s"
  shows "os_node t d = Some (Directory 0x1C0)"
proof -
  obtain s1 r1 where c: "fs_create_dir_all s d = (s1, r1)" by force
  have "os_unix s1" using create_dir_all_same [OF c, of d] assms(2) by (simp add: same_path_def same_params_def)
  with assms(1) c show ?thesis
    by (auto simp: ensure_private_dir_def is_dir_cases split: sum.splits option.splits if_splits)
qed

lemma make_private_dir_elsewhere:
  assumes "make_private_dir d' s = (t, r)" and "\<not> prefix d d'"
  shows "os_node t d = os_node s d"
proof -
  have "d \<notin> set (ancestors d')" using assms(2) by (simp add: ancestors_def)
  moreover have "d \<noteq> d'" using assms(2) by auto
  ultimately show ?thesis
    using assms(1)
    by (auto simp: make_private_dir_def ensure_private_dir_def fs_create_dir_all_def
        split: if_splits option.splits)
qed

lemma private_dirs_owner_only:
  assumes "try_each i make_private_dir ds s = (t, Inr ())" and "os_unix s" and "d \<in> set ds"
    and "os_node s d = None" and "\<forall>d' \<in> set ds. prefix d d' \<longrightarrow> d' = d"
  shows "os_node t d = Some (Directory 0x1C0)"
  using assms
proof (induction ds arbitrary: i s)
  case (Cons d' ds)
  obtain s1 r where st: "make_private_dir d' s = (s1, r)" by force
  with Cons.prems(1) have r: "r = Inr ()" and run: "try_each (Suc i) make_private_dir ds s1 = (t, Inr ())"
    by (auto split: sum.splits)
  have unix: "os_unix s1"
    using make_private_dir_same [OF st, of d] Cons.prems(2) by (simp add: same_path_def same_params_def)
  show ?case
  proof (cases "d' = d")
    case True
    with st r Cons.prems(2,4) have "os_node s1 d = Some (Directory 0x1C0)"
      by (auto simp: make_private_dir_def fs_exists_def intro: ensure_private_dir_mode)
    with private_dirs_same [OF run] show ?thesis by (rule same_path_Some)
  next
    case False
    with Cons.prems have "d \<in> set ds" "\<not> prefix d d'" by auto
    with make_private_dir_elsewhere [OF st] unix Cons.prems(4,5) show ?thesis
      by (intro Cons.IH [OF run]) auto
  qed
qed simp

text \<open>
  A directory that a plan asks to be private and that does not exist yet is created with
  mode 0700 by a completed apply on Unix, whatever the umask, unless it is itself on the way to
  another private directory of the plan.
\<close>

lemma private_dir_is_owner_only:
  assumes "apply_tracked plan s = (t, Inr ())" and "os_unix s" and "d \<in> set (rp_private_dirs plan)"
    and "os_node s d = None" and "\<forall>d' \<in> set (rp_private_dirs plan). prefix d d' \<longrightarrow> d' = d"
    and "d \<notin> fc_path ` set (rp_operations plan)"
  shows "os_node t d = Some (Directory 0x1C0)"
proof -
  obtain s1 s2 where dirs: "try_each 0 make_private_dir (rp_private_dirs plan) s = (s1, Inr ())"
    and files: "try_each 0 (apply_operation (rp_observed plan)) (rp_operations plan) s1 = (s2, Inr ())"
    and last: "os_unix s2 \<and> t = s2 \<or> \<not> os_unix s2 \<and> try_each 0 apply_registry (rp_registry plan) s2 = (t, Inr ())"
    using assms(1) by (rule apply_tracked_completedE)
  have "os_node s1 d = Some (Directory 0x1C0)"
    using dirs assms(2-5) by (rule private_dirs_owner_only)
  with file_steps.untouched [OF files assms(6)] have "os_node s2 d = Some (Directory 0x1C0)"
    by (rule same_path_Some)
  with last show ?thesis by (auto dest: files_after_registry simp: reg_frame_def)
qed

end
