(* ===== verification/Reconcile.thy ===== *)
theory Reconcile
  imports Config Planning
begin

text \<open>
  The reconciler (\<^verbatim>\<open>reconcile/mod.rs\<close>): the device user's program choice, planning every provider
  with per-program attribution, applying the combined plan, and the report of what became of each
  program. The providers are a field of the reconciler, as in the code; a provider's plan is a
  function of the context, the configuration and the state of the system it reads.
\<close>

section \<open>The program choice\<close>

text \<open>The set of selected programs is kept as a list in order, as a \<^verbatim>\<open>BTreeSet\<close> iterates.\<close>

datatype program_choice = AllPrograms | NoPrograms | Selected "string list"

fun choice_includes :: "program_choice \<Rightarrow> string \<Rightarrow> bool" where
  "choice_includes AllPrograms program = True"
| "choice_includes NoPrograms program = False"
| "choice_includes (Selected programs) program = (program \<in> set programs)"

definition managed_programs :: "string list" where
  "managed_programs =
     [''claude-code'', ''claude-desktop'', ''codex'', ''opencode'', ''grok'', ''copilot'', ''vscode'', ''pi'']"

definition leave_out :: "'a option \<Rightarrow> string \<Rightarrow> program_choice \<Rightarrow> string list \<Rightarrow> 'a option \<times> string list" where
  "leave_out program mid choice opted_out =
     (if program \<noteq> None \<and> \<not> choice_includes choice mid then (None, opted_out @ [mid]) else (program, opted_out))"

definition apply_program_choice :: "daemon_config \<Rightarrow> program_choice \<Rightarrow> daemon_config \<times> string list" where
  "apply_program_choice config choice =
     (if \<not> allow_user_choice (dc_program_selection config) \<or> choice = AllPrograms then (config, [])
      else
        (let p = dc_programs config;
             (claude_code, o1) = leave_out (pg_claude_code p) ''claude-code'' choice [];
             (claude_desktop, o2) = leave_out (pg_claude_desktop p) ''claude-desktop'' choice o1;
             (codex, o3) = leave_out (pg_codex p) ''codex'' choice o2;
             (open_code, o4) = leave_out (pg_open_code p) ''opencode'' choice o3;
             (grok, o5) = leave_out (pg_grok p) ''grok'' choice o4;
             (copilot, o6) = leave_out (pg_copilot p) ''copilot'' choice o5;
             (vscode, o7) = leave_out (pg_vscode p) ''vscode'' choice o6;
             (pi, o8) = leave_out (pg_pi p) ''pi'' choice o7
         in (config\<lparr>dc_programs :=
               \<lparr>pg_claude_code = claude_code, pg_claude_desktop = claude_desktop, pg_codex = codex,
                pg_open_code = open_code, pg_grok = grok, pg_copilot = copilot, pg_vscode = vscode, pg_pi = pi\<rparr>\<rparr>,
             o8)))"

definition programs_use_llm_gateway :: "programs_config \<Rightarrow> bool" where
  "programs_use_llm_gateway p =
     list_ex (\<lambda>uses. uses = Some True)
      [map_option ccc_use_llm_gateway (pg_claude_code p), map_option cdc_use_llm_gateway (pg_claude_desktop p),
       map_option cx_use_llm_gateway (pg_codex p), map_option oc_use_llm_gateway (pg_open_code p),
       map_option gk_use_llm_gateway (pg_grok p), map_option cp_use_llm_gateway (pg_copilot p),
       map_option vs_use_llm_gateway (pg_vscode p), map_option pi_use_llm_gateway (pg_pi p)]"

definition configured_programs :: "programs_config \<Rightarrow> string list" where
  "configured_programs p =
     map snd (filter fst
      [(pg_claude_code p \<noteq> None, ''claude-code''), (pg_claude_desktop p \<noteq> None, ''claude-desktop''),
       (pg_codex p \<noteq> None, ''codex''), (pg_open_code p \<noteq> None, ''opencode''),
       (pg_grok p \<noteq> None, ''grok''), (pg_copilot p \<noteq> None, ''copilot''),
       (pg_vscode p \<noteq> None, ''vscode''), (pg_pi p \<noteq> None, ''pi'')])"

section \<open>The reconciler\<close>

record llm_proxy_context =
  px_address :: socket_addr
  px_pairing :: string

record reconcile_context =
  rc_merge_user_settings :: bool
  rc_user_mode :: bool
  rc_credential_helper :: path
  rc_socket :: path
  rc_llm_proxy :: "llm_proxy_context option"

record provider =
  pv_id :: string
  pv_plan :: "reconcile_context \<Rightarrow> daemon_config \<Rightarrow> win_os \<Rightarrow> anyhow + reconcile_plan"

datatype program_state = Applied | Unchanged | Removed | Conflict | Inactive | Blocked | OptedOut | Failed

fun program_state_str :: "program_state \<Rightarrow> string" where
  "program_state_str Applied = ''applied''"
| "program_state_str Unchanged = ''unchanged''"
| "program_state_str Removed = ''removed''"
| "program_state_str Conflict = ''conflict''"
| "program_state_str Inactive = ''inactive''"
| "program_state_str Blocked = ''blocked''"
| "program_state_str OptedOut = ''opted_out''"
| "program_state_str Failed = ''failed''"

record program_outcome =
  po_program :: string
  po_state :: program_state
  po_detail :: string

record apply_report =
  ar_programs :: "program_outcome list"
  ar_sequence :: "64 word"

record reconciler =
  re_context :: reconcile_context
  re_providers :: "provider list"
  re_last_apply :: "apply_report option"
  re_choice :: program_choice

definition with_llm_proxy :: "llm_proxy_context option \<Rightarrow> reconciler \<Rightarrow> reconciler" where
  "with_llm_proxy proxy r = r\<lparr>re_context := (re_context r)\<lparr>rc_llm_proxy := proxy\<rparr>\<rparr>"

definition set_program_choice :: "program_choice \<Rightarrow> reconciler \<Rightarrow> reconciler" where
  "set_program_choice choice r = r\<lparr>re_choice := choice\<rparr>"

definition gateway_sign_in_wanted :: "reconciler \<Rightarrow> daemon_config \<Rightarrow> bool" where
  "gateway_sign_in_wanted r config =
     (if rc_llm_proxy (re_context r) \<noteq> None \<or> \<not> programs_use_llm_gateway (dc_programs config) then True
      else programs_use_llm_gateway (dc_programs (fst (apply_program_choice config (re_choice r)))))"

text \<open>\<^verbatim>\<open>Reconciler::plan\<close>: the first provider that fails, or disagrees with the others, ends it.\<close>

fun plan_providers ::
  "reconcile_context \<Rightarrow> daemon_config \<Rightarrow> win_os \<Rightarrow> provider list \<Rightarrow> reconcile_plan \<Rightarrow> anyhow + reconcile_plan" where
  "plan_providers ctx config s [] plan = Inr plan"
| "plan_providers ctx config s (pv # rest) plan =
     (case pv_plan pv ctx config s of
        Inl e \<Rightarrow> Inl e
      | Inr own \<Rightarrow>
          (case append_attributed plan own of
             (plan', Inl (e, p)) \<Rightarrow> Inl e
           | (plan', Inr _) \<Rightarrow> plan_providers ctx config s rest plan'))"

definition reconciler_plan :: "reconciler \<Rightarrow> daemon_config \<Rightarrow> win_os \<Rightarrow> anyhow + reconcile_plan" where
  "reconciler_plan r config s =
     plan_providers (re_context r) (fst (apply_program_choice config (re_choice r))) s (re_providers r) empty_plan"

section \<open>Planning with a report\<close>

record program_entry =
  pe_program :: string
  pe_configured :: bool
  pe_opted_out :: bool
  pe_failed :: "string option"
  pe_changes :: bool
  pe_conflicts :: "string list"
  pe_inactive :: "string option"
  pe_paths :: "path list"
  pe_operations :: "nat \<times> nat"
  pe_registry_operations :: "nat \<times> nat"

record attributed_plan =
  ap_plan :: reconcile_plan
  ap_entries :: "program_entry list"
  ap_first_error :: "anyhow option"

text \<open>\<^verbatim>\<open>Option::get_or_insert\<close>, as the option is left.\<close>

definition get_or_insert :: "'a \<Rightarrow> 'a option \<Rightarrow> 'a option" where
  "get_or_insert x slot = (case slot of None \<Rightarrow> Some x | Some y \<Rightarrow> Some y)"

definition new_entry :: "string \<Rightarrow> string list \<Rightarrow> string list \<Rightarrow> program_entry" where
  "new_entry program configured opted_out =
     \<lparr>pe_program = program, pe_configured = program \<in> set configured, pe_opted_out = program \<in> set opted_out,
      pe_failed = None, pe_changes = False, pe_conflicts = [], pe_inactive = None, pe_paths = [],
      pe_operations = (0, 0), pe_registry_operations = (0, 0)\<rparr>"

definition describe_entry :: "plan_summary \<Rightarrow> program_entry \<Rightarrow> program_entry" where
  "describe_entry summary entry =
     entry\<lparr>pe_changes := ps_changes summary, pe_conflicts := ps_conflicts summary,
           pe_inactive := ps_inactive summary, pe_paths := ps_paths summary\<rparr>"

text \<open>Both programs of a disagreement fail.\<close>

definition fail_sharing :: "path \<Rightarrow> string \<Rightarrow> program_entry \<Rightarrow> program_entry" where
  "fail_sharing p message other =
     (if p \<in> set (pe_paths other) then other\<lparr>pe_failed := get_or_insert message (pe_failed other)\<rparr> else other)"

definition plan_provider ::
  "reconcile_context \<Rightarrow> daemon_config \<Rightarrow> string list \<Rightarrow> win_os \<Rightarrow> provider \<Rightarrow> attributed_plan \<Rightarrow> attributed_plan" where
  "plan_provider ctx config opted_out s pv ap =
     (let entry = new_entry (pv_id pv) (configured_programs (dc_programs config)) opted_out
      in case pv_plan pv ctx config s of
        Inl error \<Rightarrow>
          ap\<lparr>ap_entries := ap_entries ap @ [entry\<lparr>pe_failed := Some (chain_message error)\<rparr>],
             ap_first_error := get_or_insert error (ap_first_error ap)\<rparr>
      | Inr own \<Rightarrow>
          (let entry = describe_entry (plan_summary_of own) entry;
               start = length (rp_operations (ap_plan ap));
               registry_start = length (rp_registry (ap_plan ap));
               (plan, appended) = append_attributed (ap_plan ap) own;
               entry = entry\<lparr>pe_operations := (start, length (rp_operations plan)),
                             pe_registry_operations := (registry_start, length (rp_registry plan))\<rparr>
           in case appended of
             Inl (error, p) \<Rightarrow>
               \<lparr>ap_plan = plan,
                ap_entries = map (fail_sharing p (chain_message error)) (ap_entries ap)
                  @ [entry\<lparr>pe_failed := Some (chain_message error)\<rparr>],
                ap_first_error = get_or_insert error (ap_first_error ap)\<rparr>
           | Inr _ \<Rightarrow>
               \<lparr>ap_plan = plan, ap_entries = ap_entries ap @ [entry], ap_first_error = ap_first_error ap\<rparr>))"

definition empty_attributed :: attributed_plan where
  "empty_attributed = \<lparr>ap_plan = empty_plan, ap_entries = [], ap_first_error = None\<rparr>"

definition plan_with_report :: "reconciler \<Rightarrow> daemon_config \<Rightarrow> win_os \<Rightarrow> attributed_plan" where
  "plan_with_report r config s =
     (let (chosen, opted_out) = apply_program_choice config (re_choice r)
      in fold (plan_provider (re_context r) chosen opted_out s) (re_providers r) empty_attributed)"

section \<open>Applying with a report\<close>

definition detail_limit :: nat where
  "detail_limit = 1024"

text \<open>The loop that steps back to a character boundary; offset 0 is one.\<close>

fun boundary_at_or_before :: "string \<Rightarrow> nat \<Rightarrow> nat" where
  "boundary_at_or_before detail 0 = 0"
| "boundary_at_or_before detail (Suc n) =
     (if is_char_boundary detail (Suc n) then Suc n else boundary_at_or_before detail n)"

definition truncate_detail :: "string \<Rightarrow> string" where
  "truncate_detail detail =
     (if length detail > detail_limit then take (boundary_at_or_before detail detail_limit) detail else detail)"

definition program_result :: "string \<Rightarrow> program_state \<Rightarrow> string \<Rightarrow> program_outcome" where
  "program_result program state detail =
     \<lparr>po_program = program, po_state = state, po_detail = truncate_detail detail\<rparr>"

definition settled :: "program_entry \<Rightarrow> bool \<Rightarrow> string \<Rightarrow> (program_state \<times> string) option" where
  "settled entry written blocked_by =
     (if pe_changes entry \<and> \<not> written then Some (Blocked, ''not applied: '' @ blocked_by)
      else case pe_inactive entry of
        Some reason \<Rightarrow> Some (Inactive, reason)
      | None \<Rightarrow>
          if pe_opted_out entry then Some (OptedOut, [])
          else if pe_changes entry then Some (if pe_configured entry then Applied else Removed, [])
          else if pe_configured entry then Some (Unchanged, [])
          else None)"

datatype stop = Completed | BeforeWrites | StopFailed "string list" string nat nat

definition in_range :: "nat \<Rightarrow> nat \<times> nat \<Rightarrow> bool" where
  "in_range i r \<longleftrightarrow> fst r \<le> i \<and> i < snd r"

fun owns_stop :: "apply_stop \<Rightarrow> program_entry \<Rightarrow> bool" where
  "owns_stop ConflictStop entry = False"
| "owns_stop (ObservedStop p) entry = (p \<in> set (pe_paths entry))"
| "owns_stop (RegistryStop i p) entry = (p \<in> set (pe_paths entry))"
| "owns_stop (PrivateDirStop d) entry = list_ex (prefix d) (pe_paths entry)"
| "owns_stop (OperationStop i) entry = in_range i (pe_operations entry)"

definition owners_of :: "program_entry list \<Rightarrow> apply_stop \<Rightarrow> string list" where
  "owners_of entries place = map pe_program (filter (owns_stop place) entries)"

definition usize_max :: nat where
  "usize_max = 2 ^ 64 - 1"

fun written_before :: "apply_stop \<Rightarrow> nat \<times> nat" where
  "written_before (OperationStop i) = (i, 0)"
| "written_before (RegistryStop i p) = (usize_max, i)"
| "written_before _ = (0, 0)"

definition run_attributed :: "attributed_plan \<Rightarrow> win_os \<Rightarrow> win_os \<times> (anyhow + unit) \<times> stop" where
  "run_attributed ap s =
     (case ap_first_error ap of
        Some error \<Rightarrow> (s, Inl error, BeforeWrites)
      | None \<Rightarrow>
          if list_ex (\<lambda>entry. pe_conflicts entry \<noteq> []) (ap_entries ap)
          then (case apply_plan (ap_plan ap) s of (s', result) \<Rightarrow> (s', result, BeforeWrites))
          else
            (case apply_tracked (ap_plan ap) s of
               (s', Inr _) \<Rightarrow> (s', Inr (), Completed)
             | (s', Inl (error, place)) \<Rightarrow>
                 (s', Inl error,
                  StopFailed (owners_of (ap_entries ap) place) (chain_message error)
                    (fst (written_before place)) (snd (written_before place)))))"

fun failed_during :: "stop \<Rightarrow> string \<Rightarrow> bool" where
  "failed_during (StopFailed owners detail files keys) program = (program \<in> set owners)"
| "failed_during _ program = False"

definition stopped_by :: "stop \<Rightarrow> program_entry \<Rightarrow> string option" where
  "stopped_by stop entry =
     (if pe_failed entry \<noteq> None \<or> failed_during stop (pe_program entry)
      then Some (pe_program entry @ '' failed'')
      else if pe_conflicts entry \<noteq> [] then Some (pe_program entry @ '' conflicted'')
      else None)"

definition blocked_by :: "stop \<Rightarrow> program_entry list \<Rightarrow> string" where
  "blocked_by stop entries = (case find_map (stopped_by stop) entries of None \<Rightarrow> [] | Some message \<Rightarrow> message)"

fun entry_written :: "stop \<Rightarrow> program_entry \<Rightarrow> bool" where
  "entry_written Completed entry = True"
| "entry_written BeforeWrites entry = False"
| "entry_written (StopFailed owners detail files keys) entry =
     (snd (pe_operations entry) \<le> files \<and> snd (pe_registry_operations entry) \<le> keys)"

fun stop_detail :: "stop \<Rightarrow> string" where
  "stop_detail (StopFailed owners detail files keys) = detail"
| "stop_detail _ = []"

definition entry_outcome :: "stop \<Rightarrow> string \<Rightarrow> program_entry \<Rightarrow> program_outcome option" where
  "entry_outcome stop blocker entry =
     map_option (\<lambda>(state, detail). program_result (pe_program entry) state detail)
       (case pe_failed entry of
          Some detail \<Rightarrow> Some (Failed, detail)
        | None \<Rightarrow>
            if failed_during stop (pe_program entry) then Some (Failed, stop_detail stop)
            else if pe_conflicts entry \<noteq> [] then Some (Conflict, join_with ''; '' (pe_conflicts entry))
            else settled entry (entry_written stop entry) blocker)"

definition attributed_apply :: "attributed_plan \<Rightarrow> win_os \<Rightarrow> win_os \<times> apply_report \<times> (anyhow + unit)" where
  "attributed_apply ap s =
     (case run_attributed ap s of
        (s', result, stop) \<Rightarrow>
          (s',
           \<lparr>ar_programs = List.map_filter (entry_outcome stop (blocked_by stop (ap_entries ap))) (ap_entries ap),
            ar_sequence = 0\<rparr>,
           result))"

text \<open>
  An apply under the lock: \<open>read\<close> is the configuration found once the lock is held, \<open>s\<close> the state
  of the system that planning reads, and \<open>s'\<close> the state in which applying starts, which other
  processes may have changed meanwhile.
\<close>

definition apply_read_under_lock ::
  "('v \<times> daemon_config) option \<Rightarrow> reconciler \<Rightarrow> win_os \<Rightarrow> win_os
   \<Rightarrow> reconciler \<times> win_os \<times> ('v \<times> apply_report option \<times> apply_report \<times> (anyhow + unit)) option" where
  "apply_read_under_lock read r s s' =
     (case read of
        None \<Rightarrow> (r, s', None)
      | Some (v, config) \<Rightarrow>
          (case attributed_apply (plan_with_report r config s) s' of
             (t, report, result) \<Rightarrow>
               (let sequence = (case re_last_apply r of None \<Rightarrow> 0 | Some previous \<Rightarrow> ar_sequence previous) + 1;
                    report = report\<lparr>ar_sequence := sequence\<rparr>
                in (r\<lparr>re_last_apply := Some report\<rparr>, t, Some (v, re_last_apply r, report, result)))))"

definition apply_after_previous ::
  "daemon_config \<Rightarrow> reconciler \<Rightarrow> win_os \<Rightarrow> win_os
   \<Rightarrow> reconciler \<times> win_os \<times> (apply_report option \<times> apply_report \<times> (anyhow + unit)) option" where
  "apply_after_previous config r s s' =
     (case apply_read_under_lock (Some ((), config)) r s s' of
        (r', t, outcome) \<Rightarrow> (r', t, map_option snd outcome))"

end
