(* ===== verification/Reconcile_Facts.thy ===== *)
theory Reconcile_Facts
  imports Reconcile
begin

text \<open>
  What the reconciler's report means: the attributed plan gives each program exactly the part its
  provider planned, and the outcome reported for a program agrees with what the apply did to that
  part.
\<close>

section \<open>The device user's choice\<close>

lemma leave_out_simps:
  "leave_out program mid choice opted_out =
     (if choice_includes choice mid then program else None,
      opted_out @ (if program \<noteq> None \<and> \<not> choice_includes choice mid then [mid] else []))"
  by (cases program) (simp_all add: leave_out_def)

definition listed :: "'a option \<Rightarrow> string \<Rightarrow> string list" where
  "listed program mid = (if program = None then [] else [mid])"

lemma listed_chosen:
  "listed (if choice_includes choice mid then program else None) mid
   = filter (choice_includes choice) (listed program mid)"
  "(if program \<noteq> None \<and> \<not> choice_includes choice mid then [mid] else [])
   = filter (\<lambda>program. \<not> choice_includes choice program) (listed program mid)"
  by (simp_all add: listed_def)

lemma configured_programs_listed:
  "configured_programs p =
     listed (pg_claude_code p) ''claude-code'' @ listed (pg_claude_desktop p) ''claude-desktop''
     @ listed (pg_codex p) ''codex'' @ listed (pg_open_code p) ''opencode'' @ listed (pg_grok p) ''grok''
     @ listed (pg_copilot p) ''copilot'' @ listed (pg_vscode p) ''vscode'' @ listed (pg_pi p) ''pi''"
proof -
  have step: "map snd (filter fst ((program \<noteq> None, mid) # rest)) = listed program mid @ map snd (filter fst rest)"
    for program :: "'a option" and mid rest
    by (simp add: listed_def)
  show ?thesis unfolding configured_programs_def step by simp
qed

text \<open>
  Where the policy allows a choice, exactly the configured programs that the device user's
  choice includes stay configured, and the other configured programs are reported as opted out;
  where it does not, the choice changes nothing. No other part of the configuration depends on
  the choice.
\<close>

lemma program_choice_partitions:
  "apply_program_choice config choice = (chosen, opted_out) \<longrightarrow>
     (let kept = (\<lambda>program. \<not> allow_user_choice (dc_program_selection config) \<or> choice_includes choice program)
      in configured_programs (dc_programs chosen) = filter kept (configured_programs (dc_programs config))
       \<and> opted_out = filter (\<lambda>program. \<not> kept program) (configured_programs (dc_programs config))
       \<and> chosen\<lparr>dc_programs := dc_programs config\<rparr> = config)"
proof (intro impI)
  assume choice: "apply_program_choice config choice = (chosen, opted_out)"
  show "let kept = (\<lambda>program. \<not> allow_user_choice (dc_program_selection config) \<or> choice_includes choice program)
      in configured_programs (dc_programs chosen) = filter kept (configured_programs (dc_programs config))
       \<and> opted_out = filter (\<lambda>program. \<not> kept program) (configured_programs (dc_programs config))
       \<and> chosen\<lparr>dc_programs := dc_programs config\<rparr> = config"
  proof (cases "\<not> allow_user_choice (dc_program_selection config) \<or> choice = AllPrograms")
    case True
    with choice show ?thesis
      by (auto simp: apply_program_choice_def filter_empty_conv)
  next
    case False
    with choice have chosen: "dc_programs chosen =
        \<lparr>pg_claude_code = if choice_includes choice ''claude-code'' then pg_claude_code (dc_programs config) else None,
         pg_claude_desktop = if choice_includes choice ''claude-desktop'' then pg_claude_desktop (dc_programs config) else None,
         pg_codex = if choice_includes choice ''codex'' then pg_codex (dc_programs config) else None,
         pg_open_code = if choice_includes choice ''opencode'' then pg_open_code (dc_programs config) else None,
         pg_grok = if choice_includes choice ''grok'' then pg_grok (dc_programs config) else None,
         pg_copilot = if choice_includes choice ''copilot'' then pg_copilot (dc_programs config) else None,
         pg_vscode = if choice_includes choice ''vscode'' then pg_vscode (dc_programs config) else None,
         pg_pi = if choice_includes choice ''pi'' then pg_pi (dc_programs config) else None\<rparr>"
      and rest: "chosen\<lparr>dc_programs := dc_programs config\<rparr> = config"
      by (auto simp: apply_program_choice_def leave_out_simps Let_def split del: if_split)
    have "configured_programs (dc_programs chosen) = filter (choice_includes choice) (configured_programs (dc_programs config))"
      unfolding chosen configured_programs_listed by (simp only: programs_config.simps listed_chosen filter_append)
    moreover have "opted_out = filter (\<lambda>program. \<not> choice_includes choice program) (configured_programs (dc_programs config))"
      using choice False unfolding configured_programs_listed filter_append listed_chosen(2) [symmetric]
      by (simp add: apply_program_choice_def leave_out_simps Let_def split del: if_split)
    ultimately show ?thesis using rest False by simp
  qed
qed

section \<open>Attribution\<close>

definition own_slice :: "nat \<times> nat \<Rightarrow> 'a list \<Rightarrow> 'a list" where
  "own_slice r xs = take (snd r - fst r) (drop (fst r) xs)"

lemma own_slice_append: "snd r \<le> length xs \<Longrightarrow> own_slice r (xs @ ys) = own_slice r xs"
  by (simp add: own_slice_def)

lemma own_slice_new: "own_slice (length xs, length (xs @ ys)) (xs @ ys) = ys"
  by (simp add: own_slice_def)

lemma own_slice_nth:
  assumes "x \<in> set (own_slice r xs)"
  shows "\<exists>n. fst r \<le> n \<and> n < snd r \<and> n < length xs \<and> xs ! n = x"
proof -
  from assms obtain k where "k < length (own_slice r xs)" "own_slice r xs ! k = x" by (auto simp: in_set_conv_nth)
  then show ?thesis
    by (intro exI [of _ "fst r + k"]) (auto simp: own_slice_def)
qed

text \<open>
  An entry describes its provider's own plan, and its ranges cut that plan's operations out of the
  combined plan.
\<close>

definition entry_for :: "reconcile_plan \<Rightarrow> reconcile_plan \<Rightarrow> program_entry \<Rightarrow> bool" where
  "entry_for plan own e \<longleftrightarrow>
     pe_failed e = None
     \<and> pe_changes e = ps_changes (plan_summary_of own) \<and> pe_conflicts e = ps_conflicts (plan_summary_of own)
     \<and> pe_inactive e = ps_inactive (plan_summary_of own) \<and> pe_paths e = ps_paths (plan_summary_of own)
     \<and> snd (pe_operations e) \<le> length (rp_operations plan)
     \<and> own_slice (pe_operations e) (rp_operations plan) = rp_operations own
     \<and> snd (pe_registry_operations e) \<le> length (rp_registry plan)
     \<and> own_slice (pe_registry_operations e) (rp_registry plan) = rp_registry own"

lemma entry_for_operations:
  "entry_for plan own e \<Longrightarrow> c \<in> set (rp_operations own) \<Longrightarrow> c \<in> set (rp_operations plan)"
  unfolding entry_for_def own_slice_def by (metis in_set_takeD in_set_dropD)

lemma entry_for_append:
  "entry_for plan own e \<Longrightarrow> rp_operations plan' = rp_operations plan @ ops \<Longrightarrow>
   rp_registry plan' = rp_registry plan @ keys \<Longrightarrow> entry_for plan' own e"
  by (simp add: entry_for_def own_slice_append)

text \<open>
  What the reconciler relies on of its providers: a plan is made only with the planning operations,
  from the state the provider was given; registry keys are planned on Windows only; and a private
  directory is planned for a file of the plan.
\<close>

definition proper_plan :: "win_os \<Rightarrow> reconcile_plan \<Rightarrow> bool" where
  "proper_plan s own \<longleftrightarrow>
     planned s own \<and> (os_unix s \<longrightarrow> rp_registry own = [])
     \<and> (\<forall>d \<in> set (rp_private_dirs own). \<exists>p \<in> set (om_keys (rp_observed own)). prefix d p)"

text \<open>
  Everything in the combined plan that can stop an apply belongs to some entry.
\<close>

definition covered :: "win_os \<Rightarrow> reconcile_plan \<Rightarrow> program_entry list \<Rightarrow> bool" where
  "covered s plan es \<longleftrightarrow>
     (os_unix s \<longrightarrow> rp_registry plan = [])
     \<and> (\<forall>d \<in> set (rp_private_dirs plan). \<exists>e \<in> set es. list_ex (prefix d) (pe_paths e))
     \<and> (\<forall>i < length (rp_operations plan). \<exists>e \<in> set es. in_range i (pe_operations e))
     \<and> (\<forall>p \<in> set (om_keys (rp_observed plan)). \<exists>e \<in> set es. p \<in> set (pe_paths e))
     \<and> (\<forall>k \<in> set (rp_registry plan). \<exists>e \<in> set es. display_path (rkp_key k) \<in> set (pe_paths e))
     \<and> (has_conflicts plan \<longleftrightarrow> (\<exists>e \<in> set es. pe_conflicts e \<noteq> []))"

definition attribution ::
  "reconcile_context \<Rightarrow> daemon_config \<Rightarrow> win_os \<Rightarrow> provider list \<Rightarrow> attributed_plan \<Rightarrow> bool" where
  "attribution ctx config s pvs ap \<longleftrightarrow>
     map pe_program (ap_entries ap) = map pv_id pvs
     \<and> (case ap_first_error ap of
          Some e \<Rightarrow> \<exists>entry \<in> set (ap_entries ap). pe_failed entry \<noteq> None
        | None \<Rightarrow>
            planned s (ap_plan ap) \<and> plan_ok (ap_plan ap) \<and> covered s (ap_plan ap) (ap_entries ap)
            \<and> list_all2 (\<lambda>pv entry. \<exists>own. pv_plan pv ctx config s = Inr own \<and> entry_for (ap_plan ap) own entry)
                pvs (ap_entries ap))"

lemma push_new_set: "set (foldl push_new ps qs) = set ps \<union> set qs"
  by (induction qs arbitrary: ps) (auto simp: push_new_def)

lemma summary_paths:
  "set (ps_paths (plan_summary_of own)) = set (om_keys (rp_observed own)) \<union> fc_path ` set (rp_operations own)
     \<union> (\<lambda>k. display_path (rkp_key k)) ` set (rp_registry own)"
  by (simp add: plan_summary_of_def Let_def push_new_set)

lemma summary_conflicts: "ps_conflicts (plan_summary_of own) \<noteq> [] \<longleftrightarrow> has_conflicts own"
  by (auto simp: plan_summary_of_def Let_def has_conflicts_def list_ex_iff filter_empty_conv)

lemma append_conflicts:
  "append_attributed plan other = (plan', Inr ()) \<Longrightarrow>
   has_conflicts plan' \<longleftrightarrow> has_conflicts plan \<or> has_conflicts other"
  by (auto simp: append_attributed_def has_conflicts_def Let_def split: prod.splits sum.splits)

lemma fail_sharing_simps [simp]:
  "pe_program (fail_sharing p m e) = pe_program e"
  by (simp add: fail_sharing_def)

lemma describe_entry_simps [simp]:
  "pe_program (describe_entry summary e) = pe_program e"
  "pe_failed (describe_entry summary e) = pe_failed e"
  by (simp_all add: describe_entry_def)

lemma new_entry_simps [simp]:
  "pe_program (new_entry program configured opted_out) = program"
  "pe_failed (new_entry program configured opted_out) = None"
  by (simp_all add: new_entry_def)

lemma plan_provider_failed:
  assumes "attribution ctx config s pvs ap"
    and "ap_first_error (plan_provider ctx config oo s pv ap) \<noteq> None"
  shows "attribution ctx config s (pvs @ [pv]) (plan_provider ctx config oo s pv ap)"
proof -
  let ?ap = "plan_provider ctx config oo s pv ap"
  have programs: "map pe_program (ap_entries ?ap) = map pv_id (pvs @ [pv])"
    using assms(1)
    by (auto simp: plan_provider_def attribution_def Let_def comp_def split: sum.splits prod.splits)
  have "\<exists>entry \<in> set (ap_entries ?ap). pe_failed entry \<noteq> None"
  proof (cases "ap_first_error ap")
    case None
    with assms(2) show ?thesis
      by (auto simp: plan_provider_def Let_def split: sum.splits prod.splits)
  next
    case (Some e)
    with assms(1) obtain entry where "entry \<in> set (ap_entries ap)" "pe_failed entry \<noteq> None"
      by (auto simp: attribution_def)
    moreover have "pe_failed (fail_sharing p m entry) \<noteq> None" if "pe_failed entry \<noteq> None" for p m
      using that by (auto simp: fail_sharing_def get_or_insert_def)
    ultimately show ?thesis
      by (fastforce simp: plan_provider_def Let_def split: sum.splits prod.splits)
  qed
  with programs assms(2) show ?thesis
    by (cases "ap_first_error ?ap") (simp_all add: attribution_def)
qed

lemma plan_provider_appended:
  assumes "attribution ctx config s pvs ap"
    and "\<And>own. pv_plan pv ctx config s = Inr own \<Longrightarrow> proper_plan s own"
    and "ap_first_error (plan_provider ctx config opted_out s pv ap) = None"
  obtains own plan entry where "pv_plan pv ctx config s = Inr own" and "proper_plan s own"
    and "ap_first_error ap = None" and "append_attributed (ap_plan ap) own = (plan, Inr ())"
    and "planned s plan" and "plan_ok plan"
    and "rp_operations plan = rp_operations (ap_plan ap) @ rp_operations own"
    and "rp_registry plan = rp_registry (ap_plan ap) @ rp_registry own"
    and "rp_private_dirs plan = rp_private_dirs (ap_plan ap) @ rp_private_dirs own"
    and "om_get (rp_observed plan) = om_get (rp_observed (ap_plan ap)) ++ om_get (rp_observed own)"
    and "pe_operations entry = (length (rp_operations (ap_plan ap)), length (rp_operations plan))"
    and "entry_for plan own entry" and "pe_program entry = pv_id pv"
    and "plan_provider ctx config opted_out s pv ap
      = \<lparr>ap_plan = plan, ap_entries = ap_entries ap @ [entry], ap_first_error = None\<rparr>"
proof -
  obtain own where own: "pv_plan pv ctx config s = Inr own"
    using assms(3) by (cases "pv_plan pv ctx config s") (auto simp: plan_provider_def Let_def get_or_insert_def split: option.splits)
  obtain plan r where app: "append_attributed (ap_plan ap) own = (plan, r)" by force
  have r: "r = Inr ()" and none: "ap_first_error ap = None"
    using assms(3) own app
    by (auto simp: plan_provider_def Let_def get_or_insert_def split: option.splits sum.splits)
  note proper = assms(2) [OF own]
  then have own': "planned s own" by (simp add: proper_plan_def)
  have ap: "planned s (ap_plan ap)" "plan_ok (ap_plan ap)"
    using assms(1) none by (simp_all add: attribution_def)
  have snap: "plan_snapshot own" using planned_fresh [OF own'] by (simp add: plan_fresh_def)
  note eff = append_attributed_ok [OF app [unfolded r] ap(2) snap]
  define entry where "entry = (describe_entry (plan_summary_of own)
      (new_entry (pv_id pv) (configured_programs (dc_programs config)) opted_out))
      \<lparr>pe_operations := (length (rp_operations (ap_plan ap)), length (rp_operations plan)),
       pe_registry_operations := (length (rp_registry (ap_plan ap)), length (rp_registry plan))\<rparr>"
  have "entry_for plan own entry"
    using eff own_slice_new [of "rp_operations (ap_plan ap)" "rp_operations own"]
      own_slice_new [of "rp_registry (ap_plan ap)" "rp_registry own"]
    by (simp add: entry_for_def entry_def describe_entry_def)
  moreover have "plan_provider ctx config opted_out s pv ap
      = \<lparr>ap_plan = plan, ap_entries = ap_entries ap @ [entry], ap_first_error = None\<rparr>"
    using own app r none by (simp add: plan_provider_def Let_def entry_def)
  ultimately show thesis
    using that own proper none app r planned_append [OF ap(1) own' app [unfolded r]] eff
    by (simp add: entry_def)
qed

lemma covered_append:
  assumes "covered s plan es" and "entry_for plan' own e" and "proper_plan s own"
    and "append_attributed plan own = (plan', Inr ())"
    and ops: "rp_operations plan' = rp_operations plan @ rp_operations own"
    and keys: "rp_registry plan' = rp_registry plan @ rp_registry own"
    and dirs: "rp_private_dirs plan' = rp_private_dirs plan @ rp_private_dirs own"
    and obs: "om_get (rp_observed plan') = om_get (rp_observed plan) ++ om_get (rp_observed own)"
    and range: "pe_operations e = (length (rp_operations plan), length (rp_operations plan'))"
  shows "covered s plan' (es @ [e])"
proof -
  have paths: "set (pe_paths e) = set (om_keys (rp_observed own)) \<union> fc_path ` set (rp_operations own)
     \<union> (\<lambda>k. display_path (rkp_key k)) ` set (rp_registry own)"
    using assms(2) by (simp add: entry_for_def summary_paths)
  have "\<exists>e \<in> set (es @ [e]). in_range i (pe_operations e)" if "i < length (rp_operations plan')" for i
    using that assms(1) range by (cases "i < length (rp_operations plan)") (auto simp: covered_def in_range_def)
  moreover have "set (om_keys (rp_observed plan')) = set (om_keys (rp_observed plan)) \<union> set (om_keys (rp_observed own))"
    using arg_cong [OF obs, of dom] by (simp add: om_keys_def dom_map_of_conv_image_fst Un_commute)
  moreover have "has_conflicts plan' \<longleftrightarrow> (\<exists>e \<in> set (es @ [e]). pe_conflicts e \<noteq> [])"
    using assms(1,2) append_conflicts [OF assms(4)] summary_conflicts [of own]
    by (auto simp: covered_def entry_for_def)
  moreover have "\<exists>e \<in> set (es @ [e]). list_ex (prefix d) (pe_paths e)" if "d \<in> set (rp_private_dirs plan')" for d
    using that assms(1,3) paths by (fastforce simp: covered_def proper_plan_def dirs list_ex_iff)
  moreover have "os_unix s \<longrightarrow> rp_registry plan' = []"
    using assms(1,3) by (simp add: covered_def proper_plan_def keys)
  ultimately show ?thesis
    using assms(1) paths unfolding covered_def keys by auto
qed

lemma plan_provider_attribution:
  assumes "attribution ctx config s pvs ap"
    and "\<And>own. pv_plan pv ctx config s = Inr own \<Longrightarrow> proper_plan s own"
  shows "attribution ctx config s (pvs @ [pv]) (plan_provider ctx config opted_out s pv ap)"
proof (cases "ap_first_error (plan_provider ctx config opted_out s pv ap)")
  case None
  obtain own plan entry where own: "pv_plan pv ctx config s = Inr own" and proper: "proper_plan s own"
    and none: "ap_first_error ap = None" and app: "append_attributed (ap_plan ap) own = (plan, Inr ())"
    and plan: "planned s plan" "plan_ok plan"
    and ops: "rp_operations plan = rp_operations (ap_plan ap) @ rp_operations own"
    and keys: "rp_registry plan = rp_registry (ap_plan ap) @ rp_registry own"
    and dirs: "rp_private_dirs plan = rp_private_dirs (ap_plan ap) @ rp_private_dirs own"
    and obs: "om_get (rp_observed plan) = om_get (rp_observed (ap_plan ap)) ++ om_get (rp_observed own)"
    and range: "pe_operations entry = (length (rp_operations (ap_plan ap)), length (rp_operations plan))"
    and entry: "entry_for plan own entry" "pe_program entry = pv_id pv"
    and eq: "plan_provider ctx config opted_out s pv ap
      = \<lparr>ap_plan = plan, ap_entries = ap_entries ap @ [entry], ap_first_error = None\<rparr>"
    using assms None by (rule plan_provider_appended)
  have old: "map pe_program (ap_entries ap) = map pv_id pvs" "covered s (ap_plan ap) (ap_entries ap)"
    "list_all2 (\<lambda>pv entry. \<exists>own. pv_plan pv ctx config s = Inr own \<and> entry_for (ap_plan ap) own entry) pvs (ap_entries ap)"
    using assms(1) none by (simp_all add: attribution_def)
  have "list_all2 (\<lambda>pv entry. \<exists>own. pv_plan pv ctx config s = Inr own \<and> entry_for plan own entry) pvs (ap_entries ap)"
    using old(3) by (rule list_all2_mono) (auto intro: entry_for_append [OF _ ops keys])
  with own entry have "list_all2 (\<lambda>pv entry. \<exists>own. pv_plan pv ctx config s = Inr own \<and> entry_for plan own entry)
      (pvs @ [pv]) (ap_entries ap @ [entry])"
    by (intro list_all2_appendI) auto
  moreover have "covered s plan (ap_entries ap @ [entry])"
    by (rule covered_append [OF old(2) entry(1) proper app ops keys dirs obs range])
  ultimately show ?thesis
    using plan entry(2) old(1) by (simp add: eq attribution_def)
next
  case (Some e)
  then show ?thesis using plan_provider_failed [OF assms(1)] by simp
qed

lemma attribution_empty: "attribution ctx config s [] empty_attributed"
proof -
  have "plan_ok empty_plan" and "covered s empty_plan []"
    by (simp_all add: plan_ok_def covered_def empty_plan_def om_keys_def has_conflicts_def om_wf_def)
  then show ?thesis by (simp add: attribution_def empty_attributed_def planned_empty)
qed

definition providers_plan :: "reconciler \<Rightarrow> daemon_config \<Rightarrow> win_os \<Rightarrow> bool" where
  "providers_plan r config s \<longleftrightarrow>
     (\<forall>pv \<in> set (re_providers r). \<forall>own.
        pv_plan pv (re_context r) (fst (apply_program_choice config (re_choice r))) s = Inr own \<longrightarrow> proper_plan s own)"

lemma plan_with_report_attribution:
  assumes "providers_plan r config s"
  shows "attribution (re_context r) (fst (apply_program_choice config (re_choice r))) s (re_providers r)
    (plan_with_report r config s)"
proof -
  obtain chosen opted_out where choice: "apply_program_choice config (re_choice r) = (chosen, opted_out)" by force
  have "attribution (re_context r) chosen s pvs (fold (plan_provider (re_context r) chosen opted_out s) pvs empty_attributed)"
    if "set pvs \<subseteq> set (re_providers r)" for pvs
    using that
  proof (induction pvs rule: rev_induct)
    case Nil
    then show ?case by (simp add: attribution_empty)
  next
    case (snoc pv pvs)
    then show ?case
      using assms choice by (auto simp: providers_plan_def intro!: plan_provider_attribution)
  qed
  then show ?thesis by (simp add: plan_with_report_def choice)
qed

section \<open>The two ways of planning agree\<close>

lemma plan_provider_keeps_error:
  "ap_first_error ap = Some e \<Longrightarrow> ap_first_error (plan_provider ctx config opted_out s pv ap) = Some e"
  by (auto simp: plan_provider_def Let_def get_or_insert_def split: sum.splits prod.splits)

lemma plan_providers_keep_error:
  "ap_first_error ap = Some e \<Longrightarrow> ap_first_error (fold (plan_provider ctx config opted_out s) pvs ap) = Some e"
  by (induction pvs arbitrary: ap) (auto dest: plan_provider_keeps_error)

lemma plan_providers_agree:
  "ap_first_error ap = None \<Longrightarrow>
   plan_providers ctx config s pvs (ap_plan ap) =
     (let ap' = fold (plan_provider ctx config opted_out s) pvs ap
      in case ap_first_error ap' of None \<Rightarrow> Inr (ap_plan ap') | Some e \<Rightarrow> Inl e)"
proof (induction pvs arbitrary: ap)
  case Nil
  then show ?case by simp
next
  case (Cons pv pvs)
  let ?ap = "plan_provider ctx config opted_out s pv ap"
  have step: "ap_first_error ?ap =
      (case pv_plan pv ctx config s of
         Inl e \<Rightarrow> Some e
       | Inr own \<Rightarrow> (case snd (append_attributed (ap_plan ap) own) of Inl (e, p) \<Rightarrow> Some e | Inr _ \<Rightarrow> None))"
    "\<And>own. pv_plan pv ctx config s = Inr own \<Longrightarrow> ap_plan ?ap = fst (append_attributed (ap_plan ap) own)"
    using Cons.prems
    by (auto simp: plan_provider_def Let_def get_or_insert_def split: sum.splits prod.splits)
  show ?case
  proof (cases "ap_first_error ?ap")
    case None
    with step Cons.IH [of ?ap] show ?thesis
      by (auto simp: split_beta Let_def split: sum.splits prod.splits)
  next
    case (Some e)
    with step plan_providers_keep_error [OF Some] show ?thesis
      by (auto simp: split_beta Let_def split: sum.splits prod.splits)
  qed
qed

text \<open>
  Planning with a report and planning without agree: \<^verbatim>\<open>plan_with_report\<close>, which goes on after a
  provider fails, keeps as its first error exactly the error with which \<^verbatim>\<open>plan\<close> ends, and when no
  provider fails both build the same plan.
\<close>

lemma plan_with_report_agrees:
  "reconciler_plan r config s =
     (let ap = plan_with_report r config s
      in case ap_first_error ap of None \<Rightarrow> Inr (ap_plan ap) | Some e \<Rightarrow> Inl e)"
  using plan_providers_agree [of empty_attributed "re_context r" "fst (apply_program_choice config (re_choice r))" s
      "re_providers r" "snd (apply_program_choice config (re_choice r))"]
  by (simp add: reconciler_plan_def plan_with_report_def empty_attributed_def split_beta)

section \<open>What the outcomes say\<close>

lemma run_attributed_cases:
  assumes "run_attributed ap s = (t, result, stop)"
  obtains (refused) e where "ap_first_error ap = Some e" "t = s" "result = Inl e" "stop = BeforeWrites"
    | (conflicting) "ap_first_error ap = None" "\<exists>e \<in> set (ap_entries ap). pe_conflicts e \<noteq> []"
        "apply_plan (ap_plan ap) s = (t, result)" "stop = BeforeWrites"
    | (applied) "ap_first_error ap = None" "\<forall>e \<in> set (ap_entries ap). pe_conflicts e = []"
        "apply_tracked (ap_plan ap) s = (t, Inr ())" "result = Inr ()" "stop = Completed"
    | (failing) e place where "ap_first_error ap = None" "\<forall>e \<in> set (ap_entries ap). pe_conflicts e = []"
        "apply_tracked (ap_plan ap) s = (t, Inl (e, place))" "result = Inl e"
        "stop = StopFailed (owners_of (ap_entries ap) place) (chain_message e)
           (fst (written_before place)) (snd (written_before place))"
  using assms
  by (auto simp: run_attributed_def list_ex_iff split: outcome_splits)

lemma conflicting_plan_refused:
  "has_conflicts plan \<Longrightarrow> \<exists>e. apply_plan plan s = (s, Inl e)"
  by (auto simp: apply_plan_def apply_tracked_def has_conflicts_def find_None_iff list_ex_iff split: option.splits)

lemma entry_outcome_state:
  assumes "entry_outcome stop blocker e = Some oc"
  shows "po_program oc = pe_program e"
    and "po_state oc = Failed \<longleftrightarrow> pe_failed e \<noteq> None \<or> failed_during stop (pe_program e)"
    and "po_state oc = Conflict \<longleftrightarrow> pe_failed e = None \<and> \<not> failed_during stop (pe_program e) \<and> pe_conflicts e \<noteq> []"
    and "po_state oc = Blocked \<longleftrightarrow> pe_failed e = None \<and> \<not> failed_during stop (pe_program e) \<and> pe_conflicts e = []
      \<and> pe_changes e \<and> \<not> entry_written stop e"
    and "po_state oc \<in> {Applied, Removed} \<Longrightarrow> pe_failed e = None \<and> \<not> failed_during stop (pe_program e)
      \<and> pe_conflicts e = [] \<and> pe_changes e \<and> entry_written stop e"
  using assms
  by (auto simp: entry_outcome_def program_result_def settled_def split: option.splits if_splits)

lemma outcome_listed:
  "pe_failed e \<noteq> None \<or> failed_during stop (pe_program e) \<or> pe_conflicts e \<noteq> []
     \<or> pe_changes e \<and> \<not> entry_written stop e \<Longrightarrow> \<exists>oc. entry_outcome stop blocker e = Some oc"
  by (auto simp: entry_outcome_def settled_def split: option.splits)

lemma attributed_apply_outcomes:
  assumes "attributed_apply ap s = (t, report, result)"
  obtains stop where "run_attributed ap s = (t, result, stop)"
    and "set (ar_programs report)
      = {oc. \<exists>e \<in> set (ap_entries ap). entry_outcome stop (blocked_by stop (ap_entries ap)) e = Some oc}"
    and "ar_programs report = List.map_filter (entry_outcome stop (blocked_by stop (ap_entries ap))) (ap_entries ap)"
proof -
  obtain t' result' stop where run: "run_attributed ap s = (t', result', stop)" by (metis prod_cases3)
  have "set (List.map_filter f xs) = {y. \<exists>x \<in> set xs. f x = Some y}" for f :: "program_entry \<Rightarrow> program_outcome option" and xs
    by (auto simp: List.map_filter_def image_iff) (metis option.sel option.distinct(1))
  with that [of stop] run assms show thesis by (auto simp: attributed_apply_def)
qed

lemma attributed_entry:
  assumes "attribution ctx config s pvs ap" and "ap_first_error ap = None"
    and "distinct (map pv_id pvs)" and "pv \<in> set pvs" and "pv_plan pv ctx config s = Inr own"
    and "e \<in> set (ap_entries ap)" and "pe_program e = pv_id pv"
  shows "entry_for (ap_plan ap) own e"
proof -
  have programs: "map pe_program (ap_entries ap) = map pv_id pvs"
    and all: "list_all2 (\<lambda>pv entry. \<exists>own. pv_plan pv ctx config s = Inr own \<and> entry_for (ap_plan ap) own entry)
        pvs (ap_entries ap)"
    using assms(1,2) by (simp_all add: attribution_def)
  obtain i where i: "i < length pvs" "pvs ! i = pv" using assms(4) by (auto simp: in_set_conv_nth)
  obtain j where j: "j < length (ap_entries ap)" "ap_entries ap ! j = e" using assms(6) by (auto simp: in_set_conv_nth)
  have len: "length (ap_entries ap) = length pvs" using programs by (metis length_map)
  have "pv_id (pvs ! j) = pe_program e"
    using arg_cong [OF programs, of "\<lambda>xs. xs ! j"] j len by simp
  then have "map pv_id pvs ! i = map pv_id pvs ! j" using assms(7) i j len by simp
  then have "i = j" using assms(3) i j len nth_eq_iff_index_eq [of "map pv_id pvs" i j] by simp
  with list_all2_nthD [OF all, of i] i j assms(5) show ?thesis by auto
qed

lemma apply_tracked_before_files:
  assumes "apply_tracked plan s = (t, Inl (e, place))" and "\<forall>i. place \<noteq> OperationStop i"
    and "\<forall>i p. place \<noteq> RegistryStop i p"
  shows "same_path q s t"
  using assms
  by (auto simp: apply_tracked_def same_path_refl private_dirs_same
      split: outcome_splits)

lemma observed_stop_place:
  "check_observed s obs = Inl (e, place) \<Longrightarrow> \<exists>p \<in> set (om_keys obs). place = ObservedStop p"
  by (induction s obs rule: check_observed.induct) (auto simp: om_keys_def split: sum.splits if_splits)

lemma registry_stop_place:
  "check_registry s ks = Inl (e, place) \<Longrightarrow> \<exists>k \<in> set ks. place = ObservedStop (display_path (rkp_key k))"
  by (induction s ks rule: check_registry.induct) (auto simp: Let_def split: sum.splits if_splits)

lemma apply_tracked_registry_stop:
  assumes "apply_tracked plan s = (t, Inl (e, RegistryStop i p))" and "plan_ok plan"
  shows "rp_registry plan \<noteq> []" and "c \<in> set (rp_operations plan) \<Longrightarrow> op_holds c t"
proof -
  let ?obs = "rp_observed plan" and ?ops = "rp_operations plan"
  obtain s1 s2 j k where obs: "check_observed s ?obs = Inr ()"
    and dirs: "try_each 0 make_private_dir (rp_private_dirs plan) s = (s1, Inr ())"
    and files: "try_each 0 (apply_operation ?obs) ?ops s1 = (s2, Inr ())"
    and keys: "try_each 0 apply_registry (rp_registry plan) s2 = (t, Inl (j, k, e))"
    using assms(1)
    by (auto simp: apply_tracked_def dest!: observed_stop_place registry_stop_place split: outcome_splits)
  show "rp_registry plan \<noteq> []" using keys by auto
  have ok: "om_wf ?obs" "distinct (map fc_path ?ops)" using assms(2) by (auto simp: plan_ok_def)
  have "op_ready ?obs c s1" for c
    using observed_ready [OF obs ok(1)] private_dirs_same [OF dirs] by (rule op_ready_same)
  then show "op_holds c t" if "c \<in> set ?ops"
    using file_steps.completed [OF files ok(2) _ that] files_after_registry [OF keys] by (auto intro: op_holds_frame)
qed

lemma written_operations_hold:
  assumes "apply_tracked plan s = (t, Inl (e, place))" and "plan_ok plan"
    and "entry_for plan own entry" and "snd (pe_operations entry) \<le> fst (written_before place)"
    and "c \<in> set (rp_operations own)"
  shows "op_holds c t"
proof -
  from assms(3,5) obtain n where n: "n < snd (pe_operations entry)" "n < length (rp_operations plan)"
    "rp_operations plan ! n = c"
    using own_slice_nth [of c "pe_operations entry" "rp_operations plan"] by (auto simp: entry_for_def)
  show ?thesis
  proof (cases place)
    case (OperationStop i)
    with assms(4) n apply_tracked_stopped_files [OF assms(1) [unfolded OperationStop] assms(2)] show ?thesis
      by auto
  next
    case (RegistryStop i p)
    with n apply_tracked_registry_stop(2) [OF assms(1) [unfolded RegistryStop] assms(2), of c] show ?thesis
      by (metis nth_mem)
  qed (use assms(4) n in auto)
qed

lemma blocked_operations_untouched:
  assumes "apply_tracked plan s = (t, Inl (e, place))" and "plan_ok plan" and "rp_registry plan = []"
    and "entry_for plan own entry" and "\<not> owns_stop place entry"
    and "\<not> snd (pe_operations entry) \<le> fst (written_before place)"
    and "c \<in> set (rp_operations own)"
  shows "same_path (fc_path c) s t"
proof -
  from assms(4,7) obtain n where n: "fst (pe_operations entry) \<le> n" "n < length (rp_operations plan)"
    "rp_operations plan ! n = c"
    using own_slice_nth [of c "pe_operations entry" "rp_operations plan"] by (auto simp: entry_for_def)
  show ?thesis
  proof (cases place)
    case (OperationStop i)
    with assms(5,6) n have "i \<le> n" by (auto simp: in_range_def)
    with n apply_tracked_stopped_files [OF assms(1) [unfolded OperationStop] assms(2)] show ?thesis
      by auto
  next
    case (RegistryStop i p)
    then show ?thesis using apply_tracked_registry_stop(1) assms(1-3) by blast
  qed (use apply_tracked_before_files [OF assms(1)] in auto)
qed

text \<open>
  C15. A program's reported outcome is true of its files, whatever happened to the system between
  planning and applying. On every system, a program reported as applied or removed has every file its
  provider planned in the planned state, and a program reported as in conflict has had none of them
  touched. A program reported as blocked has had none of them touched either, when the plan has no
  registry changes: always on Unix, and on Windows unless Claude Desktop's policy keys change. (With
  registry changes in the plan, which are applied last, a program whose files have been written is
  reported as blocked when a later step fails.)
\<close>

theorem report_is_truthful:
  assumes "providers_plan r config s" and "distinct (map pv_id (re_providers r))"
    and "attributed_apply (plan_with_report r config s) t = (t', report, result)"
    and "pv \<in> set (re_providers r)"
    and "pv_plan pv (re_context r) (fst (apply_program_choice config (re_choice r))) s = Inr own"
    and "oc \<in> set (ar_programs report)" and "po_program oc = pv_id pv" and "c \<in> set (rp_operations own)"
  shows "(po_state oc \<in> {Applied, Removed} \<longrightarrow> op_holds c t')
    \<and> (po_state oc = Conflict \<longrightarrow> same_path (fc_path c) t t')
    \<and> (po_state oc = Blocked \<and> (os_unix s \<or> rp_registry (ap_plan (plan_with_report r config s)) = []) \<longrightarrow>
         same_path (fc_path c) t t')"
proof -
  let ?ap = "plan_with_report r config s"
  let ?cfg = "fst (apply_program_choice config (re_choice r))"
  note attr = plan_with_report_attribution [OF assms(1)]
  obtain stop where run: "run_attributed ?ap t = (t', result, stop)"
    and set: "set (ar_programs report)
      = {oc. \<exists>e \<in> set (ap_entries ?ap). entry_outcome stop (blocked_by stop (ap_entries ?ap)) e = Some oc}"
    using assms(3) by (rule attributed_apply_outcomes)
  obtain e where e: "e \<in> set (ap_entries ?ap)"
    and oc: "entry_outcome stop (blocked_by stop (ap_entries ?ap)) e = Some oc"
    using assms(6) set by auto
  note st = entry_outcome_state [OF oc]
  have entry: "entry_for (ap_plan ?ap) own e" if "ap_first_error ?ap = None"
    using attributed_entry [OF attr that assms(2,4,5) e] st(1) assms(7) by simp
  have plan: "plan_ok (ap_plan ?ap)" "covered s (ap_plan ?ap) (ap_entries ?ap)" if "ap_first_error ?ap = None"
    using attr that by (simp_all add: attribution_def)
  from run show ?thesis
  proof (cases rule: run_attributed_cases)
    case (refused e')
    then show ?thesis using st(5) by (auto simp: same_path_refl)
  next
    case conflicting
    then have "t' = t" using conflicting_plan_refused [of "ap_plan ?ap" t] plan(2) by (auto simp: covered_def)
    then show ?thesis using conflicting st(5) by (auto simp: same_path_refl)
  next
    case applied
    then show ?thesis
      using apply_tracked_completed_files [OF applied(3) plan(1)] entry_for_operations [OF entry assms(8)] st(3,4) e
      by auto
  next
    case (failing e' place)
    have "e \<in> set (filter (owns_stop place) (ap_entries ?ap)) \<Longrightarrow> failed_during stop (pe_program e)"
      using failing(5) by (simp add: owners_of_def)
    then have owner: "\<not> failed_during stop (pe_program e) \<Longrightarrow> \<not> owns_stop place e" using e by auto
    have none: "rp_registry (ap_plan ?ap) = [] \<and> snd (pe_registry_operations e) = 0"
      if "os_unix s \<or> rp_registry (ap_plan ?ap) = []"
      using entry plan(2) failing(1) that by (auto simp: entry_for_def covered_def)
    have "po_state oc \<in> {Applied, Removed} \<Longrightarrow> op_holds c t'"
      using written_operations_hold [OF failing(3) plan(1) entry _ assms(8)] st(5) failing by auto
    moreover have "po_state oc = Conflict \<Longrightarrow> same_path (fc_path c) t t'" using st(3) failing(2) e by auto
    moreover have "same_path (fc_path c) t t'"
      if "po_state oc = Blocked" "os_unix s \<or> rp_registry (ap_plan ?ap) = []"
      using blocked_operations_untouched [OF failing(3) plan(1) _ entry owner _ assms(8)] none [OF that(2)] st(4) failing that
      by auto
    ultimately show ?thesis by blast
  qed
qed

lemma stop_is_owned:
  assumes "apply_tracked plan s = (t, Inl (e, place))" and "covered s0 plan es" and "\<not> has_conflicts plan"
  shows "\<exists>entry \<in> set es. owns_stop place entry"
proof -
  have "find (\<lambda>c. dc_action c = ''conflict'') (rep_changes (rp_report plan)) = None"
    using assms(3) by (auto simp: has_conflicts_def find_None_iff list_ex_iff)
  then consider (observed) "check_observed s (rp_observed plan) = Inl (e, place)"
    | (registry) "check_registry s (rp_registry plan) = Inl (e, place)"
    | (dir) s1 i d where "try_each 0 make_private_dir (rp_private_dirs plan) s = (s1, Inl (i, d, e))" "place = PrivateDirStop d"
    | (operation) s1 s2 :: win_os and i c where "try_each 0 (apply_operation (rp_observed plan)) (rp_operations plan) s1 = (s2, Inl (i, c, e))"
        "place = OperationStop i"
    | (key) s2 s3 i k where "try_each 0 apply_registry (rp_registry plan) s2 = (s3, Inl (i, k, e))"
        "place = RegistryStop i (display_path (rkp_key k))"
    using assms(1) by (auto simp: apply_tracked_def split: sum.splits prod.splits if_splits)
  then show ?thesis
  proof cases
    case observed
    with observed_stop_place [OF observed] assms(2) show ?thesis by (auto simp: covered_def)
  next
    case registry
    with registry_stop_place [OF registry] assms(2) show ?thesis by (auto simp: covered_def)
  next
    case dir
    with try_each_index [OF dir(1)] assms(2) show ?thesis by (auto simp: covered_def)
  next
    case operation
    with try_each_index [OF operation(1)] assms(2) show ?thesis by (auto simp: covered_def)
  next
    case key
    with try_each_index [OF key(1)] assms(2) show ?thesis by (auto simp: covered_def)
  qed
qed

text \<open>
  The report and the result agree: an apply succeeds exactly when no program is reported as
  failed, in conflict or blocked. No failure is left without a program to answer for it.
\<close>

lemma apply_succeeds_iff_no_program_fails:
  assumes "providers_plan r config s" and "attributed_apply (plan_with_report r config s) t = (t', report, result)"
  shows "result = Inr () \<longleftrightarrow> (\<forall>oc \<in> set (ar_programs report). po_state oc \<notin> {Failed, Conflict, Blocked})"
proof -
  let ?ap = "plan_with_report r config s"
  note attr = plan_with_report_attribution [OF assms(1)]
  obtain stop where run: "run_attributed ?ap t = (t', result, stop)"
    and set: "set (ar_programs report)
      = {oc. \<exists>e \<in> set (ap_entries ?ap). entry_outcome stop (blocked_by stop (ap_entries ?ap)) e = Some oc}"
    using assms(2) by (rule attributed_apply_outcomes)
  have plan: "covered s (ap_plan ?ap) (ap_entries ?ap)" if "ap_first_error ?ap = None"
    using attr that by (simp add: attribution_def)
  have bad: "\<not> (\<forall>oc \<in> set (ar_programs report). po_state oc \<notin> {Failed, Conflict, Blocked})"
    if e: "e \<in> set (ap_entries ?ap)" and cause: "pe_failed e \<noteq> None \<or> failed_during stop (pe_program e) \<or> pe_conflicts e \<noteq> []" for e
  proof -
    obtain oc where oc: "entry_outcome stop (blocked_by stop (ap_entries ?ap)) e = Some oc"
      using cause outcome_listed by blast
    have "po_state oc \<in> {Failed, Conflict}" using entry_outcome_state(2,3) [OF oc] cause by auto
    with oc e set show ?thesis by auto
  qed
  from run show ?thesis
  proof (cases rule: run_attributed_cases)
    case (refused e')
    then show ?thesis using attr bad by (auto simp: attribution_def)
  next
    case conflicting
    then have "\<exists>e. result = Inl e"
      using conflicting_plan_refused [of "ap_plan ?ap" t] plan by (auto simp: covered_def)
    then show ?thesis using conflicting(2) bad by auto
  next
    case applied
    have "list_all2 (\<lambda>pv entry. pe_failed entry = None) (re_providers r) (ap_entries ?ap)"
      using attr applied(1) unfolding attribution_def
      by (auto simp: entry_for_def elim: list_all2_mono)
    then have "pe_failed e = None" if "e \<in> set (ap_entries ?ap)" for e
      using that by (auto simp: in_set_conv_nth list_all2_conv_all_nth)
    then show ?thesis using applied set entry_outcome_state(2-4) by fastforce
  next
    case (failing e' place)
    then have "\<not> has_conflicts (ap_plan ?ap)" using plan by (auto simp: covered_def)
    with failing stop_is_owned [OF failing(3)] plan obtain e where "e \<in> set (ap_entries ?ap)" "owns_stop place e" by blast
    then show ?thesis using failing bad [of e] by (auto simp: owners_of_def)
  qed
qed

text \<open>
  C16. All or nothing: as soon as one provider cannot make its plan, or finds conflicting
  configuration, the apply fails without changing anything in the system, and no program is
  reported as applied or removed.
\<close>

theorem one_failure_writes_nothing:
  assumes "providers_plan r config s" and "attributed_apply (plan_with_report r config s) t = (t', report, result)"
    and "pv \<in> set (re_providers r)"
    and "case pv_plan pv (re_context r) (fst (apply_program_choice config (re_choice r))) s of
           Inl e \<Rightarrow> True | Inr own \<Rightarrow> has_conflicts own"
  shows "t' = t \<and> (\<exists>e. result = Inl e) \<and> (\<forall>oc \<in> set (ar_programs report). po_state oc \<notin> {Applied, Removed})"
proof -
  let ?ap = "plan_with_report r config s"
  note attr = plan_with_report_attribution [OF assms(1)]
  obtain stop where run: "run_attributed ?ap t = (t', result, stop)"
    and set: "set (ar_programs report)
      = {oc. \<exists>e \<in> set (ap_entries ?ap). entry_outcome stop (blocked_by stop (ap_entries ?ap)) e = Some oc}"
    using assms(2) by (rule attributed_apply_outcomes)
  have before: "po_state oc \<notin> {Applied, Removed}" if "stop = BeforeWrites" and "oc \<in> set (ar_programs report)" for oc
    using that set entry_outcome_state(5) by fastforce
  have conflict: "\<exists>e \<in> set (ap_entries ?ap). pe_conflicts e \<noteq> []" if "ap_first_error ?ap = None"
  proof -
    obtain i where i: "i < length (re_providers r)" "re_providers r ! i = pv"
      using assms(3) by (auto simp: in_set_conv_nth)
    with attr that obtain own where "pv_plan pv (re_context r) (fst (apply_program_choice config (re_choice r))) s = Inr own"
      and "entry_for (ap_plan ?ap) own (ap_entries ?ap ! i)" and "i < length (ap_entries ?ap)"
      by (auto simp: attribution_def list_all2_conv_all_nth)
    with assms(4) summary_conflicts [of own] show ?thesis
      unfolding entry_for_def by (intro bexI [of _ "ap_entries ?ap ! i"]) auto
  qed
  from run show ?thesis
  proof (cases rule: run_attributed_cases)
    case (refused e')
    then show ?thesis using before by auto
  next
    case conflicting
    then have "has_conflicts (ap_plan ?ap)" using attr by (auto simp: attribution_def covered_def)
    with conflicting_plan_refused [of "ap_plan ?ap" t] conflicting before show ?thesis by auto
  qed (use conflict in auto)
qed

section \<open>A reconciler with two providers\<close>

definition writing_provider :: "string \<Rightarrow> path \<Rightarrow> bytes \<Rightarrow> provider" where
  "writing_provider program p contents =
     \<lparr>pv_id = program,
      pv_plan = (\<lambda>ctx config s. case plan_write_file s p contents 0x180 empty_plan of
                   (plan, Inl e) \<Rightarrow> Inl e
                 | (plan, Inr _) \<Rightarrow>
                     Inr (plan_record_diff program ''settings'' ''create'' p None (Some contents) plan))\<rparr>"

definition failing_provider :: "string \<Rightarrow> provider" where
  "failing_provider program = \<lparr>pv_id = program, pv_plan = (\<lambda>ctx config s. Inl [''no plan''])\<rparr>"

definition demo_reconciler :: "provider list \<Rightarrow> reconciler" where
  "demo_reconciler pvs =
     \<lparr>re_context = \<lparr>rc_merge_user_settings = True, rc_user_mode = True, rc_credential_helper = [], rc_socket = [],
                    rc_llm_proxy = None\<rparr>,
      re_providers = pvs, re_last_apply = None, re_choice = AllPrograms\<rparr>"

definition demo_config :: daemon_config where
  "demo_config =
     \<lparr>dc_daemon = None, dc_controller = None, dc_llm_gateway = None, dc_sandbox = None,
      dc_telemetry = \<lparr>tel_events = []\<rparr>, dc_programs = default_programs,
      dc_program_selection = \<lparr>allow_user_choice = True\<rparr>, dc_inventory_interval = 1\<rparr>"

abbreviation demo_providers :: "provider list" where
  "demo_providers \<equiv> [writing_provider ''codex'' [RootDir, Normal ''f''] ''x'', writing_provider ''pi'' [RootDir, Normal ''g''] ''y'']"

lemma writing_provider_proper:
  assumes "pv_plan (writing_provider program p contents) ctx config s = Inr own"
  shows "proper_plan s own"
proof -
  obtain plan r where w: "plan_write_file s p contents 0x180 empty_plan = (plan, r)" by force
  have "planned s plan" using planned_write [OF planned_empty w] .
  moreover have "rp_registry plan = []" and "rp_private_dirs plan = []"
    using w by (auto simp: plan_write_file_def plan_read_def push_operation_def empty_plan_def Let_def
        split: outcome_splits)
  ultimately show ?thesis
    using assms w
    by (auto simp: writing_provider_def proper_plan_def plan_record_diff_def [symmetric] intro: planned_record_diff
        split: sum.splits) (auto simp: plan_record_diff_def)
qed

lemma demo_providers_plan: "providers_plan (demo_reconciler (demo_providers @ map failing_provider programs)) config s"
  by (auto simp: providers_plan_def demo_reconciler_def failing_provider_def intro: writing_provider_proper)

theorem report_is_truthful_witness:
  "\<exists>t' report oc. attributed_apply (plan_with_report (demo_reconciler demo_providers) demo_config demo_win) demo_win
      = (t', report, Inr ())
    \<and> oc \<in> set (ar_programs report) \<and> po_state oc = Removed \<and> op_holds demo_write t'"
proof -
  let ?r = "demo_reconciler demo_providers"
  let ?a = "attributed_apply (plan_with_report ?r demo_config demo_win) demo_win"
  let ?pv = "writing_provider ''codex'' [RootDir, Normal ''f''] ''x''"
  let ?own = "pv_plan ?pv (re_context ?r) (fst (apply_program_choice demo_config (re_choice ?r))) demo_win"
  have run: "map po_program (ar_programs (fst (snd ?a))) = [''codex'', ''pi''] \<and>
      map po_state (ar_programs (fst (snd ?a))) = [Removed, Removed] \<and> snd (snd ?a) = Inr ()"
    by code_simp
  have "case ?own of Inl e \<Rightarrow> False | Inr own \<Rightarrow> rp_operations own = [demo_write]" by code_simp
  then obtain own where own: "?own = Inr own" and ops: "rp_operations own = [demo_write]"
    by (auto split: sum.splits)
  obtain t' report where eq: "?a = (t', report, Inr ())" using run by (metis prod.collapse)
  with run obtain oc where oc: "oc \<in> set (ar_programs report)" "po_program oc = ''codex''" "po_state oc = Removed"
    by (cases "ar_programs report") auto
  have "providers_plan ?r demo_config demo_win" using demo_providers_plan [of "[]"] by simp
  moreover have "distinct (map pv_id (re_providers ?r))"
    by (simp add: demo_reconciler_def writing_provider_def)
  moreover have "?pv \<in> set (re_providers ?r)" by (simp add: demo_reconciler_def)
  ultimately have "op_holds demo_write t'"
    using report_is_truthful [OF _ _ eq _ own oc(1)] oc ops by (simp add: writing_provider_def)
  with eq oc show ?thesis by blast
qed

text \<open>
  On Windows: Claude Desktop plans a registry change, Codex and Pi a file each, and the file of Pi cannot
  be put in place. The file of Codex has been written by then, but Codex is reported as blocked by Pi,
  since the registry range of its entry ends after the (empty) part of the registry work that was done.
\<close>

definition registry_provider :: "string \<Rightarrow> registry_key_plan \<Rightarrow> provider" where
  "registry_provider program k =
     \<lparr>pv_id = program,
      pv_plan = (\<lambda>ctx config s. Inr (plan_record_diff program ''policy'' ''create'' (display_path (rkp_key k)) None None
                   (plan_registry_key k empty_plan)))\<rparr>"

definition demo_windows :: win_os where
  "demo_windows = demo_win\<lparr>os_unix := False,
     os_refuses := (\<lambda>call. case call of
        Rename p q \<Rightarrow> if q = [RootDir, Normal ''g''] then Some (IoError OtherKind ''denied'') else None
      | _ \<Rightarrow> None)\<rparr>"

lemma blocked_although_written:
  "let key = \<lparr>rkp_key = local_machine ''Claude'', rkp_observed = [], rkp_changes = [(''k'', Some ''v'')],
          rkp_delete_key_when_empty = False\<rparr>;
       r = demo_reconciler (registry_provider ''claude-desktop'' key # demo_providers);
       (t', report, result) = attributed_apply (plan_with_report r demo_config demo_windows) demo_windows
   in map (\<lambda>oc. (po_program oc, po_state oc)) (ar_programs report)
        = [(''claude-desktop'', Blocked), (''codex'', Blocked), (''pi'', Failed)]
      \<and> fs_read t' [RootDir, Normal ''f''] = Inr ''x''"
  by code_simp

theorem one_failure_writes_nothing_witness:
  "let r = demo_reconciler (demo_providers @ [failing_provider ''grok''])
   in fst (attributed_apply (plan_with_report r demo_config demo_win) demo_win) = demo_win"
proof -
  let ?r = "demo_reconciler (demo_providers @ map failing_provider [''grok''])"
  obtain t' report result where
    eq: "attributed_apply (plan_with_report ?r demo_config demo_win) demo_win = (t', report, result)"
    by (metis prod_cases3)
  have "failing_provider ''grok'' \<in> set (re_providers ?r)" by (simp add: demo_reconciler_def)
  from one_failure_writes_nothing [OF demo_providers_plan eq this] eq show ?thesis
    by (simp add: failing_provider_def)
qed

end
