(* ===== verification/Overlay.thy ===== *)
theory Overlay
  imports Json
begin

text \<open>
  The pure part of \<^verbatim>\<open>crates/agent/src/provider/json_merge.rs\<close>: how a managed document is laid over
  a user's document (\<^verbatim>\<open>merge_overlay\<close>), how a later reconciliation takes it back while keeping
  what the user changed meanwhile (\<^verbatim>\<open>rollback_value\<close>), and the arrays whose elements are owned by
  key. A \<^verbatim>\<open>for\<close> loop that mutates its target is a recursive function with the target as its
  last argument; \<^verbatim>\<open>position\<close> followed by \<^verbatim>\<open>remove\<close> is \<^const>\<open>remove1\<close>.
\<close>

section \<open>Laying a managed document over a base\<close>

fun push_missing :: "json list \<Rightarrow> json list \<Rightarrow> json list" where
  "push_missing base [] = base"
| "push_missing base (v # overlay) =
     push_missing (if v \<in> set base then base else base @ [v]) overlay"

function (sequential) merge_overlay :: "json \<Rightarrow> json \<Rightarrow> json"
  and merge_entries :: "entries \<Rightarrow> entries \<Rightarrow> entries" where
  "merge_overlay (Object base) (Object overlay) = Object (merge_entries base overlay)"
| "merge_overlay (Array base) (Array overlay) = Array (push_missing base overlay)"
| "merge_overlay base overlay = overlay"
| "merge_entries base [] = base"
| "merge_entries base ((k, v) # overlay) =
     merge_entries
       (om_insert k (merge_overlay (case om_get base k of None \<Rightarrow> Null | Some b \<Rightarrow> b) v) base)
       overlay"
  by pat_completeness auto
termination
  by (relation "measure (case_sum (\<lambda>(b, v). size v) (\<lambda>(b, m). entries_size m))") auto

section \<open>Taking a managed document back\<close>

text \<open>A \<^verbatim>\<open>BTreeSet\<close> built from a list, in iteration order.\<close>

definition btree_set :: "'a::linorder list \<Rightarrow> 'a list" where
  "btree_set xs = remdups_adj (sort xs)"

lemma set_btree_set [simp]: "set (btree_set xs) = set xs"
  by (simp add: btree_set_def)

text \<open>The removal of the added elements from an array that the merge only extended.\<close>

fun remove_added :: "json list \<Rightarrow> json list \<Rightarrow> json list" where
  "remove_added [] result = result"
| "remove_added (v # added) result = remove_added added (remove1 v result)"

text \<open>
  The two loops for an array that the merge replaced: the state is \<^verbatim>\<open>(result, restored, added)\<close>
  in the first and \<^verbatim>\<open>(result, restored)\<close> in the second.
\<close>

fun replay_after ::
  "json list \<Rightarrow> json list \<times> json list \<times> json list \<Rightarrow> json list \<times> json list \<times> json list" where
  "replay_after [] s = s"
| "replay_after (v # after) (result, restored, added) =
     replay_after after
       (if v \<in> set added then (result, remove1 v restored, remove1 v added)
        else (remove1 v result, remove1 v restored, added))"

fun keep_added :: "json list \<Rightarrow> json list \<Rightarrow> json list \<Rightarrow> json list" where
  "keep_added [] result restored = result"
| "keep_added (v # added) result restored =
     (if v \<in> set restored then keep_added added result (remove1 v restored)
      else keep_added added (result @ [v]) restored)"

definition rollback_array :: "json list \<Rightarrow> json list \<Rightarrow> json list \<Rightarrow> json list" where
  "rollback_array current before after =
     (if \<not> prefix before after then
        (case replay_after after (before, before, current) of
           (result, restored, added) \<Rightarrow> keep_added added result restored)
      else remove_added (filter (\<lambda>v. v \<notin> set before) after) current)"

definition none_or :: "('a \<Rightarrow> bool) \<Rightarrow> 'a option \<Rightarrow> bool" where
  "none_or P x \<longleftrightarrow> (case x of None \<Rightarrow> True | Some v \<Rightarrow> P v)"

lemma none_or_simps [simp]: "none_or P None" "none_or P (Some v) = P v"
  by (simp_all add: none_or_def)

definition object_of :: "json option \<Rightarrow> entries" where
  "object_of v = (case Option.bind v as_object of None \<Rightarrow> [] | Some m \<Rightarrow> m)"

definition array_of :: "json option \<Rightarrow> json list" where
  "array_of v = (case Option.bind v as_array of None \<Rightarrow> [] | Some xs \<Rightarrow> xs)"

lemma object_of_simps [simp]: "object_of None = []" "object_of (Some (Object m)) = m"
  by (simp_all add: object_of_def)

lemma array_of_simps [simp]: "array_of None = []" "array_of (Some (Array xs)) = xs"
  by (simp_all add: array_of_def)

definition value_size :: "json option \<Rightarrow> nat" where
  "value_size v = (case v of None \<Rightarrow> 0 | Some w \<Rightarrow> Suc (size w))"

lemma value_size_get: "value_size (om_get m k) < Suc (entries_size m)"
  by (cases "om_get m k") (auto simp: value_size_def dest: entries_size_get)

function (sequential) rollback_value ::
    "json option \<Rightarrow> json option \<Rightarrow> json option \<Rightarrow> json option"
  and rollback_keys :: "string list \<Rightarrow> entries \<Rightarrow> entries \<Rightarrow> entries \<Rightarrow> entries \<Rightarrow> entries" where
  "rollback_value current before after =
     (if current = after then before
      else if before = after then current
      else case current of
        None \<Rightarrow> None
      | Some (Object c) \<Rightarrow>
          if none_or is_object before \<and> none_or is_object after then
            Some (Object
              (rollback_keys
                (btree_set (om_keys c @ om_keys (object_of before) @ om_keys (object_of after)))
                c (object_of before) (object_of after) c))
          else current
      | Some (Array xs) \<Rightarrow>
          if none_or is_array before \<and> none_or is_array after then
            Some (Array (rollback_array xs (array_of before) (array_of after)))
          else current
      | Some v \<Rightarrow> current)"
| "rollback_keys [] c b a result = result"
| "rollback_keys (k # ks) c b a result =
     rollback_keys ks c b a
       (case rollback_value (om_get c k) (om_get b k) (om_get a k) of
          Some v \<Rightarrow> om_insert k v result
        | None \<Rightarrow> om_remove k result)"
  by pat_completeness auto
termination
  by (relation "measures
        [case_sum (\<lambda>(c, b, a). value_size c) (\<lambda>(ks, c, b, a, r). Suc (entries_size c)),
         case_sum (\<lambda>_. 0) (\<lambda>(ks, c, b, a, r). length ks)]")
    (auto simp: value_size_get, simp_all add: value_size_def)

declare rollback_value.simps [simp del]

definition rollback_overlay :: "json \<Rightarrow> json \<Rightarrow> json \<Rightarrow> json" where
  "rollback_overlay current before after =
     (case rollback_value (Some current) (Some before) (Some after) of
        None \<Rightarrow> Object [] | Some v \<Rightarrow> v)"

section \<open>Arrays whose elements are identified by a key\<close>

record keyed_array_spec =
  ka_field :: string
  ka_keys :: "string list"

fun collect_options :: "'a option list \<Rightarrow> 'a list option" where
  "collect_options [] = Some []"
| "collect_options (None # xs) = None"
| "collect_options (Some x # xs) = map_option ((#) x) (collect_options xs)"

definition element_key :: "keyed_array_spec \<Rightarrow> json \<Rightarrow> string list option" where
  "element_key keyed e =
     collect_options (map (\<lambda>k. Option.bind (get_field e k) as_str) (ka_keys keyed))"

definition keyed_array :: "json \<Rightarrow> keyed_array_spec \<Rightarrow> json list option" where
  "keyed_array doc keyed =
     (if ka_field keyed = [] then as_array doc
      else Option.bind (get_field doc (ka_field keyed)) as_array)"

text \<open>Writing back through \<^verbatim>\<open>keyed_array_mut\<close>.\<close>

definition keyed_array_set :: "json \<Rightarrow> keyed_array_spec \<Rightarrow> json list \<Rightarrow> json" where
  "keyed_array_set doc keyed xs =
     (if ka_field keyed = [] then Array xs
      else case doc of
        Object m \<Rightarrow> Object (om_insert (ka_field keyed) (Array xs) m)
      | v \<Rightarrow> v)"

definition element_keys :: "json \<Rightarrow> keyed_array_spec \<Rightarrow> string list list" where
  "element_keys doc keyed =
     List.map_filter (element_key keyed)
       (case keyed_array doc keyed of None \<Rightarrow> [] | Some xs \<Rightarrow> xs)"

definition remove_keyed :: "json \<Rightarrow> keyed_array_spec \<Rightarrow> json \<Rightarrow> json" where
  "remove_keyed doc keyed managed =
     (let managed_keys = element_keys managed keyed
      in if managed_keys = [] then doc
         else case keyed_array doc keyed of
           None \<Rightarrow> doc
         | Some elements \<Rightarrow>
             keyed_array_set doc keyed
               (filter (\<lambda>e. none_or (\<lambda>key. key \<notin> set managed_keys) (element_key keyed e))
                 elements))"

definition keyed_added :: "keyed_array_spec \<Rightarrow> json \<Rightarrow> json \<Rightarrow> json" where
  "keyed_added keyed before after =
     (let before_keys = element_keys before keyed;
          added = filter
            (\<lambda>e. case element_key keyed e of None \<Rightarrow> False | Some key \<Rightarrow> key \<notin> set before_keys)
            (case keyed_array after keyed of None \<Rightarrow> [] | Some xs \<Rightarrow> xs)
      in if ka_field keyed = [] then Array added else Object [(ka_field keyed, Array added)])"

section \<open>Facts about the merge\<close>

abbreviation or_null :: "json option \<Rightarrow> json" where
  "or_null v \<equiv> (case v of None \<Rightarrow> Null | Some b \<Rightarrow> b)"

lemma set_push_missing: "set (push_missing base overlay) = set base \<union> set overlay"
  by (induction base overlay rule: push_missing.induct) auto

lemma push_missing_subset: "set overlay \<subseteq> set base \<Longrightarrow> push_missing base overlay = base"
  by (induction base overlay rule: push_missing.induct) auto

lemma push_missing_new:
  "\<exists>xs. push_missing base overlay = base @ xs \<and> distinct xs \<and> set xs \<inter> set base = {}
        \<and> set xs \<subseteq> set overlay"
proof (induction base overlay rule: push_missing.induct)
  case (2 base v overlay)
  then obtain xs where xs: "push_missing (if v \<in> set base then base else base @ [v]) overlay
      = (if v \<in> set base then base else base @ [v]) @ xs" "distinct xs"
      "set xs \<inter> set (if v \<in> set base then base else base @ [v]) = {}" "set xs \<subseteq> set overlay"
    by blast
  show ?case
  proof (cases "v \<in> set base")
    case True
    with xs show ?thesis by auto
  next
    case False
    with xs show ?thesis by (auto intro!: exI [of _ "v # xs"])
  qed
qed simp

lemma get_merge_entries:
  "om_wf overlay \<Longrightarrow>
   om_get (merge_entries base overlay) k =
     (case om_get overlay k of
        None \<Rightarrow> om_get base k
      | Some v \<Rightarrow> Some (merge_overlay (or_null (om_get base k)) v))"
proof (induction overlay arbitrary: base)
  case (Cons e overlay)
  obtain k' v where e: "e = (k', v)" by force
  from Cons.prems e have wf: "om_wf overlay" and fresh: "om_get overlay k' = None"
    by (auto simp: om_wf_Cons map_of_eq_None_iff)
  from Cons.IH [OF wf] fresh e show ?case
    by (auto split: option.splits)
qed simp

lemma merge_overlay_wf:
  "json_wf b \<Longrightarrow> json_wf v \<Longrightarrow> json_wf (merge_overlay b v)"
  "entries_wf m \<Longrightarrow> entries_wf n \<Longrightarrow> entries_wf (merge_entries m n)"
proof (induction b v and m n rule: merge_overlay_merge_entries.induct)
  case (2 base overlay)
  then show ?case
    by (auto simp: list_all_iff set_push_missing)
next
  case (5 base k v overlay)
  have "json_wf (merge_overlay (or_null (om_get base k)) v)"
    using 5(3,4) by (intro 5(1)) (auto simp: entries_wf_Cons split: option.splits dest: entries_wf_get)
  with 5(2,3,4) show ?case by (simp add: entries_wf_Cons)
qed simp_all

lemma merge_entries_absent:
  assumes m: "entries_wf m" and n: "entries_wf n"
    and h: "\<And>k v. om_get n k = Some v \<Longrightarrow> \<exists>b. om_get m k = Some b \<and> merge_overlay b v = b"
  shows "merge_entries m n = m"
proof (rule entries_wf_ext)
  show "om_get (merge_entries m n) = om_get m"
  proof
    fix k
    show "om_get (merge_entries m n) k = om_get m k"
      using n h [of k] by (cases "om_get n k") (auto simp: get_merge_entries)
  qed
qed (simp_all add: merge_overlay_wf m n)

text \<open>A document that has every managed value in place.\<close>

fun covers :: "json \<Rightarrow> json \<Rightarrow> bool" where
  "covers (Object m) (Object n) \<longleftrightarrow>
     list_all (\<lambda>(k, v). case om_get m k of None \<Rightarrow> False | Some b \<Rightarrow> covers b v) n"
| "covers (Array xs) (Array ys) \<longleftrightarrow> set ys \<subseteq> set xs"
| "covers b v \<longleftrightarrow> b = v"

lemma covers_refl: "json_wf v \<Longrightarrow> covers v v"
proof (induction v)
  case (Object m)
  have "covers w w" if "(k, w) \<in> set m" for k w
    using Object.IH [OF that] Object.prems that by (auto dest: entries_wf_mem)
  moreover have "om_get m k = Some w" if "(k, w) \<in> set m" for k w
    using Object.prems that by (simp add: om_get_in_set)
  ultimately show ?case
    by (auto simp: list_all_iff)
qed simp_all

lemma covers_merge:
  "json_wf b \<Longrightarrow> json_wf v \<Longrightarrow> covers (merge_overlay b v) v"
proof (induction v arbitrary: b)
  case (Object n)
  show ?case
  proof (cases "\<exists>m. b = Object m")
    case True
    then obtain m where b: "b = Object m" ..
    have "\<exists>w. om_get (merge_entries m n) k = Some w \<and> covers w v" if kv: "(k, v) \<in> set n" for k v
    proof -
      from kv Object.prems have g: "om_get n k = Some v" and v: "json_wf v"
        by (auto simp: om_get_in_set intro: entries_wf_mem)
      have "json_wf (or_null (om_get m k))"
        using Object.prems(1) b by (auto split: option.splits dest: entries_wf_get)
      with Object.IH [OF kv, of v] v have "covers (merge_overlay (or_null (om_get m k)) v) v"
        by simp
      with g Object.prems(2) show ?thesis by (simp add: get_merge_entries)
    qed
    with b show ?thesis by (fastforce simp: list_all_iff split: option.splits)
  next
    case False
    then have "merge_overlay b (Object n) = Object n"
      by (cases b) auto
    with covers_refl [OF Object.prems(2)] show ?thesis by simp
  qed
next
  case (Array ys)
  then show ?case by (cases b) (auto simp: set_push_missing)
qed (cases b; simp)+

lemma merge_covered: "json_wf b \<Longrightarrow> json_wf v \<Longrightarrow> covers b v \<Longrightarrow> merge_overlay b v = b"
proof (induction v arbitrary: b)
  case (Object n)
  from Object.prems(3) obtain m where b: "b = Object m"
    by (cases b) auto
  have "merge_entries m n = m"
  proof (rule merge_entries_absent)
    fix k v assume "om_get n k = Some v"
    then have kv: "(k, v) \<in> set n" by (rule map_of_SomeD)
    with Object.prems b obtain w where w: "om_get m k = Some w" "covers w v"
      by (fastforce simp: list_all_iff split: option.splits)
    moreover have "json_wf w" "json_wf v"
      using Object.prems b w(1) kv by (auto dest: entries_wf_get entries_wf_mem)
    ultimately show "\<exists>b. om_get m k = Some b \<and> merge_overlay b v = b"
      using Object.IH [OF kv, of v w] by auto
  qed (use Object.prems b in simp_all)
  with b show ?case by simp
next
  case (Array ys)
  then show ?case by (cases b) (auto simp: push_missing_subset)
qed (cases b; simp)+

section \<open>Facts about the rollback\<close>

lemma rollback_unedited [simp]: "rollback_value v b v = b"
  by (simp add: rollback_value.simps)

lemma rollback_unmanaged [simp]: "rollback_value c v v = c"
  by (simp add: rollback_value.simps)

lemma rollback_None: "rollback_value None b a = (if a = None then b else None)"
  by (simp add: rollback_value.simps)

lemma get_rollback_keys:
  "distinct ks \<Longrightarrow>
   om_get (rollback_keys ks c b a r) k =
     (if k \<in> set ks then rollback_value (om_get c k) (om_get b k) (om_get a k)
      else om_get r k)"
  by (induction ks arbitrary: r) (auto split: option.splits)

lemma rollback_keys_wf:
  assumes "entries_wf r"
    and "\<And>k v. k \<in> set ks \<Longrightarrow> rollback_value (om_get c k) (om_get b k) (om_get a k) = Some v
      \<Longrightarrow> json_wf v"
  shows "entries_wf (rollback_keys ks c b a r)"
  using assms
proof (induction ks arbitrary: r)
  case (Cons k ks)
  let ?v = "rollback_value (om_get c k) (om_get b k) (om_get a k)"
  have "entries_wf (case ?v of Some v \<Rightarrow> om_insert k v r | None \<Rightarrow> om_remove k r)"
    using Cons.prems(1) Cons.prems(2) [of k] by (cases ?v) simp_all
  then show ?case
    using Cons.prems(2) by (auto intro!: Cons.IH)
qed simp

lemma distinct_btree_set [simp]: "distinct (btree_set xs)"
proof -
  have "sorted ys \<Longrightarrow> distinct (remdups_adj ys)" for ys :: "'a list"
  proof (induction ys rule: remdups_adj.induct)
    case (3 x y ys)
    then show ?case by (auto simp: order_less_le)
  qed simp_all
  then show ?thesis by (simp add: btree_set_def)
qed

lemma remove_added_subset: "set (remove_added added xs) \<subseteq> set xs"
proof (induction added xs rule: remove_added.induct)
  case (2 v added result)
  then show ?case using set_remove1_subset [of v result] by auto
qed simp

lemma replay_after_subset:
  "replay_after after (result, restored, added) = (result', restored', added') \<Longrightarrow>
   set result' \<subseteq> set result \<and> set added' \<subseteq> set added"
proof (induction after arbitrary: result restored added)
  case (Cons v after)
  show ?case
  proof (cases "v \<in> set added")
    case True
    with Cons.prems Cons.IH [of result "remove1 v restored" "remove1 v added"]
    show ?thesis using set_remove1_subset [of v added] by auto
  next
    case False
    with Cons.prems Cons.IH [of "remove1 v result" "remove1 v restored" added]
    show ?thesis using set_remove1_subset [of v result] by auto
  qed
qed simp

lemma keep_added_subset: "set (keep_added added result restored) \<subseteq> set result \<union> set added"
  by (induction added result restored rule: keep_added.induct) auto

lemma rollback_array_subset: "set (rollback_array c b a) \<subseteq> set c \<union> set b"
proof (cases "prefix b a")
  case True
  then show ?thesis
    using remove_added_subset by (fastforce simp: rollback_array_def)
next
  case False
  obtain result restored added where r: "replay_after a (b, b, c) = (result, restored, added)"
    by (cases "replay_after a (b, b, c)")
  with replay_after_subset [OF r] keep_added_subset [of added result restored] False show ?thesis
    by (auto simp: rollback_array_def)
qed

text \<open>The rollback of a well-formed value is well-formed.\<close>

abbreviation opt_wf :: "json option \<Rightarrow> bool" where
  "opt_wf v \<equiv> none_or json_wf v"

lemma opt_wf_get: "entries_wf m \<Longrightarrow> opt_wf (om_get m k)"
  by (auto simp: none_or_def split: option.splits dest: entries_wf_get)

lemma object_of_wf: "opt_wf v \<Longrightarrow> entries_wf (object_of v)"
  by (cases v) (auto simp: object_of_def split: option.splits elim!: as_object.elims)

lemma array_of_wf: "opt_wf v \<Longrightarrow> list_all json_wf (array_of v)"
  by (cases v) (auto simp: array_of_def split: option.splits elim!: as_array.elims)

lemma rollback_value_wf:
  "opt_wf c \<Longrightarrow> opt_wf b \<Longrightarrow> opt_wf a \<Longrightarrow> opt_wf (rollback_value c b a)"
proof (induction "value_size c" arbitrary: c b a rule: less_induct)
  case less
  show ?case
  proof (cases "c = a \<or> b = a")
    case True
    with less.prems show ?thesis by (auto simp: rollback_value.simps)
  next
    case False
    show ?thesis
    proof (cases c)
      case (Some v)
      show ?thesis
      proof (cases v)
        case (Object m)
        have m: "entries_wf m" using less.prems(1) Some Object by simp
        have "json_wf w"
          if "rollback_value (om_get m k) (om_get (object_of b) k) (om_get (object_of a) k) = Some w"
          for k w
        proof -
          have "value_size (om_get m k) < value_size c"
            using Some Object value_size_get [of m k] by (simp add: value_size_def)
          from less.hyps [OF this, of "om_get (object_of b) k" "om_get (object_of a) k"]
          show ?thesis
            using that m less.prems by (auto simp: opt_wf_get object_of_wf)
        qed
        with m False Some Object less.prems(1) show ?thesis
          by (auto simp: rollback_value.simps [of "Some (Object m)"] intro: rollback_keys_wf)
      next
        case (Array xs)
        with False Some less.prems show ?thesis
          using rollback_array_subset [of xs "array_of b" "array_of a"] array_of_wf [of b]
          by (auto simp: rollback_value.simps [of "Some (Array xs)"] list_all_iff)
      qed (use False Some less.prems in \<open>simp_all add: rollback_value.simps\<close>)
    qed (use False less.prems in \<open>simp add: rollback_None\<close>)
  qed
qed

lemma rollback_overlay_wf:
  "json_wf c \<Longrightarrow> json_wf b \<Longrightarrow> json_wf a \<Longrightarrow> json_wf (rollback_overlay c b a)"
  using rollback_value_wf [of "Some c" "Some b" "Some a"]
  by (auto simp: rollback_overlay_def none_or_def split: option.splits)

text \<open>On three objects the rollback works key by key.\<close>

lemma get_rollback_object:
  assumes "om_wf c" "om_wf b" "om_wf a"
  shows "\<exists>r. rollback_value (Some (Object c)) (Some (Object b)) (Some (Object a)) = Some (Object r)
    \<and> (\<forall>k. om_get r k = rollback_value (om_get c k) (om_get b k) (om_get a k))"
proof (cases "c = a \<or> b = a")
  case True
  then show ?thesis by (auto simp: rollback_value.simps [of "Some (Object _)"])
next
  case False
  let ?ks = "btree_set (om_keys c @ om_keys b @ om_keys a)"
  have "rollback_value (om_get c k) (om_get b k) (om_get a k) = om_get c k" if "k \<notin> set ?ks" for k
  proof -
    from that have "om_get c k = None" "om_get b k = None" "om_get a k = None"
      using om_keys_get [of k c] om_keys_get [of k b] om_keys_get [of k a] by auto
    then show ?thesis by simp
  qed
  with False show ?thesis
    by (auto simp: rollback_value.simps [of "Some (Object _)"] get_rollback_keys)
qed

section \<open>Arrays that the merge only extended\<close>

lemma mset_remove_added: "mset (remove_added added xs) = mset xs - mset added"
  by (induction added xs rule: remove_added.induct) simp_all

lemma remove_added_prefix:
  "set added \<inter> set before = {} \<Longrightarrow>
   remove_added added (before @ xs) = before @ remove_added added xs"
  by (induction added xs rule: remove_added.induct) (auto simp: remove1_append)

lemma remove_added_self: "remove_added xs (xs @ ys) = ys"
  by (induction xs) simp_all

lemma rollback_array_extended:
  assumes "push_missing before managed = before @ added"
  shows "rollback_array (before @ xs) before (before @ added) = before @ remove_added added xs"
proof -
  obtain ys where ys: "push_missing before managed = before @ ys" "set ys \<inter> set before = {}"
    using push_missing_new by blast
  with assms have disj: "set added \<inter> set before = {}" by simp
  then have "filter (\<lambda>v. v \<notin> set before) (before @ added) = added"
    by (auto simp: filter_id_conv filter_empty_conv)
  with disj show ?thesis
    by (simp add: rollback_array_def remove_added_prefix)
qed

section \<open>Values along a path of keys\<close>

text \<open>
  The value at a path of object keys, and whether an overlay names a path: it does when it has a
  value there or puts a value other than an object somewhere above it.
\<close>

fun at_path :: "json \<Rightarrow> string list \<Rightarrow> json option" where
  "at_path v [] = Some v"
| "at_path (Object m) (k # ks) = (case om_get m k of None \<Rightarrow> None | Some v \<Rightarrow> at_path v ks)"
| "at_path v (k # ks) = None"

fun names_path :: "json \<Rightarrow> string list \<Rightarrow> bool" where
  "names_path v [] \<longleftrightarrow> True"
| "names_path (Object n) (k # ks) \<longleftrightarrow> (case om_get n k of None \<Rightarrow> False | Some v \<Rightarrow> names_path v ks)"
| "names_path v (k # ks) \<longleftrightarrow> True"

definition at_opt :: "json option \<Rightarrow> string list \<Rightarrow> json option" where
  "at_opt v ks = Option.bind v (\<lambda>w. at_path w ks)"

lemma at_opt_simps [simp]: "at_opt None ks = None" "at_opt (Some v) ks = at_path v ks"
  by (simp_all add: at_opt_def)

lemma at_opt_Nil [simp]: "at_opt v [] = v"
  by (cases v) simp_all

lemma at_path_Object: "at_path (Object m) (k # ks) = at_opt (om_get m k) ks"
  by (simp split: option.splits)

lemma at_path_other: "\<not> is_object v \<Longrightarrow> at_path v (k # ks) = None"
  by (cases v) simp_all

lemma names_other: "\<not> is_object v \<Longrightarrow> names_path v ks"
  by (cases v; cases ks) simp_all

lemma at_path_named: "at_path n ks = Some v \<Longrightarrow> names_path n ks"
  by (induction n ks rule: at_path.induct) (auto split: option.splits)

lemma merge_overlay_other: "\<not> is_object b \<Longrightarrow> is_object n \<Longrightarrow> merge_overlay b n = n"
  by (cases b; cases n) simp_all

lemma merge_overlay_Null [simp]: "merge_overlay Null n = n"
  by (cases n) simp_all

lemma merge_unnamed: "json_wf n \<Longrightarrow> \<not> names_path n ks \<Longrightarrow> at_path (merge_overlay b n) ks = at_path b ks"
proof (induction ks arbitrary: b n)
  case (Cons k ks)
  then obtain e where n: "n = Object e" using names_other by (cases n) auto
  show ?case
  proof (cases "is_object b")
    case True
    then obtain m where b: "b = Object m" by (cases b) auto
    show ?thesis
    proof (cases "om_get e k")
      case None
      then show ?thesis using Cons.prems n b by (simp add: get_merge_entries)
    next
      case (Some v)
      then have "at_path (merge_overlay (or_null (om_get m k)) v) ks = at_path (or_null (om_get m k)) ks"
        using Cons n by (auto dest: entries_wf_get)
      moreover have "ks \<noteq> []" using Cons.prems n Some by (cases ks) auto
      ultimately show ?thesis using Cons.prems n b Some
        by (cases ks) (simp_all add: get_merge_entries split: option.splits)
    qed
  next
    case False
    then show ?thesis
      using Cons.prems n at_path_named [of n "k # ks"] by (cases "at_path n (k # ks)") (auto simp: merge_overlay_other at_path_other)
  qed
qed simp

text \<open>Where both documents have a value, the merged document has their merge.\<close>

lemma merge_at_path:
  "json_wf n \<Longrightarrow> at_path b ks = Some v \<Longrightarrow> at_path n ks = Some w \<Longrightarrow> at_path (merge_overlay b n) ks = Some (merge_overlay v w)"
proof (induction ks arbitrary: b n)
  case (Cons k ks)
  then obtain m e where b: "b = Object m" and n: "n = Object e" by (cases b; cases n) auto
  obtain x y where "om_get m k = Some x" "at_path x ks = Some v" "om_get e k = Some y" "at_path y ks = Some w"
    using Cons.prems b n by (auto split: option.splits)
  then show ?case using Cons.IH [of y x] Cons.prems(1) b n by (auto simp: get_merge_entries dest: entries_wf_get)
qed simp

section \<open>Properties\<close>

text \<open>
  C3. Laying a managed document over a user's document puts every managed value in place; at every
  depth it leaves the value at each path that the managed document does not name as it was; where
  both have an array it keeps the user's elements in their order and appends managed ones; and it is
  idempotent: merging the same managed document again changes nothing.
\<close>

theorem merge_overlay_in_place:
  assumes "json_wf (Object m)" and "json_wf (Object n)"
  shows "covers (merge_overlay (Object m) (Object n)) (Object n)
    \<and> (\<forall>ks. \<not> names_path (Object n) ks \<longrightarrow>
          at_path (merge_overlay (Object m) (Object n)) ks = at_path (Object m) ks)
    \<and> (\<forall>ks xs ys. at_path (Object m) ks = Some (Array xs) \<and> at_path (Object n) ks = Some (Array ys) \<longrightarrow>
          (\<exists>added. at_path (merge_overlay (Object m) (Object n)) ks = Some (Array (xs @ added))
             \<and> distinct added \<and> set added = set ys - set xs))
    \<and> merge_overlay (merge_overlay (Object m) (Object n)) (Object n)
        = merge_overlay (Object m) (Object n)"
proof (intro conjI allI impI; (elim conjE)?)
  show cov: "covers (merge_overlay (Object m) (Object n)) (Object n)"
    using assms by (rule covers_merge)
  show "merge_overlay (merge_overlay (Object m) (Object n)) (Object n)
      = merge_overlay (Object m) (Object n)"
    using assms cov by (intro merge_covered merge_overlay_wf)
  show "at_path (merge_overlay (Object m) (Object n)) ks = at_path (Object m) ks" if "\<not> names_path (Object n) ks" for ks
    using assms(2) that by (rule merge_unnamed)
  show "\<exists>added. at_path (merge_overlay (Object m) (Object n)) ks = Some (Array (xs @ added))
      \<and> distinct added \<and> set added = set ys - set xs"
    if "at_path (Object m) ks = Some (Array xs)" "at_path (Object n) ks = Some (Array ys)" for ks xs ys
  proof -
    obtain added where "push_missing xs ys = xs @ added" "distinct added" "set added \<inter> set xs = {}"
      using push_missing_new by blast
    moreover have "set (push_missing xs ys) = set xs \<union> set ys" by (rule set_push_missing)
    ultimately show ?thesis using merge_at_path [OF assms(2) that] by auto
  qed
qed

definition demo_user :: entries where
  "demo_user = [(''env'', Object [(''DEBUG'', String ''1'')]), (''model'', String ''mine''), (''tools'', Array [String ''a''])]"

definition demo_managed :: entries where
  "demo_managed = [(''env'', Object [(''URL'', String ''u'')]), (''tools'', Array [String ''b''])]"

lemma demo_wf: "json_wf (Object demo_user)" "json_wf (Object demo_managed)"
  by (simp_all add: demo_user_def demo_managed_def entries_wf_def om_wf_def less_char_def)

theorem merge_overlay_in_place_witness:
  "covers (merge_overlay (Object demo_user) (Object demo_managed)) (Object demo_managed)
   \<and> at_path (merge_overlay (Object demo_user) (Object demo_managed)) [''env'', ''DEBUG''] = Some (String ''1'')
   \<and> (\<exists>added. at_path (merge_overlay (Object demo_user) (Object demo_managed)) [''tools''] = Some (Array (String ''a'' # added)))"
proof -
  have "\<not> names_path (Object demo_managed) [''env'', ''DEBUG'']" "at_path (Object demo_user) [''tools''] = Some (Array [String ''a''])"
    "at_path (Object demo_managed) [''tools''] = Some (Array [String ''b''])"
    "at_path (Object demo_user) [''env'', ''DEBUG''] = Some (String ''1'')"
    by (simp_all add: demo_managed_def demo_user_def)
  with merge_overlay_in_place [OF demo_wf] show ?thesis by fastforce
qed

text \<open>
  Taking a managed document back is local: on three documents that are objects the result
  is an object whose value at every key is the rollback of that key's three values. An edit
  under one key never changes what happens under another.
\<close>

lemma rollback_key_by_key:
  assumes "json_wf (Object c)" and "json_wf (Object b)" and "json_wf (Object a)"
  shows "\<exists>r. rollback_overlay (Object c) (Object b) (Object a) = Object r
    \<and> (\<forall>k. om_get r k = rollback_value (om_get c k) (om_get b k) (om_get a k))"
  using assms get_rollback_object [of c b a] by (auto simp: rollback_overlay_def)

lemma replay_after_self:
  "replay_after xs (result, restored, xs @ ys) = (result, remove_added xs restored, ys)"
  by (induction xs arbitrary: restored) simp_all

lemma keep_added_fresh:
  "set ys \<inter> set restored = {} \<Longrightarrow> keep_added ys result restored = result @ ys"
  by (induction ys arbitrary: result) auto

lemma rollback_extended:
  "rollback_value (Some (Array (push_missing before managed @ extra)))
      (Some (Array before)) (Some (Array (push_missing before managed)))
    = Some (Array (before @ extra))"
proof -
  obtain added where "push_missing before managed = before @ added"
    using push_missing_new by blast
  then have "rollback_array (push_missing before managed @ extra) before (push_missing before managed)
      = before @ extra"
    using rollback_array_extended [of before managed added "added @ extra"] remove_added_self by simp
  then show ?thesis
    by (auto simp: rollback_value.simps)
qed

lemma rollback_replaced:
  assumes "\<not> prefix before after" and "set extra \<inter> set before = {}"
  shows "rollback_value (Some (Array (after @ extra))) (Some (Array before)) (Some (Array after))
    = Some (Array (before @ extra))"
proof -
  have "set extra \<inter> set (remove_added after before) = {}"
    using assms remove_added_subset [of after before] by blast
  with assms show ?thesis
    by (auto simp: rollback_value.simps rollback_array_def replay_after_self keep_added_fresh)
qed

text \<open>
  The rollback of a value at a path, for a managed object: it descends into an edited object when the
  value before the merge was absent or an object.
\<close>

definition merged_value :: "json option \<Rightarrow> json \<Rightarrow> json option" where
  "merged_value bv m = Some (merge_overlay (or_null bv) m)"

lemma merged_object: "\<exists>a. merge_overlay b (Object e) = Object a"
  by (cases b) simp_all

lemma get_merged_object:
  assumes "merge_overlay (or_null bv) (Object e) = Object a" and "om_wf e" and "none_or is_object bv"
  shows "om_get a k = (case om_get e k of None \<Rightarrow> om_get (object_of bv) k
    | Some v \<Rightarrow> merged_value (om_get (object_of bv) k) v)"
proof (cases bv)
  case None
  then show ?thesis using assms by (auto simp: merged_value_def split: option.splits)
next
  case (Some w)
  then obtain m where "w = Object m" using assms(3) by (cases w) auto
  then show ?thesis using Some assms by (auto simp: get_merge_entries merged_value_def split: option.splits)
qed

lemma rollback_descends:
  assumes "json_wf m" and "m = Object e"
    and "cv \<noteq> merged_value bv m" and "bv \<noteq> merged_value bv m"
  shows "at_opt (rollback_value cv bv (merged_value bv m)) (k # ks) =
     (if none_or is_object bv \<and> none_or is_object cv \<and> cv \<noteq> None then
        (case om_get e k of
           None \<Rightarrow> at_opt cv (k # ks)
         | Some v \<Rightarrow> at_opt (rollback_value (om_get (object_of cv) k) (om_get (object_of bv) k)
             (merged_value (om_get (object_of bv) k) v)) ks)
      else at_opt cv (k # ks))"
proof -
  obtain a where a: "merge_overlay (or_null bv) m = Object a" using assms(2) merged_object by blast
  have "om_wf e" using assms(1,2) by (simp add: entries_wf_def)
  note get = get_merged_object [OF a [unfolded assms(2)] this]
  show ?thesis
  proof (cases cv)
    case None
    then show ?thesis using assms(3) by (simp add: rollback_None merged_value_def)
  next
    case (Some w)
    show ?thesis
    proof (cases w)
      case (Object c)
      let ?ks = "btree_set (om_keys c @ om_keys (object_of bv) @ om_keys a)"
      have "om_get (rollback_keys ?ks c (object_of bv) a c) k = rollback_value (om_get c k) (om_get (object_of bv) k) (om_get a k)"
      proof (cases "k \<in> set ?ks")
        case False
        then have "om_get c k = None" "om_get (object_of bv) k = None" "om_get a k = None"
          using om_keys_get [of k c] om_keys_get [of k "object_of bv"] om_keys_get [of k a] by auto
        with False show ?thesis by (simp add: get_rollback_keys)
      qed (simp add: get_rollback_keys)
      then have "none_or is_object bv \<Longrightarrow> at_opt (rollback_value cv bv (merged_value bv m)) (k # ks)
          = at_opt (rollback_value (om_get c k) (om_get (object_of bv) k) (om_get a k)) ks"
        using assms(3,4) Some Object a by (simp add: rollback_value.simps [of "Some (Object c)"] merged_value_def at_path_Object del: at_path.simps)
      moreover have "\<not> none_or is_object bv \<Longrightarrow> rollback_value cv bv (merged_value bv m) = cv"
        using assms(3,4) Some Object by (simp add: rollback_value.simps [of "Some (Object c)"])
      ultimately show ?thesis using get Some Object
        by (auto simp: at_path_Object simp del: at_path.simps split: option.splits)
    next
      case (Array xs)
      then show ?thesis using assms(3,4) Some by (simp add: rollback_value.simps [of "Some (Array xs)"])
    qed (use assms(3,4) Some in \<open>simp_all add: rollback_value.simps\<close>)
  qed
qed

text \<open>What the managed document does not name stays as the user left it.\<close>

lemma rollback_unnamed:
  "json_wf m \<Longrightarrow> \<not> names_path m ks \<Longrightarrow> at_opt (rollback_value cv bv (merged_value bv m)) ks = at_opt cv ks"
proof (induction ks arbitrary: cv bv m)
  case (Cons k ks)
  then obtain e where m: "m = Object e" using names_other by (cases m) auto
  consider "cv = merged_value bv m" | "bv = merged_value bv m" | "cv \<noteq> merged_value bv m" "bv \<noteq> merged_value bv m" by blast
  then show ?case
  proof cases
    case 1
    have "at_opt (merged_value bv m) (k # ks) = at_opt bv (k # ks)"
      using merge_unnamed [OF Cons.prems, of "or_null bv"] by (cases bv) (simp_all add: merged_value_def)
    with 1 show ?thesis by simp
  next
    case 2
    then show ?thesis by (metis rollback_unmanaged)
  next
    case 3
    have "at_opt (rollback_value cv' bv' (merged_value bv' v)) ks = at_opt cv' ks" if "om_get e k = Some v" for v cv' bv'
      using that Cons m by (auto dest: entries_wf_get)
    then show ?thesis
      unfolding rollback_descends [OF Cons.prems(1) m 3]
      by (cases cv) (auto simp: object_of_def elim!: is_object.elims split: option.splits)
  qed
qed simp

text \<open>
  A managed value that is as the merge left it is taken back, unless the merge replaced something
  other than an object above it.
\<close>

fun opens_path :: "json option \<Rightarrow> string list \<Rightarrow> bool" where
  "opens_path v [] \<longleftrightarrow> True"
| "opens_path None ks \<longleftrightarrow> True"
| "opens_path (Some (Object m)) (k # ks) \<longleftrightarrow> opens_path (om_get m k) ks"
| "opens_path (Some v) (k # ks) \<longleftrightarrow> False"

lemma opens_Cons: "opens_path bv (k # ks) \<longleftrightarrow> none_or is_object bv \<and> opens_path (om_get (object_of bv) k) ks"
proof (cases bv)
  case (Some v)
  then show ?thesis by (cases v) (simp_all add: object_of_def)
qed (cases ks; simp)

lemma merged_at: "json_wf m \<Longrightarrow> at_path m ks \<noteq> None \<Longrightarrow> \<exists>w. at_path (merge_overlay b m) ks = Some w"
proof (induction ks arbitrary: b m)
  case (Cons k ks)
  then obtain e where m: "m = Object e" by (cases m) auto
  then show ?case using Cons
    by (cases b) (auto simp: get_merge_entries split: option.splits dest: entries_wf_get)
qed simp

lemma merged_step:
  assumes "json_wf (Object e)" and "none_or is_object bv" and "om_get e k = Some v"
  shows "at_opt (merged_value bv (Object e)) (k # ks) = at_opt (merged_value (om_get (object_of bv) k) v) ks"
proof -
  obtain a where "merge_overlay (or_null bv) (Object e) = Object a" using merged_object by blast
  with get_merged_object [OF this _ assms(2), of k] assms(1,3) show ?thesis
    by (simp add: merged_value_def at_path_Object entries_wf_def del: at_path.simps)
qed

lemma rollback_unedited_at:
  assumes "json_wf m" and "at_path m ks \<noteq> None" and "opens_path bv ks" and "at_opt cv ks = at_opt (merged_value bv m) ks"
  shows "at_opt (rollback_value cv bv (merged_value bv m)) ks = at_opt bv ks"
  using assms
proof (induction ks arbitrary: cv bv m)
  case (Cons k ks)
  then obtain e where m: "m = Object e" by (cases m) auto
  then obtain v where v: "om_get e k = Some v" "json_wf v" "at_path v ks \<noteq> None"
    using Cons.prems(1,2) by (auto split: option.splits dest: entries_wf_get)
  consider "cv = merged_value bv m" | "bv = merged_value bv m" | "cv \<noteq> merged_value bv m" "bv \<noteq> merged_value bv m" by blast
  then show ?case
  proof cases
    case 1
    then show ?thesis by simp
  next
    case 2
    then show ?thesis using Cons.prems(4) by (metis rollback_unmanaged)
  next
    case 3
    have b: "none_or is_object bv" "opens_path (om_get (object_of bv) k) ks" using Cons.prems(3) by (simp_all add: opens_Cons)
    note a = merged_step [OF Cons.prems(1) [unfolded m] b(1) v(1), of ks, folded m]
    obtain w where "at_opt (merged_value (om_get (object_of bv) k) v) ks = Some w"
      using merged_at [OF v(2,3), of "or_null (om_get (object_of bv) k)"] by (auto simp: merged_value_def)
    with a Cons.prems(4) obtain c where c: "cv = Some (Object c)"
      by (cases cv) (auto elim!: at_path.elims)
    have "at_opt (om_get c k) ks = at_opt (merged_value (om_get (object_of bv) k) v) ks"
      using Cons.prems(4) a c by (simp add: at_path_Object del: at_path.simps)
    from Cons.IH [OF v(2,3) b(2) this] show ?thesis
      unfolding rollback_descends [OF Cons.prems(1) m 3] using b c v(1)
      by (cases bv) (auto simp: at_path_Object object_of_def simp del: at_path.simps elim!: is_object.elims)
  qed
qed simp

text \<open>A managed scalar that the user edited or removed stays as the user left it.\<close>

lemma rollback_edited_at:
  assumes "json_wf m" and "at_path m ks = Some v" and "\<not> is_object v" and "\<not> is_array v"
    and "at_opt cv ks \<noteq> at_opt (merged_value bv m) ks"
  shows "at_opt (rollback_value cv bv (merged_value bv m)) ks = at_opt cv ks"
  using assms(1,2,5)
proof (induction ks arbitrary: cv bv m)
  case Nil
  then have "m = v" by simp
  then have "merged_value bv m = Some v" using assms(3,4) by (cases v; cases "or_null bv") (simp_all add: merged_value_def)
  then show ?case using Nil.prems(3) assms(3,4)
    by (simp add: rollback_value.simps) (auto split: option.splits json.splits)
next
  case (Cons k ks)
  then obtain e where m: "m = Object e" by (cases m) auto
  then obtain w where w: "om_get e k = Some w" "json_wf w" "at_path w ks = Some v"
    using Cons.prems(1,2) by (auto split: option.splits dest: entries_wf_get)
  consider "bv = merged_value bv m" | "cv \<noteq> merged_value bv m" "bv \<noteq> merged_value bv m" using Cons.prems(3) by blast
  then show ?case
  proof cases
    case 1
    then show ?thesis by (metis rollback_unmanaged)
  next
    case 2
    have "at_opt (rollback_value (om_get c k) (om_get (object_of bv) k) (merged_value (om_get (object_of bv) k) w)) ks
        = at_opt (om_get c k) ks"
      if "none_or is_object bv" "cv = Some (Object c)" for c
      using Cons.IH [OF w(2,3)] Cons.prems(3) that merged_step [OF Cons.prems(1) [unfolded m] that(1) w(1), of ks]
      by (simp add: m at_path_Object del: at_path.simps)
    then show ?thesis
      unfolding rollback_descends [OF Cons.prems(1) m 2] using w(1)
      by (cases cv) (auto simp: at_path_Object simp del: at_path.simps elim!: is_object.elims)
  qed
qed

text \<open>Elements that the user appended to an array which the merge extended are kept.\<close>

lemma rollback_appended_at:
  assumes "json_wf m" and "at_opt bv ks = Some (Array xs)" and "at_path m ks = Some (Array ys)"
    and "at_opt cv ks = Some (Array (push_missing xs ys @ extra))"
  shows "at_opt (rollback_value cv bv (merged_value bv m)) ks = Some (Array (xs @ extra))"
  using assms
proof (induction ks arbitrary: cv bv m)
  case Nil
  then show ?case by (simp add: merged_value_def rollback_extended)
next
  case (Cons k ks)
  then obtain e where m: "m = Object e" by (cases m) auto
  then obtain w where w: "om_get e k = Some w" "json_wf w" "at_path w ks = Some (Array ys)"
    using Cons.prems(1,3) by (auto split: option.splits dest: entries_wf_get)
  obtain b where b: "bv = Some (Object b)" using Cons.prems(2) by (cases bv) (auto elim!: at_path.elims)
  obtain c where c: "cv = Some (Object c)" using Cons.prems(4) by (cases cv) (auto elim!: at_path.elims)
  have a: "at_opt (merged_value bv m) (k # ks) = Some (Array (push_missing xs ys))"
    using merge_at_path [of m "Object b" "k # ks"] Cons.prems(1-3) b by (simp add: merged_value_def del: at_path.simps)
  consider "cv = merged_value bv m" | "bv = merged_value bv m" | "cv \<noteq> merged_value bv m" "bv \<noteq> merged_value bv m" by blast
  then show ?case
  proof cases
    case 1
    then show ?thesis using a Cons.prems(2,4) by simp
  next
    case 2
    then have "push_missing xs ys = xs" using a Cons.prems(2) by simp
    with 2 show ?thesis using Cons.prems(4) by (metis rollback_unmanaged)
  next
    case 3
    show ?thesis
      unfolding rollback_descends [OF Cons.prems(1) m 3]
      using Cons.IH [OF w(2) _ w(3), of "om_get b k" "om_get c k"] Cons.prems(2,4) b c w(1)
      by (simp add: at_path_Object del: at_path.simps)
  qed
qed

text \<open>
  C4. Taking the managed document \<open>m\<close> back from the user's current document \<open>c\<close>, after it was merged
  into \<open>b\<close> with the result \<open>a\<close>, at every depth. A path that \<open>m\<close> does not name keeps the user's current
  value, whatever else was edited. At a path where \<open>m\<close> has a value: if the user left what the merge put
  there, the value from before the merge comes back, or none if there was none (as long as no value
  other than an object stood above it in \<open>b\<close>); if it is a scalar that the user edited or removed, the
  user's value stays; and if it is an array that the merge extended and the user appended to, the
  original array with the user's elements remains.
\<close>

theorem rollback_keeps_user_edits:
  assumes "json_wf (Object m)"
    and "a = merge_overlay (Object b) (Object m)" and "r = rollback_overlay (Object c) (Object b) a"
  shows "(\<not> names_path (Object m) ks \<longrightarrow> at_path r ks = at_path (Object c) ks)
    \<and> (at_path (Object m) ks \<noteq> None \<and> at_path (Object c) ks = at_path a ks \<and> opens_path (Some (Object b)) ks \<longrightarrow>
         at_path r ks = at_path (Object b) ks)
    \<and> (at_path (Object m) ks = Some v \<and> \<not> is_object v \<and> \<not> is_array v \<and> at_path (Object c) ks \<noteq> at_path a ks \<longrightarrow>
         at_path r ks = at_path (Object c) ks)
    \<and> (at_path (Object b) ks = Some (Array xs) \<and> at_path (Object m) ks = Some (Array ys)
         \<and> at_path a ks = Some (Array zs) \<and> at_path (Object c) ks = Some (Array (zs @ extra)) \<longrightarrow>
         at_path r ks = Some (Array (xs @ extra)))"
proof -
  have a: "Some a = merged_value (Some (Object b)) (Object m)" by (simp add: assms(2) merged_value_def)
  have "\<exists>w. rollback_value (Some (Object c)) (Some (Object b)) (Some a) = Some w"
    by (simp add: rollback_value.simps [of "Some (Object c)"])
  then obtain w where "rollback_value (Some (Object c)) (Some (Object b)) (Some a) = Some w" ..
  then have r: "at_path r ks = at_opt (rollback_value (Some (Object c)) (Some (Object b)) (merged_value (Some (Object b)) (Object m))) ks"
    by (simp add: assms(3) rollback_overlay_def a)
  have at_a: "at_path a ks = at_opt (merged_value (Some (Object b)) (Object m)) ks" by (simp flip: a)
  note wf = assms(1)
  show ?thesis
  proof (intro conjI impI; (elim conjE)?)
    show "at_path r ks = at_path (Object c) ks" if "\<not> names_path (Object m) ks"
      unfolding r using rollback_unnamed [OF wf that] by simp
    show "at_path r ks = at_path (Object b) ks"
      if "at_path (Object m) ks \<noteq> None" "at_path (Object c) ks = at_path a ks" "opens_path (Some (Object b)) ks"
      unfolding r using rollback_unedited_at [OF wf that(1,3)] that(2) at_a by simp
    show "at_path r ks = at_path (Object c) ks"
      if "at_path (Object m) ks = Some v" "\<not> is_object v" "\<not> is_array v" "at_path (Object c) ks \<noteq> at_path a ks"
      unfolding r using rollback_edited_at [OF wf that(1-3), of "Some (Object c)" "Some (Object b)"] that(4) at_a by simp
    show "at_path r ks = Some (Array (xs @ extra))"
      if "at_path (Object b) ks = Some (Array xs)" "at_path (Object m) ks = Some (Array ys)"
        "at_path a ks = Some (Array zs)" "at_path (Object c) ks = Some (Array (zs @ extra))"
    proof -
      have "zs = push_missing xs ys" using merge_at_path [OF wf that(1,2)] that(3) assms(2) by simp
      then show ?thesis
        unfolding r using rollback_appended_at [OF wf, of "Some (Object b)" ks xs ys "Some (Object c)" extra] that by simp
    qed
  qed
qed

definition demo_edited :: entries where
  "demo_edited = [(''env'', Object [(''DEBUG'', String ''2''), (''URL'', String ''u'')]), (''model'', String ''mine''),
     (''tools'', Array [String ''a'', String ''b'', String ''c''])]"

theorem rollback_keeps_user_edits_witness:
  "at_path (rollback_overlay (Object demo_edited) (Object demo_user) (merge_overlay (Object demo_user) (Object demo_managed)))
     [''env'', ''DEBUG''] = Some (String ''2'')
   \<and> at_path (rollback_overlay (Object demo_edited) (Object demo_user) (merge_overlay (Object demo_user) (Object demo_managed)))
     [''env'', ''URL''] = None
   \<and> at_path (rollback_overlay (Object demo_edited) (Object demo_user) (merge_overlay (Object demo_user) (Object demo_managed)))
     [''tools''] = Some (Array [String ''a'', String ''c''])"
proof -
  note edits = rollback_keeps_user_edits [OF demo_wf(2) refl refl, where b = demo_user and c = demo_edited]
  have "\<not> names_path (Object demo_managed) [''env'', ''DEBUG'']" by (simp add: demo_managed_def)
  moreover have "at_path (Object demo_edited) [''env'', ''DEBUG''] = Some (String ''2'')"
    "at_path (Object demo_user) [''env'', ''URL''] = None" "opens_path (Some (Object demo_user)) [''env'', ''URL'']"
    "at_path (Object demo_managed) [''env'', ''URL''] = Some (String ''u'')"
    "at_path (Object demo_edited) [''env'', ''URL''] = at_path (merge_overlay (Object demo_user) (Object demo_managed)) [''env'', ''URL'']"
    "at_path (Object demo_user) [''tools''] = Some (Array [String ''a''])"
    "at_path (Object demo_managed) [''tools''] = Some (Array [String ''b''])"
    "at_path (merge_overlay (Object demo_user) (Object demo_managed)) [''tools''] = Some (Array [String ''a'', String ''b''])"
    "at_path (Object demo_edited) [''tools''] = Some (Array ([String ''a'', String ''b''] @ [String ''c'']))"
    by (simp_all add: demo_edited_def demo_user_def demo_managed_def less_char_def)
  ultimately show ?thesis
    using edits [of "[''env'', ''DEBUG'']"] edits [of "[''env'', ''URL'']"]
      edits [of "[''tools'']" _ "[String ''a'']" "[String ''b'']" "[String ''a'', String ''b'']" "[String ''c'']"]
    by simp
qed

text \<open>
  Entries that the user appends to a managed array survive its removal, whether the merge
  extended the user's array with the missing managed entries or replaced the array as a whole:
  removal gives the original array followed by the user's entries. (For a replaced array, the
  appended entries are new ones: an original entry that the user put back is not doubled.)
\<close>

lemma rollback_keeps_appended:
  "rollback_value (Some (Array (push_missing before managed @ extra)))
      (Some (Array before)) (Some (Array (push_missing before managed)))
    = Some (Array (before @ extra))
   \<and> (\<not> prefix before after \<and> set extra \<inter> set before = {} \<longrightarrow>
      rollback_value (Some (Array (after @ extra))) (Some (Array before)) (Some (Array after))
        = Some (Array (before @ extra)))"
  by (simp add: rollback_extended rollback_replaced)

end
