(* ===== verification/Json_Merge.thy ===== *)
theory Json_Merge
  imports Overlay Planning
begin

text \<open>
  The planning part of \<^verbatim>\<open>crates/agent/src/provider/json_merge.rs\<close>: merging a managed document
  into a user's settings file and removing it again, through a reconcile plan and with the
  sidecar file that records what the merge replaced. The JSON parsers and printers are the
  \<^verbatim>\<open>serde_json\<close> and \<^verbatim>\<open>json5\<close> crates: they are the parameter \<open>codec\<close> of the definitions.
\<close>

section \<open>Documents and options\<close>

record merge_state =
  ms_created :: bool
  ms_before :: json
  ms_after :: json

text \<open>
  \<^verbatim>\<open>serde_json::from_slice\<close>, \<^verbatim>\<open>json5::from_str\<close> and \<^verbatim>\<open>serde_json::to_vec_pretty\<close> on values and on
  merge states; the error of a merge state's parse is its line and column.
\<close>

record json_codec =
  from_slice :: "bytes \<Rightarrow> json option"
  json5_from_str :: "string \<Rightarrow> json option"
  to_vec_pretty :: "json \<Rightarrow> string + bytes"
  state_from_slice :: "bytes \<Rightarrow> string \<times> string + merge_state"
  state_to_vec_pretty :: "merge_state \<Rightarrow> string + bytes"

datatype json_format = Json | Jsonc

text \<open>\<^verbatim>\<open>trim_start_matches\<close> of the byte order mark.\<close>

fun trim_bom :: "string \<Rightarrow> string" where
  "trim_bom (a # b # c # s) =
     (if [a, b, c] = map char_of [0xEF, 0xBB, 0xBF :: nat] then trim_bom s else a # b # c # s)"
| "trim_bom s = s"

definition format_parse :: "json_codec \<Rightarrow> json_format \<Rightarrow> bytes \<Rightarrow> json option" where
  "format_parse codec fmt contents =
     (case fmt of
        Json \<Rightarrow> from_slice codec contents
      | Jsonc \<Rightarrow> if valid_utf8 contents then json5_from_str codec (trim_bom contents) else None)"

definition state_path :: "path \<Rightarrow> path" where
  "state_path p =
     (let name = (case file_name p of
                    None \<Rightarrow> ''settings.json''
                  | Some n \<Rightarrow> if valid_utf8 n then n else ''settings.json'')
      in with_file_name p (''.'' @ name @ ''.agentdesktop''))"

record merge_options =
  mo_mode :: mode
  mo_keyed_arrays :: "keyed_array_spec list"
  mo_redact_diff :: bool
  mo_format :: json_format
  mo_replace_paths :: "string list"

definition default_merge_options :: merge_options where
  "default_merge_options =
     \<lparr>mo_mode = 0x1A4, mo_keyed_arrays = [], mo_redact_diff = False, mo_format = Json, mo_replace_paths = []\<rparr>"

text \<open>The reference tokens of a JSON pointer; \<^const>\<open>None\<close> for a string that is not one.\<close>

definition pointer_tokens :: "string \<Rightarrow> string list option" where
  "pointer_tokens s =
     (if s = [] then Some []
      else if hd s \<noteq> CHR ''/'' then None
      else Some (map (\<lambda>t. replace2 CHR ''~'' CHR ''0'' CHR ''~'' (replace2 CHR ''~'' CHR ''1'' CHR ''/'' t))
                   (split_on CHR ''/'' (tl s))))"

section \<open>What a merge makes of a document\<close>

definition empty_root :: "json \<Rightarrow> json" where
  "empty_root managed = (if is_array managed then Array [] else Object [])"

definition same_root :: "json \<Rightarrow> json \<Rightarrow> bool" where
  "same_root v w \<longleftrightarrow> is_object v = is_object w \<and> is_array v = is_array w"

definition release_keyed :: "merge_state option \<Rightarrow> json \<Rightarrow> keyed_array_spec \<Rightarrow> json \<Rightarrow> json" where
  "release_keyed previous managed keyed doc =
     remove_keyed
       (case previous of
          None \<Rightarrow> doc
        | Some st \<Rightarrow> remove_keyed doc keyed (keyed_added keyed (ms_before st) (ms_after st)))
       keyed managed"

text \<open>The document as it is without anything of the daemon's: the \<^verbatim>\<open>before\<close> snapshot.\<close>

definition released :: "merge_options \<Rightarrow> merge_state option \<Rightarrow> bool \<Rightarrow> json \<Rightarrow> json \<Rightarrow> json" where
  "released options previous legacy_owned managed doc =
     fold (release_keyed previous managed) (mo_keyed_arrays options)
       (case previous of
          Some st \<Rightarrow> rollback_overlay doc (ms_before st) (ms_after st)
        | None \<Rightarrow> if legacy_owned then empty_root managed else doc)"

definition null_pointer :: "json \<Rightarrow> string \<Rightarrow> json \<Rightarrow> json" where
  "null_pointer managed ptr doc =
     (case pointer_tokens ptr of
        None \<Rightarrow> doc
      | Some ts \<Rightarrow>
          if pointer managed ts \<noteq> None \<and> pointer doc ts \<noteq> None then pointer_put doc ts Null else doc)"

definition merged :: "merge_options \<Rightarrow> json \<Rightarrow> json \<Rightarrow> json" where
  "merged options managed before =
     merge_overlay (fold (null_pointer managed) (mo_replace_paths options) before) managed"

section \<open>Planning a merge\<close>

text \<open>\<^verbatim>\<open>plan.read\<close> with a missing file as \<^const>\<open>None\<close>.\<close>

definition read_existing ::
  "'a os_scheme \<Rightarrow> string \<Rightarrow> path \<Rightarrow> reconcile_plan \<Rightarrow> reconcile_plan \<times> (anyhow + bytes option)" where
  "read_existing s context p plan =
     (case plan_read s p plan of
        (plan1, Inr contents) \<Rightarrow> (plan1, Inr (Some contents))
      | (plan1, Inl e) \<Rightarrow>
          if kind e = NotFound then (plan1, Inr None)
          else (plan1, Inl [context @ path_display p, io_message e]))"

definition read_state ::
  "json_codec \<Rightarrow> 'a os_scheme \<Rightarrow> path \<Rightarrow> string \<Rightarrow> reconcile_plan
   \<Rightarrow> reconcile_plan \<times> (anyhow + merge_state option)" where
  "read_state codec s p display_name plan =
     plan_seq (read_existing s (''read '' @ display_name @ '' merge state from '') p plan) (\<lambda>contents plan1.
     case contents of
       None \<Rightarrow> (plan1, Inr None)
     | Some b \<Rightarrow>
         (plan1,
          case state_from_slice codec b of
            Inl (line, column) \<Rightarrow>
              Inl [''parse '' @ display_name @ '' merge state from '' @ path_display p
                     @ '': not a valid merge state (line '' @ line @ '', column '' @ column @ '')'']
          | Inr st \<Rightarrow> Inr (Some st)))"

definition managed_after ::
  "json_codec \<Rightarrow> 'a os_scheme \<Rightarrow> path \<Rightarrow> string \<Rightarrow> reconcile_plan
   \<Rightarrow> reconcile_plan \<times> (anyhow + json option)" where
  "managed_after codec s p display_name plan =
     plan_seq (read_state codec s p display_name plan) (\<lambda>st plan1. (plan1, Inr (map_option ms_after st)))"

definition record_change ::
  "string \<Rightarrow> string \<Rightarrow> string \<Rightarrow> path \<Rightarrow> bytes option \<Rightarrow> bytes option \<Rightarrow> bool \<Rightarrow> reconcile_plan \<Rightarrow> reconcile_plan" where
  "record_change display_name description action p before after redact =
     (if redact then plan_record_diff display_name description action p None None
      else plan_record_diff display_name description action p before after)"

text \<open>The user's document as the merge reads it: \<^const>\<open>None\<close> is a conflict.\<close>

definition existing_document :: "json_codec \<Rightarrow> merge_options \<Rightarrow> json \<Rightarrow> bytes option \<Rightarrow> json option" where
  "existing_document codec options managed existing =
     (case existing of
        None \<Rightarrow> Some (empty_root managed)
      | Some contents \<Rightarrow>
          if list_all is_ascii_whitespace contents then Some (empty_root managed)
          else
            (case format_parse codec (mo_format options) contents of
               Some v \<Rightarrow> if same_root v managed then Some v else None
             | None \<Rightarrow> None))"

text \<open>A serialisation with its context line, and the newline that the sources append.\<close>

definition serialized :: "string \<Rightarrow> string + bytes \<Rightarrow> anyhow + bytes" where
  "serialized context r = (case r of Inl e \<Rightarrow> Inl [context, e] | Inr printed \<Rightarrow> Inr (printed @ [CHR 0x0A]))"

definition merge_action :: "'a os_scheme \<Rightarrow> path \<Rightarrow> merge_options \<Rightarrow> bytes option \<Rightarrow> bytes \<Rightarrow> string" where
  "merge_action s p options existing contents =
     (case existing of
        Some e \<Rightarrow> if e = contents \<and> \<not> grants_beyond s p (mo_mode options) then ''unchanged'' else ''update''
      | None \<Rightarrow> ''create'')"

definition plan_merge_with ::
  "json_codec \<Rightarrow> 'a os_scheme \<Rightarrow> path \<Rightarrow> path \<Rightarrow> json \<Rightarrow> bool \<Rightarrow> string \<Rightarrow> string \<Rightarrow> merge_options
   \<Rightarrow> reconcile_plan \<Rightarrow> reconcile_plan \<times> (anyhow + unit)" where
  "plan_merge_with codec s p sp managed legacy_owned description display_name options plan =
     plan_seq (read_existing s (''read '' @ display_name @ '' from '') p plan) (\<lambda>existing plan1.
     plan_seq (read_state codec s sp display_name plan1) (\<lambda>previous plan2.
     let created = (existing = None \<or> (case previous of Some st \<Rightarrow> ms_created st | None \<Rightarrow> legacy_owned))
     in case existing_document codec options managed existing of
       None \<Rightarrow> (plan_record s display_name description ''conflict'' p plan2, Inr ())
     | Some doc \<Rightarrow>
     let before = released options previous legacy_owned managed doc;
         combined = merged options managed before
     in plan_seq (plan2, serialized (''serialize merged '' @ display_name) (to_vec_pretty codec combined))
          (\<lambda>contents plan3.
     let action = merge_action s p options existing contents;
         plan4 = record_change display_name description action p existing (Some contents)
                   (mo_redact_diff options) plan3
     in plan_seq (if action \<noteq> ''unchanged'' then plan_write_file s p contents (mo_mode options) plan4
                  else (plan4, Inr ())) (\<lambda>_ plan5.
     plan_seq (plan5, serialized (''serialize '' @ display_name @ '' merge state'')
                  (state_to_vec_pretty codec \<lparr>ms_created = created, ms_before = before, ms_after = combined\<rparr>))
       (\<lambda>st plan6.
     plan_write_file s sp st 0x180 plan6)))))"

definition plan_merge ::
  "json_codec \<Rightarrow> 'a os_scheme \<Rightarrow> path \<Rightarrow> path \<Rightarrow> json \<Rightarrow> bool \<Rightarrow> string \<Rightarrow> string
   \<Rightarrow> reconcile_plan \<Rightarrow> reconcile_plan \<times> (anyhow + unit)" where
  "plan_merge codec s p sp managed legacy_owned description display_name =
     plan_merge_with codec s p sp managed legacy_owned description display_name default_merge_options"

section \<open>Planning a removal\<close>

definition current_mode :: "'a os_scheme \<Rightarrow> path \<Rightarrow> mode option" where
  "current_mode s p =
     (if os_unix s then map_option (\<lambda>n. and (node_mode n) 0x1FF) (os_node s p) else None)"

definition remove_state_file :: "'a os_scheme \<Rightarrow> path \<Rightarrow> string \<Rightarrow> reconcile_plan \<Rightarrow> reconcile_plan \<times> (anyhow + unit)" where
  "remove_state_file s p display_name plan =
     (case plan_remove_file s p plan of
        (plan1, Inr _) \<Rightarrow> (plan1, Inr ())
      | (plan1, Inl e) \<Rightarrow>
          if kind e = NotFound then (plan1, Inr ())
          else (plan1, Inl [''remove '' @ display_name @ '' merge state at '' @ path_display p, io_message e]))"

text \<open>The end of every removal that found a sidecar: the sidecar goes, and the result is \<^const>\<open>True\<close>.\<close>

definition finish_removal :: "'a os_scheme \<Rightarrow> path \<Rightarrow> string \<Rightarrow> reconcile_plan \<Rightarrow> reconcile_plan \<times> (anyhow + bool)" where
  "finish_removal s sp display_name plan =
     plan_seq (remove_state_file s sp display_name plan) (\<lambda>_ plan1. (plan1, Inr True))"

definition remove_field :: "string \<Rightarrow> json \<Rightarrow> json" where
  "remove_field k doc = (case doc of Object m \<Rightarrow> Object (om_remove k m) | v \<Rightarrow> v)"

text \<open>
  One keyed array of a removal: the elements the merge added go, and so does an array that the
  merge introduced and that is empty now.
\<close>

definition strip_keyed :: "merge_state \<Rightarrow> keyed_array_spec \<Rightarrow> json \<Rightarrow> json" where
  "strip_keyed st keyed doc =
     (let doc1 = remove_keyed doc keyed (keyed_added keyed (ms_before st) (ms_after st));
          field = ka_field keyed
      in if field \<noteq> []
            \<and> none_or (\<lambda>v. as_array v = Some []) (get_field (ms_before st) field)
            \<and> Option.bind (get_field doc1 field) as_array = Some []
         then remove_field field doc1 else doc1)"

definition stripped :: "merge_options \<Rightarrow> merge_state \<Rightarrow> json \<Rightarrow> json" where
  "stripped options st doc =
     fold (strip_keyed st) (mo_keyed_arrays options) (rollback_overlay doc (ms_before st) (ms_after st))"

definition is_empty_root :: "json \<Rightarrow> bool" where
  "is_empty_root v \<longleftrightarrow> as_object v = Some [] \<or> as_array v = Some []"

text \<open>
  The removal of the user's file that the merge had created.
\<close>

definition remove_created ::
  "'a os_scheme \<Rightarrow> path \<Rightarrow> string \<Rightarrow> reconcile_plan \<Rightarrow> reconcile_plan \<times> (anyhow + unit)" where
  "remove_created s p display_name plan =
     (case plan_remove_file s p plan of
        (plan1, Inl e) \<Rightarrow> (plan1, Inl [''remove '' @ display_name @ '' at '' @ path_display p, io_message e])
      | (plan1, Inr _) \<Rightarrow> (plan1, Inr ()))"

text \<open>
  The end of a removal whose document has been read: what stays of it is written back, or the
  file goes with it.
\<close>

definition write_stripped ::
  "json_codec \<Rightarrow> 'a os_scheme \<Rightarrow> path \<Rightarrow> path \<Rightarrow> string \<Rightarrow> string \<Rightarrow> merge_options \<Rightarrow> merge_state \<Rightarrow> bytes \<Rightarrow> json
   \<Rightarrow> reconcile_plan \<Rightarrow> reconcile_plan \<times> (anyhow + bool)" where
  "write_stripped codec s p sp description display_name options st existing settings plan =
     plan_seq (plan,
         if ms_created st \<and> is_empty_root settings then Inr None
         else map_sum (\<lambda>e. e) Some
                (serialized (''serialize '' @ display_name @ '' after removing managed values'')
                  (to_vec_pretty codec settings)))
       (\<lambda>proposed plan1.
     let action = (case proposed of
                     None \<Rightarrow> ''remove''
                   | Some contents \<Rightarrow> if contents = existing then ''unchanged'' else ''update'');
         plan2 = record_change display_name description action p (Some existing) proposed
                   (mo_redact_diff options) plan1
     in plan_seq (case proposed of
                    None \<Rightarrow> remove_created s p display_name plan2
                  | Some contents \<Rightarrow>
                      if action = ''update''
                      then plan_write_file s p contents
                             (case current_mode s p of None \<Rightarrow> 0x1A4 | Some m \<Rightarrow> m) plan2
                      else (plan2, Inr ())) (\<lambda>_ plan3.
     finish_removal s sp display_name plan3))"

definition remove_existing ::
  "json_codec \<Rightarrow> 'a os_scheme \<Rightarrow> path \<Rightarrow> path \<Rightarrow> string \<Rightarrow> string \<Rightarrow> merge_options \<Rightarrow> merge_state \<Rightarrow> bytes
   \<Rightarrow> reconcile_plan \<Rightarrow> reconcile_plan \<times> (anyhow + bool)" where
  "remove_existing codec s p sp description display_name options st existing plan =
     (if list_all is_ascii_whitespace existing then
        plan_seq (if ms_created st
                  then remove_created s p display_name (plan_record s display_name description ''remove'' p plan)
                  else (plan_record s display_name description ''unchanged'' p plan, Inr ()))
          (\<lambda>_ plan1. finish_removal s sp display_name plan1)
      else
        case format_parse codec (mo_format options) existing of
          None \<Rightarrow> (plan_record s display_name description ''conflict'' p plan, Inr True)
        | Some doc \<Rightarrow>
            if same_root doc (ms_after st)
            then write_stripped codec s p sp description display_name options st existing
                   (stripped options st doc) plan
            else (plan_record s display_name description ''conflict'' p plan, Inr True))"

definition plan_remove_with ::
  "json_codec \<Rightarrow> 'a os_scheme \<Rightarrow> path \<Rightarrow> path \<Rightarrow> string \<Rightarrow> string \<Rightarrow> merge_options
   \<Rightarrow> reconcile_plan \<Rightarrow> reconcile_plan \<times> (anyhow + bool)" where
  "plan_remove_with codec s p sp description display_name options plan =
     plan_seq (read_state codec s sp display_name plan) (\<lambda>state plan1.
     case state of
       None \<Rightarrow> (plan1, Inr False)
     | Some st \<Rightarrow>
     plan_seq (read_existing s (''read '' @ display_name @ '' from '') p plan1) (\<lambda>contents plan2.
     case contents of
       None \<Rightarrow> finish_removal s sp display_name (plan_record s display_name description ''unchanged'' p plan2)
     | Some existing \<Rightarrow> remove_existing codec s p sp description display_name options st existing plan2))"

definition plan_remove ::
  "json_codec \<Rightarrow> 'a os_scheme \<Rightarrow> path \<Rightarrow> path \<Rightarrow> string \<Rightarrow> string
   \<Rightarrow> reconcile_plan \<Rightarrow> reconcile_plan \<times> (anyhow + bool)" where
  "plan_remove codec s p sp description display_name =
     plan_remove_with codec s p sp description display_name default_merge_options"

end
