(* ===== verification/Report.thy ===== *)
theory Report
  imports Reconcile_Facts Json_Merge
begin

text \<open>
  What the daemon says about an apply (\<^verbatim>\<open>reconcile/mod.rs\<close>): the log lines of a report, the rule that
  keeps a periodic re-apply quiet when nothing changed, and the text of a dry run.
\<close>

section \<open>Log lines\<close>

record log_line =
  log_warning :: bool
  log_program :: string
  log_state :: string
  log_detail :: string

definition log_outcome :: "program_outcome \<Rightarrow> log_line option" where
  "log_outcome oc =
     (let warning = po_state oc \<in> {Failed, Conflict, Blocked, Inactive}
      in if po_state oc \<in> {Applied, Unchanged} then None
         else Some \<lparr>log_warning = warning, log_program = po_program oc,
                    log_state = program_state_str (po_state oc), log_detail = po_detail oc\<rparr>)"

definition report_log :: "apply_report \<Rightarrow> log_line list" where
  "report_log report = List.map_filter log_outcome (ar_programs report)"

section \<open>When a re-apply is worth a log line\<close>

definition outcome_keys :: "program_outcome list \<Rightarrow> (string \<times> program_state \<times> string) list" where
  "outcome_keys programs = map (\<lambda>oc. (po_program oc, po_state oc, po_detail oc)) programs"

definition outcome_changed ::
  "(string \<times> program_state \<times> string) list \<Rightarrow> string \<times> program_state \<times> string \<Rightarrow> bool" where
  "outcome_changed previous = (\<lambda>(program, state, detail).
     case find (\<lambda>(before, _, _). before = program) previous of
       None \<Rightarrow> True
     | Some (_, before_state, before_detail) \<Rightarrow>
         (let settled = state = Unchanged \<and> before_state \<in> {Applied, Removed}
          in \<not> settled \<and> (state \<noteq> before_state \<or> detail \<noteq> before_detail)))"

definition outcome_gone ::
  "(string \<times> program_state \<times> string) list \<Rightarrow> string \<times> program_state \<times> string \<Rightarrow> bool" where
  "outcome_gone current = (\<lambda>(program, state, _).
     state \<noteq> Removed \<and> \<not> list_ex (\<lambda>(now, _, _). now = program) current)"

definition outcomes_differ ::
  "(string \<times> program_state \<times> string) list \<Rightarrow> (string \<times> program_state \<times> string) list \<Rightarrow> bool" where
  "outcomes_differ previous current \<longleftrightarrow>
     list_ex (outcome_changed previous) current \<or> list_ex (outcome_gone current) previous"

definition should_log :: "apply_report option \<Rightarrow> apply_report \<Rightarrow> bool" where
  "should_log previous current =
     (case previous of
        None \<Rightarrow> True
      | Some previous \<Rightarrow> outcomes_differ (outcome_keys (ar_programs previous)) (outcome_keys (ar_programs current)))"

section \<open>The text of a dry run\<close>

text \<open>
  The parameters are \<^verbatim>\<open>serde_json::from_str\<close> and \<^verbatim>\<open>serde_json::to_string_pretty\<close> on values, and the
  unified diff of two texts with a context of three lines (\<^verbatim>\<open>similar::TextDiff\<close>).
\<close>

record diff_tools =
  dt_from_str :: "string \<Rightarrow> json option"
  dt_to_string_pretty :: "json \<Rightarrow> string"
  dt_unified_diff :: "string \<Rightarrow> string \<Rightarrow> string"

definition normalized_diff :: "diff_tools \<Rightarrow> string \<Rightarrow> string \<Rightarrow> string \<times> string" where
  "normalized_diff tools before after =
     (case (dt_from_str tools before, dt_from_str tools after) of
        (Some b, Some a) \<Rightarrow> (dt_to_string_pretty tools b @ [CHR 0x0A], dt_to_string_pretty tools a @ [CHR 0x0A])
      | _ \<Rightarrow> (before, after))"

text \<open>The actions a report holds are ASCII, where \<^verbatim>\<open>to_uppercase\<close> maps each letter on its own.\<close>

definition to_uppercase :: "string \<Rightarrow> string" where
  "to_uppercase s = map to_ascii_upper s"

definition render_change :: "diff_tools \<Rightarrow> dry_run_change \<Rightarrow> string" where
  "render_change tools c =
     [CHR 0x0A] @ to_uppercase (dc_action c) @ ''  '' @ dc_display_name c @ '' '' @ dc_description c @ [CHR 0x0A]
     @ ''        '' @ path_display (dc_path c) @ [CHR 0x0A]
     @ (if dc_before c \<noteq> None \<or> dc_after c \<noteq> None
        then (case normalized_diff tools (case_option [] id (dc_before c)) (case_option [] id (dc_after c)) of
                (before, after) \<Rightarrow> dt_unified_diff tools before after)
        else [])"

definition count_if :: "('a \<Rightarrow> bool) \<Rightarrow> 'a list \<Rightarrow> nat" where
  "count_if p xs = length (filter p xs)"

definition render_summary :: "dry_run_change list \<Rightarrow> string" where
  "render_summary changes =
     (let changed = count_if (\<lambda>c. dc_action c \<noteq> ''unchanged'' \<and> dc_action c \<noteq> ''conflict'') changes;
          unchanged = count_if (\<lambda>c. dc_action c = ''unchanged'') changes;
          conflicts = count_if (\<lambda>c. dc_action c = ''conflict'') changes
      in [CHR 0x0A] @ ''Summary: '' @ decimal changed @ '' '' @ (if changed = 1 then ''change'' else ''changes'')
         @ '', '' @ decimal unchanged @ '' unchanged''
         @ (if conflicts > 0 then '', '' @ decimal conflicts @ '' conflicts'' else [])
         @ [CHR 0x0A])"

definition render :: "diff_tools \<Rightarrow> dry_run_report \<Rightarrow> string" where
  "render tools rep =
     ''Dry run '' @ [CHR 0xE2, CHR 0x80, CHR 0x94] @ '' no files will be changed'' @ [CHR 0x0A]
     @ concat (map (\<lambda>reason. [CHR 0x0A] @ ''INACTIVE  '' @ reason @ [CHR 0x0A]) (rep_inactive rep))
     @ concat (map (render_change tools) (filter (\<lambda>c. dc_action c \<noteq> ''unchanged'') (rep_changes rep)))
     @ render_summary (rep_changes rep)"

definition dry_run :: "diff_tools \<Rightarrow> reconciler \<Rightarrow> daemon_config \<Rightarrow> win_os \<Rightarrow> anyhow + string" where
  "dry_run tools r config s =
     (case reconciler_plan r config s of Inl e \<Rightarrow> Inl e | Inr plan \<Rightarrow> Inr (render tools (rp_report plan)))"

section \<open>Details are bounded\<close>

lemma boundary_at_or_before:
  "is_char_boundary s (boundary_at_or_before s n) \<and> boundary_at_or_before s n \<le> n"
  by (induction s n rule: boundary_at_or_before.induct) auto

text \<open>
  A reported detail is a prefix of the message of at most 1024 bytes, the whole message when it
  fits, and still valid UTF-8: truncation never cuts a character apart.
\<close>

lemma truncate_detail_bounded:
  assumes "valid_utf8 detail"
  shows "length (truncate_detail detail) \<le> 1024 \<and> prefix (truncate_detail detail) detail
    \<and> valid_utf8 (truncate_detail detail) \<and> (length detail \<le> 1024 \<longrightarrow> truncate_detail detail = detail)"
  using assms boundary_at_or_before [of detail detail_limit]
  by (auto simp: truncate_detail_def detail_limit_def take_is_prefix intro: valid_utf8_take)

section \<open>A re-apply that changes nothing says nothing\<close>

text \<open>
  The second plan finds every program as the first apply left it: the same programs are
  configured, opted out or inactive, and there is nothing left to change.
\<close>

definition settled_since :: "program_entry \<Rightarrow> program_entry \<Rightarrow> bool" where
  "settled_since e e' \<longleftrightarrow>
     pe_program e' = pe_program e \<and> pe_configured e' = pe_configured e \<and> pe_opted_out e' = pe_opted_out e
     \<and> pe_inactive e' = pe_inactive e \<and> pe_conflicts e = [] \<and> pe_conflicts e' = []
     \<and> pe_failed e = None \<and> pe_failed e' = None \<and> \<not> pe_changes e'"

lemma completed_outcome:
  "pe_failed e = None \<Longrightarrow> pe_conflicts e = [] \<Longrightarrow>
   entry_outcome Completed b e = map_option (\<lambda>(state, detail). program_result (pe_program e) state detail) (settled e True b)"
  by (simp add: entry_outcome_def)

lemma settled_outcomes:
  assumes "settled_since e e'"
  shows "case entry_outcome Completed b' e' of
      Some oc' \<Rightarrow> (\<exists>oc. entry_outcome Completed b e = Some oc \<and> po_program oc = po_program oc' \<and>
        (po_state oc' = Unchanged \<and> po_state oc \<in> {Applied, Removed} \<or> po_state oc' = po_state oc \<and> po_detail oc' = po_detail oc))
    | None \<Rightarrow> (case entry_outcome Completed b e of None \<Rightarrow> True | Some oc \<Rightarrow> po_state oc = Removed)"
  using assms
  by (auto simp: completed_outcome settled_since_def settled_def program_result_def split: option.splits)

lemma find_keyed:
  assumes "distinct (map po_program ocs)" and "oc \<in> set ocs" and "po_program oc = program"
  shows "find (\<lambda>(before, _, _). before = program) (outcome_keys ocs) = Some (po_program oc, po_state oc, po_detail oc)"
  using assms by (induction ocs) (auto simp: outcome_keys_def)

lemma completed_report:
  assumes "attributed_apply ap s = (t, report, Inr ())" and "\<forall>e \<in> set (ap_entries ap). pe_conflicts e = []"
  shows "\<exists>b. ar_programs report = List.map_filter (entry_outcome Completed b) (ap_entries ap)"
proof -
  obtain stop where run: "run_attributed ap s = (t, Inr (), stop)"
    and programs: "ar_programs report = List.map_filter (entry_outcome stop (blocked_by stop (ap_entries ap))) (ap_entries ap)"
    using assms(1) by (rule attributed_apply_outcomes)
  from run have "stop = Completed"
    by (cases rule: run_attributed_cases) (use assms(2) in auto)
  with programs show ?thesis by blast
qed

lemma set_map_filter: "y \<in> set (List.map_filter f xs) \<longleftrightarrow> (\<exists>x \<in> set xs. f x = Some y)"
  by (auto simp: List.map_filter_def image_iff)

lemma distinct_outcomes:
  assumes "distinct (map pe_program es)"
  shows "distinct (map po_program (List.map_filter (entry_outcome stop b) es))"
  using assms
proof (induction es)
  case (Cons e es)
  then show ?case
    by (cases "entry_outcome stop b e")
      (force simp: List.map_filter_simps set_map_filter dest: entry_outcome_state(1))+
qed (simp add: List.map_filter_simps)

text \<open>
  A periodic re-apply that finds the system as the last apply left it writes no log line:
  programs that were applied are now unchanged, removed programs are no longer listed, and every
  other outcome repeats. This holds however many programs there are and whatever their outcomes.
\<close>

lemma reapply_is_quiet:
  assumes "attributed_apply ap s = (t, report, Inr ())" and "attributed_apply ap' s' = (t', report', Inr ())"
    and "list_all2 settled_since (ap_entries ap) (ap_entries ap')" and "distinct (map pe_program (ap_entries ap))"
  shows "\<not> should_log (Some report) report'"
proof -
  let ?es = "ap_entries ap" and ?es' = "ap_entries ap'"
  have pairs: "\<exists>e \<in> set ?es. settled_since e e'" if "e' \<in> set ?es'" for e'
    using assms(3) that by (metis in_set_conv_nth list_all2_conv_all_nth nth_mem)
  have pairs': "\<exists>e' \<in> set ?es'. settled_since e e'" if "e \<in> set ?es" for e
    using assms(3) that by (metis in_set_conv_nth list_all2_conv_all_nth nth_mem)
  obtain b where r: "ar_programs report = List.map_filter (entry_outcome Completed b) ?es"
    using completed_report [OF assms(1)] pairs' by (auto simp: settled_since_def)
  obtain b' where r': "ar_programs report' = List.map_filter (entry_outcome Completed b') ?es'"
    using completed_report [OF assms(2)] pairs by (auto simp: settled_since_def)
  have dist: "distinct (map po_program (ar_programs report))"
    unfolding r using assms(4) by (rule distinct_outcomes)
  have "\<not> outcome_changed (outcome_keys (ar_programs report)) (po_program oc', po_state oc', po_detail oc')"
    if "oc' \<in> set (ar_programs report')" for oc'
  proof -
    from that obtain e' where "e' \<in> set ?es'" and oc': "entry_outcome Completed b' e' = Some oc'"
      unfolding r' set_map_filter by blast
    with pairs obtain e where e: "e \<in> set ?es" "settled_since e e'" by blast
    from settled_outcomes [OF e(2), of b b'] oc' obtain oc where oc: "entry_outcome Completed b e = Some oc"
      "po_program oc = po_program oc'" "po_state oc' = Unchanged \<and> po_state oc \<in> {Applied, Removed} \<or>
        po_state oc' = po_state oc \<and> po_detail oc' = po_detail oc" by auto
    have "oc \<in> set (ar_programs report)" unfolding r set_map_filter using e(1) oc(1) by blast
    from find_keyed [OF dist this oc(2)] oc(3) show ?thesis by (auto simp: outcome_changed_def)
  qed
  moreover have "\<not> outcome_gone (outcome_keys (ar_programs report')) (po_program oc, po_state oc, po_detail oc)"
    if "oc \<in> set (ar_programs report)" for oc
  proof -
    from that obtain e where "e \<in> set ?es" and oc: "entry_outcome Completed b e = Some oc"
      unfolding r set_map_filter by blast
    with pairs' obtain e' where e': "e' \<in> set ?es'" "settled_since e e'" by blast
    show ?thesis
    proof (cases "entry_outcome Completed b' e'")
      case None
      with settled_outcomes [OF e'(2), of b b'] oc show ?thesis by (simp add: outcome_gone_def)
    next
      case (Some oc')
      with settled_outcomes [OF e'(2), of b b'] oc have "po_program oc' = po_program oc" by auto
      moreover have "oc' \<in> set (ar_programs report')" unfolding r' set_map_filter using e'(1) Some by blast
      ultimately show ?thesis by (auto simp: outcome_gone_def outcome_keys_def list_ex_iff)
    qed
  qed
  ultimately show ?thesis
    by (auto simp: should_log_def outcomes_differ_def list_ex_iff outcome_keys_def)
qed

end
