(* ===== verification/Tick.thy ===== *)
theory Tick
  imports Report
begin

text \<open>
  The periodic re-apply of the current configuration (\<^verbatim>\<open>tick.rs\<close>): the loop over the ticks of an
  interval, applying under the lock, and publishing the outcome to the connection loop. The waits
  of the loop are explicit: a run is a list of the events that end them.
\<close>

section \<open>Publishing\<close>

record current_config =
  cur_revision :: "64 word option"
  cur_config :: daemon_config

record tick_status =
  ts_revision :: "64 word option"
  ts_report :: apply_report
  ts_error :: "string option"

text \<open>The status a watch channel holds after \<^verbatim>\<open>publish\<close>, and whether it was modified.\<close>

definition publish :: "tick_status option \<Rightarrow> tick_status \<Rightarrow> tick_status option \<times> bool" where
  "publish current status =
     (if (case current of None \<Rightarrow> False | Some c \<Rightarrow> ar_sequence (ts_report c) > ar_sequence (ts_report status))
      then (current, False)
      else (Some status, True))"

section \<open>The loop\<close>

text \<open>
  What ends a wait: a tick, at which the loop finds \<open>snapshot\<close> in the channel of the current
  configuration (and the closure finds \<open>'i\<close> when it runs), a change of that channel, or the end
  of its sender.
\<close>

datatype 'i tick_event = Ticked (snapshot: "current_config option") (found: 'i) | ConfigChanged | SenderDropped

type_synonym ('i, 'st) tick_apply =
  "'i \<Rightarrow> daemon_config \<Rightarrow> 'st \<Rightarrow> 'st \<times> (64 word option \<times> apply_report \<times> (anyhow + unit)) option"

definition status_of :: "64 word option \<Rightarrow> apply_report \<Rightarrow> anyhow + unit \<Rightarrow> tick_status" where
  "status_of revision report result =
     \<lparr>ts_revision = revision, ts_report = report,
      ts_error = (case result of Inl e \<Rightarrow> Some (chain_message e) | Inr _ \<Rightarrow> None)\<rparr>"

text \<open>
  The channel of statuses is absent (\<open>None\<close>) when nothing listens.
\<close>

fun tick_loop ::
  "('i, 'st) tick_apply \<Rightarrow> 'i tick_event list \<Rightarrow> 'st \<Rightarrow> tick_status option option \<Rightarrow> 'st \<times> tick_status option option" where
  "tick_loop act [] st statuses = (st, statuses)"
| "tick_loop act (SenderDropped # es) st statuses = (st, statuses)"
| "tick_loop act (ConfigChanged # es) st statuses = tick_loop act es st statuses"
| "tick_loop act (Ticked None i # es) st statuses = tick_loop act es st statuses"
| "tick_loop act (Ticked (Some snap) i # es) st statuses =
     (case act i (cur_config snap) st of
        (st', None) \<Rightarrow> tick_loop act es st' statuses
      | (st', Some (revision, report, result)) \<Rightarrow>
          tick_loop act es st'
            (map_option (\<lambda>channel. fst (publish channel (status_of revision report result))) statuses))"

definition run_tick_with ::
  "('i, 'st) tick_apply \<Rightarrow> duration \<Rightarrow> 'i tick_event list \<Rightarrow> 'st \<Rightarrow> tick_status option option
   \<Rightarrow> 'st \<times> tick_status option option" where
  "run_tick_with act interval events st statuses =
     (if interval = 0 then (st, statuses) else tick_loop act events st statuses)"

section \<open>Applying through the reconciler\<close>

text \<open>
  The state of the daemon that a tick changes: the reconciler, the system, and the log, here with
  the failure warning as a line of its own.
\<close>

record tick_state =
  tk_reconciler :: reconciler
  tk_system :: win_os
  tk_log :: "(log_line + string) list"

text \<open>
  \<open>latest\<close> is the current configuration once the apply lock is held; \<open>interference\<close> is what other
  processes do to the system between planning and applying.
\<close>

definition apply_current ::
  "reconciler \<Rightarrow> current_config option \<Rightarrow> (win_os \<Rightarrow> win_os) \<Rightarrow> win_os
   \<Rightarrow> reconciler \<times> win_os \<times> (64 word option \<times> apply_report option \<times> apply_report \<times> (anyhow + unit)) option" where
  "apply_current r latest interference s =
     apply_read_under_lock (map_option (\<lambda>c. (cur_revision c, cur_config c)) latest) r s (interference s)"

definition tick_apply_current :: "(current_config option \<times> (win_os \<Rightarrow> win_os), tick_state) tick_apply" where
  "tick_apply_current = (\<lambda>(latest, interference) _ st.
     case apply_current (tk_reconciler st) latest interference (tk_system st) of
       (r, s, None) \<Rightarrow> (st\<lparr>tk_reconciler := r, tk_system := s\<rparr>, None)
     | (r, s, Some (revision, previous, report, result)) \<Rightarrow>
         (let lines = (if should_log previous report
                       then map Inl (report_log report)
                         @ (case result of Inl e \<Rightarrow> [Inr (chain_message e)] | Inr _ \<Rightarrow> [])
                       else [])
          in (st\<lparr>tk_reconciler := r, tk_system := s, tk_log := tk_log st @ lines\<rparr>,
              Some (revision, report, result))))"

definition run_tick ::
  "duration \<Rightarrow> (current_config option \<times> (win_os \<Rightarrow> win_os)) tick_event list \<Rightarrow> tick_state \<Rightarrow> tick_status option option
   \<Rightarrow> tick_state \<times> tick_status option option" where
  "run_tick interval events st statuses = run_tick_with tick_apply_current interval events st statuses"

section \<open>What the loop applies\<close>

text \<open>The events up to the end of the channel's sender.\<close>

definition before_drop :: "'i tick_event list \<Rightarrow> 'i tick_event list" where
  "before_drop es = takeWhile (\<lambda>e. e \<noteq> SenderDropped) es"

text \<open>The ticks at which there is a configuration to apply.\<close>

definition due :: "'i tick_event list \<Rightarrow> (current_config \<times> 'i) list" where
  "due es = List.map_filter (\<lambda>e. case e of Ticked (Some snap) i \<Rightarrow> Some (snap, i) | _ \<Rightarrow> None) (before_drop es)"

fun apply_all :: "('i, 'st) tick_apply \<Rightarrow> (current_config \<times> 'i) list \<Rightarrow> 'st \<Rightarrow> 'st \<times> tick_status list" where
  "apply_all act [] st = (st, [])"
| "apply_all act ((snap, i) # rest) st =
     (case act i (cur_config snap) st of
        (st', None) \<Rightarrow> apply_all act rest st'
      | (st', Some (revision, report, result)) \<Rightarrow>
          (case apply_all act rest st' of
             (st'', published) \<Rightarrow> (st'', status_of revision report result # published)))"

lemma due_simps [simp]:
  "due [] = []"
  "due (SenderDropped # es) = []"
  "due (ConfigChanged # es) = due es"
  "due (Ticked None i # es) = due es"
  "due (Ticked (Some snap) i # es) = (snap, i) # due es"
  by (simp_all add: due_def before_drop_def List.map_filter_simps)

text \<open>
  The periodic loop does one apply per tick that finds a configuration, in order, up to the
  moment the daemon shuts down, and publishes each outcome in the order of the applies; a change of
  the configuration alone applies nothing, and a zero interval never applies.
\<close>

lemma run_tick_applies_each_tick:
  "run_tick_with act interval events st statuses =
     (if interval = 0 then (st, statuses)
      else (case apply_all act (due events) st of
              (st', published) \<Rightarrow>
                (st', map_option (\<lambda>channel. foldl (\<lambda>c status. fst (publish c status)) channel published) statuses)))"
proof -
  have "tick_loop act events st statuses =
      (case apply_all act (due events) st of
         (st', published) \<Rightarrow>
           (st', map_option (\<lambda>channel. foldl (\<lambda>c status. fst (publish c status)) channel published) statuses))"
    by (induction act events st statuses rule: tick_loop.induct)
      (auto simp: option.map_comp comp_def option.map_ident split: prod.splits option.splits)
  then show ?thesis by (simp add: run_tick_with_def)
qed

section \<open>Several sources of applies\<close>

text \<open>
  A tick and a change of the program choice apply under the lock and publish after releasing it,
  so outcomes can be published in another order than the applies ran; the apply of a pushed
  configuration takes the same lock and publishes nothing here. \<open>sys_newest\<close> is the outcome of the
  newest apply that reports.
\<close>

record tick_system =
  sys_state :: tick_state
  sys_unpublished :: "tick_status list"
  sys_channel :: "tick_status option"
  sys_newest :: "tick_status option"

definition last_sequence :: "reconciler \<Rightarrow> 64 word" where
  "last_sequence r = (case re_last_apply r of None \<Rightarrow> 0 | Some report \<Rightarrow> ar_sequence report)"

inductive tick_reachable :: "tick_system \<Rightarrow> bool" where
  started: "re_last_apply (tk_reconciler st) = None \<Longrightarrow>
    tick_reachable \<lparr>sys_state = st, sys_unpublished = [], sys_channel = None, sys_newest = None\<rparr>"
| pushed: "tick_reachable y \<Longrightarrow> last_sequence (tk_reconciler (sys_state y)) < - 1 \<Longrightarrow>
    apply_current (tk_reconciler (sys_state y)) (Some c) f (tk_system (sys_state y))
      = (r, s, Some (revision, previous, report, result)) \<Longrightarrow>
    tick_reachable (y\<lparr>sys_state := (sys_state y)\<lparr>tk_reconciler := r, tk_system := s\<rparr>\<rparr>)"
| reported: "tick_reachable y \<Longrightarrow> last_sequence (tk_reconciler (sys_state y)) < - 1 \<Longrightarrow>
    apply_current (tk_reconciler (sys_state y)) (Some c) f (tk_system (sys_state y))
      = (r, s, Some (revision, previous, report, result)) \<Longrightarrow>
    tick_reachable (y\<lparr>sys_state := (sys_state y)\<lparr>tk_reconciler := r, tk_system := s\<rparr>,
      sys_unpublished := sys_unpublished y @ [status_of revision report result],
      sys_newest := Some (status_of revision report result)\<rparr>)"
| published: "tick_reachable y \<Longrightarrow> sys_unpublished y = xs @ status # ys \<Longrightarrow>
    tick_reachable (y\<lparr>sys_unpublished := xs @ ys, sys_channel := fst (publish (sys_channel y) status)\<rparr>)"

lemma apply_current_sequence:
  assumes "apply_current r (Some c) f s = (r', s', Some (revision, previous, report, result))"
  shows "ar_sequence report = last_sequence r + 1 \<and> last_sequence r' = last_sequence r + 1
    \<and> revision = cur_revision c \<and> previous = re_last_apply r"
  using assms
  by (auto simp: apply_current_def apply_read_under_lock_def last_sequence_def Let_def
      split: prod.splits option.splits)

lemma word_less_succ: "(x :: 64 word) < - 1 \<Longrightarrow> x < x + 1"
  by (simp add: word_less_nat_alt unat_word_ariths(1) unsigned_minus_1_eq_mask mask_eq_exp_minus_1)

abbreviation status_sequence :: "tick_status \<Rightarrow> 64 word" where
  "status_sequence status \<equiv> ar_sequence (ts_report status)"

definition tick_inv :: "tick_system \<Rightarrow> bool" where
  "tick_inv y \<longleftrightarrow>
     (case sys_newest y of
        None \<Rightarrow> sys_unpublished y = [] \<and> sys_channel y = None
      | Some n \<Rightarrow>
          status_sequence n \<le> last_sequence (tk_reconciler (sys_state y))
          \<and> (\<forall>x \<in> set (sys_unpublished y) \<union> set_option (sys_channel y). x = n \<or> status_sequence x < status_sequence n)
          \<and> (n \<in> set (sys_unpublished y) \<or> sys_channel y = Some n))"

lemma tick_inv_reachable: "tick_reachable y \<Longrightarrow> tick_inv y"
proof (induction rule: tick_reachable.induct)
  case (started st)
  show ?case by (simp add: tick_inv_def)
next
  case (pushed y c f r s revision previous report result)
  with apply_current_sequence [OF pushed(3)] word_less_succ [OF pushed(2)] show ?case
    by (auto simp: tick_inv_def split: option.splits)
next
  case (reported y c f r s revision previous report result)
  let ?n = "status_of revision report result"
  have seq: "status_sequence ?n = last_sequence (tk_reconciler (sys_state y)) + 1" "last_sequence r = status_sequence ?n"
    using apply_current_sequence [OF reported(3)] by (simp_all add: status_of_def)
  have "status_sequence x < status_sequence ?n"
    if x: "x \<in> set (sys_unpublished y) \<union> set_option (sys_channel y)" for x
  proof -
    obtain n where "sys_newest y = Some n"
      using x reported(4) by (cases "sys_newest y") (auto simp: tick_inv_def)
    with x reported(4) have "x = n \<or> status_sequence x < status_sequence n"
      and "status_sequence n \<le> last_sequence (tk_reconciler (sys_state y))"
      by (simp_all add: tick_inv_def)
    then have "status_sequence x \<le> last_sequence (tk_reconciler (sys_state y))" by auto
    with word_less_succ [OF reported(2)] seq show ?thesis by simp
  qed
  with seq show ?case by (auto simp: tick_inv_def)
next
  case (published y xs status ys)
  then show ?case
    by (auto simp: tick_inv_def publish_def split: option.splits)
qed

text \<open>
  C21. Out-of-order publishing never hides the newest outcome: however the applies of ticks, program
  choice changes and pushes interleave with the publishing of their outcomes, once every outcome has
  been published the channel holds the outcome of the newest apply that reports one.
\<close>

theorem channel_holds_newest_outcome:
  assumes "tick_reachable y" and "sys_unpublished y = []"
  shows "sys_channel y = sys_newest y"
  using tick_inv_reachable [OF assms(1)] assms(2) by (auto simp: tick_inv_def split: option.splits)

lemma demo_apply_current:
  "\<exists>r' s' report result.
     apply_current (demo_reconciler []) (Some \<lparr>cur_revision = None, cur_config = demo_config\<rparr>) id demo_win
       = (r', s', Some (None, None, report, result))"
  by (simp add: apply_current_def apply_read_under_lock_def demo_reconciler_def Let_def split: prod.splits)

theorem channel_holds_newest_outcome_witness:
  "\<exists>y status. tick_reachable y \<and> sys_unpublished y = [] \<and> sys_newest y = Some status \<and> sys_channel y = Some status"
proof -
  let ?y0 = "\<lparr>sys_state = \<lparr>tk_reconciler = demo_reconciler [], tk_system = demo_win, tk_log = []\<rparr>,
    sys_unpublished = [], sys_channel = None, sys_newest = None\<rparr>"
  obtain r' s' report result where a:
    "apply_current (demo_reconciler []) (Some \<lparr>cur_revision = None, cur_config = demo_config\<rparr>) id demo_win
       = (r', s', Some (None, None, report, result))"
    using demo_apply_current by blast
  have start: "tick_reachable ?y0" by (rule started) (simp add: demo_reconciler_def)
  have "last_sequence (demo_reconciler []) < - 1" by (simp add: last_sequence_def demo_reconciler_def word_less_nat_alt unsigned_minus_1_eq_mask mask_eq_exp_minus_1)
  from reported [OF start, of "\<lparr>cur_revision = None, cur_config = demo_config\<rparr>" id r' s' None None report result] this a
  obtain y where y: "tick_reachable y" "sys_unpublished y = [] @ status_of None report result # []"
    "sys_newest y = Some (status_of None report result)" by simp
  from channel_holds_newest_outcome [OF published [OF y(1,2)]] published [OF y(1,2)] y(3) show ?thesis
    by (intro exI) (auto intro!: exI)
qed

end
