(* ===== verification/Program_Control.thy ===== *)
theory Program_Control
  imports Tick
begin

text \<open>
  The device user's program choice: its file in the daemon's state directory
  (\<^verbatim>\<open>program_choice.rs\<close>) and the local API that lists the programs and changes the choice
  (\<^verbatim>\<open>ProgramControl\<close> in \<^verbatim>\<open>api.rs\<close>), which stores it, re-applies the current configuration with it
  and publishes the outcome.
\<close>

section \<open>The stored choice\<close>

text \<open>
  The parameter is \<^verbatim>\<open>serde_json\<close> on program choices; \<open>ch_debug\<close> is the \<^verbatim>\<open>{:?}\<close> form of a string in
  the message for an unknown program.
\<close>

record choice_codec =
  ch_from_slice :: "bytes \<Rightarrow> string + program_choice"
  ch_to_vec_pretty :: "program_choice \<Rightarrow> string + bytes"
  ch_debug :: "string \<Rightarrow> string"

definition choice_path :: "path \<Rightarrow> path" where
  "choice_path state_dir = path_join state_dir [Normal ''program-choice.json'']"

definition choice_load :: "choice_codec \<Rightarrow> 'a os_scheme \<Rightarrow> path \<Rightarrow> program_choice" where
  "choice_load codec s state_dir =
     (case fs_read s (choice_path state_dir) of
        Inl e \<Rightarrow> AllPrograms
      | Inr contents \<Rightarrow>
          (case ch_from_slice codec contents of Inr choice \<Rightarrow> choice | Inl e \<Rightarrow> AllPrograms))"

definition choice_save ::
  "choice_codec \<Rightarrow> 'a os_scheme \<Rightarrow> path \<Rightarrow> program_choice \<Rightarrow> 'a os_scheme \<times> (anyhow + unit)" where
  "choice_save codec s state_dir choice =
     (case ensure_private_dir s state_dir of
        (s1, Inl e) \<Rightarrow> (s1, Inl e)
      | (s1, Inr _) \<Rightarrow>
          (case ch_to_vec_pretty codec choice of
             Inl e \<Rightarrow> (s1, Inl [''encode program choice'', e])
           | Inr contents \<Rightarrow> atomic_write s1 (choice_path state_dir) (contents @ [CHR 0x0A]) 0x180))"

definition choice_validate :: "choice_codec \<Rightarrow> program_choice \<Rightarrow> anyhow + unit" where
  "choice_validate codec choice =
     (case choice of
        Selected programs \<Rightarrow>
          (case find (\<lambda>program. program \<notin> set managed_programs) programs of
             Some unknown \<Rightarrow>
               Inl [''unknown program '' @ ch_debug codec unknown @ ''; expected one of: ''
                      @ join_with '', '' managed_programs]
           | None \<Rightarrow> Inr ())
      | _ \<Rightarrow> Inr ())"

section \<open>Listing the programs\<close>

record managed_program =
  mp_program :: string
  mp_managed :: bool
  mp_state :: "string option"
  mp_detail :: string

record program_management =
  pm_user_choice_allowed :: bool
  pm_choice :: program_choice
  pm_programs :: "managed_program list"

definition managed_entry :: "apply_report option \<Rightarrow> string list \<Rightarrow> string \<Rightarrow> managed_program" where
  "managed_entry report opted_out program =
     (let outcome = Option.bind report (\<lambda>report. find (\<lambda>oc. po_program oc = program) (ar_programs report))
      in \<lparr>mp_program = program, mp_managed = program \<notin> set opted_out,
          mp_state = map_option (\<lambda>oc. program_state_str (po_state oc)) outcome,
          mp_detail = (case outcome of None \<Rightarrow> [] | Some oc \<Rightarrow> po_detail oc)\<rparr>)"

definition management :: "reconciler \<Rightarrow> current_config option \<Rightarrow> program_management" where
  "management r current =
     (case current of
        None \<Rightarrow> \<lparr>pm_user_choice_allowed = False, pm_choice = re_choice r, pm_programs = []\<rparr>
      | Some c \<Rightarrow>
          (let opted_out = snd (apply_program_choice (cur_config c) (re_choice r))
           in \<lparr>pm_user_choice_allowed = allow_user_choice (dc_program_selection (cur_config c)),
               pm_choice = re_choice r,
               pm_programs = map (managed_entry (re_last_apply r) opted_out)
                 (configured_programs (dc_programs (cur_config c)))\<rparr>))"

section \<open>Changing the choice\<close>

text \<open>
  \<open>seen n\<close> is what the handler finds at its n-th look at the channel of the current configuration,
  which a push may replace meanwhile. The result comes with whether the handler went on to start a
  gateway sign-in.
\<close>

definition change_choice ::
  "choice_codec \<Rightarrow> path \<Rightarrow> program_choice \<Rightarrow> (nat \<Rightarrow> current_config option) \<Rightarrow> (win_os \<Rightarrow> win_os)
   \<Rightarrow> tick_state \<Rightarrow> tick_status option option
   \<Rightarrow> tick_state \<times> tick_status option option \<times> bool \<times> (nat \<times> string + program_management)" where
  "change_choice codec state_dir choice seen interference st statuses =
     (case choice_validate codec choice of
        Inl e \<Rightarrow> (st, statuses, False, Inl (400, chain_message e))
      | Inr _ \<Rightarrow>
          (case map_option (\<lambda>c. allow_user_choice (dc_program_selection (cur_config c))) (seen 0) of
             None \<Rightarrow>
               (st, statuses, False,
                Inl (409, ''this device has no configuration yet; choose once it has one''))
           | Some False \<Rightarrow>
               (st, statuses, False,
                Inl (403, ''this device's policy manages every configured program (programSelection.allowUserChoice is off)''))
           | Some True \<Rightarrow>
               (case choice_save codec (tk_system st) state_dir choice of
                  (s1, Inl e) \<Rightarrow>
                    (st\<lparr>tk_system := s1\<rparr>, statuses, False, Inl (500, ''save program choice: '' @ chain_message e))
                | (s1, Inr _) \<Rightarrow>
                    (case apply_current (set_program_choice choice (tk_reconciler st)) (seen 1) interference s1 of
                       (r, s2, applied) \<Rightarrow>
                         (let (lines, statuses') =
                                (case applied of
                                   None \<Rightarrow> ([], statuses)
                                 | Some (revision, _, report, result) \<Rightarrow>
                                     (map Inl (report_log report)
                                        @ (case result of Inl e \<Rightarrow> [Inr (chain_message e)] | Inr _ \<Rightarrow> []),
                                      map_option (\<lambda>c. fst (publish c (status_of revision report result))) statuses));
                              sign_in = (case seen 2 of None \<Rightarrow> False | Some c \<Rightarrow> gateway_sign_in_wanted r (cur_config c))
                          in (st\<lparr>tk_reconciler := r, tk_system := s2, tk_log := tk_log st @ lines\<rparr>,
                              statuses', sign_in, Inr (management r (seen 3))))))))"

section \<open>The choice survives\<close>

lemma choice_path_neq: "choice_path d \<notin> set (ancestors d)" "choice_path d \<noteq> d"
  by (auto simp: choice_path_def path_join_def is_absolute_def ancestors_def dest: set_mono_prefix prefix_length_le)

lemma ensure_private_dir_elsewhere:
  assumes "ensure_private_dir s d = (t, r)" and "q \<notin> set (ancestors d)" and "q \<noteq> d"
  shows "os_node t q = os_node s q \<and> os_unix t = os_unix s"
  using assms
  by (auto simp: ensure_private_dir_def fs_create_dir_all_def split: sum.splits option.splits if_splits)

lemma choice_save_effect:
  assumes "choice_save codec s d choice = (t, r)"
  shows "case r of
      Inl e \<Rightarrow> os_node t (choice_path d) = os_node s (choice_path d)
    | Inr _ \<Rightarrow> \<exists>b m. ch_to_vec_pretty codec choice = Inr b \<and> (os_unix s \<longrightarrow> m AND NOT 0x180 = 0)
        \<and> os_node t (choice_path d) = Some (File (b @ [CHR 0x0A]) m)"
proof -
  obtain s1 r1 where dir: "ensure_private_dir s d = (s1, r1)" by force
  have same: "os_node s1 (choice_path d) = os_node s (choice_path d)" "os_unix s1 = os_unix s"
    using ensure_private_dir_elsewhere [OF dir] choice_path_neq by blast+
  show ?thesis
  proof (cases "\<exists>b. r1 = Inr () \<and> ch_to_vec_pretty codec choice = Inr b")
    case True
    then obtain b where b: "r1 = Inr ()" "ch_to_vec_pretty codec choice = Inr b" by blast
    then have w: "atomic_write s1 (choice_path d) (b @ [CHR 0x0A]) 0x180 = (t, r)"
      using assms dir by (simp add: choice_save_def)
    have "os_unix s1 \<longrightarrow> created_mode s1 0x180 AND NOT 0x180 = 0"
      by (simp add: created_mode_def bit_eq_iff bit_simps)
    with atomic_write_cases [OF w] b same show ?thesis by (auto split: sum.splits)
  next
    case False
    with assms dir same show ?thesis
      by (auto simp: choice_save_def split: sum.splits)
  qed
qed

text \<open>What is relied on of \<^verbatim>\<open>serde_json\<close>: a printed choice reads back as itself.\<close>

definition choice_prints_back :: "choice_codec \<Rightarrow> bool" where
  "choice_prints_back codec \<longleftrightarrow>
     (\<forall>choice b. ch_to_vec_pretty codec choice = Inr b \<longrightarrow> ch_from_slice codec (b @ [CHR 0x0A]) = Inr choice)"

text \<open>
  C22. A saved program choice is the one the daemon finds at its next start, in a file that only its
  user can read; a save that fails, at whichever step, leaves the choice that was stored before.
\<close>

theorem choice_save_then_load:
  assumes "choice_save codec s d choice = (t, r)" and "choice_prints_back codec"
  shows "case r of
      Inl e \<Rightarrow> choice_load codec t d = choice_load codec s d
    | Inr _ \<Rightarrow> choice_load codec t d = choice
        \<and> (os_unix s \<longrightarrow> (\<exists>n. os_node t (choice_path d) = Some n \<and> node_mode n AND NOT 0x180 = 0))"
  using choice_save_effect [OF assms(1)] assms(2)
  by (auto simp: choice_load_def fs_read_def choice_prints_back_def split: sum.splits)

text \<open>
  The choice the daemon works with, the one it shows and the one it has stored agree. A change
  that is refused or cannot be stored leaves the reconciler, the published outcome and the stored
  choice as they were; a change that is accepted names only known programs, was allowed by the
  policy, and is stored before it is applied.
\<close>

lemma change_choice_consistent:
  assumes "choice_prints_back codec"
    and "change_choice codec d choice seen interference st statuses = (st', statuses', sign_in, result)"
  shows "case result of
      Inl e \<Rightarrow> tk_reconciler st' = tk_reconciler st \<and> statuses' = statuses \<and> \<not> sign_in
        \<and> choice_load codec (tk_system st') d = choice_load codec (tk_system st) d
    | Inr shown \<Rightarrow> re_choice (tk_reconciler st') = choice \<and> pm_choice shown = choice
        \<and> (\<forall>programs. choice = Selected programs \<longrightarrow> set programs \<subseteq> set managed_programs)
        \<and> (\<exists>c. seen 0 = Some c \<and> allow_user_choice (dc_program_selection (cur_config c)))
        \<and> (\<exists>s. choice_save codec (tk_system st) d choice = (s, Inr ()) \<and> choice_load codec s d = choice
              \<and> tk_system st' = fst (snd (apply_current (set_program_choice choice (tk_reconciler st)) (seen 1) interference s)))"
proof -
  have kept: "re_choice r' = re_choice r" if "apply_current r c f s = (r', s', applied)" for r c f s r' s' applied
    using that
    by (auto simp: apply_current_def apply_read_under_lock_def Let_def split: option.splits prod.splits)
  have shown: "pm_choice (management r c) = re_choice r" for r c
    by (simp add: management_def Let_def split: option.splits)
  consider (unknown) e where "choice_validate codec choice = Inl e"
    | (refused) "choice_validate codec choice = Inr ()"
        "\<not> (\<exists>c. seen 0 = Some c \<and> allow_user_choice (dc_program_selection (cur_config c)))"
    | (unsaved) s e where "choice_validate codec choice = Inr ()" "choice_save codec (tk_system st) d choice = (s, Inl e)"
        "\<exists>c. seen 0 = Some c \<and> allow_user_choice (dc_program_selection (cur_config c))"
    | (saved) s where "choice_validate codec choice = Inr ()" "choice_save codec (tk_system st) d choice = (s, Inr ())"
        "\<exists>c. seen 0 = Some c \<and> allow_user_choice (dc_program_selection (cur_config c))"
    by (cases "choice_validate codec choice"; cases "choice_save codec (tk_system st) d choice"; cases "snd (choice_save codec (tk_system st) d choice)") auto
  then show ?thesis
  proof cases
    case unknown
    with assms(2) show ?thesis by (auto simp: change_choice_def)
  next
    case refused
    with assms(2) show ?thesis
      by (auto simp: change_choice_def split: option.splits bool.splits)
  next
    case (unsaved s e)
    with choice_save_effect [OF unsaved(2)] assms(2) show ?thesis
      by (auto simp: change_choice_def choice_load_def fs_read_def)
  next
    case (saved s)
    obtain r s2 applied where run: "apply_current (set_program_choice choice (tk_reconciler st)) (seen 1) interference s = (r, s2, applied)"
      by (metis prod_cases3)
    have "re_choice r = choice" using kept [OF run] by (simp add: set_program_choice_def)
    moreover have "set programs \<subseteq> set managed_programs" if "choice = Selected programs" for programs
      using saved(1) that by (auto simp: choice_validate_def find_None_iff split: option.splits)
    moreover have "choice_load codec s d = choice"
      using choice_save_effect [OF saved(2)] assms(1) by (auto simp: choice_load_def fs_read_def choice_prints_back_def)
    ultimately show ?thesis
      using assms(2) saved run by (auto simp: change_choice_def shown split_beta Let_def)
  qed
qed

section \<open>A change, step by step\<close>

definition demo_choice_codec :: choice_codec where
  "demo_choice_codec =
     \<lparr>ch_from_slice = (\<lambda>b. if b = ''all'' @ [CHR 0x0A] then Inr AllPrograms
                          else if b = ''none'' @ [CHR 0x0A] then Inr NoPrograms else Inl ''expected a mode''),
      ch_to_vec_pretty = (\<lambda>choice. case choice of AllPrograms \<Rightarrow> Inr ''all'' | NoPrograms \<Rightarrow> Inr ''none''
                          | Selected ps \<Rightarrow> Inl ''not supported''),
      ch_debug = id\<rparr>"

lemma demo_choice_codec_prints_back: "choice_prints_back demo_choice_codec"
  by (auto simp: choice_prints_back_def demo_choice_codec_def split: program_choice.splits)

theorem choice_save_then_load_witness:
  "\<exists>t. choice_save demo_choice_codec demo_os [RootDir, Normal ''st''] NoPrograms = (t, Inr ())
    \<and> choice_load demo_choice_codec t [RootDir, Normal ''st''] = NoPrograms"
proof -
  let ?r = "choice_save demo_choice_codec demo_os [RootDir, Normal ''st''] NoPrograms"
  have "snd ?r = Inr ()" by code_simp
  then have run: "?r = (fst ?r, Inr ())" by (metis prod.collapse)
  from choice_save_then_load [OF run demo_choice_codec_prints_back] run show ?thesis by auto
qed

definition demo_tick_state :: tick_state where
  "demo_tick_state = \<lparr>tk_reconciler = demo_reconciler [], tk_system = demo_win, tk_log = []\<rparr>"

end
