(* ===== verification/Remote.thy ===== *)
theory Remote
  imports Program_Control Config_Check
begin

text \<open>
  The controller connection (\<^verbatim>\<open>remote.rs\<close>) as far as configuration goes: a pushed configuration is
  checked, becomes the current one, is applied and saved; the outcome of every push and every
  changed outcome of a periodic re-apply is reported. The loop over the stream is a step function on
  its events; heartbeats, telemetry and inventory, which touch none of this state, are left out.
\<close>

section \<open>Messages\<close>

text \<open>Enumeration values are the numbers of \<^verbatim>\<open>fleet.proto\<close>.\<close>

record pushed_config =
  pu_revision :: "64 word"
  pu_yaml :: bytes
  pu_sha256 :: bytes

record program_status =
  psm_program :: string
  psm_state :: int
  psm_detail :: string

record config_status =
  cs_revision :: "64 word"
  cs_state :: int
  cs_error :: string
  cs_programs :: "program_status list"
  cs_programs_reported :: bool

definition config_state_applied :: int where
  "config_state_applied = 1"

definition config_state_failed :: int where
  "config_state_failed = 2"

fun program_state_proto :: "program_state \<Rightarrow> int" where
  "program_state_proto Applied = 1"
| "program_state_proto Unchanged = 2"
| "program_state_proto Removed = 3"
| "program_state_proto Conflict = 4"
| "program_state_proto Inactive = 5"
| "program_state_proto Blocked = 6"
| "program_state_proto OptedOut = 8"
| "program_state_proto Failed = 7"

definition program_state_of_proto :: "int \<Rightarrow> program_state" where
  "program_state_of_proto n =
     (if n = 1 then Applied else if n = 2 then Unchanged else if n = 3 then Removed
      else if n = 4 then Conflict else if n = 5 then Inactive else if n = 6 then Blocked
      else if n = 8 then OptedOut else Failed)"

definition program_statuses :: "apply_report \<Rightarrow> program_status list" where
  "program_statuses report =
     map (\<lambda>outcome. \<lparr>psm_program = po_program outcome, psm_state = program_state_proto (po_state outcome),
                     psm_detail = po_detail outcome\<rparr>) (ar_programs report)"

definition status_keys :: "program_status list \<Rightarrow> (string \<times> program_state \<times> string) list" where
  "status_keys programs = map (\<lambda>p. (psm_program p, program_state_of_proto (psm_state p), psm_detail p)) programs"

definition config_status_of :: "64 word \<Rightarrow> program_status list \<Rightarrow> string + unit \<Rightarrow> config_status" where
  "config_status_of revision programs result =
     \<lparr>cs_revision = revision,
      cs_state = (case result of Inr _ \<Rightarrow> config_state_applied | Inl _ \<Rightarrow> config_state_failed),
      cs_error = (case result of Inr _ \<Rightarrow> [] | Inl e \<Rightarrow> e),
      cs_programs = programs, cs_programs_reported = True\<rparr>"

section \<open>A pushed configuration\<close>

text \<open>
  Parameters: SHA-256, the YAML reader, the URL parser, and the message for bytes that are not UTF-8.
\<close>

record push_lib =
  pl_sha256 :: "bytes \<Rightarrow> bytes"
  pl_from_yaml :: "string \<Rightarrow> anyhow + daemon_config"
  pl_parse_url :: "string \<Rightarrow> string + url"
  pl_utf8_error :: "bytes \<Rightarrow> string"

definition parse_pushed_config :: "push_lib \<Rightarrow> pushed_config \<Rightarrow> anyhow + daemon_config" where
  "parse_pushed_config lib config =
     (if pl_sha256 lib (pu_yaml config) \<noteq> pu_sha256 config then Inl [''configuration hash does not match payload'']
      else if \<not> valid_utf8 (pu_yaml config)
      then Inl [''configuration is not UTF-8'', pl_utf8_error lib (pu_yaml config)]
      else parse_daemon (pl_from_yaml lib) (pl_parse_url lib) (pu_yaml config))"

definition replace_current_config ::
  "push_lib \<Rightarrow> pushed_config \<Rightarrow> current_config option \<Rightarrow> current_config option \<times> (anyhow + daemon_config)" where
  "replace_current_config lib config current =
     (case parse_pushed_config lib config of
        Inl e \<Rightarrow> (current, Inl e)
      | Inr parsed \<Rightarrow> (Some \<lparr>cur_revision = Some (pu_revision config), cur_config = parsed\<rparr>, Inr parsed))"

definition remote_config_path :: "path \<Rightarrow> path" where
  "remote_config_path state_dir = path_join state_dir [Normal ''remote-config.yaml'']"

definition persist_config :: "'a os_scheme \<Rightarrow> path \<Rightarrow> bytes \<Rightarrow> 'a os_scheme \<times> (anyhow + unit)" where
  "persist_config s state_dir yaml =
     (case ensure_private_dir s state_dir of
        (s1, Inl e) \<Rightarrow> (s1, Inl e)
      | (s1, Inr _) \<Rightarrow> atomic_write s1 (remote_config_path state_dir) yaml 0x180)"

definition load_effective_config ::
  "(string \<Rightarrow> anyhow + daemon_config) \<Rightarrow> (string \<Rightarrow> string + url) \<Rightarrow> 'a os_scheme \<Rightarrow> daemon_config \<Rightarrow> path
     \<Rightarrow> anyhow + daemon_config" where
  "load_effective_config from_yaml parse_url s config state_dir =
     (if dc_controller config = None then Inr config
      else case read_to_string s (remote_config_path state_dir) of
             Inr contents \<Rightarrow> with_context ''parse applied remote configuration'' (parse_daemon from_yaml parse_url contents)
           | Inl e \<Rightarrow> if kind e = NotFound then Inr config else Inl [io_message e])"

text \<open>
  The daemon, the revisions it saved (as its log has them), and whether a sign-in was started.
  \<open>interference\<close> is what other processes do between planning and applying.
\<close>

record push_state =
  ps_daemon :: tick_state
  ps_saves :: "(64 word \<times> bytes) list"
  ps_sign_ins :: nat

definition save_config :: "path \<Rightarrow> 64 word \<Rightarrow> bytes \<Rightarrow> push_state \<Rightarrow> push_state \<times> (anyhow + unit)" where
  "save_config state_dir revision yaml st =
     (case persist_config (tk_system (ps_daemon st)) state_dir yaml of
        (s, Inl e) \<Rightarrow> (st\<lparr>ps_daemon := (ps_daemon st)\<lparr>tk_system := s\<rparr>\<rparr>, Inl e)
      | (s, Inr _) \<Rightarrow>
          (st\<lparr>ps_daemon := (ps_daemon st)\<lparr>tk_system := s\<rparr>, ps_saves := ps_saves st @ [(revision, yaml)]\<rparr>, Inr ()))"

definition apply_parsed ::
  "path \<Rightarrow> pushed_config \<Rightarrow> anyhow + daemon_config \<Rightarrow> (win_os \<Rightarrow> win_os) \<Rightarrow> push_state \<Rightarrow> push_state \<times> config_status" where
  "apply_parsed state_dir config parsed interference st =
     (case parsed of
        Inl e \<Rightarrow> (st, config_status_of (pu_revision config) [] (Inl (chain_message e)))
      | Inr daemon_config \<Rightarrow>
          (let d = ps_daemon st in
           case apply_after_previous daemon_config (tk_reconciler d) (tk_system d) (interference (tk_system d)) of
             (r, s, None) \<Rightarrow> (st, config_status_of (pu_revision config) [] (Inl ''a configuration was given''))
           | (r, s, Some (_, report, applied)) \<Rightarrow>
               (let st1 = st\<lparr>ps_daemon := d\<lparr>tk_reconciler := r, tk_system := s, tk_log := tk_log d @ map Inl (report_log report)\<rparr>\<rparr>;
                    status = config_status_of (pu_revision config) (program_statuses report)
                in case applied of
                     Inl e \<Rightarrow> (st1, status (Inl (chain_message e)))
                   | Inr _ \<Rightarrow>
                       (case save_config state_dir (pu_revision config) (pu_yaml config) st1 of
                          (st2, Inl e) \<Rightarrow> (st2, status (Inl (chain_message e)))
                        | (st2, Inr _) \<Rightarrow>
                            (st2\<lparr>ps_sign_ins := ps_sign_ins st2 + (if gateway_sign_in_wanted r daemon_config then 1 else 0)\<rparr>,
                             status (Inr ()))))))"

definition tick_config_status :: "config_status option \<Rightarrow> 64 word option \<Rightarrow> tick_status \<Rightarrow> config_status option" where
  "tick_config_status last_sent stream_revision tick =
     (if ts_revision tick = None \<or> ts_revision tick \<noteq> stream_revision then None
      else
        (let status = config_status_of (case ts_revision tick of Some r \<Rightarrow> r | None \<Rightarrow> 0) (program_statuses (ts_report tick))
               (case ts_error tick of None \<Rightarrow> Inr () | Some e \<Rightarrow> Inl e)
         in case last_sent of
              None \<Rightarrow> Some status
            | Some sent \<Rightarrow>
                if cs_state sent \<noteq> cs_state status \<or> cs_error sent \<noteq> cs_error status
                   \<or> outcomes_differ (status_keys (cs_programs sent)) (status_keys (cs_programs status))
                then Some status else None))"

section \<open>The stream\<close>

record stream =
  sm_revision :: "64 word option"
  sm_last_sent :: "config_status option"
  sm_pending :: "(64 word \<times> bytes) option"
  sm_current :: "current_config option"
  sm_state :: push_state
  sm_sent :: "config_status list"

text \<open>
  What wakes the loop: a tick's outcome, or a pushed configuration. Between its wake-ups other tasks
  of the daemon run.
\<close>

datatype stream_event =
    TickOutcome tick_status
  | Pushed pushed_config "win_os \<Rightarrow> win_os"
  | OtherTasks "tick_state \<Rightarrow> tick_state"

definition open_stream :: "current_config option \<Rightarrow> push_state \<Rightarrow> stream" where
  "open_stream current st = \<lparr>sm_revision = None, sm_last_sent = None, sm_pending = None, sm_current = current,
     sm_state = st, sm_sent = []\<rparr>"

definition on_tick :: "path \<Rightarrow> tick_status \<Rightarrow> stream \<Rightarrow> stream" where
  "on_tick state_dir tick sm =
     (let (st, pending, tick') =
            (case (if ts_error tick = None \<and> ts_revision tick \<noteq> None \<and> ts_revision tick = sm_revision sm
                   then sm_pending sm else None) of
               Some (revision, yaml) \<Rightarrow>
                 (case save_config state_dir revision yaml (sm_state sm) of
                    (st, Inl e) \<Rightarrow> (st, Some (revision, yaml), tick\<lparr>ts_error := Some (chain_message e)\<rparr>)
                  | (st, Inr _) \<Rightarrow> (st, None, tick))
             | None \<Rightarrow> (sm_state sm, sm_pending sm, tick));
          sm' = sm\<lparr>sm_state := st, sm_pending := pending\<rparr>
      in case tick_config_status (sm_last_sent sm) (sm_revision sm) tick' of
           None \<Rightarrow> sm'
         | Some status \<Rightarrow> sm'\<lparr>sm_last_sent := Some status, sm_sent := sm_sent sm @ [status]\<rparr>)"

definition on_push :: "push_lib \<Rightarrow> path \<Rightarrow> pushed_config \<Rightarrow> (win_os \<Rightarrow> win_os) \<Rightarrow> stream \<Rightarrow> stream" where
  "on_push lib state_dir config interference sm =
     (let (current, parsed) = replace_current_config lib config (sm_current sm);
          (st, status) = apply_parsed state_dir config parsed interference (sm_state sm)
      in \<lparr>sm_revision = Some (pu_revision config), sm_last_sent = Some status,
          sm_pending = (if (case parsed of Inr _ \<Rightarrow> True | Inl _ \<Rightarrow> False) \<and> cs_error status \<noteq> []
                        then Some (pu_revision config, pu_yaml config) else None),
          sm_current = current, sm_state = st, sm_sent = sm_sent sm @ [status]\<rparr>)"

fun stream_step :: "push_lib \<Rightarrow> path \<Rightarrow> stream_event \<Rightarrow> stream \<Rightarrow> stream" where
  "stream_step lib state_dir (TickOutcome tick) sm = on_tick state_dir tick sm"
| "stream_step lib state_dir (Pushed config interference) sm = on_push lib state_dir config interference sm"
| "stream_step lib state_dir (OtherTasks f) sm = sm\<lparr>sm_state := (sm_state sm)\<lparr>ps_daemon := f (ps_daemon (sm_state sm))\<rparr>\<rparr>"

end
