(* ===== verification/Fleet_Store.thy ===== *)
theory Fleet_Store
  imports Remote Usage_Report
begin

text \<open>
  The controller's database (\<^verbatim>\<open>controller/src/database.rs\<close>, its migrations, \<^verbatim>\<open>usage.rs\<close>, and the overview of
  \<^verbatim>\<open>admin.rs\<close>): one association list per table, one definition per query. A writing query gives the
  tables after it or its error; an error leaves the tables as they were, as every group of statements
  runs in a transaction. Primary keys and the references to \<^verbatim>\<open>devices\<close> are enforced, and deleting a device
  deletes the rows that refer to it. Rows that a query's \<^verbatim>\<open>ORDER BY\<close> does not tell apart keep the order of
  the table, and text is compared by its bytes.
\<close>

section \<open>Tables\<close>

record device_row =
  dv_hostname :: string
  dv_os :: string
  dv_architecture :: string
  dv_agent_version :: string
  dv_created_at :: int
  dv_last_seen_at :: "int option"
  dv_issuer :: string
  dv_subject :: string
  dv_claims_json :: "string option"

record discovery_row =
  dr_version :: string
  dr_servers_json :: string
  dr_skills_json :: string

record status_row =
  sr_revision :: int
  sr_state :: int
  sr_error :: string
  sr_updated_at :: int
  sr_programs_reported :: int

record program_row =
  pr_position :: int
  pr_revision :: int
  pr_state :: int
  pr_detail :: string
  pr_updated_at :: int

record telemetry_row =
  tr_device :: string
  tr_timestamp :: int
  tr_type :: string
  tr_payload_json :: string

text \<open>The key of a discovery is its device, kind and path; of a runtime, device and kind; of a program, device and name.\<close>

record fleet_db =
  fd_devices :: "(string \<times> device_row) list"
  fd_discoveries :: "((string \<times> string \<times> string) \<times> discovery_row) list"
  fd_runtimes :: "((string \<times> string) \<times> string) list"
  fd_status :: "(string \<times> status_row) list"
  fd_programs :: "((string \<times> string) \<times> program_row) list"
  fd_telemetry :: "(string \<times> telemetry_row) list"

definition empty_fleet :: fleet_db where
  "empty_fleet = \<lparr>fd_devices = [], fd_discoveries = [], fd_runtimes = [], fd_status = [], fd_programs = [],
                  fd_telemetry = []\<rparr>"

text \<open>
  Parameters: which statements the database refuses (by the name given to them here) and its messages for
  a broken constraint and for a missing row; and \<^verbatim>\<open>serde_json\<close> on values and on the stored lists.
\<close>

record fleet_sql =
  fs_refuses :: "string \<Rightarrow> string option"
  fs_violation :: string
  fs_no_row :: string

definition fleet_run :: "fleet_sql \<Rightarrow> string \<Rightarrow> string list \<Rightarrow> anyhow + 'a \<Rightarrow> anyhow + 'a" where
  "fleet_run sql stmt ctx next = (case fs_refuses sql stmt of Some e \<Rightarrow> Inl (ctx @ [e]) | None \<Rightarrow> next)"

record mcp_server =
  ms_name :: string
  ms_transport :: string
  ms_command :: "string option"
  ms_url :: "string option"
  ms_enabled :: bool
  ms_source :: string

record skill =
  sk_path :: string
  sk_front_matter :: entries

record fleet_json =
  fj_write :: "json \<Rightarrow> string + string"
  fj_read :: "bytes \<Rightarrow> string + json"
  fj_not_map :: string
  fj_write_servers :: "mcp_server list \<Rightarrow> string + string"
  fj_read_servers :: "string \<Rightarrow> string + mcp_server list"
  fj_write_skills :: "skill list \<Rightarrow> string + string"
  fj_read_skills :: "string \<Rightarrow> string + skill list"
  fj_write_models :: "string list \<Rightarrow> string + string"
  fj_read_models :: "string \<Rightarrow> string + string list"

text \<open>A JSON result under a context, and a document that must be an object.\<close>

definition coded :: "string \<Rightarrow> string + 'a \<Rightarrow> anyhow + 'a" where
  "coded ctx r = (case r of Inl e \<Rightarrow> Inl [ctx, e] | Inr x \<Rightarrow> Inr x)"

definition read_map :: "fleet_json \<Rightarrow> bytes \<Rightarrow> string + entries" where
  "read_map codec b =
     (case fj_read codec b of
        Inl e \<Rightarrow> Inl e
      | Inr v \<Rightarrow> (case as_object v of Some m \<Rightarrow> Inr m | None \<Rightarrow> Inl (fj_not_map codec)))"

fun read_option :: "('a \<Rightarrow> anyhow + 'b) \<Rightarrow> 'a option \<Rightarrow> anyhow + 'b option" where
  "read_option f None = Inr None"
| "read_option f (Some x) = (case f x of Inl e \<Rightarrow> Inl e | Inr y \<Rightarrow> Inr (Some y))"

fun collect :: "('a \<Rightarrow> anyhow + 'b) \<Rightarrow> 'a list \<Rightarrow> anyhow + 'b list" where
  "collect f [] = Inr []"
| "collect f (x # xs) =
     (case f x of
        Inl e \<Rightarrow> Inl e
      | Inr y \<Rightarrow> (case collect f xs of Inl e \<Rightarrow> Inl e | Inr ys \<Rightarrow> Inr (y # ys)))"

text \<open>\<^verbatim>\<open>i64::try_from(n).unwrap_or(i64::MAX)\<close> on an unsigned value.\<close>

definition saturated_i64 :: "64 word \<Rightarrow> int" where
  "saturated_i64 n = min (uint n) i64_max"

section \<open>Rows of a device\<close>

definition insert_row ::
    "fleet_sql \<Rightarrow> fleet_db \<Rightarrow> string \<Rightarrow> string \<Rightarrow> 'k \<Rightarrow> 'r \<Rightarrow> ('k \<times> 'r) list \<Rightarrow> anyhow + ('k \<times> 'r) list" where
  "insert_row sql db stmt device_id key row table =
     fleet_run sql stmt []
       (if map_of (fd_devices db) device_id = None \<or> map_of table key \<noteq> None
        then Inl [fs_violation sql] else Inr (table @ [(key, row)]))"

definition update_row :: "'k \<Rightarrow> ('r \<Rightarrow> 'r) \<Rightarrow> ('k \<times> 'r) list \<Rightarrow> ('k \<times> 'r) list" where
  "update_row key change table = map (\<lambda>(k, r). (k, if k = key then change r else r)) table"

definition discoveries_of :: "fleet_db \<Rightarrow> string \<Rightarrow> ((string \<times> string \<times> string) \<times> discovery_row) list" where
  "discoveries_of db device_id = filter (\<lambda>r. fst (fst r) = device_id) (fd_discoveries db)"

definition runtimes_of :: "fleet_db \<Rightarrow> string \<Rightarrow> ((string \<times> string) \<times> string) list" where
  "runtimes_of db device_id = filter (\<lambda>r. fst (fst r) = device_id) (fd_runtimes db)"

definition programs_of :: "fleet_db \<Rightarrow> string \<Rightarrow> ((string \<times> string) \<times> program_row) list" where
  "programs_of db device_id = filter (\<lambda>r. fst (fst r) = device_id) (fd_programs db)"

definition telemetry_of :: "fleet_db \<Rightarrow> string \<Rightarrow> (string \<times> telemetry_row) list" where
  "telemetry_of db device_id = filter (\<lambda>r. tr_device (snd r) = device_id) (fd_telemetry db)"

section \<open>Enrollment\<close>

record device_principal_row =
  dp_issuer :: string
  dp_subject :: string
  dp_claims :: "entries option"

definition insert_device_row ::
    "fleet_sql \<Rightarrow> fleet_json \<Rightarrow> int \<Rightarrow> string \<Rightarrow> string \<Rightarrow> string \<Rightarrow> string \<Rightarrow> entries option \<Rightarrow> fleet_db \<Rightarrow> anyhow + fleet_db" where
  "insert_device_row sql codec now device_id hostname issuer subject idp_claims db =
     (case read_option (\<lambda>c. coded ''encode verified IdP claims'' (fj_write codec (Object c))) idp_claims of
        Inl e \<Rightarrow> Inl e
      | Inr claims_json \<Rightarrow>
          fleet_run sql ''begin'' []
            (fleet_run sql ''insert device'' []
               (if map_of (fd_devices db) device_id \<noteq> None then Inl [fs_violation sql]
                else
                  fleet_run sql ''commit'' []
                    (Inr (db\<lparr>fd_devices := fd_devices db @
                       [(device_id,
                         \<lparr>dv_hostname = hostname, dv_os = [], dv_architecture = [], dv_agent_version = [],
                          dv_created_at = now, dv_last_seen_at = Some now, dv_issuer = issuer,
                          dv_subject = subject, dv_claims_json = claims_json\<rparr>)]\<rparr>)))))"

definition device_principal :: "fleet_sql \<Rightarrow> fleet_json \<Rightarrow> fleet_db \<Rightarrow> string \<Rightarrow> anyhow + device_principal_row" where
  "device_principal sql codec db device_id =
     fleet_run sql ''select principal'' [''load device enrollment principal'']
       (case map_of (fd_devices db) device_id of
          None \<Rightarrow> Inl [''load device enrollment principal'', fs_no_row sql]
        | Some row \<Rightarrow>
            (case read_option (\<lambda>c. coded ''decode verified IdP claims'' (read_map codec c)) (dv_claims_json row) of
               Inl e \<Rightarrow> Inl e
             | Inr claims \<Rightarrow> Inr \<lparr>dp_issuer = dv_issuer row, dp_subject = dv_subject row, dp_claims = claims\<rparr>))"

definition delete_device :: "fleet_sql \<Rightarrow> string \<Rightarrow> fleet_db \<Rightarrow> anyhow + bool \<times> fleet_db" where
  "delete_device sql device_id db =
     fleet_run sql ''delete device'' [''delete device'']
       (Inr (map_of (fd_devices db) device_id \<noteq> None,
             \<lparr>fd_devices = filter (\<lambda>r. fst r \<noteq> device_id) (fd_devices db),
              fd_discoveries = filter (\<lambda>r. fst (fst r) \<noteq> device_id) (fd_discoveries db),
              fd_runtimes = filter (\<lambda>r. fst (fst r) \<noteq> device_id) (fd_runtimes db),
              fd_status = filter (\<lambda>r. fst r \<noteq> device_id) (fd_status db),
              fd_programs = filter (\<lambda>r. fst (fst r) \<noteq> device_id) (fd_programs db),
              fd_telemetry = filter (\<lambda>r. tr_device (snd r) \<noteq> device_id) (fd_telemetry db)\<rparr>))"

section \<open>What a device reports\<close>

record hello =
  he_device_id :: string
  he_hostname :: string
  he_os :: string
  he_architecture :: string
  he_agent_version :: string

definition update_hello :: "fleet_sql \<Rightarrow> int \<Rightarrow> string \<Rightarrow> hello \<Rightarrow> fleet_db \<Rightarrow> anyhow + fleet_db" where
  "update_hello sql now device_id hello db =
     fleet_run sql ''update hello'' []
       (Inr (db\<lparr>fd_devices := update_row device_id
          (\<lambda>row. row\<lparr>dv_hostname := he_hostname hello, dv_os := he_os hello,
                     dv_architecture := he_architecture hello, dv_agent_version := he_agent_version hello,
                     dv_last_seen_at := Some now\<rparr>) (fd_devices db)\<rparr>))"

definition update_heartbeat :: "fleet_sql \<Rightarrow> string \<Rightarrow> 64 word \<Rightarrow> fleet_db \<Rightarrow> anyhow + fleet_db" where
  "update_heartbeat sql device_id timestamp db =
     fleet_run sql ''update heartbeat'' []
       (Inr (db\<lparr>fd_devices := update_row device_id
          (\<lambda>row. row\<lparr>dv_last_seen_at := Some (saturated_i64 timestamp)\<rparr>) (fd_devices db)\<rparr>))"

text \<open>The inventory message; a local model is its name.\<close>

record reported_server =
  rs_name :: string
  rs_transport :: string
  rs_command :: string
  rs_url :: string
  rs_enabled :: bool
  rs_source :: string

record reported_skill =
  rk_path :: string
  rk_front_matter_json :: bytes

record reported_discovery =
  rd_kind :: string
  rd_version :: string
  rd_path :: string
  rd_servers :: "reported_server list"
  rd_skills :: "reported_skill list"

record inventory =
  in_discoveries :: "reported_discovery list"
  in_runtimes :: "(string \<times> string list) list"

definition some_text :: "string \<Rightarrow> string option" where
  "some_text s = (if s = [] then None else Some s)"

definition server_of :: "reported_server \<Rightarrow> mcp_server" where
  "server_of s =
     \<lparr>ms_name = rs_name s, ms_transport = rs_transport s, ms_command = some_text (rs_command s),
      ms_url = some_text (rs_url s), ms_enabled = rs_enabled s, ms_source = rs_source s\<rparr>"

definition skill_of :: "fleet_json \<Rightarrow> reported_skill \<Rightarrow> anyhow + skill" where
  "skill_of codec s =
     (case coded ''decode reported skill front matter'' (read_map codec (rk_front_matter_json s)) of
        Inl e \<Rightarrow> Inl e
      | Inr m \<Rightarrow> Inr \<lparr>sk_path = rk_path s, sk_front_matter = m\<rparr>)"

fun store_discoveries ::
    "fleet_sql \<Rightarrow> fleet_json \<Rightarrow> fleet_db \<Rightarrow> string \<Rightarrow> reported_discovery list \<Rightarrow>
     ((string \<times> string \<times> string) \<times> discovery_row) list \<Rightarrow> anyhow + ((string \<times> string \<times> string) \<times> discovery_row) list" where
  "store_discoveries sql codec db device_id [] rows = Inr rows"
| "store_discoveries sql codec db device_id (d # ds) rows =
     (case collect (skill_of codec) (rd_skills d) of
        Inl e \<Rightarrow> Inl e
      | Inr skills \<Rightarrow>
          (case coded ''encode discovered MCP servers'' (fj_write_servers codec (map server_of (rd_servers d))) of
             Inl e \<Rightarrow> Inl e
           | Inr servers_json \<Rightarrow>
               (case coded ''encode discovered skills'' (fj_write_skills codec skills) of
                  Inl e \<Rightarrow> Inl e
                | Inr skills_json \<Rightarrow>
                    (case insert_row sql db ''insert discovery'' device_id (device_id, rd_kind d, rd_path d)
                            \<lparr>dr_version = rd_version d, dr_servers_json = servers_json,
                             dr_skills_json = skills_json\<rparr> rows of
                       Inl e \<Rightarrow> Inl e
                     | Inr rows' \<Rightarrow> store_discoveries sql codec db device_id ds rows'))))"

fun store_runtimes ::
    "fleet_sql \<Rightarrow> fleet_json \<Rightarrow> fleet_db \<Rightarrow> string \<Rightarrow> (string \<times> string list) list \<Rightarrow>
     ((string \<times> string) \<times> string) list \<Rightarrow> anyhow + ((string \<times> string) \<times> string) list" where
  "store_runtimes sql codec db device_id [] rows = Inr rows"
| "store_runtimes sql codec db device_id ((runtime, models) # rs) rows =
     (case coded ''encode discovered local models'' (fj_write_models codec models) of
        Inl e \<Rightarrow> Inl e
      | Inr models_json \<Rightarrow>
          (case insert_row sql db ''insert runtime'' device_id (device_id, runtime) models_json rows of
             Inl e \<Rightarrow> Inl e
           | Inr rows' \<Rightarrow> store_runtimes sql codec db device_id rs rows'))"

definition replace_inventory ::
    "fleet_sql \<Rightarrow> fleet_json \<Rightarrow> string \<Rightarrow> inventory \<Rightarrow> fleet_db \<Rightarrow> anyhow + fleet_db" where
  "replace_inventory sql codec device_id inventory db =
     fleet_run sql ''begin'' []
       (fleet_run sql ''delete discoveries'' []
          (case store_discoveries sql codec db device_id (in_discoveries inventory)
                  (filter (\<lambda>r. fst (fst r) \<noteq> device_id) (fd_discoveries db)) of
             Inl e \<Rightarrow> Inl e
           | Inr discoveries \<Rightarrow>
               fleet_run sql ''delete runtimes'' []
                 (case store_runtimes sql codec db device_id (in_runtimes inventory)
                         (filter (\<lambda>r. fst (fst r) \<noteq> device_id) (fd_runtimes db)) of
                    Inl e \<Rightarrow> Inl e
                  | Inr runtimes \<Rightarrow>
                      fleet_run sql ''commit'' []
                        (Inr (db\<lparr>fd_discoveries := discoveries, fd_runtimes := runtimes\<rparr>)))))"

section \<open>Configuration status\<close>

fun check_programs :: "string list \<Rightarrow> program_status list \<Rightarrow> anyhow + unit" where
  "check_programs seen [] = Inr ()"
| "check_programs seen (p # ps) =
     (if psm_program p = [] \<or> length (psm_program p) > 64
         \<or> \<not> list_all (\<lambda>c. is_ascii_lowercase c \<or> is_ascii_digit c \<or> c = CHR ''-'') (psm_program p)
      then Inl [''invalid program in configuration status'']
      else if psm_program p \<in> set seen then Inl [''duplicate program in configuration status'']
      else if length (psm_detail p) > 2048 then Inl [''program detail too long in configuration status'']
      else check_programs (psm_program p # seen) ps)"

definition validate_program_status :: "config_status \<Rightarrow> anyhow + unit" where
  "validate_program_status status =
     (if length (cs_programs status) > 32 then Inl [''too many programs in configuration status'']
      else check_programs [] (cs_programs status))"

definition update_device_config_state ::
    "fleet_sql \<Rightarrow> int \<Rightarrow> string \<Rightarrow> config_status \<Rightarrow> fleet_db \<Rightarrow> anyhow + fleet_db" where
  "update_device_config_state sql now device_id status db =
     fleet_run sql ''upsert state'' []
       (if map_of (fd_devices db) device_id = None then Inl [fs_violation sql]
        else
          (let reported = (case map_of (fd_status db) device_id of
                             Some row \<Rightarrow> sr_programs_reported row | None \<Rightarrow> 0)
           in Inr (db\<lparr>fd_status := AList.update device_id
                \<lparr>sr_revision = saturated_i64 (cs_revision status), sr_state = cs_state status,
                 sr_error = cs_error status, sr_updated_at = now,
                 sr_programs_reported = reported\<rparr> (fd_status db)\<rparr>)))"

fun store_programs ::
    "fleet_sql \<Rightarrow> fleet_db \<Rightarrow> int \<Rightarrow> string \<Rightarrow> int \<Rightarrow> int \<Rightarrow> program_status list \<Rightarrow>
     ((string \<times> string) \<times> program_row) list \<Rightarrow> anyhow + ((string \<times> string) \<times> program_row) list" where
  "store_programs sql db now device_id revision position [] rows = Inr rows"
| "store_programs sql db now device_id revision position (p # ps) rows =
     (case insert_row sql db ''insert program'' device_id (device_id, psm_program p)
             \<lparr>pr_position = position, pr_revision = revision, pr_state = psm_state p,
              pr_detail = psm_detail p, pr_updated_at = now\<rparr> rows of
        Inl e \<Rightarrow> Inl e
      | Inr rows' \<Rightarrow> store_programs sql db now device_id revision (position + 1) ps rows')"

definition update_config_status ::
    "fleet_sql \<Rightarrow> int \<Rightarrow> string \<Rightarrow> config_status \<Rightarrow> fleet_db \<Rightarrow> anyhow + fleet_db" where
  "update_config_status sql now device_id status db =
     (case validate_program_status status of
        Inl e \<Rightarrow> Inl e
      | Inr _ \<Rightarrow>
          (let revision = saturated_i64 (cs_revision status)
           in fleet_run sql ''begin'' []
                (fleet_run sql ''upsert status'' []
                   (if map_of (fd_devices db) device_id = None then Inl [fs_violation sql]
                    else
                      fleet_run sql ''delete programs'' []
                        (case store_programs sql db now device_id revision 0 (cs_programs status)
                                (filter (\<lambda>r. fst (fst r) \<noteq> device_id) (fd_programs db)) of
                           Inl e \<Rightarrow> Inl e
                         | Inr programs \<Rightarrow>
                             fleet_run sql ''commit'' []
                               (Inr (db\<lparr>fd_status := AList.update device_id
                                       \<lparr>sr_revision = revision, sr_state = cs_state status,
                                        sr_error = cs_error status, sr_updated_at = now,
                                        sr_programs_reported = of_bool (cs_programs_reported status)\<rparr>
                                       (fd_status db),
                                     fd_programs := programs\<rparr>)))))))"

section \<open>Telemetry\<close>

datatype telemetry_kind =
    SessionNewEvent string string
  | ToolUseEvent string string string bytes

record telemetry_message =
  te_timestamp_unix_ms :: "64 word"
  te_event :: "telemetry_kind option"

fun telemetry_payload :: "fleet_json \<Rightarrow> telemetry_kind \<Rightarrow> anyhow + string \<times> json" where
  "telemetry_payload codec (SessionNewEvent client_id session_id) =
     (if client_id = [] \<or> length client_id > 64 then Inl [''invalid telemetry client ID'']
      else if session_id = [] \<or> length session_id > 256 then Inl [''invalid telemetry session ID'']
      else Inr (''session.new'', Object [(''clientId'', String client_id), (''sessionId'', String session_id)]))"
| "telemetry_payload codec (ToolUseEvent client_id tool_name tool_use_id input_json) =
     (if client_id = [] \<or> length client_id > 64 then Inl [''invalid telemetry client ID'']
      else if tool_name = [] \<or> length tool_name > 128 then Inl [''invalid telemetry tool name'']
      else if length tool_use_id > 256 then Inl [''invalid telemetry tool use ID'']
      else if length input_json > 256 * 1024 then Inl [''telemetry tool input is too large'']
      else
        (case read_option (\<lambda>b. coded ''decode telemetry tool input'' (fj_read codec b)) (some_text input_json) of
           Inl e \<Rightarrow> Inl e
         | Inr tool_input \<Rightarrow>
             Inr (''tool.use'',
                  Object ([(''clientId'', String client_id)]
                    @ (case tool_input of None \<Rightarrow> [] | Some v \<Rightarrow> [(''toolInput'', v)])
                    @ [(''toolName'', String tool_name),
                       (''toolUseId'', case some_text tool_use_id of None \<Rightarrow> Null | Some i \<Rightarrow> String i)]))))"

text \<open>\<^verbatim>\<open>row_id\<close> is the fresh random identifier of the row.\<close>

definition insert_telemetry ::
    "fleet_sql \<Rightarrow> fleet_json \<Rightarrow> string \<Rightarrow> string \<Rightarrow> telemetry_message \<Rightarrow> fleet_db \<Rightarrow> anyhow + fleet_db" where
  "insert_telemetry sql codec row_id device_id telemetry db =
     (case te_event telemetry of
        None \<Rightarrow> Inl [''telemetry has no event'']
      | Some event \<Rightarrow>
          (case telemetry_payload codec event of
             Inl e \<Rightarrow> Inl e
           | Inr (event_type, payload) \<Rightarrow>
               (case coded ''encode telemetry payload'' (fj_write codec payload) of
                  Inl e \<Rightarrow> Inl e
                | Inr payload_json \<Rightarrow>
                    (case insert_row sql db ''insert telemetry'' device_id row_id
                            \<lparr>tr_device = device_id, tr_timestamp = saturated_i64 (te_timestamp_unix_ms telemetry),
                             tr_type = event_type, tr_payload_json = payload_json\<rparr> (fd_telemetry db) of
                       Inl e \<Rightarrow> Inl (''store telemetry event'' # e)
                     | Inr rows \<Rightarrow> Inr (db\<lparr>fd_telemetry := rows\<rparr>)))))"

end
