(* ===== verification/Fleet_Views.thy ===== *)
theory Fleet_Views
  imports Fleet_Store
begin

text \<open>
  What the controller shows of its database: the device list, the detail of one device and the names used
  in usage reports (\<^verbatim>\<open>database.rs\<close>, \<^verbatim>\<open>usage.rs\<close>), and the administrator's handlers over them (\<^verbatim>\<open>admin.rs\<close>).
\<close>

section \<open>The device list\<close>

record device_summary =
  ds_id :: string
  ds_hostname :: string
  ds_os :: string
  ds_architecture :: string
  ds_agent_version :: string
  ds_created_at :: int
  ds_last_seen_at :: "int option"
  ds_issuer :: string
  ds_subject :: string
  ds_name :: "string option"
  ds_config_revision :: "int option"
  ds_config_state :: "int option"
  ds_config_error :: "string option"
  ds_config_updated_at :: "int option"
  ds_discovery_count :: int
  ds_installed_tools :: "string list"

definition readable_name :: "fleet_json \<Rightarrow> string \<Rightarrow> string option" where
  "readable_name codec idp_claims =
     (case fj_read codec idp_claims of
        Inl _ \<Rightarrow> None
      | Inr claims \<Rightarrow>
          (case List.map_filter
                  (\<lambda>claim. Option.bind (get_field claims claim)
                     (\<lambda>v. Option.bind (as_str v) some_text))
                  [''email'', ''preferred_username'', ''name''] of
             [] \<Rightarrow> None
           | name # _ \<Rightarrow> Some name))"

definition summary_of :: "fleet_json \<Rightarrow> fleet_db \<Rightarrow> string \<Rightarrow> device_row \<Rightarrow> string list \<Rightarrow> device_summary" where
  "summary_of codec db device_id row tools =
     (let cs = map_of (fd_status db) device_id
      in \<lparr>ds_id = device_id, ds_hostname = dv_hostname row, ds_os = dv_os row,
          ds_architecture = dv_architecture row, ds_agent_version = dv_agent_version row,
          ds_created_at = dv_created_at row, ds_last_seen_at = dv_last_seen_at row,
          ds_issuer = dv_issuer row, ds_subject = dv_subject row,
          ds_name = Option.bind (dv_claims_json row) (readable_name codec),
          ds_config_revision = map_option sr_revision cs, ds_config_state = map_option sr_state cs,
          ds_config_error = map_option sr_error cs, ds_config_updated_at = map_option sr_updated_at cs,
          ds_discovery_count = int (length (discoveries_of db device_id)),
          ds_installed_tools = tools\<rparr>)"

text \<open>The last seen first, a device never seen at the end; then by hostname.\<close>

definition order_devices :: "(string \<times> device_row) list \<Rightarrow> (string \<times> device_row) list" where
  "order_devices rows =
     (let named = sort_key (\<lambda>r. dv_hostname (snd r)) rows
      in sort_key (\<lambda>r. - the (dv_last_seen_at (snd r))) (filter (\<lambda>r. dv_last_seen_at (snd r) \<noteq> None) named)
         @ filter (\<lambda>r. dv_last_seen_at (snd r) = None) named)"

text \<open>The kinds of a device's discoveries in order.\<close>

definition installed_tools :: "fleet_db \<Rightarrow> string \<Rightarrow> string list" where
  "installed_tools db device_id = sort (map (\<lambda>r. fst (snd (fst r))) (discoveries_of db device_id))"

definition list_devices :: "fleet_sql \<Rightarrow> fleet_json \<Rightarrow> fleet_db \<Rightarrow> anyhow + device_summary list" where
  "list_devices sql codec db =
     fleet_run sql ''select devices'' [''list devices'']
       (fleet_run sql ''select tools'' [''list installed developer tools'']
          (Inr (map (\<lambda>(device_id, row). summary_of codec db device_id row (installed_tools db device_id))
                  (order_devices (fd_devices db)))))"

section \<open>The detail of a device\<close>

record device_discovery =
  dd_kind :: string
  dd_version :: string
  dd_path :: string
  dd_servers :: "mcp_server list"
  dd_skills :: "skill list"

record telemetry_record =
  tv_id :: string
  tv_timestamp :: int
  tv_type :: string
  tv_payload :: json

record program_status_record =
  pv_program :: string
  pv_state :: string
  pv_detail :: string
  pv_revision :: int
  pv_updated_at :: int

record device_detail =
  de_device :: device_summary
  de_discoveries :: "device_discovery list"
  de_runtimes :: "(string \<times> string list) list"
  de_events :: "telemetry_record list"
  de_programs :: "program_status_record list"
  de_programs_reported :: "bool option"

definition discovery_of :: "fleet_json \<Rightarrow> (string \<times> string \<times> string) \<times> discovery_row \<Rightarrow> anyhow + device_discovery" where
  "discovery_of codec r =
     (case coded ''decode discovered MCP servers'' (fj_read_servers codec (dr_servers_json (snd r))) of
        Inl e \<Rightarrow> Inl e
      | Inr servers \<Rightarrow>
          (case coded ''decode discovered skills'' (fj_read_skills codec (dr_skills_json (snd r))) of
             Inl e \<Rightarrow> Inl e
           | Inr skills \<Rightarrow>
               Inr \<lparr>dd_kind = fst (snd (fst r)), dd_version = dr_version (snd r), dd_path = snd (snd (fst r)),
                    dd_servers = servers, dd_skills = skills\<rparr>))"

definition runtime_of :: "fleet_json \<Rightarrow> (string \<times> string) \<times> string \<Rightarrow> anyhow + string \<times> string list" where
  "runtime_of codec r =
     (case coded ''decode discovered local models'' (fj_read_models codec (snd r)) of
        Inl e \<Rightarrow> Inl e
      | Inr models \<Rightarrow> Inr (snd (fst r), models))"

definition telemetry_record_of :: "fleet_json \<Rightarrow> string \<times> telemetry_row \<Rightarrow> anyhow + telemetry_record" where
  "telemetry_record_of codec r =
     (case coded ''decode telemetry payload'' (fj_read codec (tr_payload_json (snd r))) of
        Inl e \<Rightarrow> Inl e
      | Inr payload \<Rightarrow>
          Inr \<lparr>tv_id = fst r, tv_timestamp = tr_timestamp (snd r), tv_type = tr_type (snd r), tv_payload = payload\<rparr>)"

definition recent_telemetry ::
    "fleet_sql \<Rightarrow> fleet_json \<Rightarrow> fleet_db \<Rightarrow> string \<Rightarrow> nat \<Rightarrow> anyhow + telemetry_record list" where
  "recent_telemetry sql codec db device_id limit =
     fleet_run sql ''select telemetry'' [''load recent telemetry'']
       (collect (telemetry_record_of codec)
          (take limit (sort_key (\<lambda>r. - tr_timestamp (snd r)) (telemetry_of db device_id))))"

text \<open>The enumeration of \<^verbatim>\<open>fleet.proto\<close>; a number it does not have is \<^verbatim>\<open>unspecified\<close>.\<close>

definition program_state_name :: "int \<Rightarrow> string" where
  "program_state_name n =
     (if n = 1 then ''applied'' else if n = 2 then ''unchanged'' else if n = 3 then ''removed''
      else if n = 4 then ''conflict'' else if n = 5 then ''inactive'' else if n = 6 then ''blocked''
      else if n = 8 then ''opted_out'' else if n = 7 then ''failed'' else ''unspecified'')"

definition program_record :: "(string \<times> string) \<times> program_row \<Rightarrow> program_status_record" where
  "program_record r =
     \<lparr>pv_program = snd (fst r), pv_state = program_state_name (pr_state (snd r)), pv_detail = pr_detail (snd r),
      pv_revision = pr_revision (snd r), pv_updated_at = pr_updated_at (snd r)\<rparr>"

definition get_device :: "fleet_sql \<Rightarrow> fleet_json \<Rightarrow> fleet_db \<Rightarrow> string \<Rightarrow> anyhow + device_detail option" where
  "get_device sql codec db device_id =
     fleet_run sql ''select device'' [''load device'']
       (case map_of (fd_devices db) device_id of
          None \<Rightarrow> Inr None
        | Some row \<Rightarrow>
            fleet_run sql ''select discoveries'' [''load device discoveries'']
              (case collect (discovery_of codec) (sort_key (\<lambda>r. snd (fst r)) (discoveries_of db device_id)) of
                 Inl e \<Rightarrow> Inl e
               | Inr discoveries \<Rightarrow>
                   fleet_run sql ''select runtimes'' [''load discovered model runtimes'']
                     (case collect (runtime_of codec) (sort_key (\<lambda>r. snd (fst r)) (runtimes_of db device_id)) of
                        Inl e \<Rightarrow> Inl e
                      | Inr runtimes \<Rightarrow>
                          (case recent_telemetry sql codec db device_id 50 of
                             Inl e \<Rightarrow> Inl e
                           | Inr events \<Rightarrow>
                               fleet_run sql ''select reporting'' [''load configuration status reporting'']
                                 (fleet_run sql ''select programs'' [''load program configuration status'']
                                    (Inr (Some
                                       \<lparr>de_device = summary_of codec db device_id row (map dd_kind discoveries),
                                        de_discoveries = discoveries, de_runtimes = runtimes, de_events = events,
                                        de_programs = map program_record
                                          (sort_key (\<lambda>r. pr_position (snd r)) (programs_of db device_id)),
                                        de_programs_reported = map_option (\<lambda>r. sr_programs_reported r \<noteq> 0)
                                          (map_of (fd_status db) device_id)\<rparr>)))))))"

section \<open>Names in usage reports\<close>

definition add_labels :: "fleet_json \<Rightarrow> string \<times> device_row \<Rightarrow> usage_labels \<Rightarrow> usage_labels" where
  "add_labels codec r labels =
     (let named = insert_device labels (fst r) (dv_hostname (snd r))
      in case Option.bind (dv_claims_json (snd r)) (readable_name codec) of
           None \<Rightarrow> named
         | Some name \<Rightarrow> insert_user named (dv_subject (snd r)) name)"

definition fleet_labels :: "fleet_sql \<Rightarrow> fleet_json \<Rightarrow> fleet_db \<Rightarrow> anyhow + usage_labels" where
  "fleet_labels sql codec db =
     fleet_run sql ''select labels'' [''load usage labels'']
       (Inr (fold (add_labels codec) (sort_key (\<lambda>r. dv_created_at (snd r)) (fd_devices db))
               \<lparr>la_users = [], la_devices = []\<rparr>))"

section \<open>The administrator's handlers\<close>

record overview =
  ov_total :: nat
  ov_online :: nat
  ov_offline :: nat
  ov_config_failures :: nat
  ov_active_revision :: "64 word option"
  ov_recent :: "device_summary list"

definition admin_overview ::
    "fleet_sql \<Rightarrow> fleet_json \<Rightarrow> int \<Rightarrow> fleet_db \<Rightarrow> pushed_config option \<Rightarrow> anyhow + overview" where
  "admin_overview sql codec now db current =
     (case list_devices sql codec db of
        Inl e \<Rightarrow> Inl e
      | Inr devices \<Rightarrow>
          (let online = length (filter (\<lambda>d. case ds_last_seen_at d of None \<Rightarrow> False | Some t \<Rightarrow> now - t \<le> 90) devices)
           in Inr \<lparr>ov_total = length devices, ov_online = online, ov_offline = length devices - online,
                   ov_config_failures = length (filter (\<lambda>d. ds_config_state d = Some 2) devices),
                   ov_active_revision = map_option pu_revision current, ov_recent = take 5 devices\<rparr>))"

datatype admin_error = AdminInternal anyhow | AdminNotFound | AdminBadRequest string

definition admin_device :: "fleet_sql \<Rightarrow> fleet_json \<Rightarrow> fleet_db \<Rightarrow> string \<Rightarrow> admin_error + device_detail" where
  "admin_device sql codec db device_id =
     (case get_device sql codec db device_id of
        Inl e \<Rightarrow> Inl (AdminInternal e)
      | Inr None \<Rightarrow> Inl AdminNotFound
      | Inr (Some d) \<Rightarrow> Inr d)"

definition admin_delete_device :: "fleet_sql \<Rightarrow> string \<Rightarrow> fleet_db \<Rightarrow> fleet_db \<times> (admin_error + unit)" where
  "admin_delete_device sql device_id db =
     (case delete_device sql device_id db of
        Inl e \<Rightarrow> (db, Inl (AdminInternal e))
      | Inr (existed, db') \<Rightarrow> (db', if existed then Inr () else Inl AdminNotFound))"

definition admin_usage_report ::
    "fleet_sql \<Rightarrow> fleet_json \<Rightarrow> usage_sql \<Rightarrow> fleet_db \<Rightarrow> usage_db \<Rightarrow> int \<Rightarrow> usage_query \<Rightarrow> bool \<Rightarrow> admin_error + usage_report" where
  "admin_usage_report sql codec usql db udb now query enabled =
     (case fleet_labels sql codec db of
        Inl e \<Rightarrow> Inl (AdminInternal e)
      | Inr labels \<Rightarrow>
          (case report usql udb now query enabled labels of
             Inl (InvalidQuery message) \<Rightarrow> Inl (AdminBadRequest message)
           | Inl (Storage e) \<Rightarrow> Inl (AdminInternal e)
           | Inr r \<Rightarrow> Inr r))"

definition admin_daemon_config :: "push_lib \<Rightarrow> pushed_config option \<Rightarrow> admin_error + daemon_config option" where
  "admin_daemon_config lib current =
     (case current of
        None \<Rightarrow> Inr None
      | Some active \<Rightarrow>
          if \<not> valid_utf8 (pu_yaml active)
          then Inl (AdminInternal [''daemon config is not UTF-8'', pl_utf8_error lib (pu_yaml active)])
          else
            (case parse_daemon (pl_from_yaml lib) (pl_parse_url lib) (pu_yaml active) of
               Inl e \<Rightarrow> Inl (AdminInternal e)
             | Inr c \<Rightarrow> Inr (Some c)))"

text \<open>Status code and body of an error; what it logs is left out.\<close>

fun admin_response :: "admin_error \<Rightarrow> nat \<times> string" where
  "admin_response AdminNotFound = (404, ''device not found'')"
| "admin_response (AdminBadRequest message) = (400, message)"
| "admin_response (AdminInternal e) = (500, ''controller state error'')"

end
