(* ===== verification/Plan_Steps.thy ===== *)
theory Plan_Steps
  imports Json_Merge
begin

text \<open>
  Facts about a plan that planning keeps. The locale \<open>plan_steps\<close> states what the single operations
  of \<^verbatim>\<open>reconcile/plan.rs\<close> keep, for writes and removals in a set of files and private directories in
  a set of directories, and for registry keys as they were read, on Windows; the merges of
  \<^verbatim>\<open>provider/json_merge.rs\<close>, and later the plans of the providers, keep it because they are made of
  these operations. It is interpreted for the plans that planning can produce, for plans confined to a program's own files, and for plans whose private
  directories belong to files the plan has read.
\<close>

locale plan_steps =
  fixes s :: win_os and own :: "path set" and dirs :: "path set" and keeps :: "reconcile_plan \<Rightarrow> bool"
  assumes read_step: "keeps plan \<Longrightarrow> keeps (fst (plan_read s p plan))"
    and write_step: "p \<in> own \<Longrightarrow> keeps plan \<Longrightarrow> keeps (fst (plan_write_file s p b m plan))"
    and remove_step: "p \<in> own \<Longrightarrow> keeps plan \<Longrightarrow> keeps (fst (plan_remove_file s p plan))"
    and dir_step: "d \<in> dirs \<Longrightarrow> keeps plan \<Longrightarrow> keeps (plan_ensure_private_dir d plan)"
    and diff_step: "keeps plan \<Longrightarrow> keeps (plan_record_diff n desc a p before after plan)"
    and inactive_step: "keeps plan \<Longrightarrow> keeps (set_inactive reason plan)"
    and registry_step:
      "\<not> os_unix s \<Longrightarrow> read_values s (rkp_key k) = Inr (rkp_observed k) \<Longrightarrow> keeps plan \<Longrightarrow> keeps (plan_registry_key k plan)"
begin

lemma keeps_seq:
  assumes "keeps (fst m)" and "\<And>x plan. keeps plan \<Longrightarrow> keeps (fst (k x plan))"
  shows "keeps (fst (plan_seq m k))"
  using assms by (cases m; cases "snd m") auto

lemma keeps_record: "keeps plan \<Longrightarrow> keeps (plan_record s n desc a p plan)"
  using read_step [of plan p] by (auto simp: plan_record_def intro!: diff_step split: prod.splits sum.splits)

lemma keeps_read_existing: "keeps plan \<Longrightarrow> keeps (fst (read_existing s c p plan))"
  using read_step [of plan p] by (auto simp: read_existing_def split: prod.splits sum.splits)

lemma keeps_read_state: "keeps plan \<Longrightarrow> keeps (fst (read_state codec s p n plan))"
  unfolding read_state_def by (intro keeps_seq keeps_read_existing) (simp_all split: option.splits)

lemma keeps_managed_after: "keeps plan \<Longrightarrow> keeps (fst (managed_after codec s p n plan))"
  unfolding managed_after_def by (intro keeps_seq keeps_read_state) simp_all

lemma keeps_record_change: "keeps plan \<Longrightarrow> keeps (record_change n desc a p b c redact plan)"
  by (simp add: record_change_def diff_step)

lemma keeps_remove_state: "sp \<in> own \<Longrightarrow> keeps plan \<Longrightarrow> keeps (fst (remove_state_file s sp n plan))"
  using remove_step [of sp plan] by (auto simp: remove_state_file_def split: prod.splits sum.splits)

lemma keeps_finish: "sp \<in> own \<Longrightarrow> keeps plan \<Longrightarrow> keeps (fst (finish_removal s sp n plan))"
  unfolding finish_removal_def by (intro keeps_seq keeps_remove_state) simp_all

lemma keeps_remove_created: "p \<in> own \<Longrightarrow> keeps plan \<Longrightarrow> keeps (fst (remove_created s p n plan))"
  using remove_step [of p plan] by (auto simp: remove_created_def split: prod.splits sum.splits)

lemmas keeps_intros =
  keeps_seq read_step write_step remove_step dir_step diff_step inactive_step keeps_record keeps_read_existing
  keeps_read_state keeps_managed_after keeps_record_change keeps_remove_state keeps_finish keeps_remove_created

lemma keeps_merge_with:
  assumes "p \<in> own" and "sp \<in> own" and "keeps plan"
  shows "keeps (fst (plan_merge_with codec s p sp managed legacy desc n options plan))"
  unfolding plan_merge_with_def Let_def
  using assms by (auto intro!: keeps_intros split: option.split)

lemma keeps_merge:
  "p \<in> own \<Longrightarrow> sp \<in> own \<Longrightarrow> keeps plan \<Longrightarrow> keeps (fst (plan_merge codec s p sp managed legacy desc n plan))"
  by (simp add: plan_merge_def keeps_merge_with)

lemma keeps_write_stripped:
  assumes "p \<in> own" and "sp \<in> own" and "keeps plan"
  shows "keeps (fst (write_stripped codec s p sp desc n options st b v plan))"
  unfolding write_stripped_def Let_def
  using assms by (auto intro!: keeps_intros split: option.split)

lemma keeps_remove_existing:
  assumes "p \<in> own" and "sp \<in> own" and "keeps plan"
  shows "keeps (fst (remove_existing codec s p sp desc n options st b plan))"
  unfolding remove_existing_def
  using assms by (auto intro!: keeps_intros keeps_write_stripped split: option.split)

lemma keeps_remove_with:
  assumes "p \<in> own" and "sp \<in> own" and "keeps plan"
  shows "keeps (fst (plan_remove_with codec s p sp desc n options plan))"
  unfolding plan_remove_with_def
  using assms by (auto intro!: keeps_intros keeps_remove_existing split: option.split)

lemma keeps_remove:
  "p \<in> own \<Longrightarrow> sp \<in> own \<Longrightarrow> keeps plan \<Longrightarrow> keeps (fst (plan_remove codec s p sp desc n plan))"
  by (simp add: plan_remove_def keeps_remove_with)

end

section \<open>What planning can produce\<close>

interpretation planning: plan_steps s UNIV UNIV "planned s" for s
  by unfold_locales (auto intro: planned_dir planned_record_diff planned_inactive planned_registry)

section \<open>Plans confined to a program's files\<close>

definition confined :: "win_os \<Rightarrow> path set \<Rightarrow> path set \<Rightarrow> reconcile_plan \<Rightarrow> bool" where
  "confined s own dirs plan \<longleftrightarrow>
     fc_path ` set (rp_operations plan) \<subseteq> own \<and> set (rp_private_dirs plan) \<subseteq> dirs
     \<and> (os_unix s \<longrightarrow> rp_registry plan = [])"

lemma confined_empty [simp]: "confined s own dirs empty_plan"
  by (simp add: confined_def empty_plan_def)

lemma confined_skipped [simp]: "confined s own dirs (skipped reason)"
  by (simp add: confined_def empty_plan_def skipped_def set_inactive_def)

lemma plan_read_only_observes:
  "rp_operations (fst (plan_read s p plan)) = rp_operations plan"
  "rp_private_dirs (fst (plan_read s p plan)) = rp_private_dirs plan"
  "rp_registry (fst (plan_read s p plan)) = rp_registry plan"
  by (simp_all add: plan_read_def Let_def split: option.split sum.split)

lemma confined_read [simp]: "confined s own dirs (fst (plan_read s' p plan)) = confined s own dirs plan"
  by (simp add: confined_def plan_read_only_observes)

lemma confined_push [simp]:
  "confined s own dirs (push_operation c plan) \<longleftrightarrow> fc_path c \<in> own \<and> confined s own dirs plan"
  by (auto simp: confined_def push_operation_def)

interpretation confinement: plan_steps s own dirs "confined s own dirs" for s own dirs
proof
  fix plan p b m
  assume p: "p \<in> own" and conf: "confined s own dirs plan"
  obtain plan1 r where rd: "plan_read s p plan = (plan1, r)" by force
  then have "confined s own dirs plan1" using confined_read [of s own dirs s p plan] conf by simp
  with p rd show "confined s own dirs (fst (plan_write_file s p b m plan))"
    and "confined s own dirs (fst (plan_remove_file s p plan))"
    by (auto simp: plan_write_file_def plan_remove_file_def Let_def split: sum.split)
qed (auto simp: confined_def plan_ensure_private_dir_def plan_record_diff_def set_inactive_def plan_registry_key_def
    plan_read_only_observes)

section \<open>What a plan has observed\<close>

definition observes :: "path \<Rightarrow> bytes option \<Rightarrow> reconcile_plan \<Rightarrow> bool" where
  "observes p c plan \<longleftrightarrow> om_get (rp_observed plan) p = Some c"

lemma read_existing_observes:
  "read_existing s ctx p plan = (plan', Inr c) \<Longrightarrow> observes p c plan'"
  by (auto simp: observes_def read_existing_def split: prod.splits sum.splits if_splits dest!: plan_read_cases)

section \<open>A private directory is planned for a file that was read\<close>

definition dirs_read :: "reconcile_plan \<Rightarrow> bool" where
  "dirs_read plan \<longleftrightarrow>
     (\<forall>d \<in> set (rp_private_dirs plan). \<exists>p \<in> set (om_keys (rp_observed plan)). prefix d p)"

lemma dirs_read_empty [simp]: "dirs_read empty_plan" "dirs_read (skipped reason)"
  by (simp_all add: dirs_read_def empty_plan_def skipped_def set_inactive_def)

lemma observed_after_read:
  "set (om_keys (rp_observed plan)) \<subseteq> set (om_keys (rp_observed (fst (plan_read s p plan))))"
  using set_om_insert [of p _ "rp_observed plan"]
  by (force simp: om_keys_get plan_read_def Let_def split: option.split sum.split)

lemma dirs_read_read [simp]: "dirs_read plan \<Longrightarrow> dirs_read (fst (plan_read s p plan))"
  using observed_after_read [of plan s p] by (fastforce simp: dirs_read_def plan_read_only_observes)

lemma dirs_read_push [simp]: "dirs_read (push_operation c plan) = dirs_read plan"
  by (simp add: dirs_read_def push_operation_def)

interpretation dir_reads: plan_steps s UNIV "{}" dirs_read for s
proof
  fix plan q b m
  assume dirs: "dirs_read plan"
  obtain plan1 r where rd: "plan_read s q plan = (plan1, r)" by force
  then have "dirs_read plan1" using dirs_read_read [OF dirs, of s q] by simp
  with rd show "dirs_read (fst (plan_write_file s q b m plan))" and "dirs_read (fst (plan_remove_file s q plan))"
    by (auto simp: plan_write_file_def plan_remove_file_def Let_def split: sum.split)
qed (simp_all, simp_all add: dirs_read_def plan_record_diff_def set_inactive_def plan_registry_key_def)

text \<open>A directory may be planned before its file is read, when the reading comes next.\<close>

lemma dirs_read_before:
  assumes "read_existing s ctx p plan = (plan', Inr c)" and "prefix d p"
    and "dirs_read (plan\<lparr>rp_private_dirs := ds\<rparr>)" and "rp_private_dirs plan = ds @ [d]"
  shows "dirs_read plan'"
proof -
  have obs: "p \<in> set (om_keys (rp_observed plan'))"
    using read_existing_observes [OF assms(1)] by (simp add: observes_def om_keys_get)
  have fst: "plan' = fst (plan_read s p plan)"
    using assms(1) by (auto simp: read_existing_def split: prod.splits sum.splits if_splits)
  with assms(4) have dirs: "rp_private_dirs plan' = ds @ [d]" by (simp add: plan_read_only_observes)
  have "set (om_keys (rp_observed plan)) \<subseteq> set (om_keys (rp_observed plan'))"
    unfolding fst by (rule observed_after_read)
  with assms(2,3) obs show ?thesis by (fastforce simp: dirs_read_def dirs)
qed

text \<open>A merge that was planned has read the file it merges into, and goes on as from there.\<close>

lemma merge_after_read:
  fixes s :: win_os
  assumes "plan_merge_with codec s p sp managed legacy desc n options plan = (plan', Inr ())"
  obtains plan1 c where "read_existing s (''read '' @ n @ '' from '') p plan = (plan1, Inr c)"
    and "plan_merge_with codec s p sp managed legacy desc n options plan1 = (plan', Inr ())"
proof -
  from assms obtain plan1 c where rd: "read_existing s (''read '' @ n @ '' from '') p plan = (plan1, Inr c)"
    unfolding plan_merge_with_def by (blast dest: plan_seq_Inr)
  then have "observes p c plan1" by (rule read_existing_observes)
  then have again: "read_existing s (''read '' @ n @ '' from '') p plan1 = (plan1, Inr c)"
    by (simp add: observes_def read_existing_def plan_read_def split: option.splits)
  have "plan_merge_with codec s p sp managed legacy desc n options plan1 = (plan', Inr ())"
    using assms unfolding plan_merge_with_def rd again plan_seq_simps .
  with rd show thesis by (rule that)
qed

end
