(* ===== verification/Merge_Facts.thy ===== *)
theory Merge_Facts
  imports Plan_Steps
begin

text \<open>
  What the merges of \<^verbatim>\<open>provider/json_merge.rs\<close> achieve through a plan and its application: the round
  trip of merge and removal, merging again, conflicts, and the redaction of the dry-run report.
\<close>

section \<open>Planning a merge or a removal is planning\<close>

lemmas plan_merge_with_planned = planning.keeps_merge_with [OF UNIV_I UNIV_I]
lemmas plan_remove_with_planned = planning.keeps_remove_with [OF UNIV_I UNIV_I]

section \<open>The plan of a merge\<close>

lemma read_existing_fresh:
  assumes "read_optional s p = Inr c" and "om_get (rp_observed plan) p = None"
  shows "read_existing s ctx p plan = (plan\<lparr>rp_observed := om_insert p c (rp_observed plan)\<rparr>, Inr c)"
  using assms by (simp add: read_existing_def plan_read_def split: option.splits)

lemma read_existing_again:
  "om_get (rp_observed plan) p = Some c \<Longrightarrow> read_existing s ctx p plan = (plan, Inr c)"
  by (simp add: read_existing_def plan_read_def split: option.splits)

lemma write_observed:
  "om_get (rp_observed plan) p = Some c \<Longrightarrow>
   plan_write_file s p b m plan = (push_operation \<lparr>fc_path = p, fc_contents = Some b, fc_permissions = m\<rparr> plan, Inr ())"
  by (simp add: plan_write_file_def plan_read_def split: option.splits)

lemma remove_observed:
  "om_get (rp_observed plan) p = Some (Some c) \<Longrightarrow>
   plan_remove_file s p plan = (push_operation \<lparr>fc_path = p, fc_contents = None, fc_permissions = 0\<rparr> plan, Inr ())"
  by (simp add: plan_remove_file_def plan_read_def)

lemma record_change_fields [simp]:
  "rp_observed (record_change n d a p b c red plan) = rp_observed plan"
  "rp_operations (record_change n d a p b c red plan) = rp_operations plan"
  "rp_registry (record_change n d a p b c red plan) = rp_registry plan"
  "rp_private_dirs (record_change n d a p b c red plan) = rp_private_dirs plan"
  "rp_inactive (record_change n d a p b c red plan) = rp_inactive plan"
  by (simp_all add: record_change_def plan_record_diff_def)

lemma has_conflicts_record_change [simp]:
  "has_conflicts (record_change n d a p b c red plan) \<longleftrightarrow> has_conflicts plan \<or> a = ''conflict''"
  by (auto simp: has_conflicts_def record_change_def plan_record_diff_def report_record_def)

lemma push_operation_fields [simp]:
  "rp_observed (push_operation c plan) = rp_observed plan"
  "rp_operations (push_operation c plan) = rp_operations plan @ [c]"
  "rp_registry (push_operation c plan) = rp_registry plan"
  "rp_private_dirs (push_operation c plan) = rp_private_dirs plan"
  "has_conflicts (push_operation c plan) = has_conflicts plan"
  by (simp_all add: push_operation_def has_conflicts_def)

lemma empty_plan_fields [simp]:
  "rp_observed empty_plan = []" "rp_operations empty_plan = []" "rp_registry empty_plan = []"
  "rp_private_dirs empty_plan = []" "\<not> has_conflicts empty_plan"
  "has_conflicts (plan\<lparr>rp_observed := obs\<rparr>) = has_conflicts plan"
  by (simp_all add: empty_plan_def has_conflicts_def)

text \<open>The sidecar as a merge finds it: absent, or a merge state.\<close>

definition sidecar :: "json_codec \<Rightarrow> 'a os_scheme \<Rightarrow> path \<Rightarrow> merge_state option \<Rightarrow> bool" where
  "sidecar codec s sp previous \<longleftrightarrow>
     (case read_optional s sp of
        Inr None \<Rightarrow> previous = None
      | Inr (Some b) \<Rightarrow> (\<exists>st. state_from_slice codec b = Inr st \<and> previous = Some st)
      | Inl _ \<Rightarrow> False)"

lemma read_state_fresh:
  assumes "sidecar codec s sp previous" and "om_get (rp_observed plan) sp = None"
  shows "\<exists>c. read_optional s sp = Inr c
    \<and> read_state codec s sp n plan = (plan\<lparr>rp_observed := om_insert sp c (rp_observed plan)\<rparr>, Inr previous)"
  using assms
  by (auto simp: sidecar_def read_state_def read_existing_fresh split: sum.splits option.splits)

text \<open>What a merge records: the document without and with the managed values.\<close>

definition merge_state_of ::
  "merge_options \<Rightarrow> merge_state option \<Rightarrow> bool \<Rightarrow> json \<Rightarrow> bytes option \<Rightarrow> json \<Rightarrow> merge_state" where
  "merge_state_of options previous legacy managed existing doc =
     (let before = released options previous legacy managed doc
      in \<lparr>ms_created = (existing = None \<or> (case previous of Some st \<Rightarrow> ms_created st | None \<Rightarrow> legacy)),
          ms_before = before, ms_after = merged options managed before\<rparr>)"

definition write_op :: "path \<Rightarrow> bytes \<Rightarrow> mode \<Rightarrow> file_change" where
  "write_op p b m = \<lparr>fc_path = p, fc_contents = Some b, fc_permissions = m\<rparr>"

definition remove_op :: "path \<Rightarrow> file_change" where
  "remove_op p = \<lparr>fc_path = p, fc_contents = None, fc_permissions = 0\<rparr>"

lemma op_fields [simp]:
  "fc_path (write_op p b m) = p" "fc_contents (write_op p b m) = Some b" "fc_permissions (write_op p b m) = m"
  "fc_path (remove_op p) = p" "fc_contents (remove_op p) = None"
  by (simp_all add: write_op_def remove_op_def)

lemma merge_action_cases:
  "merge_action s p options existing b \<in> {''unchanged'', ''update'', ''create''}"
  by (auto simp: merge_action_def split: option.splits)

lemma merge_plan:
  assumes sp: "sp \<noteq> p" and p: "read_optional s p = Inr existing" and side: "sidecar codec s sp previous"
    and doc: "existing_document codec options managed existing = Some doc"
    and st: "st = merge_state_of options previous legacy managed existing doc"
    and printed: "to_vec_pretty codec (ms_after st) = Inr printed" "state_to_vec_pretty codec st = Inr sprinted"
  shows "\<exists>plan. plan_merge_with codec s p sp managed legacy d n options empty_plan = (plan, Inr ())
    \<and> rp_operations plan =
        (if merge_action s p options existing (printed @ [CHR 0x0A]) = ''unchanged'' then []
         else [write_op p (printed @ [CHR 0x0A]) (mo_mode options)])
        @ [write_op sp (sprinted @ [CHR 0x0A]) 0x180]
    \<and> rp_registry plan = [] \<and> rp_private_dirs plan = [] \<and> \<not> has_conflicts plan"
proof -
  let ?act = "merge_action s p options existing (printed @ [CHR 0x0A])"
  let ?plan1 = "empty_plan\<lparr>rp_observed := om_insert p existing []\<rparr>"
  have 1: "read_existing s c p empty_plan = (?plan1, Inr existing)" for c
    using p by (simp add: read_existing_fresh)
  obtain c where 2: "read_state codec s sp n ?plan1 = (?plan1\<lparr>rp_observed := om_insert sp c (rp_observed ?plan1)\<rparr>, Inr previous)"
    using read_state_fresh [OF side, of ?plan1 n] sp by auto
  have conf: "?act \<noteq> ''conflict''"
    using merge_action_cases [of s p options existing "printed @ [CHR 0x0A]"] by auto
  show ?thesis
    using 1 2 doc printed st sp conf
    by (auto simp: plan_merge_with_def Let_def merge_state_of_def serialized_def write_observed
        write_op_def del: om_insert.simps)
qed

lemma empty_plan_ok_fields:
  assumes "planned s plan" and "distinct (map fc_path (rp_operations plan))" and "rp_registry plan = []"
  shows "plan_ok plan"
  using planned_fresh [OF assms(1)] assms(2,3) by (auto simp: plan_fresh_def plan_snapshot_def plan_ok_def)

section \<open>The plan of a removal\<close>

definition removal_ops :: "'a os_scheme \<Rightarrow> path \<Rightarrow> bytes \<Rightarrow> bytes option \<Rightarrow> file_change list" where
  "removal_ops s p existing proposed =
     (case proposed of
        None \<Rightarrow> [remove_op p]
      | Some b \<Rightarrow>
          if b = existing then []
          else [write_op p b (case current_mode s p of None \<Rightarrow> 0x1A4 | Some m \<Rightarrow> m)])"

lemma remove_state_observed:
  "om_get (rp_observed plan) sp = Some (Some c) \<Longrightarrow>
   finish_removal s sp n plan = (push_operation (remove_op sp) plan, Inr True)"
  by (simp add: finish_removal_def remove_state_file_def remove_observed remove_op_def)

lemma write_stripped_plan:
  assumes "om_get (rp_observed plan) p = Some (Some existing)" and "om_get (rp_observed plan) sp = Some (Some c)"
    and "if ms_created st \<and> is_empty_root settings then proposed = None
      else (\<exists>printed. to_vec_pretty codec settings = Inr printed \<and> proposed = Some (printed @ [CHR 0x0A]))"
  shows "\<exists>plan'. write_stripped codec s p sp d n options st existing settings plan = (plan', Inr True)
    \<and> rp_operations plan' = rp_operations plan @ removal_ops s p existing proposed @ [remove_op sp]
    \<and> rp_registry plan' = rp_registry plan \<and> rp_private_dirs plan' = rp_private_dirs plan
    \<and> has_conflicts plan' = has_conflicts plan"
  using assms
  by (auto simp: write_stripped_def Let_def serialized_def removal_ops_def remove_created_def
      remove_observed write_observed remove_state_observed write_op_def remove_op_def split: if_splits)

lemma remove_plan:
  assumes sp: "sp \<noteq> p" and p: "read_optional s p = Inr (Some existing)" and side: "sidecar codec s sp (Some st)"
    and full: "\<not> list_all is_ascii_whitespace existing"
    and doc: "format_parse codec (mo_format options) existing = Some doc" "same_root doc (ms_after st)"
    and proposed: "if ms_created st \<and> is_empty_root (stripped options st doc) then proposed = None
      else (\<exists>printed. to_vec_pretty codec (stripped options st doc) = Inr printed \<and> proposed = Some (printed @ [CHR 0x0A]))"
  shows "\<exists>plan. plan_remove_with codec s p sp d n options empty_plan = (plan, Inr True)
    \<and> rp_operations plan = removal_ops s p existing proposed @ [remove_op sp]
    \<and> rp_registry plan = [] \<and> rp_private_dirs plan = [] \<and> \<not> has_conflicts plan"
proof -
  from side obtain c where c: "read_optional s sp = Inr (Some c)"
    by (auto simp: sidecar_def split: sum.splits option.splits)
  let ?plan1 = "empty_plan\<lparr>rp_observed := om_insert sp (Some c) []\<rparr>"
  let ?plan2 = "?plan1\<lparr>rp_observed := om_insert p (Some existing) (rp_observed ?plan1)\<rparr>"
  have 1: "read_state codec s sp n empty_plan = (?plan1, Inr (Some st))"
    using read_state_fresh [OF side, of empty_plan n] c by auto
  have 2: "read_existing s ctx p ?plan1 = (?plan2, Inr (Some existing))" for ctx
    using p sp by (simp add: read_existing_fresh)
  have "om_get (rp_observed ?plan2) p = Some (Some existing)" "om_get (rp_observed ?plan2) sp = Some (Some c)"
    using sp by simp_all
  from write_stripped_plan [OF this proposed, of s d n options] obtain plan' where
    "write_stripped codec s p sp d n options st existing (stripped options st doc) ?plan2 = (plan', Inr True)"
    "rp_operations plan' = removal_ops s p existing proposed @ [remove_op sp]"
    "rp_registry plan' = []" "rp_private_dirs plan' = []" "\<not> has_conflicts plan'"
    by auto
  with 1 2 full doc show ?thesis
    by (simp add: plan_remove_with_def remove_existing_def del: om_insert.simps)
qed

section \<open>The round trip\<close>

text \<open>What the merge prints is read back as the document it printed.\<close>

definition prints_back :: "json_codec \<Rightarrow> json_format \<Rightarrow> json \<Rightarrow> bool" where
  "prints_back codec fmt v \<longleftrightarrow>
     (case to_vec_pretty codec v of
        Inl _ \<Rightarrow> False
      | Inr b \<Rightarrow> format_parse codec fmt (b @ [CHR 0x0A]) = Some v \<and> \<not> list_all is_ascii_whitespace b)"

definition state_prints_back :: "json_codec \<Rightarrow> merge_state \<Rightarrow> bool" where
  "state_prints_back codec st \<longleftrightarrow>
     (case state_to_vec_pretty codec st of
        Inl _ \<Rightarrow> False
      | Inr b \<Rightarrow> state_from_slice codec (b @ [CHR 0x0A]) = Inr st)"

text \<open>The document that a settings file holds; \<^const>\<open>None\<close> when there is no file or no document in it.\<close>

definition settings_at :: "json_codec \<Rightarrow> json_format \<Rightarrow> 'a os_scheme \<Rightarrow> path \<Rightarrow> json option" where
  "settings_at codec fmt s p =
     (case read_optional s p of Inr (Some b) \<Rightarrow> format_parse codec fmt b | _ \<Rightarrow> None)"

definition no_file :: "'a os_scheme \<Rightarrow> path \<Rightarrow> bool" where
  "no_file s p \<longleftrightarrow> os_node s p = None \<or> is_dir (os_node s p)"

lemma op_holds_write: "op_holds (write_op p b m) s \<Longrightarrow> read_optional s p = Inr (Some b)"
  by (auto simp: op_holds_def read_optional_def fs_read_def split: option.splits node.splits)

lemma op_holds_remove: "op_holds (remove_op p) s \<Longrightarrow> \<not> temporary_name p \<Longrightarrow> no_file s p"
  by (simp add: op_holds_def no_file_def)

lemma same_node_read:
  "read_optional s p = Inr (Some b) \<Longrightarrow> same_node p (os_node s p) (os_node t p) \<Longrightarrow>
   read_optional t p = Inr (Some b)"
  by (auto simp: read_optional_def fs_read_def split: option.splits node.splits if_splits sum.splits)

lemma op_holds_mode: "op_holds (write_op p b m) s \<Longrightarrow> \<not> grants_beyond s p m"
  by (auto simp: op_holds_def grants_beyond_def mode_within_def split: option.splits node.splits)

lemma apply_tracked_unix: "apply_tracked plan s = (t, Inr ()) \<Longrightarrow> os_unix t = os_unix s"
proof (erule apply_tracked_completedE)
  fix s1 s2
  assume dirs: "try_each 0 make_private_dir (rp_private_dirs plan) s = (s1, Inr ())"
    and files: "try_each 0 (apply_operation (rp_observed plan)) (rp_operations plan) s1 = (s2, Inr ())"
    and last: "os_unix s2 \<and> t = s2 \<or> \<not> os_unix s2 \<and> try_each 0 apply_registry (rp_registry plan) s2 = (t, Inr ())"
  have "same_params s s2"
    using private_dirs_same [OF dirs, of "[]"] try_each_invariant [OF _ files, of "same_params s"]
    by (auto simp: same_path_def dest!: apply_operation_params intro: same_params_trans)
  with last show "os_unix t = os_unix s"
    by (auto simp: same_params_def reg_frame_def dest: files_after_registry)
qed

lemma merge_applied:
  assumes "sp \<noteq> p" and "read_optional s p = Inr existing" and "sidecar codec s sp previous"
    and "existing_document codec options managed existing = Some doc"
    and "st = merge_state_of options previous legacy managed existing doc"
    and "to_vec_pretty codec (ms_after st) = Inr printed" and "state_to_vec_pretty codec st = Inr sprinted"
    and "plan_merge_with codec s p sp managed legacy d n options empty_plan = (plan, r)"
    and "apply_tracked plan s = (t, Inr ())"
  shows "read_optional t p = Inr (Some (printed @ [CHR 0x0A]))
    \<and> \<not> grants_beyond t p (mo_mode options)
    \<and> op_holds (write_op sp (sprinted @ [CHR 0x0A]) 0x180) t"
proof -
  let ?act = "merge_action s p options existing (printed @ [CHR 0x0A])"
  obtain plan0 where eq: "plan_merge_with codec s p sp managed legacy d n options empty_plan = (plan0, Inr ())"
    and ops: "rp_operations plan0 = (if ?act = ''unchanged'' then []
         else [write_op p (printed @ [CHR 0x0A]) (mo_mode options)]) @ [write_op sp (sprinted @ [CHR 0x0A]) 0x180]"
    and reg: "rp_registry plan0 = []"
    using merge_plan [OF assms(1-7)] by blast
  with assms(8) have plan: "plan = plan0" by simp
  have "planned s plan0"
    using plan_merge_with_planned [OF planned_empty, of s codec p sp managed legacy d n options] eq by simp
  then have "plan_ok plan" using ops reg assms(1) plan by (auto intro: empty_plan_ok_fields)
  note facts = apply_tracked_completed_files [OF assms(9) this]
  show ?thesis
  proof (cases "?act = ''unchanged''")
    case True
    then have ex: "existing = Some (printed @ [CHR 0x0A])" and mode: "\<not> grants_beyond s p (mo_mode options)"
      by (auto simp: merge_action_def split: option.splits if_splits)
    have same: "same_node p (os_node s p) (os_node t p)" and unix: "os_unix t = os_unix s"
      using facts True ops plan assms(1) apply_tracked_unix [OF assms(9)] by auto
    have "read_optional t p = Inr (Some (printed @ [CHR 0x0A]))"
      using same_node_read [OF _ same] assms(2) ex by simp
    moreover have "\<not> grants_beyond t p (mo_mode options)"
      using same mode unix assms(2) ex
      by (auto simp: grants_beyond_def read_optional_def fs_read_def split: option.splits if_splits)
    ultimately show ?thesis using True facts ops plan by simp
  next
    case False
    then have "op_holds (write_op p (printed @ [CHR 0x0A]) (mo_mode options)) t" using facts ops plan by simp
    with False facts ops plan show ?thesis by (simp add: op_holds_write op_holds_mode)
  qed
qed

lemma rollback_overlay_self: "rollback_overlay after before after = before"
  by (simp add: rollback_overlay_def rollback_value.simps)

lemma remove_applied:
  assumes "sp \<noteq> p" and "read_optional s p = Inr (Some existing)" and "sidecar codec s sp (Some st)"
    and "\<not> list_all is_ascii_whitespace existing"
    and "format_parse codec (mo_format options) existing = Some doc" and "same_root doc (ms_after st)"
    and "prints_back codec (mo_format options) (stripped options st doc)"
    and "plan_remove_with codec s p sp d n options empty_plan = (plan, r)"
    and "apply_tracked plan s = (t, Inr ())"
    and "\<not> temporary_name sp" and "\<not> temporary_name p"
  shows "no_file t sp \<and>
    (if ms_created st \<and> is_empty_root (stripped options st doc) then no_file t p
     else settings_at codec (mo_format options) t p = Some (stripped options st doc))"
proof -
  let ?doc = "stripped options st doc"
  obtain printed where printed: "to_vec_pretty codec ?doc = Inr printed"
    and parses: "format_parse codec (mo_format options) (printed @ [CHR 0x0A]) = Some ?doc"
    using assms(7) by (auto simp: prints_back_def split: sum.splits)
  define proposed where proposed_eq: "proposed =
    (if ms_created st \<and> is_empty_root ?doc then None else Some (printed @ [CHR 0x0A]))"
  have "if ms_created st \<and> is_empty_root ?doc then proposed = None
      else (\<exists>printed. to_vec_pretty codec ?doc = Inr printed \<and> proposed = Some (printed @ [CHR 0x0A]))"
    using printed by (auto simp: proposed_eq)
  from remove_plan [OF assms(1-6) this, of d n] obtain plan0 where
    eq: "plan_remove_with codec s p sp d n options empty_plan = (plan0, Inr True)"
    and ops: "rp_operations plan0 = removal_ops s p existing proposed @ [remove_op sp]"
    and reg: "rp_registry plan0 = []"
    by blast
  with assms(8) have plan: "plan = plan0" by simp
  have "planned s plan0"
    using plan_remove_with_planned [OF planned_empty, of s codec p sp d n options] eq by simp
  then have "plan_ok plan"
    using ops reg assms(1) plan by (auto simp: removal_ops_def split: option.splits intro: empty_plan_ok_fields)
  note facts = apply_tracked_completed_files [OF assms(9) this]
  have side: "no_file t sp" using facts ops plan assms(10) by (auto intro: op_holds_remove)
  show ?thesis
  proof (cases proposed)
    case None
    then have "op_holds (remove_op p) t" using facts ops plan by (simp add: removal_ops_def)
    with side None assms(11) show ?thesis
      by (auto simp: proposed_eq split: if_splits intro: op_holds_remove)
  next
    case (Some b)
    have "read_optional t p = Inr (Some b)"
    proof (cases "b = existing")
      case True
      with facts ops plan Some assms(1) have "same_node p (os_node s p) (os_node t p)"
        by (auto simp: removal_ops_def)
      with assms(2) True show ?thesis by (auto intro: same_node_read)
    next
      case False
      with facts ops plan Some show ?thesis by (auto simp: removal_ops_def intro: op_holds_write)
    qed
    with side Some parses show ?thesis
      by (auto simp: proposed_eq settings_at_def split: if_splits)
  qed
qed

section \<open>Keyed arrays\<close>

definition keyed_elements :: "json \<Rightarrow> keyed_array_spec \<Rightarrow> json list" where
  "keyed_elements doc keyed = (case keyed_array doc keyed of None \<Rightarrow> [] | Some xs \<Rightarrow> xs)"

text \<open>No element of the keyed array has one of the keys.\<close>

definition keyed_free :: "json \<Rightarrow> keyed_array_spec \<Rightarrow> string list list \<Rightarrow> bool" where
  "keyed_free doc keyed keys \<longleftrightarrow>
     (\<forall>e \<in> set (keyed_elements doc keyed). \<forall>k. element_key keyed e = Some k \<longrightarrow> k \<notin> set keys)"

lemma as_array_Some: "as_array v = Some xs \<Longrightarrow> v = Array xs"
  by (cases v) auto

lemma keyed_array_set_get:
  "keyed_array doc keyed = Some ys \<Longrightarrow> keyed_array (keyed_array_set doc keyed xs) keyed = Some xs"
  by (cases doc) (auto simp: keyed_array_def keyed_array_set_def split: if_splits)

lemma remove_keyed_cases:
  "remove_keyed doc keyed managed = doc
   \<or> (\<exists>xs. keyed_array doc keyed = Some xs \<and> remove_keyed doc keyed managed = keyed_array_set doc keyed
        (filter (\<lambda>e. none_or (\<lambda>key. key \<notin> set (element_keys managed keyed)) (element_key keyed e)) xs))"
  by (auto simp: remove_keyed_def Let_def split: option.splits)

lemma keyed_elements_set:
  assumes "keyed_array doc keyed = Some ys" and "set xs \<subseteq> set ys"
  shows "set (keyed_elements (keyed_array_set doc keyed xs) other) \<subseteq> set (keyed_elements doc other)"
  using assms
  by (cases doc) (auto simp: keyed_elements_def keyed_array_def keyed_array_set_def split: if_splits option.splits)

lemma remove_keyed_subset:
  "set (keyed_elements (remove_keyed doc keyed managed) other) \<subseteq> set (keyed_elements doc other)"
  using remove_keyed_cases [of doc keyed managed] keyed_elements_set
  by (metis (no_types, lifting) filter_is_subset order_refl)

lemma remove_keyed_free: "keyed_free (remove_keyed doc keyed managed) keyed (element_keys managed keyed)"
  by (auto simp: keyed_free_def remove_keyed_def Let_def keyed_elements_def keyed_array_set_get none_or_def
      split: option.splits)

lemma remove_keyed_keeps_free:
  "keyed_free doc other keys \<Longrightarrow> keyed_free (remove_keyed doc keyed managed) other keys"
  using remove_keyed_subset by (fastforce simp: keyed_free_def)

lemma remove_keyed_id:
  assumes "json_wf doc" and "keyed_free doc keyed (element_keys managed keyed)"
  shows "remove_keyed doc keyed managed = doc"
proof (cases "keyed_array doc keyed")
  case None
  then show ?thesis by (simp add: remove_keyed_def Let_def)
next
  case (Some xs)
  have "filter (\<lambda>e. none_or (\<lambda>key. key \<notin> set (element_keys managed keyed)) (element_key keyed e)) xs = xs"
    using assms(2) Some by (auto simp: filter_id_conv keyed_free_def keyed_elements_def none_or_def split: option.splits)
  moreover have "keyed_array_set doc keyed xs = doc"
    using assms(1) Some
    by (cases doc) (auto simp: keyed_array_def keyed_array_set_def om.insert_same entries_wf_def
        split: if_splits Option.bind_splits dest!: as_array_Some)
  ultimately show ?thesis using Some by (simp add: remove_keyed_def Let_def)
qed

lemma remove_keyed_wf:
  assumes "json_wf doc"
  shows "json_wf (remove_keyed doc keyed managed)"
proof (cases doc)
  case (Object m)
  have "json_wf (Array xs)" if "om_get m (ka_field keyed) = Some (Array xs)" for xs
    using assms Object that by (auto dest: entries_wf_get)
  with assms Object show ?thesis
    by (auto simp: remove_keyed_def Let_def keyed_array_def keyed_array_set_def list_all_iff
        split: option.splits Option.bind_splits dest!: as_array_Some)
qed (use assms in \<open>auto simp: remove_keyed_def Let_def keyed_array_def keyed_array_set_def list_all_iff split: option.splits\<close>)

lemma release_keyed_wf: "json_wf doc \<Longrightarrow> json_wf (release_keyed previous managed keyed doc)"
  by (auto simp: release_keyed_def remove_keyed_wf split: option.splits)

lemma release_keyed_keeps_free:
  "keyed_free doc other keys \<Longrightarrow> keyed_free (release_keyed previous managed keyed doc) other keys"
  by (auto simp: release_keyed_def remove_keyed_keeps_free split: option.splits)

lemma released_keyed_facts:
  "json_wf doc \<Longrightarrow> json_wf (fold (release_keyed previous managed) ks doc)"
  "(keyed \<in> set ks \<or> keyed_free doc keyed (element_keys managed keyed)) \<Longrightarrow>
   keyed_free (fold (release_keyed previous managed) ks doc) keyed (element_keys managed keyed)"
proof (induction ks arbitrary: doc)
  case (Cons k ks)
  {
    case 1
    then show ?case using Cons.IH(1) by (simp add: release_keyed_wf)
  next
    case 2
    have "keyed \<in> set ks \<or> keyed_free (release_keyed previous managed k doc) keyed (element_keys managed keyed)"
      using 2 by (auto simp: release_keyed_keeps_free) (simp add: release_keyed_def remove_keyed_free)
    then show ?case using Cons.IH(2) by simp
  }
qed simp_all

text \<open>The elements that the merge added have keys that the document before the merge does not have.\<close>

lemma element_keys_mem:
  "k \<in> set (element_keys doc keyed) \<longleftrightarrow> (\<exists>e \<in> set (keyed_elements doc keyed). element_key keyed e = Some k)"
  by (force simp: element_keys_def keyed_elements_def List.map_filter_def split: option.splits)

lemma keyed_elements_added:
  "set (keyed_elements (keyed_added keyed before after) keyed)
   = {e \<in> set (keyed_elements after keyed). \<exists>k. element_key keyed e = Some k \<and> k \<notin> set (element_keys before keyed)}"
  by (auto simp: keyed_added_def keyed_elements_def keyed_array_def Let_def split: option.splits)

lemma keyed_added_free: "keyed_free before keyed (element_keys (keyed_added keyed before after) keyed)"
  by (auto simp: keyed_free_def element_keys_mem keyed_elements_added)

lemma released_wf:
  assumes "json_wf doc" and "none_or (\<lambda>st. json_wf (ms_before st) \<and> json_wf (ms_after st)) previous"
  shows "json_wf (released options previous legacy managed doc)"
  using assms
  by (auto simp: released_def empty_root_def rollback_overlay_wf split: option.splits intro!: released_keyed_facts(1))

section \<open>The round trip of a merge and its removal\<close>

text \<open>A removal drops a keyed array that is empty, so the document that it leaves has none.\<close>

definition empty_keyed :: "json \<Rightarrow> keyed_array_spec \<Rightarrow> bool" where
  "empty_keyed doc keyed \<longleftrightarrow> ka_field keyed \<noteq> [] \<and> get_field doc (ka_field keyed) = Some (Array [])"

definition drop_empty_keyed :: "keyed_array_spec \<Rightarrow> json \<Rightarrow> json" where
  "drop_empty_keyed keyed doc = (if empty_keyed doc keyed then remove_field (ka_field keyed) doc else doc)"

definition without_empty :: "merge_options \<Rightarrow> json \<Rightarrow> json" where
  "without_empty options = fold drop_empty_keyed (mo_keyed_arrays options)"

text \<open>A document that has lost fields only.\<close>

definition fewer_fields :: "json \<Rightarrow> json \<Rightarrow> bool" where
  "fewer_fields doc before \<longleftrightarrow> json_wf doc \<and>
     (doc = before \<or> (\<exists>m n. doc = Object m \<and> before = Object n \<and> (\<forall>k. om_get m k \<in> {None, om_get n k})))"

lemma fewer_fields_drop: "fewer_fields doc before \<Longrightarrow> fewer_fields (drop_empty_keyed keyed doc) before"
  by (cases doc) (auto simp: fewer_fields_def drop_empty_keyed_def empty_keyed_def remove_field_def)

lemma fewer_fields_get:
  assumes "fewer_fields doc before" and "get_field doc k = Some v"
  shows "get_field before k = Some v"
proof (cases "doc = before")
  case False
  then obtain m n where docs: "doc = Object m" "before = Object n" "\<forall>k. om_get m k \<in> {None, om_get n k}"
    using assms(1) by (auto simp: fewer_fields_def)
  then have "om_get m k \<in> {None, om_get n k}" by blast
  with docs assms(2) show ?thesis by auto
qed (use assms(2) in simp)

lemma fewer_fields_elements:
  assumes "fewer_fields doc before"
  shows "set (keyed_elements doc keyed) \<subseteq> set (keyed_elements before keyed)"
proof (cases "ka_field keyed = []")
  case True
  then show ?thesis using assms by (auto simp: fewer_fields_def keyed_elements_def keyed_array_def)
next
  case False
  then show ?thesis using fewer_fields_get [OF assms, of "ka_field keyed"]
    by (cases "get_field doc (ka_field keyed)") (simp_all add: keyed_elements_def keyed_array_def)
qed

lemma strip_keyed_before:
  assumes "fewer_fields doc (ms_before st)"
  shows "strip_keyed st keyed doc = drop_empty_keyed keyed doc"
proof -
  have "keyed_free doc keyed (element_keys (keyed_added keyed (ms_before st) (ms_after st)) keyed)"
    using keyed_added_free [of "ms_before st" keyed "ms_after st"] fewer_fields_elements [OF assms]
    by (auto simp: keyed_free_def)
  then have "remove_keyed doc keyed (keyed_added keyed (ms_before st) (ms_after st)) = doc"
    using assms by (intro remove_keyed_id) (simp_all add: fewer_fields_def)
  moreover have "none_or (\<lambda>v. as_array v = Some []) (get_field (ms_before st) (ka_field keyed))"
    if "get_field doc (ka_field keyed) = Some (Array [])"
    using fewer_fields_get [OF assms that] by simp
  moreover have "Option.bind (get_field doc (ka_field keyed)) as_array = Some [] \<longleftrightarrow> get_field doc (ka_field keyed) = Some (Array [])"
    by (auto split: Option.bind_splits dest!: as_array_Some)
  ultimately show ?thesis by (auto simp: strip_keyed_def Let_def drop_empty_keyed_def empty_keyed_def)
qed

lemma stripped_self:
  assumes "json_wf (ms_before st)"
  shows "stripped options st (ms_after st) = without_empty options (ms_before st)"
proof -
  have "fold (strip_keyed st) ks doc = fold drop_empty_keyed ks doc" if "fewer_fields doc (ms_before st)" for ks doc
    using that by (induction ks arbitrary: doc) (simp_all add: strip_keyed_before fewer_fields_drop)
  moreover have "fewer_fields (ms_before st) (ms_before st)" using assms by (simp add: fewer_fields_def)
  ultimately show ?thesis by (simp add: stripped_def without_empty_def rollback_overlay_self)
qed

text \<open>A first merge into a document in which nothing has to give way takes it as it is.\<close>

definition merges_cleanly :: "merge_options \<Rightarrow> json \<Rightarrow> json \<Rightarrow> bool" where
  "merges_cleanly options managed doc \<longleftrightarrow>
     list_all (\<lambda>keyed. list_all (\<lambda>e. none_or (\<lambda>key. key \<notin> set (element_keys managed keyed)) (element_key keyed e))
         (keyed_elements doc keyed) \<and> \<not> empty_keyed doc keyed) (mo_keyed_arrays options)"

lemma clean_document:
  assumes "json_wf doc" and "merges_cleanly options managed doc"
  shows "released options None False managed doc = doc" and "without_empty options doc = doc"
proof -
  have "release_keyed None managed keyed doc = doc" "drop_empty_keyed keyed doc = doc" if "keyed \<in> set (mo_keyed_arrays options)" for keyed
  proof -
    have "keyed_free doc keyed (element_keys managed keyed)"
      using assms(2) that by (fastforce simp: merges_cleanly_def keyed_free_def list_all_iff)
    then show "release_keyed None managed keyed doc = doc" by (simp add: release_keyed_def remove_keyed_id assms(1))
    show "drop_empty_keyed keyed doc = doc" using assms(2) that by (simp add: merges_cleanly_def drop_empty_keyed_def list_all_iff)
  qed
  then have "fold (release_keyed None managed) ks doc = doc \<and> fold drop_empty_keyed ks doc = doc"
    if "set ks \<subseteq> set (mo_keyed_arrays options)" for ks
    using that by (induction ks) auto
  then show "released options None False managed doc = doc" "without_empty options doc = doc"
    by (simp_all add: released_def without_empty_def)
qed

text \<open>
  C1. Merging and removing is a round trip, for every option of a merge and whatever an earlier merge
  left in the sidecar. The managed document is merged into a settings file and applied; with the file
  as the merge left it, the removal is planned and applied. Then the sidecar is gone, and the
  settings file holds the document that the merge recorded as the user's (what it found, without the
  values of an earlier merge and without the elements of keyed arrays that carry a managed key), less
  keyed arrays that are empty; a file that the daemon had created and that has nothing left is gone.
  On a first merge (no sidecar, a file that is not the daemon's own from before it kept sidecars) into
  a document with no element under a managed key and no empty keyed array, this is exactly the user's
  document, values that the merge had replaced as a whole included, and a file that did not exist
  before is gone. The JSON library is assumed to read back the three documents that the daemon prints.
\<close>

theorem merge_then_remove_restores:
  assumes "sp \<noteq> p" and "\<not> temporary_name sp" and "\<not> temporary_name p"
    and "read_optional s p = Inr existing" and "sidecar codec s sp previous"
    and "existing_document codec options managed existing = Some doc"
    and "json_wf doc" and "none_or (\<lambda>st. json_wf (ms_before st) \<and> json_wf (ms_after st)) previous"
    and "st = merge_state_of options previous legacy managed existing doc"
    and "prints_back codec (mo_format options) (ms_after st)"
    and "prints_back codec (mo_format options) (without_empty options (ms_before st))"
    and "state_prints_back codec st"
    and "plan_merge_with codec s p sp managed legacy d n options empty_plan = (plan1, r1)"
    and "apply_tracked plan1 s = (t, Inr ())"
    and "plan_remove_with codec t p sp d n options empty_plan = (plan2, r2)"
    and "apply_tracked plan2 t = (u, Inr ())"
  shows "no_file u sp
    \<and> (if ms_created st \<and> is_empty_root (without_empty options (ms_before st)) then no_file u p
       else settings_at codec (mo_format options) u p = Some (without_empty options (ms_before st)))
    \<and> (previous = None \<and> \<not> legacy \<and> merges_cleanly options managed doc \<longrightarrow>
        (if existing = None then no_file u p else settings_at codec (mo_format options) u p = Some doc))"
proof -
  let ?fmt = "mo_format options"
  obtain printed sprinted where printed: "to_vec_pretty codec (ms_after st) = Inr printed"
    "state_to_vec_pretty codec st = Inr sprinted"
    "format_parse codec ?fmt (printed @ [CHR 0x0A]) = Some (ms_after st)"
    "\<not> list_all is_ascii_whitespace (printed @ [CHR 0x0A])"
    "state_from_slice codec (sprinted @ [CHR 0x0A]) = Inr st"
    using assms(10,12) by (auto simp: prints_back_def state_prints_back_def split: sum.splits)
  from merge_applied [OF assms(1,4,5,6,9) printed(1,2) assms(13,14)]
  have p: "read_optional t p = Inr (Some (printed @ [CHR 0x0A]))"
    and side: "sidecar codec t sp (Some st)"
    using printed(5) by (auto simp: sidecar_def dest: op_holds_write)
  have "json_wf (ms_before st)" using released_wf [OF assms(7,8)] assms(9) by (simp add: merge_state_of_def Let_def)
  note stripped = stripped_self [OF this, of options]
  have "same_root (ms_after st) (ms_after st)" by (simp add: same_root_def)
  note remove_applied [OF assms(1) p side printed(4,3) this _ assms(15,16,2,3)]
  then have removed: "no_file u sp \<and> (if ms_created st \<and> is_empty_root (without_empty options (ms_before st)) then no_file u p
      else settings_at codec ?fmt u p = Some (without_empty options (ms_before st)))"
    using assms(11) stripped by simp
  have "ms_created st = (existing = None)" "without_empty options (ms_before st) = doc"
    if "previous = None" "\<not> legacy" "merges_cleanly options managed doc"
    using that assms(9) clean_document [OF assms(7) that(3)] by (simp_all add: merge_state_of_def Let_def)
  moreover have "is_empty_root doc" if "existing = None"
    using that assms(6) by (auto simp: existing_document_def empty_root_def is_empty_root_def)
  ultimately show ?thesis using removed by auto
qed

section \<open>Merging again\<close>

lemma released_again:
  assumes "json_wf (ms_before st)"
    and "\<And>keyed. keyed \<in> set (mo_keyed_arrays options) \<Longrightarrow> keyed_free (ms_before st) keyed (element_keys managed keyed)"
  shows "released options (Some st) legacy managed (ms_after st) = ms_before st"
proof -
  have "release_keyed (Some st) managed keyed (ms_before st) = ms_before st"
    if "keyed \<in> set (mo_keyed_arrays options)" for keyed
    using assms(1) assms(2) [OF that] by (simp add: release_keyed_def remove_keyed_id keyed_added_free)
  then have "fold (release_keyed (Some st) managed) ks (ms_before st) = ms_before st"
    if "set ks \<subseteq> set (mo_keyed_arrays options)" for ks
    using that by (induction ks) auto
  then show ?thesis by (simp add: released_def rollback_overlay_self)
qed

lemma merge_state_again:
  assumes "st = merge_state_of options previous legacy managed existing doc"
    and "json_wf doc" and "none_or (\<lambda>st. json_wf (ms_before st) \<and> json_wf (ms_after st)) previous"
  shows "merge_state_of options (Some st) legacy' managed (Some b) (ms_after st) = st"
proof -
  let ?doc = "case previous of Some st \<Rightarrow> rollback_overlay doc (ms_before st) (ms_after st)
     | None \<Rightarrow> if legacy then empty_root managed else doc"
  have before: "ms_before st = fold (release_keyed previous managed) (mo_keyed_arrays options) ?doc"
    using assms(1) by (simp add: merge_state_of_def released_def Let_def)
  have "json_wf ?doc"
    using assms(2,3) by (auto simp: empty_root_def rollback_overlay_wf split: option.splits)
  then have "json_wf (ms_before st)" unfolding before by (rule released_keyed_facts(1))
  moreover have "keyed_free (ms_before st) keyed (element_keys managed keyed)"
    if "keyed \<in> set (mo_keyed_arrays options)" for keyed
    unfolding before using that by (intro released_keyed_facts(2)) simp
  ultimately have "released options (Some st) legacy' managed (ms_after st) = ms_before st"
    by (rule released_again)
  moreover have "ms_after st = merged options managed (ms_before st)"
    using assms(1) by (simp add: merge_state_of_def Let_def)
  ultimately show ?thesis by (simp add: merge_state_of_def Let_def)
qed

lemma same_root_merge: "same_root (merge_overlay b m) m"
  by (cases b; cases m) (simp_all add: same_root_def)

text \<open>
  C2. A merge settles. Once a merge has been planned and applied, planning the same merge again
  finds the file and the sidecar as they should be, and applying that plan changes nothing in the
  system: a reconcile tick on an unchanged configuration is a no-op, with keyed arrays, replaced
  values and an earlier merge state included.
\<close>

theorem merge_again_changes_nothing:
  assumes "sp \<noteq> p" and "read_optional s p = Inr existing" and "sidecar codec s sp previous"
    and "existing_document codec options managed existing = Some doc"
    and "json_wf doc" and "none_or (\<lambda>st. json_wf (ms_before st) \<and> json_wf (ms_after st)) previous"
    and "prints_back codec (mo_format options) (ms_after (merge_state_of options previous legacy managed existing doc))"
    and "state_prints_back codec (merge_state_of options previous legacy managed existing doc)"
    and "plan_merge_with codec s p sp managed legacy d n options empty_plan = (plan1, r1)"
    and "apply_tracked plan1 s = (t, Inr ())"
  shows "\<exists>plan2. plan_merge_with codec t p sp managed legacy d n options empty_plan = (plan2, Inr ())
    \<and> apply_tracked plan2 t = (t, Inr ())"
proof -
  define st where "st = merge_state_of options previous legacy managed existing doc"
  obtain printed sprinted where printed: "to_vec_pretty codec (ms_after st) = Inr printed"
    "state_to_vec_pretty codec st = Inr sprinted"
    "format_parse codec (mo_format options) (printed @ [CHR 0x0A]) = Some (ms_after st)"
    "\<not> list_all is_ascii_whitespace (printed @ [CHR 0x0A])"
    "state_from_slice codec (sprinted @ [CHR 0x0A]) = Inr st"
    using assms(7,8) by (auto simp: st_def prints_back_def state_prints_back_def split: sum.splits)
  let ?b = "printed @ [CHR 0x0A]" and ?c = "sprinted @ [CHR 0x0A]"
  from merge_applied [OF assms(1-4) st_def printed(1,2) assms(9,10)]
  have p: "read_optional t p = Inr (Some ?b)" and mode: "\<not> grants_beyond t p (mo_mode options)"
    and side: "op_holds (write_op sp ?c 0x180) t" by auto
  have sidecar: "sidecar codec t sp (Some st)"
    using op_holds_write [OF side] printed(5) by (simp add: sidecar_def)
  have doc: "existing_document codec options managed (Some ?b) = Some (ms_after st)"
    using printed(3,4) same_root_merge
    by (auto simp: existing_document_def st_def merge_state_of_def Let_def merged_def)
  have again: "st = merge_state_of options (Some st) legacy managed (Some ?b) (ms_after st)"
    using merge_state_again [OF st_def assms(5,6)] by simp
  obtain plan2 where plan2: "plan_merge_with codec t p sp managed legacy d n options empty_plan = (plan2, Inr ())"
    and ops: "rp_operations plan2 = [write_op sp ?c 0x180]"
    and rest: "rp_registry plan2 = []" "rp_private_dirs plan2 = []" "\<not> has_conflicts plan2"
    using merge_plan [OF assms(1) p sidecar doc again printed(1,2), of d n] mode
    by (auto simp: merge_action_def)
  have "planned t plan2"
    using plan_merge_with_planned [OF planned_empty, of t codec p sp managed legacy d n options] plan2 by simp
  then have "apply_tracked plan2 t = (t, Inr ())"
    using side ops rest by (auto intro!: in_place_plan)
  with plan2 show ?thesis by blast
qed

section \<open>Witnesses\<close>

definition demo_merged :: json where
  "demo_merged = Object [(''env'', Object [(''DEBUG'', String ''1''), (''URL'', String ''u'')]), (''model'', String ''mine''),
     (''tools'', Array [String ''a'', String ''b''])]"

definition demo_state :: merge_state where
  "demo_state = \<lparr>ms_created = False, ms_before = Object demo_user, ms_after = demo_merged\<rparr>"

text \<open>A codec that knows the documents of the examples.\<close>

definition demo_codec :: json_codec where
  "demo_codec =
     \<lparr>from_slice = (\<lambda>b. if b = ''U'' @ [CHR 0x0A] then Some (Object demo_user)
                       else if b = ''M'' @ [CHR 0x0A] then Some demo_merged else None),
      json5_from_str = (\<lambda>b. None),
      to_vec_pretty = (\<lambda>v. if v = Object demo_user then Inr ''U''
                          else if v = demo_merged then Inr ''M'' else Inl ''unknown''),
      state_from_slice = (\<lambda>b. if b = ''S'' @ [CHR 0x0A] then Inr demo_state else Inl (''1'', ''1'')),
      state_to_vec_pretty = (\<lambda>st. if st = demo_state then Inr ''S'' else Inl ''unknown'')\<rparr>"

definition demo_settings :: path where
  "demo_settings = [RootDir, Normal ''settings.json'']"

definition demo_host :: win_os where
  "demo_host = set_node [RootDir] (Some (Directory 0x1C0))
     (set_node demo_settings (Some (File (''U'' @ [CHR 0x0A]) 0x1A4)) demo_win)"

abbreviation demo_merge :: "win_os \<Rightarrow> reconcile_plan \<times> (anyhow + unit)" where
  "demo_merge s \<equiv> plan_merge_with demo_codec s demo_settings (state_path demo_settings) (Object demo_managed)
     False ''settings'' ''Demo'' default_merge_options empty_plan"

abbreviation demo_removal :: "win_os \<Rightarrow> reconcile_plan \<times> (anyhow + bool)" where
  "demo_removal s \<equiv> plan_remove_with demo_codec s demo_settings (state_path demo_settings)
     ''settings'' ''Demo'' default_merge_options empty_plan"

abbreviation demo_after_merge :: win_os where
  "demo_after_merge \<equiv> fst (apply_tracked (fst (demo_merge demo_host)) demo_host)"

abbreviation demo_after_removal :: win_os where
  "demo_after_removal \<equiv> fst (apply_tracked (fst (demo_removal demo_after_merge)) demo_after_merge)"

lemma demo_paths:
  "state_path demo_settings \<noteq> demo_settings" "\<not> temporary_name (state_path demo_settings)"
  "\<not> temporary_name demo_settings"
  by code_simp+

lemma demo_reads:
  "read_optional demo_host demo_settings = Inr (Some (''U'' @ [CHR 0x0A]))"
  "read_optional demo_host (state_path demo_settings) = Inr None"
  by code_simp+

lemma demo_documents:
  "existing_document demo_codec default_merge_options (Object demo_managed) (Some (''U'' @ [CHR 0x0A]))
     = Some (Object demo_user)"
  "merged default_merge_options (Object demo_managed) (Object demo_user) = demo_merged"
  "prints_back demo_codec Json demo_merged" "prints_back demo_codec Json (Object demo_user)"
  "state_prints_back demo_codec demo_state"
  by code_simp+

lemma demo_merge_applies:
  "apply_tracked (fst (demo_merge demo_host)) demo_host = (demo_after_merge, Inr ())"
proof -
  have "snd (apply_tracked (fst (demo_merge demo_host)) demo_host) = Inr ()" by code_simp
  then show ?thesis by (simp add: prod_eq_iff)
qed

lemma demo_removal_applies:
  "apply_tracked (fst (demo_removal demo_after_merge)) demo_after_merge = (demo_after_removal, Inr ())"
proof -
  have "snd (apply_tracked (fst (demo_removal demo_after_merge)) demo_after_merge) = Inr ()" by code_simp
  then show ?thesis by (simp add: prod_eq_iff)
qed

lemma demo_first_merge:
  "merge_state_of default_merge_options None False (Object demo_managed) (Some (''U'' @ [CHR 0x0A])) (Object demo_user) = demo_state"
  "sidecar demo_codec demo_host (state_path demo_settings) None"
  "none_or (\<lambda>st. json_wf (ms_before st) \<and> json_wf (ms_after st)) None"
  "prints_back demo_codec (mo_format default_merge_options) (ms_after demo_state)"
  "prints_back demo_codec (mo_format default_merge_options) (without_empty default_merge_options (ms_before demo_state))"
  "merges_cleanly default_merge_options (Object demo_managed) (Object demo_user)"
proof -
  show "merge_state_of default_merge_options None False (Object demo_managed) (Some (''U'' @ [CHR 0x0A])) (Object demo_user) = demo_state"
    by code_simp
  show "merges_cleanly default_merge_options (Object demo_managed) (Object demo_user)"
    by (simp add: merges_cleanly_def default_merge_options_def)
qed (use demo_reads(2) demo_documents(3,4) in
  \<open>simp_all add: sidecar_def default_merge_options_def demo_state_def without_empty_def\<close>)

theorem merge_then_remove_restores_witness:
  "\<exists>u. apply_tracked (fst (demo_removal demo_after_merge)) demo_after_merge = (u, Inr ())
    \<and> settings_at demo_codec Json u demo_settings = Some (Object demo_user)"
proof -
  have "settings_at demo_codec (mo_format default_merge_options) demo_after_removal demo_settings = Some (Object demo_user)"
    using merge_then_remove_restores [OF demo_paths demo_reads(1) demo_first_merge(2) demo_documents(1) demo_wf(1)
        demo_first_merge(3) demo_first_merge(1) [symmetric] demo_first_merge(4,5) demo_documents(5)
        prod.collapse [symmetric] demo_merge_applies prod.collapse [symmetric] demo_removal_applies] demo_first_merge(6)
    by simp
  with demo_removal_applies show ?thesis by (auto simp: default_merge_options_def)
qed

theorem merge_again_changes_nothing_witness:
  "\<exists>plan. demo_merge demo_after_merge = (plan, Inr ())
    \<and> apply_tracked plan demo_after_merge = (demo_after_merge, Inr ())"
  by (rule merge_again_changes_nothing [OF demo_paths(1) demo_reads(1) demo_first_merge(2) demo_documents(1) demo_wf(1)
        demo_first_merge(3) demo_first_merge(4) [folded demo_first_merge(1)] demo_documents(5) [folded demo_first_merge(1)]
        prod.collapse [symmetric] demo_merge_applies])

section \<open>Conflicts and redaction\<close>

lemma plan_record_conflict:
  "rep_changes (rp_report (plan_record s n d ''conflict'' p plan)) =
   rep_changes (rp_report plan) @ [\<lparr>dc_display_name = n, dc_description = d, dc_action = ''conflict'',
     dc_path = p, dc_before = None, dc_after = None\<rparr>]"
  by (simp add: plan_record_def plan_record_diff_def report_record_def)

text \<open>
  A settings file that does not parse, or whose top level is not what the managed document
  needs, is left alone: planning the merge succeeds with a conflict for that file, and applying
  the plan fails without changing anything in the system.
\<close>

lemma merge_conflict_changes_nothing:
  assumes "sp \<noteq> p" and "read_optional s p = Inr existing" and "sidecar codec s sp previous"
    and "existing_document codec options managed existing = None"
  shows "\<exists>plan e. plan_merge_with codec s p sp managed legacy d n options empty_plan = (plan, Inr ())
    \<and> rp_operations plan = [] \<and> apply_tracked plan s = (s, Inl (e, ConflictStop))"
proof -
  let ?plan1 = "empty_plan\<lparr>rp_observed := om_insert p existing []\<rparr>"
  have 1: "read_existing s c p empty_plan = (?plan1, Inr existing)" for c
    using assms(2) by (simp add: read_existing_fresh)
  obtain c where 2: "read_state codec s sp n ?plan1 = (?plan1\<lparr>rp_observed := om_insert sp c (rp_observed ?plan1)\<rparr>, Inr previous)"
    using read_state_fresh [OF assms(3), of ?plan1 n] assms(1) by auto
  define plan where "plan = plan_record s n d ''conflict'' p (?plan1\<lparr>rp_observed := om_insert sp c (rp_observed ?plan1)\<rparr>)"
  have run: "plan_merge_with codec s p sp managed legacy d n options empty_plan = (plan, Inr ())"
    using 1 2 assms(4) by (simp add: plan_merge_with_def Let_def plan_def del: om_insert.simps)
  have ops: "rp_operations plan = []" by (simp add: plan_def plan_record_def plan_record_diff_def)
  have conf: "find (\<lambda>c. dc_action c = ''conflict'') (rep_changes (rp_report plan)) =
      Some \<lparr>dc_display_name = n, dc_description = d, dc_action = ''conflict'', dc_path = p, dc_before = None, dc_after = None\<rparr>"
    by (simp add: plan_def plan_record_conflict empty_plan_def)
  then have "\<exists>e. apply_tracked plan s = (s, Inl (e, ConflictStop))"
    by (simp add: apply_tracked_def)
  with run ops show ?thesis by blast
qed

text \<open>What the report shows of a file that may hold secrets: nothing, or white space.\<close>

definition shows_nothing :: "dry_run_change \<Rightarrow> bool" where
  "shows_nothing c \<longleftrightarrow> none_or (list_all is_ascii_whitespace) (dc_before c) \<and> dc_after c = None"

definition report_redacted :: "reconcile_plan \<Rightarrow> bool" where
  "report_redacted plan \<longleftrightarrow> list_all shows_nothing (rep_changes (rp_report plan))"

lemma report_redacted_fields [simp]:
  "report_redacted (plan\<lparr>rp_observed := obs\<rparr>) = report_redacted plan"
  "report_redacted (push_operation c plan) = report_redacted plan"
  by (simp_all add: report_redacted_def push_operation_def)

lemma report_redacted_read [intro]: "report_redacted plan \<Longrightarrow> report_redacted (fst (plan_read s p plan))"
  by (auto simp: plan_read_def Let_def split: option.splits sum.splits)

lemma plan_seq_keeps:
  assumes "P (fst m)" and "\<And>x plan. m = (plan, Inr x) \<Longrightarrow> P plan \<Longrightarrow> P (fst (k x plan))"
  shows "P (fst (plan_seq m k))"
  using assms by (cases m; cases "snd m") auto

lemma redacted_steps [intro]:
  assumes "report_redacted plan"
  shows "report_redacted (fst (read_existing s c p plan))"
    and "report_redacted (fst (plan_write_file s p b mode plan))"
    and "report_redacted (fst (plan_remove_file s p plan))"
  using report_redacted_read [OF assms, of s p]
  by (auto simp: read_existing_def plan_write_file_def plan_remove_file_def Let_def split: prod.splits sum.splits)

lemma redacted_read_state [intro]:
  "report_redacted plan \<Longrightarrow> report_redacted (fst (read_state codec s p n plan))"
  unfolding read_state_def by (rule plan_seq_keeps) (auto split: option.splits)

lemma redacted_record_change [intro]:
  "report_redacted plan \<Longrightarrow> report_redacted (record_change n d a p b c True plan)"
  by (simp add: report_redacted_def record_change_def plan_record_diff_def report_record_def shows_nothing_def)

lemma redacted_record [intro]:
  "report_redacted plan \<Longrightarrow> report_redacted (plan_record s n d ''conflict'' p plan)"
  "report_redacted plan \<Longrightarrow> report_redacted (plan_record s n d ''unchanged'' p plan)"
  by (simp_all add: report_redacted_def plan_record_def plan_record_diff_def report_record_def shows_nothing_def)

lemma whitespace_valid_utf8: "list_all is_ascii_whitespace b \<Longrightarrow> valid_utf8 b"
proof (induction b)
  case (Cons c b)
  then have "utf8_unit c b = (True, 1)"
    by (auto simp: is_ascii_whitespace_def utf8_unit_def sequence_shape_def Let_def)
  with Cons show ?case by (simp add: valid_utf8.simps(2))
qed simp

lemma redacted_record_blank:
  assumes "report_redacted plan" and "om_get (rp_observed plan) p = Some (Some b)"
    and "list_all is_ascii_whitespace b"
  shows "report_redacted (plan_record s n d ''remove'' p plan)"
  using assms
  by (simp add: report_redacted_def plan_record_def plan_record_diff_def plan_read_def report_record_def
      shows_nothing_def from_utf8_lossy_valid whitespace_valid_utf8)

lemma read_existing_observed:
  "read_existing s c p plan = (plan', Inr (Some b)) \<Longrightarrow> om_get (rp_observed plan') p = Some (Some b)"
  by (auto simp: read_existing_def split: prod.splits sum.splits if_splits dest!: plan_read_cases)

lemma redacted_finish [intro]: "report_redacted plan \<Longrightarrow> report_redacted (fst (finish_removal s sp n plan))"
  unfolding finish_removal_def remove_state_file_def
  by (rule plan_seq_keeps) (use redacted_steps(3) [of plan s sp] in \<open>auto split: prod.splits sum.splits\<close>)

lemma redacted_remove_created [intro]:
  "report_redacted plan \<Longrightarrow> report_redacted (fst (remove_created s p n plan))"
  using redacted_steps(3) [of plan s p] by (auto simp: remove_created_def split: prod.splits sum.splits)

lemmas redacted_intros =
  redacted_steps redacted_read_state redacted_record_change redacted_record redacted_finish redacted_remove_created

lemma redacted_merge:
  assumes "mo_redact_diff options" and "report_redacted plan"
  shows "report_redacted (fst (plan_merge_with codec s p sp managed legacy d n options plan))"
  unfolding plan_merge_with_def Let_def
  using assms
  by (auto intro!: plan_seq_keeps [where P = report_redacted] redacted_intros split: option.split)

lemma redacted_write_stripped:
  assumes "mo_redact_diff options" and "report_redacted plan"
  shows "report_redacted (fst (write_stripped codec s p sp d n options st b v plan))"
  unfolding write_stripped_def Let_def
  using assms
  by (auto intro!: plan_seq_keeps [where P = report_redacted] redacted_intros split: option.split)

lemma redacted_remove_existing:
  assumes "mo_redact_diff options" and "report_redacted plan" and "om_get (rp_observed plan) p = Some (Some b)"
  shows "report_redacted (fst (remove_existing codec s p sp d n options st b plan))"
proof (cases "list_all is_ascii_whitespace b")
  case True
  note blank = redacted_record_blank [OF assms(2,3) True]
  show ?thesis
    unfolding remove_existing_def using True assms(2) blank
    by (auto intro!: plan_seq_keeps [where P = report_redacted] redacted_intros)
next
  case False
  with assms show ?thesis
    by (auto simp: remove_existing_def redacted_write_stripped redacted_record split: option.split)
qed

lemma redacted_removal:
  assumes "mo_redact_diff options" and "report_redacted plan"
  shows "report_redacted (fst (plan_remove_with codec s p sp d n options plan))"
  unfolding plan_remove_with_def
  using assms
  by (auto intro!: plan_seq_keeps [where P = report_redacted] redacted_intros redacted_remove_existing
      split: option.split)
    (rule read_existing_observed)

text \<open>
  C10. For a file that holds secrets (\<^verbatim>\<open>redact_diff\<close>), neither planning a merge nor planning a
  removal puts any of the file's content into the dry-run report, whatever the branch taken:
  what is recorded shows no contents, or the white space of a blank file that goes away.
\<close>

theorem redacted_plans_show_nothing:
  assumes "mo_redact_diff options"
  shows "list_all shows_nothing (rep_changes (rp_report
      (fst (plan_merge_with codec s p sp managed legacy d n options empty_plan))))
    \<and> list_all shows_nothing (rep_changes (rp_report
      (fst (plan_remove_with codec s p sp d n options empty_plan))))"
proof -
  have "report_redacted empty_plan" by (simp add: report_redacted_def empty_plan_def)
  with assms show ?thesis
    unfolding report_redacted_def [symmetric] by (intro conjI redacted_merge redacted_removal)
qed

theorem redacted_plans_show_nothing_witness:
  "list_all shows_nothing (rep_changes (rp_report (fst (plan_merge_with demo_codec demo_host demo_settings
     (state_path demo_settings) (Object demo_managed) False ''settings'' ''Demo''
     (default_merge_options\<lparr>mo_redact_diff := True\<rparr>) empty_plan))))"
  by (rule redacted_plans_show_nothing [THEN conjunct1]) simp

end
