(* ===== verification/Config_Facts.thy ===== *)
theory Config_Facts
  imports Config_Check
begin

text \<open>
  What an accepted configuration guarantees to the rest of the agent: the policy a controller
  delivers, the bounds of the local settings, and the model entries that the Copilot and VS Code
  programs write from their pass-through keys.
\<close>

text \<open>
  A configuration that the controller delivers and a daemon accepts has no startup settings,
  reaches its controller over HTTPS, refreshes its inventory at a positive interval, and follows
  the validation rules.
\<close>

lemma parse_daemon_accepts_policy:
  assumes "parse_daemon from_yaml parse_url contents = Inr c"
  shows "from_yaml contents = Inr c \<and> dc_daemon c = None
    \<and> (\<forall>ctl. dc_controller c = Some ctl \<longrightarrow> prefix ''https://'' (cc_address ctl))
    \<and> dc_inventory_interval c > 0
    \<and> daemon_valid parse_url (dc_llm_gateway c) (dc_sandbox c) (dc_programs c)"
proof -
  from assms have yaml: "from_yaml contents = Inr c" and none: "dc_daemon c = None"
    and valid: "validate_local_daemon parse_url c = Inr ()"
    by (auto simp: parse_daemon_def parse_local_daemon_def with_context_def split: sum.splits if_splits)
  with valid show ?thesis
    using validate_daemon_ok [of parse_url "dc_llm_gateway c" "dc_sandbox c" "dc_programs c"]
    by (simp add: validate_local_daemon_def)
qed

text \<open>
  The local part of a daemon's configuration is bounded: a periodic re-apply is positive and
  at most thirty days, and local usage collection only runs without a controller, on a loopback
  address.
\<close>

lemma parse_local_daemon_bounds:
  assumes "parse_local_daemon from_yaml parse_url contents = Inr c" and "dc_daemon c = Some d"
  shows "(\<forall>i. ds_reconcile_interval d = Some i \<longrightarrow> 0 < i \<and> i \<le> max_reconcile_interval)
    \<and> (\<forall>u. ds_usage d = Some u \<longrightarrow> dc_controller c = None \<and> ip_is_loopback (sa_ip (us_listen u)))"
proof -
  from assms(1) have "validate_local_daemon parse_url c = Inr ()"
    by (auto simp: parse_local_daemon_def with_context_def split: sum.splits)
  with assms(2) show ?thesis
    by (auto simp: validate_local_daemon_def)
qed

section \<open>Model documents\<close>

lemma insert_all_get:
  "k \<notin> set (om_keys extra) \<Longrightarrow> om_get (insert_all extra m) k = om_get m k"
  unfolding insert_all_def by (induction extra arbitrary: m) (auto simp: om_keys_def)

lemma insert_all_dom:
  "om_get (insert_all extra m) k \<noteq> None \<Longrightarrow> k \<in> set (om_keys extra) \<or> om_get m k \<noteq> None"
  using insert_all_get by metis

lemma reserved_key_None:
  "reserved_key reserved extra = None \<Longrightarrow> r \<in> set reserved \<Longrightarrow> r \<notin> set (om_keys extra)"
  unfolding reserved_key_def find_None_iff list_ex_iff by (metis eq_ignore_ascii_case_refl)

lemma copilot_document_absent:
  "k \<notin> set (om_keys (cm_extra m)) \<Longrightarrow> k \<notin> {''modelId'', ''id'', ''provider''} \<Longrightarrow>
   get_field (copilot_model_document mid m) k = None"
  unfolding copilot_model_document_def by (simp add: insert_all_get del: om_insert.simps)

lemma vscode_document_absent:
  "k \<notin> set (om_keys (vm_extra m)) \<Longrightarrow>
   k \<notin> {''maxOutputTokens'', ''maxInputTokens'', ''vision'', ''toolCalling'', ''name'', ''id''} \<Longrightarrow>
   get_field (vscode_model_document mid m) k = None"
  unfolding vscode_model_document_def insert_limit_def
  by (simp add: insert_all_get del: om_insert.simps split: option.split)

definition not_an_api_key :: "string \<Rightarrow> bool" where
  "not_an_api_key k \<longleftrightarrow> \<not> eq_ignore_ascii_case k ''apiKey''"

lemma document_keys_are_no_api_key:
  "list_all not_an_api_key [''modelId'', ''id'', ''provider'', ''maxOutputTokens'', ''maxInputTokens'',
     ''vision'', ''toolCalling'', ''name'']"
  by code_simp

lemma api_key_absent:
  "\<not> has_api_key extra \<Longrightarrow> eq_ignore_ascii_case k ''apiKey'' \<Longrightarrow>
   k \<notin> set (om_keys extra) \<union> {''modelId'', ''id'', ''provider'', ''maxOutputTokens'', ''maxInputTokens'',
     ''vision'', ''toolCalling'', ''name''}"
  using document_keys_are_no_api_key unfolding has_api_key_def list_ex_iff list_all_iff not_an_api_key_def by auto

text \<open>
  A model entry written for an accepted Copilot configuration identifies its model as
  configured: its \<^verbatim>\<open>id\<close> is the map key, whatever the pass-through keys are, and it carries no API key
  in any capitalisation.
\<close>

lemma copilot_documents_keep_identity:
  assumes "copilot_validate c = Inr ()" and "(mid, m) \<in> set (cp_models c)"
  shows "get_field (copilot_model_document mid m) ''id'' = Some (String mid)
    \<and> (\<forall>k. eq_ignore_ascii_case k ''apiKey'' \<longrightarrow> get_field (copilot_model_document mid m) k = None)"
proof -
  from assms have "copilot_model_check (mid, m) = Inr ()" by (simp add: copilot_validate_def list_all_iff)
  then have ok: "reserved_key [''id''] (cm_extra m) = None" "\<not> has_api_key (cm_extra m)"
    by (simp_all add: copilot_model_check_def split: option.splits)
  have "''id'' \<notin> set (om_keys (cm_extra m))"
    using reserved_key_None [OF ok(1), of "''id''"] by simp
  then have "get_field (copilot_model_document mid m) ''id'' = Some (String mid)"
    unfolding copilot_model_document_def by (simp add: insert_all_get del: om_insert.simps)
  then show ?thesis
    using api_key_absent [OF ok(2)] copilot_document_absent [of _ m mid] by simp
qed

text \<open>
  A model entry written for an accepted VS Code configuration identifies its model as
  configured: its \<^verbatim>\<open>id\<close> is the map key, it leaves \<^verbatim>\<open>url\<close> and \<^verbatim>\<open>requestHeaders\<close> to the daemon, and it
  carries no API key in any capitalisation.
\<close>

lemma vscode_documents_keep_identity:
  assumes "vscode_validate c = Inr ()" and "(mid, m) \<in> set (vs_models c)"
  shows "get_field (vscode_model_document mid m) ''id'' = Some (String mid)
    \<and> get_field (vscode_model_document mid m) ''url'' = None
    \<and> get_field (vscode_model_document mid m) ''requestHeaders'' = None
    \<and> (\<forall>k. eq_ignore_ascii_case k ''apiKey'' \<longrightarrow> get_field (vscode_model_document mid m) k = None)"
proof -
  from assms have "vscode_model_check (mid, m) = Inr ()" by (simp add: vscode_validate_def list_all_iff)
  then have ok: "reserved_key [''id'', ''url'', ''requestHeaders''] (vm_extra m) = None" "\<not> has_api_key (vm_extra m)"
    by (simp_all add: vscode_model_check_def split: option.splits)
  have free: "''id'' \<notin> set (om_keys (vm_extra m))" "''url'' \<notin> set (om_keys (vm_extra m))"
    "''requestHeaders'' \<notin> set (om_keys (vm_extra m))"
    using reserved_key_None [OF ok(1)] by simp_all
  have "get_field (vscode_model_document mid m) ''id'' = Some (String mid)"
    using free(1) unfolding vscode_model_document_def insert_limit_def
    by (simp add: insert_all_get del: om_insert.simps split: option.split)
  moreover have "get_field (vscode_model_document mid m) ''url'' = None"
    and "get_field (vscode_model_document mid m) ''requestHeaders'' = None"
    using free(2,3) vscode_document_absent [of _ m mid] by simp_all
  ultimately show ?thesis
    using api_key_absent [OF ok(2)] vscode_document_absent [of _ m mid] by simp
qed

section \<open>The controller's configuration\<close>

definition controller_paths :: "controller_config \<Rightarrow> path list" where
  "controller_paths c =
     (case ctl_daemon_config c of None \<Rightarrow> [] | Some d \<Rightarrow> [cd_path d])
     @ (case ctl_gateway_jwt c of None \<Rightarrow> [] | Some g \<Rightarrow> [cg_private_key g])
     @ (case ctl_usage c of None \<Rightarrow> [] | Some u \<Rightarrow> [cu_token_file u])
     @ (let f = tls_files (ctl_tls c)
        in [ct_certificate f, ct_key f, ct_client_ca_certificate f, ct_client_ca_key f])"

lemma path_join_absolute: "is_absolute d \<Longrightarrow> is_absolute (path_join d p)"
  by (auto simp: path_join_def is_absolute_def split: list.splits)

lemma resolve_relative_absolute: "is_absolute d \<Longrightarrow> is_absolute (resolve_relative p d)"
  by (simp add: resolve_relative_def path_join_absolute)

lemma resolve_paths_absolute:
  "is_absolute d \<Longrightarrow> list_all is_absolute (controller_paths (resolve_paths d c))"
  by (cases "ctl_tls c")
    (auto simp: controller_paths_def resolve_paths_def resolve_relative_absolute path_join_absolute split: option.splits)

text \<open>
  A controller that starts from a configuration file in an absolute directory keeps its
  administration API on a loopback address, trusts an OIDC issuer over plain HTTP only when
  \<^verbatim>\<open>allowInsecureDev\<close> is set, and finds every file it names from the directory of the configuration,
  never from its working directory.
\<close>

lemma load_controller_safe:
  assumes "load_controller from_yaml parse_url s p = Inr c"
    and "path_parent p = Some d" and "is_absolute d"
  shows "ip_is_loopback (sa_ip (ctl_admin_listen c))
    \<and> (\<exists>u. parse_url (co_issuer (ctl_oidc c)) = Inr u
          \<and> (url_scheme u = ''https'' \<or> url_scheme u = ''http'' \<and> ctl_allow_insecure_dev c))
    \<and> list_all is_absolute (controller_paths c)"
proof -
  from assms obtain raw where c: "c = resolve_paths d raw" and valid: "validate_controller parse_url raw = Inr ()"
    by (auto simp: load_controller_def parse_controller_def with_context_def split: sum.splits)
  have same: "ctl_admin_listen c = ctl_admin_listen raw" "ctl_oidc c = ctl_oidc raw"
    "ctl_allow_insecure_dev c = ctl_allow_insecure_dev raw"
    by (simp_all add: c resolve_paths_def)
  from valid have "ip_is_loopback (sa_ip (ctl_admin_listen raw))" and issuer: "validate_oidc_issuer parse_url raw = Inr ()"
    by (simp_all add: validate_controller_def)
  moreover from issuer have "\<exists>u. parse_url (co_issuer (ctl_oidc raw)) = Inr u
      \<and> (url_scheme u = ''https'' \<or> url_scheme u = ''http'' \<and> ctl_allow_insecure_dev raw)"
    by (auto simp: validate_oidc_issuer_def split: sum.splits if_splits)
  ultimately show ?thesis
    using resolve_paths_absolute [OF assms(3), of raw] by (simp add: same c [symmetric])
qed

definition demo_controller :: controller_config where
  "demo_controller =
     \<lparr>ctl_fleet_listen = \<lparr>sa_ip = V4 0 0 0 0, sa_port = 8443\<rparr>, ctl_admin_listen = \<lparr>sa_ip = V4 127 0 0 1, sa_port = 8444\<rparr>,
      ctl_database_url = ''sqlite://fleet.db'',
      ctl_oidc = \<lparr>co_issuer = ''https://issuer.example'', co_client_id = ''fleet'', co_redirect_uri = ''http://127.0.0.1/''\<rparr>,
      ctl_daemon_config = Some \<lparr>cd_path = [Normal ''daemon.yaml''], cd_revision = 1\<rparr>,
      ctl_gateway_jwt = None, ctl_usage = None, ctl_tls = TlsDirectory [Normal ''tls''], ctl_allow_insecure_dev = False\<rparr>"

definition demo_url :: url where
  "demo_url = \<lparr>url_scheme = ''https'', url_username = [], url_password = None, url_host = Some ''issuer.example'',
     url_path = ''/'', url_query = None, url_fragment = None\<rparr>"

end
