(* ===== verification/Remote_Facts.thy ===== *)
theory Remote_Facts
  imports Remote
begin

text \<open>
  What the controller connection guarantees: a configuration reported as applied is the one a
  restart finds, one that could not be applied at once is saved as soon as a later re-apply
  succeeds, and the controller's view of the programs is kept up to date.
\<close>

section \<open>Saving\<close>

lemma remote_config_path_neq:
  "remote_config_path d \<notin> set (ancestors d)" "remote_config_path d \<noteq> d"
  by (auto simp: remote_config_path_def path_join_def is_absolute_def ancestors_def dest: set_mono_prefix prefix_length_le)

lemma persist_config_reads:
  assumes "persist_config s d yaml = (t, Inr ())" and "valid_utf8 yaml"
  shows "read_to_string t (remote_config_path d) = Inr yaml"
proof -
  obtain s1 where "atomic_write s1 (remote_config_path d) yaml 0x180 = (t, Inr ())"
    using assms(1) by (auto simp: persist_config_def split: prod.splits sum.splits)
  from atomic_write_cases [OF this] assms(2) show ?thesis by (auto simp: read_to_string_def fs_read_def)
qed

lemma parse_pushed_config_Inr:
  "parse_pushed_config lib p = Inr config \<Longrightarrow>
   valid_utf8 (pu_yaml p) \<and> parse_daemon (pl_from_yaml lib) (pl_parse_url lib) (pu_yaml p) = Inr config
   \<and> pl_sha256 lib (pu_yaml p) = pu_sha256 p"
  by (auto simp: parse_pushed_config_def split: if_splits)

text \<open>A saved configuration is the one in effect after a restart.\<close>

lemma save_config_effective:
  assumes "save_config d revision (pu_yaml p) st = (st', Inr ())" and "parse_pushed_config lib p = Inr config"
    and "dc_controller boot \<noteq> None"
  shows "load_effective_config (pl_from_yaml lib) (pl_parse_url lib) (tk_system (ps_daemon st')) boot d = Inr config
    \<and> ps_saves st' = ps_saves st @ [(revision, pu_yaml p)]"
proof -
  obtain t where t: "persist_config (tk_system (ps_daemon st)) d (pu_yaml p) = (t, Inr ())"
    and st': "st' = st\<lparr>ps_daemon := (ps_daemon st)\<lparr>tk_system := t\<rparr>, ps_saves := ps_saves st @ [(revision, pu_yaml p)]\<rparr>"
    using assms(1) by (auto simp: save_config_def split: prod.splits sum.splits)
  show ?thesis
    using persist_config_reads [OF t] parse_pushed_config_Inr [OF assms(2)] assms(3)
    by (auto simp: st' load_effective_config_def with_context_def)
qed

lemma apply_parsed_applied:
  assumes "apply_parsed d p parsed interference st = (st', status)" and "cs_state status = config_state_applied"
  shows "\<exists>config st1 st2. parsed = Inr config \<and> cs_error status = []
    \<and> save_config d (pu_revision p) (pu_yaml p) st1 = (st2, Inr ()) \<and> ps_saves st1 = ps_saves st
    \<and> ps_daemon st' = ps_daemon st2 \<and> ps_saves st' = ps_saves st2"
  using assms
  by (auto simp: apply_parsed_def config_status_of_def config_state_applied_def config_state_failed_def Let_def
      split: sum.splits prod.splits option.splits)
     (intro exI conjI, assumption, simp_all)

text \<open>
  C31. A push reported as applied was checked against its hash, parsed, applied and saved: it is the
  current configuration, nothing is left to be saved, and a restart of a daemon with a controller
  finds exactly this configuration in effect, whatever its local file says otherwise.
\<close>

theorem applied_push_survives_restart:
  assumes "sm' = on_push lib d p interference sm" and "sm_last_sent sm' = Some status"
    and "cs_state status = config_state_applied" and "dc_controller boot \<noteq> None"
  shows "\<exists>config. parse_pushed_config lib p = Inr config \<and> pl_sha256 lib (pu_yaml p) = pu_sha256 p
    \<and> sm_current sm' = Some \<lparr>cur_revision = Some (pu_revision p), cur_config = config\<rparr>
    \<and> load_effective_config (pl_from_yaml lib) (pl_parse_url lib) (tk_system (ps_daemon (sm_state sm'))) boot d = Inr config
    \<and> sm_pending sm' = None \<and> ps_saves (sm_state sm') = ps_saves (sm_state sm) @ [(pu_revision p, pu_yaml p)]"
proof -
  obtain current parsed where replaced: "replace_current_config lib p (sm_current sm) = (current, parsed)" by force
  obtain st status' where run: "apply_parsed d p parsed interference (sm_state sm) = (st, status')" by force
  have sm': "sm_current sm' = current" "sm_state sm' = st" "status' = status"
    "sm_pending sm' = (if (case parsed of Inr _ \<Rightarrow> True | Inl _ \<Rightarrow> False) \<and> cs_error status' \<noteq> []
       then Some (pu_revision p, pu_yaml p) else None)"
    using assms(1,2) replaced run by (simp_all add: on_push_def)
  obtain config st1 st2 where parsed: "parsed = Inr config" and ok: "cs_error status' = []"
    and saved: "save_config d (pu_revision p) (pu_yaml p) st1 = (st2, Inr ())" "ps_saves st1 = ps_saves (sm_state sm)"
    "ps_daemon st = ps_daemon st2" "ps_saves st = ps_saves st2"
    using apply_parsed_applied [OF run] assms(3) sm'(3) by blast
  have config: "parse_pushed_config lib p = Inr config"
    "current = Some \<lparr>cur_revision = Some (pu_revision p), cur_config = config\<rparr>"
    using replaced parsed by (auto simp: replace_current_config_def split: sum.splits)
  from save_config_effective [OF saved(1) config(1) assms(4)] parse_pushed_config_Inr [OF config(1)] show ?thesis
    using config sm' saved(2-4) ok by simp
qed

section \<open>Saving later\<close>

lemma on_tick_saves:
  assumes "sm_revision sm = Some (pu_revision p)"
    and "sm_pending sm = Some (pu_revision p, pu_yaml p) \<or> (pu_revision p, pu_yaml p) \<in> set (ps_saves (sm_state sm))"
  shows "sm_revision (on_tick d tick sm) = Some (pu_revision p)
    \<and> (sm_pending (on_tick d tick sm) = Some (pu_revision p, pu_yaml p)
       \<or> (pu_revision p, pu_yaml p) \<in> set (ps_saves (sm_state (on_tick d tick sm))))"
  using assms
  by (auto simp: on_tick_def save_config_def Let_def split: outcome_splits)

definition is_push :: "stream_event \<Rightarrow> bool" where
  "is_push e = (case e of Pushed _ _ \<Rightarrow> True | _ \<Rightarrow> False)"

lemma stream_keeps_pending:
  assumes "\<not> list_ex is_push es" and "sm_revision sm = Some (pu_revision p)"
    and "sm_pending sm = Some (pu_revision p, pu_yaml p) \<or> (pu_revision p, pu_yaml p) \<in> set (ps_saves (sm_state sm))"
  shows "sm_revision (fold (stream_step lib d) es sm) = Some (pu_revision p)
    \<and> (sm_pending (fold (stream_step lib d) es sm) = Some (pu_revision p, pu_yaml p)
       \<or> (pu_revision p, pu_yaml p) \<in> set (ps_saves (sm_state (fold (stream_step lib d) es sm))))"
  using assms
proof (induction es arbitrary: sm)
  case (Cons e es)
  show ?case
  proof (cases e)
    case (TickOutcome tick)
    from on_tick_saves [OF Cons.prems(2,3), of d tick] show ?thesis
      using Cons.IH [of "on_tick d tick sm"] Cons.prems(1) by (simp add: TickOutcome)
  next
    case (OtherTasks f)
    then show ?thesis using Cons.IH Cons.prems by simp
  qed (use Cons.prems in \<open>simp add: is_push_def\<close>)
qed simp

lemma stream_keeps_current:
  "\<not> list_ex is_push es \<Longrightarrow> sm_current (fold (stream_step lib d) es sm) = sm_current sm"
proof (induction es arbitrary: sm)
  case (Cons e es)
  have "sm_current (stream_step lib d e sm) = sm_current sm"
    using Cons.prems by (cases e) (auto simp: is_push_def on_tick_def Let_def split: prod.splits option.splits)
  with Cons show ?case by simp
qed simp

text \<open>
  A push ends the wait for a save even when it does not parse: the configuration before it stays the
  current one, but is no longer saved, whatever the re-applies of it report.
\<close>

lemma unparsed_push_forgets_unsaved:
  assumes "parse_pushed_config lib p = Inl e"
  shows "sm_current (on_push lib d p interference sm) = sm_current sm"
    and "sm_pending (on_push lib d p interference sm) = None"
    and "pu_revision p \<noteq> revision \<Longrightarrow> ts_revision tick = Some revision \<Longrightarrow>
      on_tick d tick (on_push lib d p interference sm) = on_push lib d p interference sm"
  using assms
  by (simp_all add: on_push_def replace_current_config_def apply_parsed_def on_tick_def tick_config_status_def)

text \<open>
  C32. A pushed configuration that parses but cannot be applied or saved at once is not forgotten as
  long as its stream stays open and no other configuration is pushed: through any outcomes of ticks
  and whatever other tasks do, it stays the current configuration and is saved or still waiting to be;
  and the first outcome of a successful re-apply of it saves it, if the save succeeds, so that a
  restart finds it in effect instead of an older one. The two limits are part of the statement: a later
  push that does not parse leaves the configuration current but ends the wait, so that it is not saved
  any more, and so does the end of the stream.
\<close>

theorem failed_push_is_saved_later:
  assumes "parse_pushed_config lib p = Inr config"
    and "sm_last_sent (on_push lib d p interference sm0) = Some status" and "cs_error status \<noteq> []"
    and "\<not> list_ex is_push es"
    and "sm = fold (stream_step lib d) es (on_push lib d p interference sm0)"
  shows "sm_current sm = Some \<lparr>cur_revision = Some (pu_revision p), cur_config = config\<rparr>
    \<and> (sm_pending sm = Some (pu_revision p, pu_yaml p) \<or> (pu_revision p, pu_yaml p) \<in> set (ps_saves (sm_state sm)))
    \<and> (\<forall>tick st. sm_pending sm = Some (pu_revision p, pu_yaml p) \<and> ts_error tick = None
         \<and> ts_revision tick = Some (pu_revision p) \<and> save_config d (pu_revision p) (pu_yaml p) (sm_state sm) = (st, Inr ())
         \<and> dc_controller boot \<noteq> None \<longrightarrow>
         sm_pending (on_tick d tick sm) = None
         \<and> load_effective_config (pl_from_yaml lib) (pl_parse_url lib)
             (tk_system (ps_daemon (sm_state (on_tick d tick sm)))) boot d = Inr config)
    \<and> (\<forall>p' e i. parse_pushed_config lib p' = Inl e \<longrightarrow>
         sm_current (on_push lib d p' i sm) = sm_current sm \<and> sm_pending (on_push lib d p' i sm) = None)
    \<and> sm_pending (open_stream (sm_current sm) (sm_state sm)) = None"
proof -
  have first: "sm_revision (on_push lib d p interference sm0) = Some (pu_revision p)"
    "sm_pending (on_push lib d p interference sm0) = Some (pu_revision p, pu_yaml p)"
    "sm_current (on_push lib d p interference sm0) = Some \<lparr>cur_revision = Some (pu_revision p), cur_config = config\<rparr>"
    using assms(1-3) by (auto simp: on_push_def replace_current_config_def Let_def split: prod.splits)
  note kept = stream_keeps_pending [OF assms(4) first(1) disjI1 [OF first(2)], of lib d, folded assms(5)]
  have current: "sm_current sm = Some \<lparr>cur_revision = Some (pu_revision p), cur_config = config\<rparr>"
    using stream_keeps_current [OF assms(4)] first(3) assms(5) by simp
  have "sm_pending (on_tick d tick sm) = None \<and> sm_state (on_tick d tick sm) = st"
    if "sm_pending sm = Some (pu_revision p, pu_yaml p)" "ts_error tick = None" "ts_revision tick = Some (pu_revision p)"
      "save_config d (pu_revision p) (pu_yaml p) (sm_state sm) = (st, Inr ())" for tick st
    using that kept by (auto simp: on_tick_def Let_def split: option.splits)
  with kept save_config_effective [OF _ assms(1)]
  have saved: "\<forall>tick st. sm_pending sm = Some (pu_revision p, pu_yaml p) \<and> ts_error tick = None
         \<and> ts_revision tick = Some (pu_revision p) \<and> save_config d (pu_revision p) (pu_yaml p) (sm_state sm) = (st, Inr ())
         \<and> dc_controller boot \<noteq> None \<longrightarrow>
         sm_pending (on_tick d tick sm) = None
         \<and> load_effective_config (pl_from_yaml lib) (pl_parse_url lib)
             (tk_system (ps_daemon (sm_state (on_tick d tick sm)))) boot d = Inr config" by fastforce
  have "sm_pending (open_stream (sm_current sm) (sm_state sm)) = None" by (simp add: open_stream_def)
  with kept current saved unparsed_push_forgets_unsaved(1,2) [of lib _ _ d _ sm] show ?thesis by blast
qed

section \<open>Reporting\<close>

lemma program_state_of_proto_inverse [simp]: "program_state_of_proto (program_state_proto state) = state"
  by (cases state) (simp_all add: program_state_of_proto_def)

text \<open>What is sent about the programs reads back as what the apply reported.\<close>

lemma status_keys_program_statuses [simp]: "status_keys (program_statuses report) = outcome_keys (ar_programs report)"
  by (simp add: status_keys_def program_statuses_def outcome_keys_def)

lemma outcomes_same:
  assumes "distinct (map po_program ocs)"
  shows "\<not> outcomes_differ (outcome_keys ocs) (outcome_keys ocs)"
proof -
  have "find (\<lambda>(before, _, _). before = po_program oc) (outcome_keys ocs) = Some (po_program oc, po_state oc, po_detail oc)"
    if "oc \<in> set ocs" for oc
    using assms that by (induction ocs) (auto simp: outcome_keys_def)
  then have "\<not> outcome_changed (outcome_keys ocs) key" if "key \<in> set (outcome_keys ocs)" for key
    using that by (auto simp: outcome_keys_def outcome_changed_def)
  moreover have "\<not> outcome_gone (outcome_keys ocs) key" if "key \<in> set (outcome_keys ocs)" for key
    using that by (auto simp: outcome_gone_def list_ex_iff)
  ultimately show ?thesis by (auto simp: outcomes_differ_def list_ex_iff)
qed

text \<open>
  What a successful re-apply of the pushed revision does about a save that is still to be made, and the
  error that its outcome comes to: its own, or that of the save.
\<close>

definition save_pending :: "path \<Rightarrow> stream \<Rightarrow> push_state \<times> (anyhow + unit)" where
  "save_pending d sm =
     (case sm_pending sm of None \<Rightarrow> (sm_state sm, Inr ()) | Some (revision, yaml) \<Rightarrow> save_config d revision yaml (sm_state sm))"

definition outcome_error :: "path \<Rightarrow> tick_status \<Rightarrow> stream \<Rightarrow> string option" where
  "outcome_error d tick sm =
     (case ts_error tick of
        Some e \<Rightarrow> Some e
      | None \<Rightarrow> (case snd (save_pending d sm) of Inl e \<Rightarrow> Some (chain_message e) | Inr _ \<Rightarrow> None))"

lemma on_tick_outcome:
  assumes "ts_revision tick = Some revision" and "sm_revision sm = Some revision"
  shows "on_tick d tick sm =
    (let sm' = sm\<lparr>sm_state := (if ts_error tick = None then fst (save_pending d sm) else sm_state sm),
                  sm_pending := (if outcome_error d tick sm = None then None else sm_pending sm)\<rparr>
     in case tick_config_status (sm_last_sent sm) (Some revision) (tick\<lparr>ts_error := outcome_error d tick sm\<rparr>) of
          None \<Rightarrow> sm' | Some st \<Rightarrow> sm'\<lparr>sm_last_sent := Some st, sm_sent := sm_sent sm @ [st]\<rparr>)"
proof -
  obtain report e where tick: "tick = \<lparr>ts_revision = Some revision, ts_report = report, ts_error = e\<rparr>"
    using assms(1) by (cases tick) auto
  show ?thesis
    using assms(2) unfolding tick
    by (cases e; cases "sm_pending sm")
      (auto simp: on_tick_def save_pending_def outcome_error_def Let_def split: prod.splits sum.splits option.splits)
qed

text \<open>
  C33. After the outcome of a re-apply of the revision last pushed, the status the controller has is
  up to date: it says whether the device failed and with which error, and its programs differ from
  the outcome at most by programs that have settled since. At most one status is sent for it, and
  none when the controller's view is already right. This includes the recovery of a push that could
  not be saved: a successful outcome then saves it first, counts as failed with the error of that save
  if it fails, and leaves the configuration waiting for the next outcome exactly in that case.
\<close>

theorem controller_view_is_current:
  assumes "ts_revision tick = Some revision" and "sm_revision sm = Some revision"
    and "distinct (map po_program (ar_programs (ts_report tick)))"
  shows "\<exists>sent. sm_last_sent (on_tick d tick sm) = Some sent
    \<and> (cs_state sent = config_state_applied \<longleftrightarrow> outcome_error d tick sm = None)
    \<and> cs_error sent = (case outcome_error d tick sm of None \<Rightarrow> [] | Some e \<Rightarrow> e)
    \<and> \<not> outcomes_differ (status_keys (cs_programs sent)) (outcome_keys (ar_programs (ts_report tick)))
    \<and> sm_sent (on_tick d tick sm) = sm_sent sm @ (if sm_last_sent sm = Some sent then [] else [sent])
    \<and> sm_pending (on_tick d tick sm) = (if outcome_error d tick sm = None then None else sm_pending sm)
    \<and> sm_state (on_tick d tick sm) = (if ts_error tick = None then fst (save_pending d sm) else sm_state sm)"
proof -
  define err where "err = outcome_error d tick sm"
  define status where "status = config_status_of revision (program_statuses (ts_report tick))
      (case err of None \<Rightarrow> Inr () | Some e \<Rightarrow> Inl e)"
  have fields: "cs_state status = config_state_applied \<longleftrightarrow> err = None"
    "cs_error status = (case err of None \<Rightarrow> [] | Some e \<Rightarrow> e)"
    "status_keys (cs_programs status) = outcome_keys (ar_programs (ts_report tick))"
    by (auto simp: status_def config_status_of_def config_state_applied_def config_state_failed_def split: option.splits)
  note step = on_tick_outcome [OF assms(1,2), of d, folded err_def]
  show ?thesis
  proof (cases "tick_config_status (sm_last_sent sm) (Some revision) (tick\<lparr>ts_error := err\<rparr>)")
    case None
    then obtain sent where "sm_last_sent sm = Some sent" "cs_state sent = cs_state status" "cs_error sent = cs_error status"
      "\<not> outcomes_differ (status_keys (cs_programs sent)) (status_keys (cs_programs status))"
      using assms(1) by (auto simp: tick_config_status_def status_def Let_def split: option.splits if_splits)
    then show ?thesis using None fields by (auto simp: step Let_def simp flip: err_def)
  next
    case (Some st)
    then have st: "st = status" and "sm_last_sent sm \<noteq> Some status"
      using assms(1,3) outcomes_same fields(3)
      by (auto simp: tick_config_status_def status_def Let_def split: option.splits if_splits)
    then show ?thesis using Some fields outcomes_same [OF assms(3)] by (auto simp: step Let_def simp flip: err_def)
  qed
qed

section \<open>Examples\<close>

definition demo_push_lib :: push_lib where
  "demo_push_lib = \<lparr>pl_sha256 = id, pl_from_yaml = (\<lambda>_. Inr demo_config), pl_parse_url = (\<lambda>_. Inl ''unused''),
     pl_utf8_error = (\<lambda>_. [])\<rparr>"

definition demo_pushed :: pushed_config where
  "demo_pushed = \<lparr>pu_revision = 1, pu_yaml = ''policy'', pu_sha256 = ''policy''\<rparr>"

definition demo_stream :: "provider list \<Rightarrow> stream" where
  "demo_stream pvs = open_stream None
     \<lparr>ps_daemon = \<lparr>tk_reconciler = demo_reconciler pvs, tk_system = demo_win, tk_log = []\<rparr>, ps_saves = [], ps_sign_ins = 0\<rparr>"

definition demo_boot :: daemon_config where
  "demo_boot = demo_config\<lparr>dc_controller := Some \<lparr>cc_address = ''https://controller'', cc_ca_certificate_path = None,
     cc_heartbeat_interval = 1, cc_device_authorization = False\<rparr>\<rparr>"

theorem applied_push_survives_restart_witness:
  "load_effective_config (pl_from_yaml demo_push_lib) (pl_parse_url demo_push_lib)
     (tk_system (ps_daemon (sm_state (on_push demo_push_lib [RootDir, Normal ''st''] demo_pushed id (demo_stream [])))))
     demo_boot [RootDir, Normal ''st''] = Inr demo_config"
proof -
  let ?sm = "on_push demo_push_lib [RootDir, Normal ''st''] demo_pushed id (demo_stream [])"
  have "map_option cs_state (sm_last_sent ?sm) = Some config_state_applied" by code_simp
  then obtain status where "sm_last_sent ?sm = Some status" "cs_state status = config_state_applied" by auto
  moreover have "parse_pushed_config demo_push_lib demo_pushed = Inr demo_config" by code_simp
  moreover have "dc_controller demo_boot \<noteq> None" by (simp add: demo_boot_def)
  ultimately show ?thesis using applied_push_survives_restart [OF refl, of demo_push_lib "[RootDir, Normal ''st'']" demo_pushed id "demo_stream []" status demo_boot]
    by auto
qed

theorem failed_push_is_saved_later_witness:
  "\<exists>sm. sm = on_push demo_push_lib [RootDir, Normal ''st''] demo_pushed id (demo_stream [failing_provider ''codex''])
     \<and> (sm_pending sm = Some (pu_revision demo_pushed, pu_yaml demo_pushed)
        \<or> (pu_revision demo_pushed, pu_yaml demo_pushed) \<in> set (ps_saves (sm_state sm)))"
proof -
  let ?sm = "on_push demo_push_lib [RootDir, Normal ''st''] demo_pushed id (demo_stream [failing_provider ''codex''])"
  have "map_option (\<lambda>status. cs_error status = []) (sm_last_sent ?sm) = Some False" by code_simp
  then obtain status where sent: "sm_last_sent ?sm = Some status" "cs_error status \<noteq> []" by auto
  have parsed: "parse_pushed_config demo_push_lib demo_pushed = Inr demo_config" by code_simp
  have quiet: "\<not> list_ex is_push []" by simp
  have fold: "?sm = fold (stream_step demo_push_lib [RootDir, Normal ''st'']) [] ?sm" by simp
  show ?thesis using failed_push_is_saved_later [OF parsed sent quiet fold] by blast
qed

definition demo_tick_outcome :: tick_status where
  "demo_tick_outcome = \<lparr>ts_revision = Some 1, ts_report = \<lparr>ar_programs = [], ar_sequence = 2\<rparr>, ts_error = None\<rparr>"

definition demo_recovering :: stream where
  "demo_recovering = (demo_stream [])\<lparr>sm_revision := Some 1, sm_pending := Some (1, ''policy'')\<rparr>"

theorem controller_view_is_current_witness:
  "\<exists>sent. sm_last_sent (on_tick [RootDir, Normal ''st''] demo_tick_outcome demo_recovering) = Some sent
     \<and> cs_state sent = config_state_applied
     \<and> sm_pending (on_tick [RootDir, Normal ''st''] demo_tick_outcome demo_recovering) = None"
proof -
  have "outcome_error [RootDir, Normal ''st''] demo_tick_outcome demo_recovering = None" by code_simp
  with controller_view_is_current [of demo_tick_outcome 1 demo_recovering "[RootDir, Normal ''st'']"] show ?thesis
    by (auto simp: demo_tick_outcome_def demo_recovering_def)
qed

end
