(* ===== verification/Session.thy ===== *)
theory Session
  imports Tick
begin

text \<open>
  The life of the controller session (\<^verbatim>\<open>run\<close>, \<^verbatim>\<open>run_session\<close> and the sign-out paths of \<^verbatim>\<open>remote.rs\<close>):
  loading or enrolling an identity, refreshing it, connecting, waiting before a retry, and the
  supervisor around it, as a step function on what each wait ends with; with the two states the
  local API shows, of enrolment (\<^verbatim>\<open>enrollment.rs\<close>) and of the connection.
\<close>

section \<open>What the local API shows\<close>

record enrollment_status =
  en_status :: string
  en_authorization_url :: "string option"
  en_user_code :: "string option"

definition enrollment_new :: "bool \<Rightarrow> enrollment_status" where
  "enrollment_new configured = \<lparr>en_status = (if configured then ''starting'' else ''notConfigured''),
     en_authorization_url = None, en_user_code = None\<rparr>"

definition enrollment_set :: "string \<Rightarrow> enrollment_status" where
  "enrollment_set status = \<lparr>en_status = status, en_authorization_url = None, en_user_code = None\<rparr>"

definition awaiting_authentication :: "string \<Rightarrow> enrollment_status" where
  "awaiting_authentication url =
     \<lparr>en_status = ''awaitingAuthentication'', en_authorization_url = Some url, en_user_code = None\<rparr>"

definition awaiting_device_authorization :: "string \<Rightarrow> string \<Rightarrow> enrollment_status" where
  "awaiting_device_authorization url code =
     \<lparr>en_status = ''awaitingAuthentication'', en_authorization_url = Some url, en_user_code = Some code\<rparr>"

datatype connection_error = ControllerUnreachable | IdentityRejected | SessionExpired | LocalError | UnknownReason

record connection_status =
  cn_connected :: bool
  cn_last_seen :: "nat option"
  cn_last_error :: "connection_error option"

definition connection_initial :: connection_status where
  "connection_initial = \<lparr>cn_connected = False, cn_last_seen = None, cn_last_error = None\<rparr>"

definition mark_connected :: "nat \<Rightarrow> connection_status \<Rightarrow> connection_status" where
  "mark_connected now c = c\<lparr>cn_connected := True, cn_last_seen := Some now, cn_last_error := None\<rparr>"

definition mark_seen :: "nat \<Rightarrow> connection_status \<Rightarrow> connection_status" where
  "mark_seen now c = (if cn_connected c then c\<lparr>cn_last_seen := Some now\<rparr> else c)"

definition mark_disconnected :: "nat \<Rightarrow> connection_error option \<Rightarrow> connection_status \<Rightarrow> connection_status" where
  "mark_disconnected now e c =
     (let c1 = (if cn_connected c then c\<lparr>cn_last_seen := Some now\<rparr> else c);
          c2 = c1\<lparr>cn_connected := False\<rparr>
      in if e \<noteq> None then c2\<lparr>cn_last_error := e\<rparr> else c2)"

section \<open>The session\<close>

definition initial_retry_delay :: duration where
  "initial_retry_delay = from_secs 1"

definition max_retry_delay :: duration where
  "max_retry_delay = from_secs 60"

definition next_retry_delay :: "duration \<Rightarrow> duration" where
  "next_retry_delay delay = min (delay * 2) max_retry_delay"

datatype phase = Loading | Enrolling | EnrollWait | Refreshing | Connecting | Streaming | RetryWait | SupervisorWait

record session =
  ss_phase :: phase
  ss_outer_delay :: duration
  ss_enroll_delay :: duration
  ss_delay :: duration
  ss_enrollment :: enrollment_status
  ss_connection :: connection_status
  ss_current :: "current_config option"

definition session_start :: "current_config option \<Rightarrow> session" where
  "session_start current = \<lparr>ss_phase = Loading, ss_outer_delay = initial_retry_delay,
     ss_enroll_delay = initial_retry_delay, ss_delay = initial_retry_delay, ss_enrollment = enrollment_new True,
     ss_connection = connection_initial, ss_current = current\<rparr>"

text \<open>
  What a wait ends with. \<open>SignOut deleted\<close> is a request to sign out and whether the identity could be
  deleted; the numbers are the wall clock; \<open>long\<close> tells that the session ran longer than the
  longest delay.
\<close>

datatype stored_identity = StoredIdentity | NoIdentity | UnreadableIdentity (discarded: bool) | IdentityError

datatype session_event =
    IdentityLoaded stored_identity bool nat
  | Authorizing string "string option"
  | EnrollmentDone bool bool nat
  | EnrollmentFailed
  | Slept
  | Refreshed
  | RefreshRejected bool bool nat
  | RefreshTransient
  | RefreshFailed bool nat
  | RenewalSaveFailed bool nat
  | StreamOpened nat
  | StreamAlive nat
  | StreamClosed nat
  | StreamRejected bool bool nat
  | StreamFailed nat
  | Configured "current_config"
  | SignOut bool
  | SignOutBetween stored_identity bool

text \<open>A local error ends the session; the supervisor records it and waits.\<close>

definition session_failed :: "bool \<Rightarrow> nat \<Rightarrow> session \<Rightarrow> session" where
  "session_failed long now s =
     s\<lparr>ss_phase := SupervisorWait,
       ss_outer_delay := (if long then initial_retry_delay else ss_outer_delay s),
       ss_enrollment := enrollment_set ''failed'',
       ss_connection := mark_disconnected now (Some LocalError) (ss_connection s)\<rparr>"

definition start_refreshing :: "session \<Rightarrow> session" where
  "start_refreshing s = s\<lparr>ss_phase := Refreshing, ss_delay := initial_retry_delay, ss_enrollment := enrollment_set ''enrolled''\<rparr>"

definition start_enrolling :: "session \<Rightarrow> session" where
  "start_enrolling s = s\<lparr>ss_phase := Enrolling, ss_enroll_delay := initial_retry_delay\<rparr>"

definition identity_loaded :: "stored_identity \<Rightarrow> bool \<Rightarrow> nat \<Rightarrow> session \<Rightarrow> session" where
  "identity_loaded stored long now s =
     (case stored of
        StoredIdentity \<Rightarrow> start_refreshing s
      | NoIdentity \<Rightarrow> start_enrolling s
      | UnreadableIdentity removed \<Rightarrow>
          if removed then start_enrolling (s\<lparr>ss_enrollment := enrollment_set ''starting''\<rparr>) else session_failed long now s
      | IdentityError \<Rightarrow> session_failed long now s)"

text \<open>The identity is deleted and the enrolment starts again, unless the deletion fails.\<close>

definition identity_rejected :: "connection_error \<Rightarrow> bool \<Rightarrow> bool \<Rightarrow> nat \<Rightarrow> session \<Rightarrow> session" where
  "identity_rejected e deleted long now s =
     (if deleted
      then s\<lparr>ss_phase := Loading, ss_enrollment := enrollment_set ''starting'',
             ss_connection := mark_disconnected now (Some e) (ss_connection s)\<rparr>
      else session_failed long now s)"

definition complete_logout :: "bool \<Rightarrow> session \<Rightarrow> session \<times> bool" where
  "complete_logout deleted s =
     (if deleted
      then (s\<lparr>ss_current := None, ss_enrollment := enrollment_set ''starting'', ss_connection := connection_initial\<rparr>, True)
      else (s, False))"

definition complete_unenrolled_logout :: "session \<Rightarrow> session" where
  "complete_unenrolled_logout s = s\<lparr>ss_enrollment := enrollment_set ''starting''\<rparr>"

text \<open>A sign-out while the session runs: where it goes on if the identity cannot be deleted.\<close>

definition sign_out :: "bool \<Rightarrow> phase \<Rightarrow> session \<Rightarrow> session" where
  "sign_out deleted otherwise s =
     (case complete_logout deleted s of
        (s', True) \<Rightarrow> s'\<lparr>ss_phase := Loading\<rparr>
      | (s', False) \<Rightarrow> s'\<lparr>ss_phase := otherwise\<rparr>)"

definition logout_between_sessions :: "stored_identity \<Rightarrow> bool \<Rightarrow> session \<Rightarrow> session" where
  "logout_between_sessions stored deleted s =
     (case stored of
        StoredIdentity \<Rightarrow> fst (complete_logout deleted s)
      | NoIdentity \<Rightarrow> complete_unenrolled_logout (s\<lparr>ss_connection := connection_initial\<rparr>)
      | UnreadableIdentity removed \<Rightarrow>
          if removed then complete_unenrolled_logout (s\<lparr>ss_connection := connection_initial\<rparr>) else s
      | IdentityError \<Rightarrow> s)"

text \<open>
  After a failed sign-out during the wait before a retry, the delay doubles as after the wait
  itself.
\<close>

fun session_step :: "session_event \<Rightarrow> session \<Rightarrow> session option" where
  "session_step (IdentityLoaded stored long now) s =
     (if ss_phase s = Loading then Some (identity_loaded stored long now s) else None)"
| "session_step (Authorizing url code) s =
     (if ss_phase s = Enrolling
      then Some (s\<lparr>ss_enrollment := (case code of None \<Rightarrow> awaiting_authentication url
                                     | Some c \<Rightarrow> awaiting_device_authorization url c)\<rparr>) else None)"
| "session_step (EnrollmentDone saved long now) s =
     (if ss_phase s = Enrolling then Some (if saved then start_refreshing s else session_failed long now s) else None)"
| "session_step EnrollmentFailed s =
     (if ss_phase s = Enrolling
      then Some (s\<lparr>ss_phase := EnrollWait, ss_enrollment := enrollment_set ''starting''\<rparr>) else None)"
| "session_step Slept s =
     (case ss_phase s of
        EnrollWait \<Rightarrow> Some (s\<lparr>ss_phase := Enrolling, ss_enroll_delay := next_retry_delay (ss_enroll_delay s)\<rparr>)
      | RetryWait \<Rightarrow> Some (s\<lparr>ss_phase := Refreshing, ss_delay := next_retry_delay (ss_delay s)\<rparr>)
      | SupervisorWait \<Rightarrow> Some (s\<lparr>ss_phase := Loading, ss_outer_delay := next_retry_delay (ss_outer_delay s)\<rparr>)
      | _ \<Rightarrow> None)"
| "session_step Refreshed s = (if ss_phase s = Refreshing then Some (s\<lparr>ss_phase := Connecting\<rparr>) else None)"
| "session_step (RefreshRejected deleted long now) s =
     (if ss_phase s = Refreshing then Some (identity_rejected SessionExpired deleted long now s) else None)"
| "session_step RefreshTransient s = (if ss_phase s = Refreshing then Some (s\<lparr>ss_phase := RetryWait\<rparr>) else None)"
| "session_step (RefreshFailed long now) s = (if ss_phase s = Refreshing then Some (session_failed long now s) else None)"
| "session_step (RenewalSaveFailed long now) s = (if ss_phase s = Connecting then Some (session_failed long now s) else None)"
| "session_step (StreamOpened now) s =
     (if ss_phase s = Connecting
      then Some (s\<lparr>ss_phase := Streaming, ss_connection := mark_connected now (ss_connection s)\<rparr>) else None)"
| "session_step (StreamAlive now) s =
     (if ss_phase s = Streaming then Some (s\<lparr>ss_connection := mark_seen now (ss_connection s)\<rparr>) else None)"
| "session_step (StreamClosed now) s =
     (if ss_phase s = Streaming
      then Some (s\<lparr>ss_phase := RetryWait, ss_connection := mark_disconnected now None (ss_connection s)\<rparr>) else None)"
| "session_step (StreamRejected deleted long now) s =
     (if ss_phase s = Connecting \<or> ss_phase s = Streaming
      then Some (identity_rejected IdentityRejected deleted long now s) else None)"
| "session_step (StreamFailed now) s =
     (if ss_phase s = Connecting \<or> ss_phase s = Streaming
      then Some (s\<lparr>ss_phase := RetryWait,
                   ss_connection := mark_disconnected now (Some ControllerUnreachable) (ss_connection s)\<rparr>) else None)"
| "session_step (Configured c) s = (if ss_phase s = Streaming then Some (s\<lparr>ss_current := Some c\<rparr>) else None)"
| "session_step (SignOut deleted) s =
     (case ss_phase s of
        Enrolling \<Rightarrow> Some (complete_unenrolled_logout s)
      | EnrollWait \<Rightarrow>
          Some ((complete_unenrolled_logout s)\<lparr>ss_phase := Enrolling, ss_enroll_delay := next_retry_delay (ss_enroll_delay s)\<rparr>)
      | Refreshing \<Rightarrow> Some (sign_out deleted Refreshing s)
      | Connecting \<Rightarrow> Some (sign_out deleted Refreshing s)
      | Streaming \<Rightarrow> Some (sign_out deleted Refreshing s)
      | RetryWait \<Rightarrow>
          Some (let s' = sign_out deleted Refreshing s
                in if deleted then s' else s'\<lparr>ss_delay := next_retry_delay (ss_delay s)\<rparr>)
      | _ \<Rightarrow> None)"
| "session_step (SignOutBetween stored deleted) s =
     (if ss_phase s = SupervisorWait
      then Some ((logout_between_sessions stored deleted s)\<lparr>ss_phase := Loading, ss_outer_delay := initial_retry_delay\<rparr>) else None)"

text \<open>A run: every event must be possible where it happens.\<close>

fun session_run :: "session_event list \<Rightarrow> session \<Rightarrow> session option" where
  "session_run [] s = Some s"
| "session_run (e # es) s = Option.bind (session_step e s) (session_run es)"

section \<open>What the states tell\<close>

definition delay_ok :: "duration \<Rightarrow> bool" where
  "delay_ok d \<longleftrightarrow> initial_retry_delay \<le> d \<and> d \<le> max_retry_delay"

lemma delay_ok_initial [simp]: "delay_ok initial_retry_delay"
  by (simp add: delay_ok_def initial_retry_delay_def max_retry_delay_def from_secs_def)

lemma delay_ok_next [simp]: "delay_ok d \<Longrightarrow> delay_ok (next_retry_delay d)"
  by (auto simp: delay_ok_def next_retry_delay_def initial_retry_delay_def max_retry_delay_def from_secs_def)

text \<open>The enrolment states a phase can show.\<close>

fun phase_shows :: "phase \<Rightarrow> string list" where
  "phase_shows Loading = [''starting'', ''failed'']"
| "phase_shows Enrolling = [''starting'', ''failed'', ''awaitingAuthentication'']"
| "phase_shows EnrollWait = [''starting'']"
| "phase_shows SupervisorWait = [''failed'']"
| "phase_shows _ = [''enrolled'']"

definition session_ok :: "session \<Rightarrow> bool" where
  "session_ok s \<longleftrightarrow>
     delay_ok (ss_outer_delay s) \<and> delay_ok (ss_enroll_delay s) \<and> delay_ok (ss_delay s)
     \<and> en_status (ss_enrollment s) \<in> set (phase_shows (ss_phase s))
     \<and> (en_authorization_url (ss_enrollment s) \<noteq> None \<longleftrightarrow> en_status (ss_enrollment s) = ''awaitingAuthentication'')
     \<and> (ss_phase s = Streaming \<longrightarrow> cn_connected (ss_connection s))"

lemmas session_defs = identity_loaded_def session_failed_def start_refreshing_def start_enrolling_def identity_rejected_def
  sign_out_def complete_logout_def complete_unenrolled_logout_def logout_between_sessions_def
  enrollment_set_def awaiting_authentication_def awaiting_device_authorization_def
  mark_connected_def mark_seen_def mark_disconnected_def connection_initial_def

lemma session_start_ok: "session_ok (session_start current)"
  by (simp add: session_ok_def session_start_def enrollment_new_def)

lemma session_failed_ok: "session_ok s \<Longrightarrow> session_ok (session_failed long now s)"
  by (simp add: session_ok_def session_failed_def enrollment_set_def)

lemma start_refreshing_ok: "session_ok s \<Longrightarrow> session_ok (start_refreshing s)"
  by (simp add: session_ok_def start_refreshing_def enrollment_set_def)

lemma start_enrolling_ok: "session_ok s \<Longrightarrow> ss_phase s = Loading \<Longrightarrow> session_ok (start_enrolling s)"
  by (auto simp: session_ok_def start_enrolling_def)

lemma identity_rejected_ok: "session_ok s \<Longrightarrow> session_ok (identity_rejected e deleted long now s)"
  by (simp add: identity_rejected_def session_failed_ok) (simp add: session_ok_def enrollment_set_def)

lemma sign_out_ok:
  "session_ok s \<Longrightarrow> ss_phase s \<in> {Refreshing, Connecting, Streaming, RetryWait} \<Longrightarrow> session_ok (sign_out deleted Refreshing s)"
  by (cases deleted) (auto simp: session_ok_def sign_out_def complete_logout_def enrollment_set_def)

lemma logout_between_sessions_ok:
  "session_ok s \<Longrightarrow> ss_phase s = SupervisorWait \<Longrightarrow>
   session_ok ((logout_between_sessions stored deleted s)\<lparr>ss_phase := Loading, ss_outer_delay := initial_retry_delay\<rparr>)"
  by (cases stored; cases deleted)
     (simp_all add: session_ok_def logout_between_sessions_def complete_logout_def complete_unenrolled_logout_def enrollment_set_def)

lemma session_ok_phase:
  "session_ok s \<Longrightarrow> ss_phase s \<in> {Refreshing, Connecting, Streaming, RetryWait} \<Longrightarrow> p \<in> {Refreshing, Connecting, RetryWait}
   \<Longrightarrow> delay_ok d \<Longrightarrow> session_ok (s\<lparr>ss_phase := p, ss_delay := d, ss_connection := c\<rparr>)"
  by (auto simp: session_ok_def)

lemmas session_ok_intros = session_failed_ok start_refreshing_ok start_enrolling_ok identity_rejected_ok sign_out_ok
  logout_between_sessions_ok

lemma session_step_ok:
  assumes "session_step e s = Some t" and "session_ok s"
  shows "session_ok t"
proof (cases e)
  case (IdentityLoaded stored long now)
  have "session_ok (s\<lparr>ss_enrollment := enrollment_set ''starting''\<rparr>)" if "ss_phase s = Loading"
    using assms(2) that by (simp add: session_ok_def enrollment_set_def)
  then show ?thesis using assms IdentityLoaded
    by (auto simp: identity_loaded_def intro: session_ok_intros split: if_splits stored_identity.splits)
next
  case (Authorizing url code)
  then show ?thesis using assms
    by (cases code) (auto simp: session_ok_def awaiting_authentication_def awaiting_device_authorization_def split: if_splits)
next
  case EnrollmentFailed
  then show ?thesis using assms by (auto simp: session_ok_def enrollment_set_def split: if_splits)
next
  case Slept
  then show ?thesis using assms by (cases "ss_phase s") (auto simp: session_ok_def)
next
  case (SignOut deleted)
  show ?thesis
  proof (cases "ss_phase s")
    case RetryWait
    then show ?thesis using assms SignOut sign_out_ok [OF assms(2), of deleted]
      by (cases deleted) (auto simp: session_ok_def)
  next
    case Enrolling
    then show ?thesis using assms SignOut by (auto simp: session_ok_def complete_unenrolled_logout_def enrollment_set_def)
  next
    case EnrollWait
    then show ?thesis using assms SignOut by (auto simp: session_ok_def complete_unenrolled_logout_def enrollment_set_def)
  qed (use assms SignOut sign_out_ok [OF assms(2), of deleted] in auto)
next
  case (EnrollmentDone saved long now)
  then show ?thesis using assms by (auto intro: session_ok_intros split: if_splits)
next
  case (RefreshRejected deleted long now)
  then show ?thesis using assms by (auto intro: session_ok_intros split: if_splits)
next
  case (RefreshFailed long now)
  then show ?thesis using assms by (auto intro: session_ok_intros split: if_splits)
next
  case (RenewalSaveFailed long now)
  then show ?thesis using assms by (auto intro: session_ok_intros split: if_splits)
next
  case (StreamRejected deleted long now)
  then show ?thesis using assms by (auto intro: session_ok_intros split: if_splits)
next
  case (SignOutBetween stored deleted)
  then show ?thesis using assms by (auto intro: session_ok_intros split: if_splits)
qed (use assms in \<open>auto simp: session_ok_def mark_connected_def mark_seen_def split: if_splits\<close>)

text \<open>Without a failed sign-out, the connection counts as live exactly while a stream is open.\<close>

definition sign_out_failed :: "session_event \<Rightarrow> bool" where
  "sign_out_failed e \<longleftrightarrow> e = SignOut False"

definition connected_exact :: "session \<Rightarrow> bool" where
  "connected_exact s \<longleftrightarrow> (cn_connected (ss_connection s) \<longleftrightarrow> ss_phase s = Streaming)"

lemma session_step_connected:
  assumes "session_step e s = Some t" and "connected_exact s" and "\<not> sign_out_failed e"
  shows "connected_exact t"
proof (cases e)
  case Slept
  then show ?thesis using assms by (cases "ss_phase s") (auto simp: connected_exact_def)
next
  case (SignOut deleted)
  then show ?thesis using assms
    by (cases "ss_phase s"; cases deleted) (auto simp: connected_exact_def session_defs sign_out_failed_def Let_def)
qed (use assms in \<open>auto simp: connected_exact_def session_defs Let_def split: if_splits stored_identity.splits option.splits\<close>)

definition connected_phase :: "session \<Rightarrow> bool" where
  "connected_phase s \<longleftrightarrow> (cn_connected (ss_connection s) \<longrightarrow> ss_phase s \<in> {Refreshing, Connecting, Streaming, RetryWait})"

lemma session_step_connected_phase:
  assumes "session_step e s = Some t" and "connected_phase s"
  shows "connected_phase t"
proof (cases e)
  case Slept
  then show ?thesis using assms by (cases "ss_phase s") (auto simp: connected_phase_def)
next
  case (SignOut deleted)
  then show ?thesis using assms
    by (cases "ss_phase s"; cases deleted) (auto simp: connected_phase_def session_defs Let_def)
qed (use assms in \<open>auto simp: connected_phase_def session_defs Let_def split: if_splits stored_identity.splits option.splits\<close>)

lemma session_run_ok: "session_run es s = Some t \<Longrightarrow> session_ok s \<Longrightarrow> session_ok t"
  by (induction es arbitrary: s) (auto simp: bind_eq_Some_conv dest: session_step_ok)

lemma session_run_connected:
  "session_run es s = Some t \<Longrightarrow> connected_exact s \<Longrightarrow> \<not> list_ex sign_out_failed es \<Longrightarrow> connected_exact t"
  by (induction es arbitrary: s) (auto simp: bind_eq_Some_conv dest: session_step_connected)

lemma session_run_connected_phase:
  "session_run es s = Some t \<Longrightarrow> connected_phase s \<Longrightarrow> connected_phase t"
  by (induction es arbitrary: s) (auto simp: bind_eq_Some_conv dest: session_step_connected_phase)

text \<open>
  Unless a sign-out fails, the device is shown as connected exactly while its stream is open: a
  stream that closes or fails, a rejected identity, a local error and a completed sign-out all end it.
\<close>

lemma connected_exactly_while_streaming:
  assumes "session_run es (session_start current) = Some s" and "\<not> list_ex sign_out_failed es"
  shows "cn_connected (ss_connection s) \<longleftrightarrow> ss_phase s = Streaming"
  using session_run_connected [OF assms(1) _ assms(2)]
  by (simp add: connected_exact_def session_start_def connection_initial_def)

text \<open>
  C34. Whatever happens to a session, what the local API shows of it is true to its phase: the device
  counts as enrolled exactly while the session works with an identity, a sign-in address is shown
  exactly while one is awaited, and every wait before a retry lasts between one and sixty seconds. In
  every run without a failed sign-out, the device is shown as connected exactly while its stream is
  open: a stream that closes or fails, a rejected identity, a local error and a completed sign-out all
  end it. A sign-out that cannot delete the identity is the exception (it drops the stream and leaves
  the connection shown as live); even then an open stream is shown as connected, and a device without
  an identity never is.
\<close>

theorem session_state_is_consistent:
  assumes "session_run es (session_start current) = Some s"
  shows "(en_status (ss_enrollment s) = ''enrolled'' \<longleftrightarrow> ss_phase s \<in> {Refreshing, Connecting, Streaming, RetryWait})
    \<and> (en_authorization_url (ss_enrollment s) \<noteq> None \<longleftrightarrow> en_status (ss_enrollment s) = ''awaitingAuthentication'')
    \<and> (en_authorization_url (ss_enrollment s) \<noteq> None \<longrightarrow> ss_phase s = Enrolling)
    \<and> (\<not> list_ex sign_out_failed es \<longrightarrow> (cn_connected (ss_connection s) \<longleftrightarrow> ss_phase s = Streaming))
    \<and> (ss_phase s = Streaming \<longrightarrow> cn_connected (ss_connection s))
    \<and> (cn_connected (ss_connection s) \<longrightarrow> en_status (ss_enrollment s) = ''enrolled'')
    \<and> (\<forall>d \<in> {ss_outer_delay s, ss_enroll_delay s, ss_delay s}. from_secs 1 \<le> d \<and> d \<le> from_secs 60)"
proof -
  have ok: "session_ok s" using session_run_ok [OF assms session_start_ok] .
  then have "(en_status (ss_enrollment s) = ''enrolled'' \<longleftrightarrow> ss_phase s \<in> {Refreshing, Connecting, Streaming, RetryWait})
    \<and> (en_status (ss_enrollment s) = ''awaitingAuthentication'' \<longrightarrow> ss_phase s = Enrolling)"
    by (cases "ss_phase s") (auto simp: session_ok_def)
  moreover have "connected_phase s"
    using session_run_connected_phase [OF assms] by (simp add: connected_phase_def session_start_def connection_initial_def)
  moreover note connected_exactly_while_streaming [OF assms]
  ultimately show ?thesis
    using ok by (auto simp: session_ok_def delay_ok_def connected_phase_def initial_retry_delay_def max_retry_delay_def)
qed

definition demo_session_events :: "session_event list" where
  "demo_session_events = [IdentityLoaded NoIdentity False 0, Authorizing ''https://idp'' None, EnrollmentDone True False 0,
     Refreshed, StreamOpened 5, StreamClosed 9, Slept, Refreshed, StreamFailed 10]"

theorem session_state_is_consistent_witness:
  "\<exists>s. session_run demo_session_events (session_start None) = Some s \<and> en_status (ss_enrollment s) = ''enrolled''
     \<and> \<not> cn_connected (ss_connection s)"
proof -
  have "\<exists>s. session_run demo_session_events (session_start None) = Some s \<and> ss_phase s = RetryWait"
    by (simp add: demo_session_events_def session_start_def session_defs)
  moreover have "\<not> list_ex sign_out_failed demo_session_events"
    by (simp add: demo_session_events_def sign_out_failed_def)
  ultimately show ?thesis using session_state_is_consistent [of demo_session_events None] by fastforce
qed

text \<open>
  A sign-out that cannot delete the identity drops the open stream but leaves the device shown as
  connected, until the next connection opens or fails.
\<close>

lemma failed_sign_out_shows_connected:
  "\<exists>s. session_run [IdentityLoaded StoredIdentity False 0, Refreshed, StreamOpened 5, SignOut False] (session_start None) = Some s
     \<and> ss_phase s = Refreshing \<and> cn_connected (ss_connection s)"
  by (simp add: session_start_def session_defs)

text \<open>
  The delay before a reconnection doubles with every stream that opened and was closed in order, as
  when the access token is renewed, just as with one that failed.
\<close>

lemma clean_reconnect_doubles_delay:
  assumes "ss_phase s = RetryWait"
  shows "\<exists>t. session_run [Slept, Refreshed, StreamOpened t1, StreamClosed t2] s = Some t
    \<and> ss_phase t = RetryWait \<and> ss_delay t = next_retry_delay (ss_delay s)"
  using assms by simp

text \<open>
  A sign-out between sessions that has to discard an unreadable identity leaves the organisation's
  configuration current, unlike one that deletes a readable identity.
\<close>

lemma unreadable_sign_out_keeps_configuration:
  "ss_current (logout_between_sessions (UnreadableIdentity True) deleted s) = ss_current s"
  "ss_current (logout_between_sessions StoredIdentity True s) = None"
  by (simp_all add: logout_between_sessions_def complete_unenrolled_logout_def complete_logout_def)

end
