(* ===== verification/Http.thy ===== *)
theory Http
  imports Config
begin

text \<open>
  What the local proxy uses of strings, network addresses and HTTP headers: trimming and splitting,
  \<^verbatim>\<open>str::parse::<IpAddr>\<close>, and a header map as the list of its names, in lower case, and values.
\<close>

section \<open>Strings\<close>

text \<open>\<^verbatim>\<open>trim_end_matches\<close> and \<^verbatim>\<open>trim_start_matches\<close> of one character.\<close>

definition trim_end_char :: "char \<Rightarrow> string \<Rightarrow> string" where
  "trim_end_char c s = rev (dropWhile (\<lambda>x. x = c) (rev s))"

definition trim_start_char :: "char \<Rightarrow> string \<Rightarrow> string" where
  "trim_start_char c s = dropWhile (\<lambda>x. x = c) s"

definition split_once :: "char \<Rightarrow> string \<Rightarrow> (string \<times> string) option" where
  "split_once c s =
     (if c \<in> set s then Some (takeWhile (\<lambda>x. x \<noteq> c) s, tl (dropWhile (\<lambda>x. x \<noteq> c) s)) else None)"

definition rsplit_once :: "char \<Rightarrow> string \<Rightarrow> (string \<times> string) option" where
  "rsplit_once c s = map_option (\<lambda>(a, b). (rev b, rev a)) (split_once c (rev s))"

definition strip_prefix :: "string \<Rightarrow> string \<Rightarrow> string option" where
  "strip_prefix p s = (if prefix p s then Some (drop (length p) s) else None)"

lemma strip_prefix_Some [simp]: "strip_prefix p s = Some r \<longleftrightarrow> s = p @ r"
  by (auto simp: strip_prefix_def prefix_def)

lemma split_once_append: "c \<notin> set a \<Longrightarrow> split_once c (a @ c # b) = Some (a, b)"
proof -
  assume "c \<notin> set a"
  then have "takeWhile (\<lambda>x. x \<noteq> c) (a @ c # b) = a" "dropWhile (\<lambda>x. x \<noteq> c) (a @ c # b) = c # b"
    by (induction a) auto
  then show ?thesis by (simp add: split_once_def)
qed

lemma split_once_Some: "split_once c s = Some (a, b) \<longleftrightarrow> s = a @ c # b \<and> c \<notin> set a"
proof
  assume some: "split_once c s = Some (a, b)"
  then have "c \<in> set s" by (auto simp: split_once_def split: if_splits)
  then obtain x y where "s = x @ c # y" "c \<notin> set x" by (metis split_list_first)
  with some split_once_append [of c x y] show "s = a @ c # b \<and> c \<notin> set a" by auto
next
  assume "s = a @ c # b \<and> c \<notin> set a"
  then show "split_once c s = Some (a, b)" by (auto simp: split_once_append)
qed

section \<open>Network addresses\<close>

definition to_digit :: "nat \<Rightarrow> char \<Rightarrow> nat option" where
  "to_digit radix c =
     (let n = (of_char c :: nat);
          d = (if 48 \<le> n \<and> n \<le> 57 then n - 48
               else if 97 \<le> n \<and> n \<le> 122 then n - 87
               else if 65 \<le> n \<and> n \<le> 90 then n - 55
               else 36)
      in if d < radix then Some d else None)"

text \<open>The bound is the number type's; four hexadecimal digits always fit their type.\<close>

definition read_number :: "nat \<Rightarrow> nat \<Rightarrow> bool \<Rightarrow> nat option \<Rightarrow> string \<Rightarrow> (nat \<times> string) option" where
  "read_number radix max_digits zero_prefix bound s =
     (let ds = takeWhile (\<lambda>c. to_digit radix c \<noteq> None) s;
          n = foldl (\<lambda>a c. a * radix + the (to_digit radix c)) 0 ds
      in if ds = [] \<or> length ds > max_digits \<or> (\<not> zero_prefix \<and> hd ds = CHR ''0'' \<and> length ds > 1) \<or> (case bound of None \<Rightarrow> False | Some b \<Rightarrow> n \<ge> b)
         then None else Some (n, drop (length ds) s))"

definition read_separator :: "char \<Rightarrow> nat \<Rightarrow> (string \<Rightarrow> ('a \<times> string) option) \<Rightarrow> string \<Rightarrow> ('a \<times> string) option" where
  "read_separator sep i inner s =
     (if i = 0 then inner s
      else case s of c # rest \<Rightarrow> if c = sep then inner rest else None | [] \<Rightarrow> None)"

definition read_octet :: "nat \<Rightarrow> string \<Rightarrow> (nat \<times> string) option" where
  "read_octet i s = read_separator (CHR ''.'') i (read_number 10 3 False (Some 256)) s"

definition read_ipv4 :: "string \<Rightarrow> (nat list \<times> string) option" where
  "read_ipv4 s =
     (case read_octet 0 s of None \<Rightarrow> None | Some (a, s1) \<Rightarrow>
     (case read_octet 1 s1 of None \<Rightarrow> None | Some (b, s2) \<Rightarrow>
     (case read_octet 2 s2 of None \<Rightarrow> None | Some (c, s3) \<Rightarrow>
     (case read_octet 3 s3 of None \<Rightarrow> None | Some (d, s4) \<Rightarrow> Some ([a, b, c, d], s4)))))"

text \<open>\<open>left\<close> is the number of groups that may still follow; the flag tells that the last two came as IPv4.\<close>

fun read_groups :: "nat \<Rightarrow> nat \<Rightarrow> string \<Rightarrow> nat list \<times> bool \<times> string" where
  "read_groups i 0 s = ([], False, s)"
| "read_groups i (Suc left) s =
     (case (if left > 0 then read_separator (CHR '':'') i read_ipv4 s else None) of
        Some (octets, rest) \<Rightarrow> ([octets ! 0 * 256 + octets ! 1, octets ! 2 * 256 + octets ! 3], True, rest)
      | None \<Rightarrow>
          (case read_separator (CHR '':'') i (read_number 16 4 True None) s of
             Some (g, rest) \<Rightarrow>
               (case read_groups (Suc i) left rest of (gs, v4, rest') \<Rightarrow> (g # gs, v4, rest'))
           | None \<Rightarrow> ([], False, s)))"

definition read_ipv6 :: "string \<Rightarrow> (nat list \<times> string) option" where
  "read_ipv6 s =
     (case read_groups 0 8 s of
        (heads, v4, rest) \<Rightarrow>
          if length heads = 8 then Some (heads, rest)
          else if v4 then None
          else
            (case strip_prefix ''::'' rest of
               None \<Rightarrow> None
             | Some rest' \<Rightarrow>
                 (case read_groups 0 (8 - (length heads + 1)) rest' of
                    (tails, _, rest'') \<Rightarrow>
                      Some (heads @ replicate (8 - length heads - length tails) 0 @ tails, rest''))))"

definition parse_ip :: "string \<Rightarrow> ip_addr option" where
  "parse_ip s =
     (case read_ipv4 s of
        Some (o4, rest) \<Rightarrow>
          if rest = [] then Some (V4 (of_nat (o4 ! 0)) (of_nat (o4 ! 1)) (of_nat (o4 ! 2)) (of_nat (o4 ! 3))) else None
      | None \<Rightarrow>
          (case read_ipv6 s of
             Some (gs, rest) \<Rightarrow>
               if rest = [] then Some (V6 (of_nat (foldl (\<lambda>a g. a * 65536 + g) 0 gs))) else None
           | None \<Rightarrow> None))"

section \<open>Header maps\<close>

type_synonym headers = "(string \<times> bytes) list"

definition header_get :: "headers \<Rightarrow> string \<Rightarrow> bytes option" where
  "header_get hs name = map_of hs name"

definition header_get_all :: "headers \<Rightarrow> string \<Rightarrow> bytes list" where
  "header_get_all hs name = map snd (filter (\<lambda>(n, v). n = name) hs)"

text \<open>A name is compared in lower case, as the map keeps it.\<close>

definition header_remove :: "string \<Rightarrow> headers \<Rightarrow> headers" where
  "header_remove name hs = filter (\<lambda>(n, v). n \<noteq> map to_ascii_lower name) hs"

definition header_insert :: "string \<Rightarrow> bytes \<Rightarrow> headers \<Rightarrow> headers" where
  "header_insert name v hs = filter (\<lambda>(n, v). n \<noteq> name) hs @ [(name, v)]"

lemma header_get_remove [simp]:
  "header_get (header_remove name hs) n = (if n = map to_ascii_lower name then None else header_get hs n)"
  by (induction hs) (auto simp: header_get_def header_remove_def)

lemma header_get_insert [simp]:
  "header_get (header_insert name v hs) n = (if n = name then Some v else header_get hs n)"
  by (induction hs) (auto simp: header_get_def header_insert_def)

text \<open>
  What the model needs of the \<^verbatim>\<open>http\<close> and \<^verbatim>\<open>url\<close> crates: the text of a header value, the value of a
  text, the text of a URL, and the authority of a parsed URI.
\<close>

record http_lib =
  hl_to_str :: "bytes \<Rightarrow> string option"
  hl_from_str :: "string \<Rightarrow> bytes option"
  hl_url_str :: "url \<Rightarrow> string"
  hl_parse_uri :: "string \<Rightarrow> string + string option"

end
