(* ===== verification/Routes.thy ===== *)
theory Routes
  imports Http
begin

text \<open>
  The routes of the local LLM proxy and the checks on a request's path, host and pairing value
  (\<^verbatim>\<open>llm_proxy/routes.rs\<close>).
\<close>

section \<open>The routes\<close>

definition pairing_header :: string where
  "pairing_header = ''x-agentdesktop-pairing''"

datatype route_credential = GatewayOnly | Passthrough

datatype upstream = UpstreamUrl | UpstreamProxyUrl

record proxy_route =
  pr_prefix :: string
  pr_client_id :: string
  pr_credential :: route_credential
  pr_upstream :: upstream
  pr_pairing_in_path :: bool
  pr_tunnels_upgrades :: bool
  pr_credential_less_ping :: bool

definition capi_route :: string where
  "capi_route = ''/vscode-copilot-capi''"

definition codex_route :: string where
  "codex_route = ''/codex''"

definition proxy_routes :: "proxy_route list" where
  "proxy_routes =
     [\<lparr>pr_prefix = codex_route, pr_client_id = ''codex'', pr_credential = Passthrough,
       pr_upstream = UpstreamProxyUrl, pr_pairing_in_path = False, pr_tunnels_upgrades = False,
       pr_credential_less_ping = False\<rparr>,
      \<lparr>pr_prefix = ''/vscode-copilot-passthrough'', pr_client_id = ''vscode-copilot'', pr_credential = Passthrough,
       pr_upstream = UpstreamProxyUrl, pr_pairing_in_path = False, pr_tunnels_upgrades = False,
       pr_credential_less_ping = False\<rparr>,
      \<lparr>pr_prefix = capi_route, pr_client_id = ''vscode-copilot'', pr_credential = Passthrough,
       pr_upstream = UpstreamProxyUrl, pr_pairing_in_path = True, pr_tunnels_upgrades = True,
       pr_credential_less_ping = True\<rparr>,
      \<lparr>pr_prefix = ''/vscode-copilot'', pr_client_id = ''vscode-copilot'', pr_credential = GatewayOnly,
       pr_upstream = UpstreamUrl, pr_pairing_in_path = False, pr_tunnels_upgrades = False,
       pr_credential_less_ping = False\<rparr>,
      \<lparr>pr_prefix = ''/copilot-cli'', pr_client_id = ''copilot-cli'', pr_credential = GatewayOnly,
       pr_upstream = UpstreamUrl, pr_pairing_in_path = False, pr_tunnels_upgrades = False,
       pr_credential_less_ping = False\<rparr>]"

definition route_rest :: "string \<Rightarrow> proxy_route \<Rightarrow> (proxy_route \<times> string) option" where
  "route_rest p route =
     (case strip_prefix (pr_prefix route) p of
        None \<Rightarrow> None
      | Some rest \<Rightarrow>
          if rest = [] \<or> prefix ''/'' rest then Some (route, if rest = [] then ''/'' else rest) else None)"

definition match_route :: "string \<Rightarrow> (proxy_route \<times> string) option" where
  "match_route p = find_map (route_rest p) proxy_routes"

definition upstream_base :: "llm_gateway_config \<Rightarrow> upstream \<Rightarrow> url" where
  "upstream_base gateway u =
     (case u of
        UpstreamUrl \<Rightarrow> gw_url gateway
      | UpstreamProxyUrl \<Rightarrow> (case gw_proxy_url gateway of None \<Rightarrow> gw_url gateway | Some v \<Rightarrow> v))"

section \<open>Checks on a request\<close>

definition split_path_pairing :: "string \<Rightarrow> (string \<times> string) option" where
  "split_path_pairing rest =
     (case strip_prefix ''/'' rest of
        None \<Rightarrow> None
      | Some without_slash \<Rightarrow>
          (let (segment, remainder) =
                 (if CHR ''/'' \<in> set without_slash
                  then (takeWhile (\<lambda>c. c \<noteq> CHR ''/'') without_slash, dropWhile (\<lambda>c. c \<noteq> CHR ''/'') without_slash)
                  else (without_slash, ''/''))
           in if segment = [] then None else Some (segment, remainder)))"

definition host_name :: "string \<Rightarrow> string option" where
  "host_name host =
     (case strip_prefix ''['' host of
        Some rest \<Rightarrow>
          (case split_once (CHR '']'') rest of
             Some (name, port) \<Rightarrow> if port = [] \<or> prefix '':'' port then Some name else None
           | None \<Rightarrow> None)
      | None \<Rightarrow>
          if length (filter (\<lambda>c. c = CHR '':'') host) > 1 then Some host
          else (case rsplit_once (CHR '':'') host of None \<Rightarrow> Some host | Some (name, _) \<Rightarrow> Some name))"

definition name_is_loopback :: "string \<Rightarrow> bool" where
  "name_is_loopback name =
     (case parse_ip name of
        Some ip \<Rightarrow> ip_is_loopback ip
      | None \<Rightarrow> eq_ignore_ascii_case (trim_end_char (CHR ''.'') name) ''localhost'')"

definition host_is_loopback :: "http_lib \<Rightarrow> headers \<Rightarrow> bool" where
  "host_is_loopback lib hs =
     (case Option.bind (header_get hs ''host'') (hl_to_str lib) of
        None \<Rightarrow> False
      | Some host \<Rightarrow> (case host_name (trim host) of None \<Rightarrow> False | Some name \<Rightarrow> name_is_loopback name))"

definition is_hex_digit :: "char \<Rightarrow> bool" where
  "is_hex_digit c \<longleftrightarrow> to_digit 16 c \<noteq> None"

fun percent_decode :: "string \<Rightarrow> bytes option" where
  "percent_decode [] = Some []"
| "percent_decode (c # s) =
     (if c = CHR ''%''
      then (case s of
              a # b # rest \<Rightarrow>
                if is_hex_digit a \<and> is_hex_digit b
                then map_option (\<lambda>out. char_of (the (to_digit 16 a) * 16 + the (to_digit 16 b)) # out) (percent_decode rest)
                else None
            | _ \<Rightarrow> None)
      else map_option (\<lambda>out. c # out) (percent_decode s))"

text \<open>Splitting at either kind of slash.\<close>

fun path_segments :: "bytes \<Rightarrow> bytes list" where
  "path_segments [] = [[]]"
| "path_segments (c # s) =
     (if c = CHR ''/'' \<or> c = CHR 0x5C then [] # path_segments s
      else case path_segments s of [] \<Rightarrow> [[c]] | w # ws \<Rightarrow> (c # w) # ws)"

definition path_escapes_base :: "string \<Rightarrow> bool" where
  "path_escapes_base p =
     (case percent_decode p of None \<Rightarrow> True | Some decoded \<Rightarrow> list_ex (\<lambda>segment. segment = ''..'') (path_segments decoded))"

definition resembles_route :: "string \<Rightarrow> bool" where
  "resembles_route p =
     (let first = map to_ascii_lower (hd (split_on (CHR ''/'') (trim_start_char (CHR ''/'') p)))
      in first \<noteq> [] \<and> list_ex (\<lambda>route. let name = tl (pr_prefix route)
           in first = name \<or> prefix name first \<or> prefix first name \<and> length first \<ge> 8) proxy_routes)"

definition byte_word :: "char \<Rightarrow> 8 word" where
  "byte_word c = word_of_nat (of_char c)"

definition constant_time_eq :: "bytes \<Rightarrow> bytes \<Rightarrow> bool" where
  "constant_time_eq a b =
     (if length a \<noteq> length b then False
      else foldl (\<lambda>acc (x, y). acc OR (byte_word x XOR byte_word y)) 0 (zip a b) = 0)"

definition strip_bearer :: "string \<Rightarrow> string" where
  "strip_bearer value =
     (case split_once (CHR '' '') value of
        Some (scheme, token) \<Rightarrow> if eq_ignore_ascii_case scheme ''bearer'' then token else value
      | None \<Rightarrow> value)"

definition bearer_or_header :: "http_lib \<Rightarrow> headers \<Rightarrow> string \<Rightarrow> string option" where
  "bearer_or_header lib hs header =
     (let value = (case header_get hs header of Some v \<Rightarrow> Some v | None \<Rightarrow> header_get hs ''authorization'')
      in case map_option (\<lambda>v. trim (strip_bearer v)) (Option.bind value (hl_to_str lib)) of
        Some token \<Rightarrow> if token = [] then None else Some token
      | None \<Rightarrow> None)"

section \<open>What the checks decide\<close>

lemma xor_zero_iff: "(x :: 8 word) XOR y = 0 \<longleftrightarrow> x = y"
  by (auto simp: bit_eq_iff bit_simps)

lemma or_fold_zero:
  "foldl (\<lambda>acc (x, y). acc OR (f x XOR f y)) (w :: 8 word) ps = 0 \<longleftrightarrow> w = 0 \<and> (\<forall>(x, y) \<in> set ps. f x = f y)"
  by (induction ps arbitrary: w) (auto simp: or_eq_0_iff xor_zero_iff)

lemma byte_word_inject: "byte_word x = byte_word y \<longleftrightarrow> x = y"
  unfolding byte_word_def by (simp only: word_of_nat_eq_iff) (simp add: take_bit_eq_mod)

text \<open>The constant-time comparison of the pairing value decides exactly equality.\<close>

lemma constant_time_eq_is_equality: "constant_time_eq a b \<longleftrightarrow> a = b"
proof (cases "length a = length b")
  case True
  then have "(\<forall>(x, y) \<in> set (zip a b). x = y) \<longleftrightarrow> a = b"
    by (induction a b rule: list_induct2) auto
  with True show ?thesis by (simp add: constant_time_eq_def or_fold_zero byte_word_inject)
qed (auto simp: constant_time_eq_def)

lemma route_rest_Some:
  "route_rest p route = Some (route', rest) \<longleftrightarrow>
   route' = route \<and> (p = pr_prefix route \<and> rest = ''/'' \<or> p = pr_prefix route @ rest \<and> prefix ''/'' rest)"
  by (auto simp: route_rest_def strip_prefix_def prefix_def split: if_splits)

lemma proxy_routes_names:
  "route \<in> set proxy_routes \<Longrightarrow> \<exists>name. pr_prefix route = CHR ''/'' # name \<and> CHR ''/'' \<notin> set name"
  by (auto simp: proxy_routes_def capi_route_def codex_route_def)

lemma proxy_routes_distinct: "distinct (map pr_prefix proxy_routes)"
  by (simp add: proxy_routes_def capi_route_def codex_route_def)

lemma takeWhile_until: "c \<notin> set xs \<Longrightarrow> takeWhile (\<lambda>x. x \<noteq> c) (xs @ c # ys) = xs"
  by (induction xs) auto

lemma route_name:
  assumes "route \<in> set proxy_routes"
    and "p = pr_prefix route \<and> rest = ''/'' \<or> p = pr_prefix route @ rest \<and> prefix ''/'' rest"
  shows "CHR ''/'' # takeWhile (\<lambda>c. c \<noteq> CHR ''/'') (tl p) = pr_prefix route"
proof -
  obtain name where name: "pr_prefix route = CHR ''/'' # name" "CHR ''/'' \<notin> set name"
    using proxy_routes_names [OF assms(1)] by blast
  then have "takeWhile (\<lambda>c. c \<noteq> CHR ''/'') (name @ t) = name" if "t = [] \<or> prefix ''/'' t" for t
    using that by (auto simp: prefix_def takeWhile_until)
  with assms(2) name show ?thesis by (auto simp: append_Nil2)
qed

lemma match_route_Some:
  "match_route p = Some (route, rest) \<Longrightarrow>
   route \<in> set proxy_routes \<and> (p = pr_prefix route \<and> rest = ''/'' \<or> p = pr_prefix route @ rest \<and> prefix ''/'' rest)"
  unfolding match_route_def by (auto dest!: find_map_Some simp: route_rest_Some)

text \<open>
  A request path selects the route whose prefix it has up to a slash or the end, and no other:
  the order of the routes does not matter, so a longer name such as
  \<^verbatim>\<open>/vscode-copilot-passthrough\<close> is never taken for \<^verbatim>\<open>/vscode-copilot\<close>, and the client identity follows
  from the file the daemon wrote.
\<close>

lemma match_route_unique:
  "match_route p = Some (route, rest) \<longleftrightarrow>
   route \<in> set proxy_routes \<and> (p = pr_prefix route \<and> rest = ''/'' \<or> p = pr_prefix route @ rest \<and> prefix ''/'' rest)"
proof
  assume "match_route p = Some (route, rest)"
  then show "route \<in> set proxy_routes \<and> (p = pr_prefix route \<and> rest = ''/'' \<or> p = pr_prefix route @ rest \<and> prefix ''/'' rest)"
    by (rule match_route_Some)
next
  assume r: "route \<in> set proxy_routes \<and> (p = pr_prefix route \<and> rest = ''/'' \<or> p = pr_prefix route @ rest \<and> prefix ''/'' rest)"
  then have "route_rest p route = Some (route, rest)" by (simp add: route_rest_Some)
  with r obtain found where found: "match_route p = Some found"
    by (cases "match_route p") (auto simp: match_route_def find_map_None)
  obtain route' rest' where eq: "found = (route', rest')" by force
  with found have r': "route' \<in> set proxy_routes"
    "p = pr_prefix route' \<and> rest' = ''/'' \<or> p = pr_prefix route' @ rest' \<and> prefix ''/'' rest'"
    by (auto dest!: match_route_Some)
  then have same: "pr_prefix route' = pr_prefix route" using route_name [OF r'] route_name [of route p rest] r by simp
  then have "route' = route"
    using r r'(1) proxy_routes_distinct by (metis distinct_map inj_onD)
  with same r r'(2) have "rest' = rest" by (auto simp: prefix_def)
  with found eq \<open>route' = route\<close> show "match_route p = Some (route, rest)" by simp
qed

lemma split_path_pairing_Some:
  assumes "split_path_pairing rest = Some (segment, remainder)"
  shows "segment \<noteq> [] \<and> CHR ''/'' \<notin> set segment \<and> prefix ''/'' remainder
    \<and> (rest = CHR ''/'' # segment \<and> remainder = ''/'' \<or> rest = CHR ''/'' # segment @ remainder)"
proof -
  obtain w where w: "rest = CHR ''/'' # w" and seg: "segment \<noteq> []"
    and cases: "(if CHR ''/'' \<in> set w then (takeWhile (\<lambda>c. c \<noteq> CHR ''/'') w, dropWhile (\<lambda>c. c \<noteq> CHR ''/'') w) else (w, ''/''))
      = (segment, remainder)"
    using assms by (auto simp: split_path_pairing_def Let_def split: option.splits if_splits)
  show ?thesis
  proof (cases "CHR ''/'' \<in> set w")
    case True
    then obtain a b where "w = a @ CHR ''/'' # b" "CHR ''/'' \<notin> set a" by (metis split_list_first)
    then have "takeWhile (\<lambda>c. c \<noteq> CHR ''/'') w = a" "dropWhile (\<lambda>c. c \<noteq> CHR ''/'') w = CHR ''/'' # b"
      by (induction a arbitrary: w) auto
    with True cases seg w show ?thesis by (auto simp: \<open>w = a @ CHR ''/'' # b\<close> \<open>CHR ''/'' \<notin> set a\<close>)
  next
    case False
    with cases seg w show ?thesis by auto
  qed
qed

lemma percent_decode_slash:
  "percent_decode (a @ CHR ''/'' # b) = Some d \<Longrightarrow>
   \<exists>d1 d2. percent_decode a = Some d1 \<and> percent_decode b = Some d2 \<and> d = d1 @ CHR ''/'' # d2"
proof (induction a arbitrary: d rule: percent_decode.induct)
  case (2 c s)
  show ?case
  proof (cases "c = CHR ''%''")
    case True
    have slash: "\<not> is_hex_digit (CHR ''/'')" by (simp add: is_hex_digit_def to_digit_def)
    with 2(3) True obtain x y rest where s: "s = x # y # rest" "is_hex_digit x" "is_hex_digit y"
      by (cases s; cases "tl s") (auto split: list.splits if_splits)
    with 2(3) True obtain z where z: "percent_decode (rest @ CHR ''/'' # b) = Some z"
      and d: "d = char_of (the (to_digit 16 x) * 16 + the (to_digit 16 y)) # z"
      by (auto split: if_splits)
    from 2(1) [OF True s(1) refl _ z] s True d show ?thesis by auto
  next
    case False
    with 2(2,3) show ?thesis by fastforce
  qed
qed auto

lemma path_segments_nonempty: "path_segments s \<noteq> []"
  by (induction s) (auto split: list.splits)

lemma path_segments_slash: "path_segments (a @ CHR ''/'' # b) = path_segments a @ path_segments b"
  by (induction a) (auto split: list.splits simp: path_segments_nonempty)

text \<open>The part of a path from a slash on escapes its base only if the whole path does.\<close>

lemma path_escapes_suffix:
  assumes "path_escapes_base (CHR ''/'' # b)"
  shows "path_escapes_base (a @ CHR ''/'' # b)"
proof (cases "percent_decode (a @ CHR ''/'' # b)")
  case (Some d)
  then obtain d1 d2 where "percent_decode b = Some d2" and d: "d = d1 @ CHR ''/'' # d2"
    using percent_decode_slash by blast
  with assms Some show ?thesis
    by (auto simp: path_escapes_base_def path_segments_slash)
qed (simp add: path_escapes_base_def)

end
