(* ===== verification/Cred_Cache.thy ===== *)
theory Cred_Cache
  imports Config
begin

text \<open>
  The cache of controller-issued gateway credentials (\<^verbatim>\<open>llm_proxy/cache.rs\<close>): its entries with their
  deadlines on both clocks, and the fetches, of which one at a time runs for each key. Instants are
  nanoseconds of the monotonic clock; wall-clock times are seconds. Both are unbounded here: an expiry,
  a \<^verbatim>\<open>u64\<close> in the source, so far in the future that adding it to an \<^verbatim>\<open>Instant\<close> panics is outside the
  model.
\<close>

section \<open>Entries\<close>

record clocks =
  ck_mono :: nat
  ck_unix :: nat

record gateway_credential =
  gc_credential :: string
  gc_expires_at :: nat

record cached_credential =
  ca_credential :: string
  ca_device_id :: string
  ca_valid_until :: nat
  ca_valid_until_unix :: nat
  ca_expires :: nat
  ca_expires_unix :: nat

record deadline =
  dl_monotonic :: nat
  dl_unix :: nat

type_synonym cache_entries = "string \<Rightarrow> cached_credential option"

definition credential_expiry_margin :: duration where
  "credential_expiry_margin = from_secs 30"

definition credential_cache_ttl :: duration where
  "credential_cache_ttl = from_secs 60"

definition as_secs :: "duration \<Rightarrow> nat" where
  "as_secs d = d div 1000000000"

definition deadline_from_unix :: "clocks \<Rightarrow> nat \<Rightarrow> deadline" where
  "deadline_from_unix now expires_unix =
     \<lparr>dl_monotonic = ck_mono now + from_secs (expires_unix - ck_unix now), dl_unix = expires_unix\<rparr>"

definition cache_lookup :: "clocks \<Rightarrow> string \<Rightarrow> string \<Rightarrow> cache_entries \<Rightarrow> (string \<times> deadline) option" where
  "cache_lookup now key device_id entries =
     (case entries key of
        None \<Rightarrow> None
      | Some entry \<Rightarrow>
          if ca_device_id entry = device_id \<and> ck_mono now < ca_valid_until entry \<and> ck_unix now < ca_valid_until_unix entry
          then Some (ca_credential entry, \<lparr>dl_monotonic = ca_expires entry, dl_unix = ca_expires_unix entry\<rparr>)
          else None)"

text \<open>
  \<open>now\<close> is the wall clock at the start; the monotonic clock is read twice, when the entry is made.
\<close>

definition cache_insert ::
  "nat \<Rightarrow> nat \<Rightarrow> nat \<Rightarrow> string \<Rightarrow> string \<Rightarrow> gateway_credential \<Rightarrow> cache_entries \<Rightarrow> cache_entries" where
  "cache_insert now mono1 mono2 key device_id fetched entries =
     (let remaining = from_secs (gc_expires_at fetched - now);
          lifetime = min (remaining - credential_expiry_margin) credential_cache_ttl
      in if lifetime > 0
         then entries(key \<mapsto>
                \<lparr>ca_credential = gc_credential fetched, ca_device_id = device_id,
                 ca_valid_until = mono1 + lifetime, ca_valid_until_unix = now + as_secs lifetime,
                 ca_expires = mono2 + remaining, ca_expires_unix = gc_expires_at fetched\<rparr>)
         else entries(key := None))"

definition invalidate_if :: "string \<Rightarrow> string \<Rightarrow> cache_entries \<Rightarrow> cache_entries" where
  "invalidate_if key credential entries =
     (case entries key of
        Some entry \<Rightarrow> if ca_credential entry = credential then entries(key := None) else entries
      | None \<Rightarrow> entries)"

text \<open>
  One call under the flight lock of its key. The times are those at which it reads the clocks: for the
  look-up, for the insertion, and for the deadline it returns.
\<close>

record cache_times =
  ct_lookup :: clocks
  ct_insert :: nat
  ct_mono1 :: nat
  ct_mono2 :: nat
  ct_deadline :: clocks

definition get_or_fetch ::
  "cache_times \<Rightarrow> string \<Rightarrow> string \<Rightarrow> 'e + gateway_credential \<Rightarrow> cache_entries
     \<Rightarrow> cache_entries \<times> ('e + string \<times> deadline \<times> bool)" where
  "get_or_fetch ct key device_id fetch entries =
     (case cache_lookup (ct_lookup ct) key device_id entries of
        Some (credential, deadline) \<Rightarrow> (entries, Inr (credential, deadline, True))
      | None \<Rightarrow>
          (case fetch of
             Inl e \<Rightarrow> (entries, Inl e)
           | Inr fetched \<Rightarrow>
               (cache_insert (ct_insert ct) (ct_mono1 ct) (ct_mono2 ct) key device_id fetched entries,
                Inr (gc_credential fetched, deadline_from_unix (ct_deadline ct) (gc_expires_at fetched), False))))"

definition get_credential ::
  "cache_times \<Rightarrow> string \<Rightarrow> string \<Rightarrow> 'e + gateway_credential \<Rightarrow> cache_entries
     \<Rightarrow> cache_entries \<times> ('e + gateway_credential)" where
  "get_credential ct key device_id fetch entries =
     (case get_or_fetch ct key device_id fetch entries of
        (entries', Inl e) \<Rightarrow> (entries', Inl e)
      | (entries', Inr (credential, expiry, _)) \<Rightarrow>
          (entries', Inr \<lparr>gc_credential = credential, gc_expires_at = dl_unix expiry\<rparr>))"

section \<open>Histories\<close>

text \<open>
  What can happen to the entries, newest first: a fetched credential is stored, or a credential is
  rejected by the gateway and dropped.
\<close>

datatype cache_event =
    Stored nat nat nat string string gateway_credential
  | Rejected string string

fun cache_run :: "cache_event list \<Rightarrow> cache_entries" where
  "cache_run [] = (\<lambda>_. None)"
| "cache_run (Stored now mono1 mono2 key device_id fetched # es) =
     cache_insert now mono1 mono2 key device_id fetched (cache_run es)"
| "cache_run (Rejected key credential # es) = invalidate_if key credential (cache_run es)"

text \<open>
  The credential may be served: it was the last one stored for the key, was issued to this device,
  has not been rejected since, and is within its margins on both clocks.
\<close>

definition untouched_since :: "string \<Rightarrow> string \<Rightarrow> cache_event list \<Rightarrow> bool" where
  "untouched_since key credential newer \<longleftrightarrow>
     (\<forall>e \<in> set newer. case e of
        Stored _ _ _ k _ _ \<Rightarrow> k \<noteq> key
      | Rejected k c \<Rightarrow> \<not> (k = key \<and> c = credential))"

definition servable :: "clocks \<Rightarrow> string \<Rightarrow> string \<Rightarrow> cache_event list \<Rightarrow> string \<Rightarrow> deadline \<Rightarrow> bool" where
  "servable now key device_id history credential expiry \<longleftrightarrow>
     (\<exists>newer older stored_at mono1 mono2 fetched.
        history = newer @ Stored stored_at mono1 mono2 key device_id fetched # older
        \<and> credential = gc_credential fetched \<and> untouched_since key credential newer
        \<and> stored_at + 30 < gc_expires_at fetched
        \<and> ck_mono now < mono1 + from_secs 60
        \<and> ck_mono now + from_secs 30 < mono1 + from_secs (gc_expires_at fetched - stored_at)
        \<and> ck_unix now < stored_at + 60 \<and> ck_unix now + 30 < gc_expires_at fetched
        \<and> expiry = \<lparr>dl_monotonic = mono2 + from_secs (gc_expires_at fetched - stored_at),
                    dl_unix = gc_expires_at fetched\<rparr>)"

definition stored_entry :: "nat \<Rightarrow> nat \<Rightarrow> nat \<Rightarrow> string \<Rightarrow> gateway_credential \<Rightarrow> cached_credential" where
  "stored_entry stored_at mono1 mono2 device_id fetched =
     (let seconds = min (gc_expires_at fetched - stored_at - 30) 60
      in \<lparr>ca_credential = gc_credential fetched, ca_device_id = device_id,
          ca_valid_until = mono1 + from_secs seconds, ca_valid_until_unix = stored_at + seconds,
          ca_expires = mono2 + from_secs (gc_expires_at fetched - stored_at),
          ca_expires_unix = gc_expires_at fetched\<rparr>)"

definition in_window :: "clocks \<Rightarrow> cached_credential \<Rightarrow> bool" where
  "in_window now entry \<longleftrightarrow> ck_mono now < ca_valid_until entry \<and> ck_unix now < ca_valid_until_unix entry"

lemma stored_entry_sel [simp]:
  "ca_credential (stored_entry stored_at mono1 mono2 device_id fetched) = gc_credential fetched"
  "ca_device_id (stored_entry stored_at mono1 mono2 device_id fetched) = device_id"
  "ca_expires (stored_entry stored_at mono1 mono2 device_id fetched) =
     mono2 + from_secs (gc_expires_at fetched - stored_at)"
  "ca_expires_unix (stored_entry stored_at mono1 mono2 device_id fetched) = gc_expires_at fetched"
  by (simp_all add: stored_entry_def Let_def)

lemma in_window_stored:
  assumes "stored_at + 30 < gc_expires_at fetched"
  shows "in_window now (stored_entry stored_at mono1 mono2 device_id fetched) \<longleftrightarrow>
      ck_mono now < mono1 + from_secs 60
      \<and> ck_mono now + from_secs 30 < mono1 + from_secs (gc_expires_at fetched - stored_at)
      \<and> ck_unix now < stored_at + 60 \<and> ck_unix now + 30 < gc_expires_at fetched"
proof -
  define m where "m = gc_expires_at fetched - stored_at"
  have "30 < m" "gc_expires_at fetched = stored_at + m" using assms by (simp_all add: m_def)
  then show ?thesis
    by (cases "m - 30 \<le> 60") (auto simp: in_window_def stored_entry_def Let_def min_def from_secs_def)
qed

lemma cache_insert_stored:
  "cache_insert stored_at mono1 mono2 key device_id fetched entries =
     entries(key := if stored_at + 30 < gc_expires_at fetched
                    then Some (stored_entry stored_at mono1 mono2 device_id fetched) else None)"
proof -
  have secs: "min (from_secs m - from_secs 30) (from_secs 60) = from_secs (min (m - 30) 60)" for m
    by (cases "m - 30 \<le> 60") (simp_all add: from_secs_def min_def diff_mult_distrib)
  show ?thesis
    by (simp add: cache_insert_def credential_expiry_margin_def credential_cache_ttl_def secs Let_def
        stored_entry_def as_secs_def) (auto simp: from_secs_def)
qed

lemma untouched_since_Nil [simp]: "untouched_since key credential []"
  by (simp add: untouched_since_def)

lemma untouched_since_Cons [simp]:
  "untouched_since key credential (Stored n m1 m2 k d f # es) \<longleftrightarrow> k \<noteq> key \<and> untouched_since key credential es"
  "untouched_since key credential (Rejected k c # es) \<longleftrightarrow>
     \<not> (k = key \<and> c = credential) \<and> untouched_since key credential es"
  by (auto simp: untouched_since_def)

definition last_touching :: "string \<Rightarrow> string \<Rightarrow> cache_event \<Rightarrow> cache_event list \<Rightarrow> bool" where
  "last_touching key credential e history \<longleftrightarrow>
     (\<exists>newer older. history = newer @ e # older \<and> untouched_since key credential newer)"

lemma last_touching_Nil [simp]: "\<not> last_touching key credential e []"
  by (simp add: last_touching_def)

lemma last_touching_Cons:
  "last_touching key credential e (e' # history) \<longleftrightarrow>
     e' = e \<or> untouched_since key credential [e'] \<and> last_touching key credential e history"
proof
  assume "last_touching key credential e (e' # history)"
  then obtain newer older where split: "e' # history = newer @ e # older" "untouched_since key credential newer"
    unfolding last_touching_def by blast
  then show "e' = e \<or> untouched_since key credential [e'] \<and> last_touching key credential e history"
    by (cases newer) (auto simp: untouched_since_def last_touching_def)
next
  assume "e' = e \<or> untouched_since key credential [e'] \<and> last_touching key credential e history"
  then show "last_touching key credential e (e' # history)"
  proof
    assume "e' = e"
    then show ?thesis unfolding last_touching_def by (intro exI [of _ "[]"] exI [of _ history]) simp
  next
    assume r: "untouched_since key credential [e'] \<and> last_touching key credential e history"
    then obtain newer older where "history = newer @ e # older" "untouched_since key credential newer"
      unfolding last_touching_def by blast
    with r show ?thesis unfolding last_touching_def
      by (intro exI [of _ "e' # newer"] exI [of _ older]) (simp add: untouched_since_def)
  qed
qed

text \<open>An entry is the one of the last event that touched its key.\<close>

lemma cache_run_Some:
  "cache_run history key = Some entry \<longleftrightarrow>
     (\<exists>stored_at mono1 mono2 device_id fetched.
        last_touching key (gc_credential fetched) (Stored stored_at mono1 mono2 key device_id fetched) history
        \<and> stored_at + 30 < gc_expires_at fetched
        \<and> entry = stored_entry stored_at mono1 mono2 device_id fetched)"
  (is "_ \<longleftrightarrow> ?last history")
proof (induction history)
  case Nil
  show ?case by simp
next
  case (Cons e history)
  show ?case
  proof (cases e)
    case (Stored n m1 m2 k d f)
    show ?thesis
    proof (cases "k = key")
      case True
      then show ?thesis using Stored by (auto simp: cache_insert_stored last_touching_Cons)
    next
      case False
      then show ?thesis using Stored Cons.IH by (simp add: cache_insert_stored last_touching_Cons)
    qed
  next
    case (Rejected k c)
    have "?last (e # history) \<longleftrightarrow> ?last history \<and> \<not> (k = key \<and> c = ca_credential entry)"
      unfolding Rejected by (simp add: last_touching_Cons) (metis stored_entry_sel(1))
    moreover have "cache_run (e # history) key = Some entry \<longleftrightarrow>
        cache_run history key = Some entry \<and> \<not> (k = key \<and> c = ca_credential entry)"
      using Rejected by (auto simp: invalidate_if_def split: option.splits if_splits)
    ultimately show ?thesis unfolding Cons.IH by blast
  qed
qed

text \<open>
  C23. Over any history of the cache, a look-up serves a credential exactly when it is the last one
  stored for the key, it was issued to the enrolled device that asks, the gateway has not rejected
  it since, it was stored less than 60 seconds ago and is more than 30 seconds from its expiry, on
  the monotonic clock and on the wall clock; with it comes the expiry of that very credential.
\<close>

theorem lookup_serves_exactly_servable:
  "cache_lookup now key device_id (cache_run history) = Some (credential, expiry)
     \<longleftrightarrow> servable now key device_id history credential expiry"
proof -
  have "cache_lookup now key device_id (cache_run history) = Some (credential, expiry) \<longleftrightarrow>
     (\<exists>entry. cache_run history key = Some entry \<and> ca_device_id entry = device_id
        \<and> (ck_mono now < ca_valid_until entry \<and> ck_unix now < ca_valid_until_unix entry)
        \<and> credential = ca_credential entry
        \<and> expiry = \<lparr>dl_monotonic = ca_expires entry, dl_unix = ca_expires_unix entry\<rparr>)"
    by (auto simp: cache_lookup_def split: option.splits)
  also have "\<dots> \<longleftrightarrow> servable now key device_id history credential expiry" (is "?served \<longleftrightarrow> ?spec")
  proof
    assume ?served
    then obtain newer older stored_at mono1 mono2 fetched where
      "history = newer @ Stored stored_at mono1 mono2 key device_id fetched # older"
      "untouched_since key credential newer" "credential = gc_credential fetched"
      and late: "stored_at + 30 < gc_expires_at fetched"
      and "in_window now (stored_entry stored_at mono1 mono2 device_id fetched)"
      "expiry = \<lparr>dl_monotonic = mono2 + from_secs (gc_expires_at fetched - stored_at), dl_unix = gc_expires_at fetched\<rparr>"
      unfolding cache_run_Some last_touching_def by (auto simp: in_window_def)
    then show ?spec unfolding servable_def in_window_stored [OF late] by blast
  next
    assume ?spec
    then obtain newer older stored_at mono1 mono2 fetched where entry:
      "history = newer @ Stored stored_at mono1 mono2 key device_id fetched # older"
      "untouched_since key (gc_credential fetched) newer" "credential = gc_credential fetched"
      "stored_at + 30 < gc_expires_at fetched"
      "in_window now (stored_entry stored_at mono1 mono2 device_id fetched)"
      "expiry = \<lparr>dl_monotonic = mono2 + from_secs (gc_expires_at fetched - stored_at), dl_unix = gc_expires_at fetched\<rparr>"
      unfolding servable_def by (auto simp: in_window_stored)
    have "cache_run history key = Some (stored_entry stored_at mono1 mono2 device_id fetched)"
      unfolding cache_run_Some last_touching_def using entry by blast
    then show ?served using entry(3,5,6) by (simp add: in_window_def)
  qed
  finally show ?thesis .
qed

section \<open>Fetches\<close>

text \<open>
  A call of \<open>get_or_fetch\<close> is a task: it waits for the flight lock of its key, then either returns
  the cached credential or fetches one under the lock. A look-up, an insertion and an invalidation
  are steps of their own, since they hold the lock of the entries; a call can be dropped while it
  waits or fetches, which releases its lock.
\<close>

datatype flight_phase =
    Waiting string string
  | Fetching string string
  | Returned "string + string \<times> deadline \<times> bool"

record flights =
  fl_history :: "cache_event list"
  fl_locked :: "string \<Rightarrow> nat option"
  fl_tasks :: "nat \<Rightarrow> flight_phase option"

inductive flight_step :: "flights \<Rightarrow> flights \<Rightarrow> bool" where
  call: "fl_tasks s task = None \<Longrightarrow>
    flight_step s (s\<lparr>fl_tasks := (fl_tasks s)(task \<mapsto> Waiting key device_id)\<rparr>)"
| hit: "fl_tasks s task = Some (Waiting key device_id) \<Longrightarrow> fl_locked s key = None \<Longrightarrow>
    cache_lookup now key device_id (cache_run (fl_history s)) = Some (credential, expiry) \<Longrightarrow>
    flight_step s (s\<lparr>fl_tasks := (fl_tasks s)(task \<mapsto> Returned (Inr (credential, expiry, True)))\<rparr>)"
| miss: "fl_tasks s task = Some (Waiting key device_id) \<Longrightarrow> fl_locked s key = None \<Longrightarrow>
    cache_lookup now key device_id (cache_run (fl_history s)) = None \<Longrightarrow>
    flight_step s (s\<lparr>fl_locked := (fl_locked s)(key \<mapsto> task),
                     fl_tasks := (fl_tasks s)(task \<mapsto> Fetching key device_id)\<rparr>)"
| fetched: "fl_tasks s task = Some (Fetching key device_id) \<Longrightarrow>
    flight_step s (s\<lparr>fl_history := Stored n m1 m2 key device_id f # fl_history s,
                     fl_locked := (fl_locked s)(key := None),
                     fl_tasks := (fl_tasks s)(task \<mapsto>
                       Returned (Inr (gc_credential f, deadline_from_unix now (gc_expires_at f), False)))\<rparr>)"
| failed: "fl_tasks s task = Some (Fetching key device_id) \<Longrightarrow>
    flight_step s (s\<lparr>fl_locked := (fl_locked s)(key := None),
                     fl_tasks := (fl_tasks s)(task \<mapsto> Returned (Inl error))\<rparr>)"
| dropped_waiting: "fl_tasks s task = Some (Waiting key device_id) \<Longrightarrow>
    flight_step s (s\<lparr>fl_tasks := (fl_tasks s)(task := None)\<rparr>)"
| dropped_fetching: "fl_tasks s task = Some (Fetching key device_id) \<Longrightarrow>
    flight_step s (s\<lparr>fl_locked := (fl_locked s)(key := None), fl_tasks := (fl_tasks s)(task := None)\<rparr>)"
| rejected: "flight_step s (s\<lparr>fl_history := Rejected key credential # fl_history s\<rparr>)"

inductive_cases flight_stepE: "flight_step s t"

definition no_flights :: flights where
  "no_flights = \<lparr>fl_history = [], fl_locked = \<lambda>_. None, fl_tasks = \<lambda>_. None\<rparr>"

text \<open>The lock of a key is held by exactly the task that fetches for it.\<close>

definition flights_ok :: "flights \<Rightarrow> bool" where
  "flights_ok s \<longleftrightarrow>
     (\<forall>key task. fl_locked s key = Some task \<longleftrightarrow> (\<exists>device_id. fl_tasks s task = Some (Fetching key device_id)))"

lemma flights_okD:
  "flights_ok s \<Longrightarrow> fl_tasks s task = Some (Fetching key device_id) \<Longrightarrow> fl_locked s key = Some task"
  by (auto simp: flights_ok_def)

lemma flights_ok_release:
  assumes ok: "flights_ok s" and task: "fl_tasks s task = Some (Fetching key device_id)"
    and idle: "\<And>k d. p \<noteq> Some (Fetching k d)"
  shows "flights_ok (s\<lparr>fl_history := h, fl_locked := (fl_locked s)(key := None), fl_tasks := (fl_tasks s)(task := p)\<rparr>)"
proof -
  have holder: "fl_locked s key = Some task" using ok task by (rule flights_okD)
  have iff: "fl_locked s k = Some t \<longleftrightarrow> (\<exists>d. fl_tasks s t = Some (Fetching k d))" for k t
    using ok by (simp add: flights_ok_def)
  have one: "(fl_locked s k = Some task) = (k = key)" for k
    using task holder by (cases "k = key") (simp_all add: iff)
  have "((fl_locked s)(key := None)) k = Some t \<longleftrightarrow> (\<exists>d. ((fl_tasks s)(task := p)) t = Some (Fetching k d))" for k t
    using one [of k] holder idle iff [of k t] by (cases "t = task"; cases "k = key") auto
  then show ?thesis by (simp add: flights_ok_def)
qed

lemma flights_ok_acquire:
  assumes ok: "flights_ok s" and task: "fl_tasks s task = Some (Waiting key device_id)" and free: "fl_locked s key = None"
  shows "flights_ok (s\<lparr>fl_locked := (fl_locked s)(key \<mapsto> task),
                       fl_tasks := (fl_tasks s)(task \<mapsto> Fetching key device_id)\<rparr>)"
proof -
  have iff: "fl_locked s k = Some t \<longleftrightarrow> (\<exists>d. fl_tasks s t = Some (Fetching k d))" for k t
    using ok by (simp add: flights_ok_def)
  have "((fl_locked s)(key \<mapsto> task)) k = Some t \<longleftrightarrow>
      (\<exists>d. ((fl_tasks s)(task \<mapsto> Fetching key device_id)) t = Some (Fetching k d))" for k t
    using task free iff [of k t] by (cases "t = task"; cases "k = key") auto
  then show ?thesis by (simp add: flights_ok_def)
qed

lemma flight_step_ok: "flight_step s t \<Longrightarrow> flights_ok s \<Longrightarrow> flights_ok t"
proof (induction rule: flight_step.induct)
  case (miss s task key device_id now)
  then show ?case by (simp add: flights_ok_acquire)
next
  case (fetched s task key device_id n m1 m2 f now)
  then show ?case by (simp add: flights_ok_release)
next
  case (failed s task key device_id error)
  then show ?case using flights_ok_release [of s task key device_id "Some (Returned (Inl error))" "fl_history s"] by simp
next
  case (dropped_fetching s task key device_id)
  then show ?case using flights_ok_release [of s task key device_id None "fl_history s"] by simp
qed (auto simp: flights_ok_def)

lemma flights_reachable_ok: "flight_step\<^sup>*\<^sup>* no_flights s \<Longrightarrow> flights_ok s"
proof (induction rule: rtranclp_induct)
  case base
  show ?case by (simp add: flights_ok_def no_flights_def)
next
  case (step s t)
  then show ?case by (blast intro: flight_step_ok)
qed

text \<open>
  C24. However calls interleave, fail and are dropped, at most one fetch runs for a key at a time.
\<close>

theorem fetches_are_single_flight:
  assumes "flight_step\<^sup>*\<^sup>* no_flights s"
    and "fl_tasks s task = Some (Fetching key device_id)"
    and "fl_tasks s task' = Some (Fetching key device_id')"
  shows "task = task' \<and> device_id = device_id'"
  using flights_okD [OF flights_reachable_ok [OF assms(1)] assms(2)]
    flights_okD [OF flights_reachable_ok [OF assms(1)] assms(3)] assms(2,3) by simp

theorem fetches_are_single_flight_witness:
  "flight_step\<^sup>*\<^sup>* no_flights
     (no_flights\<lparr>fl_locked := [''k'' \<mapsto> 7], fl_tasks := [7 \<mapsto> Fetching ''k'' ''d'']\<rparr>)
   \<and> (7 :: nat) = 7 \<and> ''d'' = ''d''"
proof -
  let ?s = "no_flights\<lparr>fl_tasks := [7 \<mapsto> Waiting ''k'' ''d'']\<rparr>"
  let ?t = "no_flights\<lparr>fl_locked := [''k'' \<mapsto> 7], fl_tasks := [7 \<mapsto> Fetching ''k'' ''d'']\<rparr>"
  have "flight_step no_flights ?s"
    using call [of no_flights 7 "''k''" "''d''"] by (simp add: no_flights_def)
  moreover have "flight_step ?s ?t"
    using miss [of ?s 7 "''k''" "''d''" undefined] by (simp add: no_flights_def cache_lookup_def)
  ultimately have "flight_step\<^sup>*\<^sup>* no_flights ?t" by (meson converse_rtranclp_into_rtranclp rtranclp.rtrancl_refl)
  then show ?thesis using fetches_are_single_flight [of ?t 7 "''k''" "''d''" 7 "''d''"] by simp
qed

lemma lock_can_be_freed:
  assumes "flights_ok s" and "fl_tasks s task = Some (Waiting key device_id)"
  shows "\<exists>t. flight_step\<^sup>*\<^sup>* s t \<and> fl_locked t key = None \<and> fl_tasks t task = Some (Waiting key device_id)"
proof (cases "fl_locked s key")
  case None
  then show ?thesis using assms(2) by blast
next
  case (Some holder)
  then obtain d where fetching: "fl_tasks s holder = Some (Fetching key d)" using assms(1) by (auto simp: flights_ok_def)
  then have "holder \<noteq> task" using assms(2) by auto
  moreover have "flight_step\<^sup>*\<^sup>* s (s\<lparr>fl_locked := (fl_locked s)(key := None),
                     fl_tasks := (fl_tasks s)(holder \<mapsto> Returned (Inl []))\<rparr>)"
    using failed [OF fetching] by (rule r_into_rtranclp)
  ultimately show ?thesis using assms(2) by fastforce
qed

text \<open>
  C25. No call waits for ever behind another: from every reachable state a waiting call can be
  brought to a credential by steps of the calls, if the controller answers; and unless it comes from
  the cache it is the credential the controller answered with.
\<close>

theorem waiting_call_can_return:
  assumes "flight_step\<^sup>*\<^sup>* no_flights s" and "fl_tasks s task = Some (Waiting key device_id)"
  shows "\<exists>t credential expiry cached. flight_step\<^sup>*\<^sup>* s t
           \<and> fl_tasks t task = Some (Returned (Inr (credential, expiry, cached)))
           \<and> (\<not> cached \<longrightarrow> credential = gc_credential answer \<and> dl_unix expiry = gc_expires_at (answer :: gateway_credential))"
proof -
  obtain t where t: "flight_step\<^sup>*\<^sup>* s t" "fl_locked t key = None" "fl_tasks t task = Some (Waiting key device_id)"
    using lock_can_be_freed [OF flights_reachable_ok [OF assms(1)] assms(2)] by blast
  show ?thesis
  proof (cases "cache_lookup now key device_id (cache_run (fl_history t))")
    case None
    let ?u = "t\<lparr>fl_locked := (fl_locked t)(key \<mapsto> task), fl_tasks := (fl_tasks t)(task \<mapsto> Fetching key device_id)\<rparr>"
    let ?r = "Returned (Inr (gc_credential answer, deadline_from_unix now (gc_expires_at answer), False))"
    let ?v = "?u\<lparr>fl_history := Stored n m1 m2 key device_id answer # fl_history ?u,
                fl_locked := (fl_locked ?u)(key := None), fl_tasks := (fl_tasks ?u)(task \<mapsto> ?r)\<rparr>"
    have "flight_step t ?u" using t(3,2) None by (rule miss)
    moreover have "flight_step ?u ?v" by (rule fetched [of _ _ _ device_id]) simp
    ultimately have "flight_step\<^sup>*\<^sup>* s ?v" using t(1) by (meson rtranclp.rtrancl_into_rtrancl)
    moreover have "fl_tasks ?v task = Some ?r" by simp
    ultimately show ?thesis by (intro exI conjI) (assumption+, auto simp: deadline_from_unix_def)
  next
    case (Some served)
    obtain credential expiry where "served = (credential, expiry)" by fastforce
    then have "flight_step t (t\<lparr>fl_tasks := (fl_tasks t)(task \<mapsto> Returned (Inr (credential, expiry, True)))\<rparr>)"
      using t(3,2) Some by (auto intro: hit)
    then have "flight_step\<^sup>*\<^sup>* s (t\<lparr>fl_tasks := (fl_tasks t)(task \<mapsto> Returned (Inr (credential, expiry, True)))\<rparr>)"
      using t(1) by (meson rtranclp.rtrancl_into_rtrancl)
    then show ?thesis by fastforce
  qed
qed

theorem waiting_call_can_return_witness:
  "\<exists>t credential expiry cached. flight_step\<^sup>*\<^sup>* (no_flights\<lparr>fl_tasks := [7 \<mapsto> Waiting ''k'' ''d'']\<rparr>) t
     \<and> fl_tasks t 7 = Some (Returned (Inr (credential, expiry, cached)))
     \<and> (\<not> cached \<longrightarrow> credential = ''token'' \<and> dl_unix expiry = 100)"
proof -
  let ?s = "no_flights\<lparr>fl_tasks := [7 \<mapsto> Waiting ''k'' ''d'']\<rparr>"
  have "flight_step no_flights ?s"
    using call [of no_flights 7 "''k''" "''d''"] by (simp add: no_flights_def)
  then have "flight_step\<^sup>*\<^sup>* no_flights ?s" by (rule r_into_rtranclp)
  then show ?thesis
    using waiting_call_can_return [of ?s 7 "''k''" "''d''" "\<lparr>gc_credential = ''token'', gc_expires_at = 100\<rparr>"] by simp
qed

end
