(* ===== verification/Proxy.thy ===== *)
theory Proxy
  imports Routes Cred_Cache Config_Check
begin

text \<open>
  The local LLM proxy (\<^verbatim>\<open>llm_proxy.rs\<close>): its pairing value, and the whole handler of a request, from
  the checks on host, origin, pairing and path to the attempts at the gateway with the daemon's own
  credential. What other requests do to the credential cache meanwhile, what the credential fetch
  returns and what the gateway answers are given by an environment, anew for every attempt.
\<close>

section \<open>The pairing value\<close>

definition pairing_file :: string where
  "pairing_file = ''llm-proxy-pairing''"

text \<open>\<open>generated\<close> is the text of 32 random bytes.\<close>

definition load_or_create_pairing ::
  "string \<Rightarrow> 'a os_scheme \<Rightarrow> path \<Rightarrow> 'a os_scheme \<times> (anyhow + string)" where
  "load_or_create_pairing generated s state_dir =
     (let p = path_join state_dir [Normal pairing_file];
          create = (case ensure_private_dir s state_dir of
                      (s1, Inl e) \<Rightarrow> (s1, Inl e)
                    | (s1, Inr _) \<Rightarrow>
                        (case atomic_write s1 p generated 0x180 of
                           (s2, Inl e) \<Rightarrow> (s2, Inl ((''write '' @ path_display p) # e))
                         | (s2, Inr _) \<Rightarrow> (s2, Inr generated)))
      in case read_to_string s p of
           Inr contents \<Rightarrow> if length (trim contents) \<ge> 32 then (s, Inr (trim contents)) else create
         | Inl e \<Rightarrow>
             if kind e \<noteq> NotFound \<and> kind e \<noteq> InvalidData
             then (s, Inl [''read '' @ path_display p, io_message e]) else create)"

section \<open>Requests, answers and errors\<close>

datatype http_method = Get | Connect | Options | OtherMethod string

record proxy_request =
  rq_method :: http_method
  rq_path_and_query :: "string option"
  rq_headers :: headers
  rq_body :: bytes
  rq_body_error :: "string option"

record upstream_request =
  ur_method :: http_method
  ur_uri :: string
  ur_headers :: headers
  ur_body :: bytes

record proxy_response =
  rs_status :: nat
  rs_headers :: headers
  rs_body :: bytes

record proxy_error =
  pe_status :: nat
  pe_code :: string
  pe_message :: string

definition proxy_error_new :: "nat \<Rightarrow> string \<Rightarrow> string \<Rightarrow> proxy_error" where
  "proxy_error_new status code message = \<lparr>pe_status = status, pe_code = code, pe_message = message\<rparr>"

definition pairing_invalid :: proxy_error where
  "pairing_invalid = proxy_error_new 403 ''pairing_invalid''
     ''agentdesktop proxy: pairing value missing or wrong; re-apply the managed configuration''"

definition credential_error :: "nat \<times> string \<Rightarrow> proxy_error" where
  "credential_error e = proxy_error_new (fst e) ''agentdesktop_credential''
     (''agentdesktop: no gateway credential for this device: '' @ snd e)"

record proxy_config =
  pxc_default_client_id :: string
  pxc_pairing :: string

section \<open>Checks before any configuration is read\<close>

definition header_lists :: "http_lib \<Rightarrow> headers \<Rightarrow> string \<Rightarrow> string list" where
  "header_lists lib hs name =
     concat (map (\<lambda>v. case hl_to_str lib v of Some value \<Rightarrow> map trim (split_on (CHR '','') value) | None \<Rightarrow> [])
       (header_get_all hs name))"

definition is_websocket_upgrade :: "http_lib \<Rightarrow> headers \<Rightarrow> bool" where
  "is_websocket_upgrade lib hs \<longleftrightarrow>
     list_ex (\<lambda>item. eq_ignore_ascii_case item ''upgrade'') (header_lists lib hs ''connection'')
     \<and> list_ex (\<lambda>item. eq_ignore_ascii_case item ''websocket'') (header_lists lib hs ''upgrade'')"

record checked =
  cr_path :: string
  cr_query :: "string option"
  cr_matched :: "(proxy_route \<times> string) option"
  cr_capi_rest :: "string option"
  cr_websocket :: bool

definition split_query :: "string \<Rightarrow> string \<times> string option" where
  "split_query path_and_query =
     (case split_once (CHR ''?'') path_and_query of
        Some (p, query) \<Rightarrow> (p, Some query)
      | None \<Rightarrow> (path_and_query, None))"

definition check_pairing ::
  "http_lib \<Rightarrow> proxy_config \<Rightarrow> headers \<Rightarrow> (proxy_route \<times> string) option \<Rightarrow> proxy_error + string option" where
  "check_pairing lib config hs matched =
     (let from_header =
            (case Option.bind (header_get hs pairing_header) (hl_to_str lib) of
               Some offered \<Rightarrow> if constant_time_eq offered (pxc_pairing config) then Inr None else Inl pairing_invalid
             | None \<Rightarrow> Inl pairing_invalid)
      in case matched of
           Some (route, rest) \<Rightarrow>
             if pr_pairing_in_path route
             then (case split_path_pairing rest of
                     None \<Rightarrow> Inl pairing_invalid
                   | Some (segment, remainder) \<Rightarrow>
                       if constant_time_eq segment (pxc_pairing config) then Inr (Some remainder) else Inl pairing_invalid)
             else from_header
         | None \<Rightarrow> from_header)"

definition check_request :: "http_lib \<Rightarrow> proxy_config \<Rightarrow> proxy_request \<Rightarrow> proxy_error + checked" where
  "check_request lib config request =
     (if \<not> host_is_loopback lib (rq_headers request)
      then Inl (proxy_error_new 403 ''host_not_allowed'' ''agentdesktop proxy: Host must be a loopback address'')
      else if header_get (rq_headers request) ''origin'' \<noteq> None \<or> rq_method request = Connect
      then Inl (proxy_error_new 403 ''browser_not_allowed''
                  ''agentdesktop proxy: browser requests and CONNECT are not supported'')
      else if rq_method request = Options
      then Inl (proxy_error_new 405 ''method_not_allowed'' ''agentdesktop proxy: OPTIONS is not supported'')
      else
        (let (p, query) = split_query (case rq_path_and_query request of None \<Rightarrow> ''/'' | Some pq \<Rightarrow> pq);
             matched = match_route p
         in case check_pairing lib config (rq_headers request) matched of
              Inl e \<Rightarrow> Inl e
            | Inr capi_rest \<Rightarrow>
                (let websocket = is_websocket_upgrade lib (rq_headers request)
                 in if websocket \<and> \<not> (case matched of Some (route, _) \<Rightarrow> pr_tunnels_upgrades route | None \<Rightarrow> False)
                    then Inl (proxy_error_new 400 ''upgrade_not_supported''
                      ''agentdesktop proxy: WebSocket upgrades are supported on the /vscode-copilot-capi route only'')
                    else if path_escapes_base p
                    then Inl (proxy_error_new 400 ''path_invalid''
                      (''agentdesktop proxy: path must not contain '' @ [CHR 0x27] @ ''..'' @ [CHR 0x27] @ '' segments''))
                    else if matched = None \<and> resembles_route p
                    then Inl (proxy_error_new 404 ''route_unknown''
                      ''agentdesktop proxy: unknown route; the managed prefixes are /copilot-cli, /vscode-copilot, /vscode-copilot-passthrough and /vscode-copilot-capi'')
                    else Inr \<lparr>cr_path = p, cr_query = query, cr_matched = matched, cr_capi_rest = capi_rest,
                              cr_websocket = websocket\<rparr>)))"

section \<open>What goes to the gateway\<close>

definition unavailable :: "nat \<Rightarrow> string \<Rightarrow> proxy_error" where
  "unavailable status message = proxy_error_new status ''agentdesktop_unavailable'' message"

definition unreachable :: "string \<Rightarrow> proxy_error" where
  "unreachable message = proxy_error_new 502 ''gateway_unreachable'' message"

text \<open>The client id, the credential mode, the pinned upstream and the rest of the path.\<close>

definition choose_upstream ::
  "proxy_config \<Rightarrow> llm_gateway_config \<Rightarrow> checked \<Rightarrow> proxy_error + string \<times> route_credential option \<times> url \<times> string" where
  "choose_upstream config gateway c =
     (case cr_matched c of
        Some (route, rest) \<Rightarrow>
          if pr_upstream route = UpstreamProxyUrl \<and> gw_proxy_url gateway = None
          then Inl (unavailable 503 ''agentdesktop proxy: this route needs llmGateway.proxyUrl, which is not configured'')
          else Inr (pr_client_id route, Some (pr_credential route), upstream_base gateway (pr_upstream route),
                    case cr_capi_rest c of Some r \<Rightarrow> r | None \<Rightarrow> rest)
      | None \<Rightarrow> Inr (pxc_default_client_id config, None, upstream_base gateway UpstreamProxyUrl, cr_path c))"

definition upstream_uri :: "http_lib \<Rightarrow> url \<Rightarrow> string \<Rightarrow> string option \<Rightarrow> string" where
  "upstream_uri lib base rest query =
     trim_end_char (CHR ''/'') (hl_url_str lib base) @ rest
       @ (case query of Some q \<Rightarrow> CHR ''?'' # q | None \<Rightarrow> [])"

definition client_credential :: "http_lib \<Rightarrow> proxy_config \<Rightarrow> headers \<Rightarrow> string option" where
  "client_credential lib config hs =
     (case bearer_or_header lib hs ''x-llm-token'' of
        Some value \<Rightarrow> if constant_time_eq value (pxc_pairing config) then None else Some value
      | None \<Rightarrow> None)"

definition credential_less_ping :: "checked \<Rightarrow> http_method \<Rightarrow> string option \<Rightarrow> bool" where
  "credential_less_ping c m credential \<longleftrightarrow>
     (case cr_matched c of Some (route, _) \<Rightarrow> pr_credential_less_ping route | None \<Rightarrow> False)
     \<and> cr_capi_rest c = Some ''/_ping'' \<and> m = Get \<and> credential = None"

definition max_request_body :: nat where
  "max_request_body = 32 * 1024 * 1024"

definition read_body :: "proxy_request \<Rightarrow> proxy_error + bytes" where
  "read_body request =
     (if length (rq_body request) > max_request_body
      then Inl (proxy_error_new 413 ''body_too_large''
                 (''agentdesktop proxy: request body exceeds '' @ decimal max_request_body @ '' bytes''))
      else case rq_body_error request of
             Some e \<Rightarrow> Inl (proxy_error_new 400 ''body_invalid''
                               (''agentdesktop proxy: could not read the request body: '' @ e))
           | None \<Rightarrow> Inr (rq_body request))"

definition hop_headers :: "string list" where
  "hop_headers = [''connection'', ''keep-alive'', ''proxy-authenticate'', ''proxy-authorization'', ''te'', ''trailer'',
     ''transfer-encoding'', ''upgrade'']"

definition strip_hop_headers :: "http_lib \<Rightarrow> headers \<Rightarrow> headers" where
  "strip_hop_headers lib hs =
     fold header_remove hop_headers (fold header_remove (header_lists lib hs ''connection'') hs)"

definition secret_headers :: "string list" where
  "secret_headers = [''authorization'', ''x-api-key'', ''api-key'', ''x-llm-token'', pairing_header]"

definition outbound_headers :: "http_lib \<Rightarrow> bool \<Rightarrow> headers \<Rightarrow> headers" where
  "outbound_headers lib websocket hs =
     (let stripped = strip_hop_headers lib hs;
          upgraded = (if websocket
                      then header_insert ''upgrade'' ''websocket'' (header_insert ''connection'' ''Upgrade'' stripped)
                      else stripped)
      in fold header_remove secret_headers upgraded)"

text \<open>\<open>github\<close> is the credential of the daemon's GitHub device flow for a client id.\<close>

definition upstream_token ::
  "(string \<Rightarrow> anyhow + string) \<Rightarrow> llm_gateway_config \<Rightarrow> route_credential option \<Rightarrow> bool \<Rightarrow> string option
     \<Rightarrow> proxy_error + string option" where
  "upstream_token github gateway mode ping credential =
     (case mode of
        Some GatewayOnly \<Rightarrow> Inr None
      | Some Passthrough \<Rightarrow>
          if ping then Inr None
          else (case credential of
                  Some token \<Rightarrow> Inr (Some token)
                | None \<Rightarrow> Inl (proxy_error_new 401 ''client_credential_missing''
                    ''agentdesktop proxy: no client credential to pass through; send it in Authorization or x-llm-token''))
      | None \<Rightarrow>
          (case gw_github_oauth gateway of
             None \<Rightarrow> Inr None
           | Some gh \<Rightarrow>
               (case gh_source gh of
                  DeviceFlow \<Rightarrow>
                    (case gh_client_id gh of
                       None \<Rightarrow> Inl (unavailable 500 ''githubOAuth.clientId is required for deviceFlow'')
                     | Some client_id \<Rightarrow>
                         (case github client_id of
                            Inl e \<Rightarrow> Inl (unreachable (''GitHub OAuth: '' @ chain_message e))
                          | Inr token \<Rightarrow> Inr (Some token)))
                | Request \<Rightarrow>
                    (case credential of
                       Some token \<Rightarrow> Inr (Some token)
                     | None \<Rightarrow> Inl (proxy_error_new 401 ''client_credential_missing''
                         ''no client credential to forward; send it in Authorization or x-llm-token'')))))"

text \<open>The token and the gateway's host, as they go into the headers.\<close>

definition with_token :: "http_lib \<Rightarrow> string option \<Rightarrow> headers \<Rightarrow> proxy_error + headers" where
  "with_token lib token hs =
     (case token of
        None \<Rightarrow> Inr hs
      | Some t \<Rightarrow>
          (case hl_from_str lib t of
             None \<Rightarrow> Inl (unreachable ''invalid client credential header'')
           | Some value \<Rightarrow> Inr (header_insert ''x-llm-token'' value hs)))"

definition with_host :: "http_lib \<Rightarrow> string option \<Rightarrow> headers \<Rightarrow> proxy_error + headers" where
  "with_host lib authority hs =
     (case hl_from_str lib (case authority of Some a \<Rightarrow> a | None \<Rightarrow> []) of
        None \<Rightarrow> Inl (unreachable ''invalid gateway host'')
      | Some value \<Rightarrow> Inr (header_insert ''host'' value hs))"

definition gateway_cache_key ::
  "http_lib \<Rightarrow> llm_gateway_config \<Rightarrow> string \<Rightarrow> bool \<Rightarrow> anyhow + string option \<Rightarrow> (string \<times> string) option" where
  "gateway_cache_key lib gateway client_id subscription device =
     (case gw_authentication gateway of
        Some (ControllerJwt audience _) \<Rightarrow>
          (case device of
             Inr (Some device_id) \<Rightarrow>
               Some (client_id @ CHR 0x00 # hl_url_str lib (gw_url gateway) @ CHR 0x00 # audience
                       @ (if subscription then CHR 0x00 # ''subscription'' else []), device_id)
           | _ \<Rightarrow> None)
      | _ \<Rightarrow> None)"

section \<open>Attempts at the gateway\<close>

datatype gateway_answer = NoAnswer | Unreachable string | Answered proxy_response

text \<open>
  What one attempt meets: what other requests do to the cache before the look-up, while this one
  waits for the fetch, and while the gateway answers; the clocks; the credential fetch, which runs
  on its own task; and the gateway.
\<close>

record attempt_env =
  ae_before :: "cache_entries \<Rightarrow> cache_entries"
  ae_lookup :: clocks
  ae_waiting :: "cache_entries \<Rightarrow> cache_entries"
  ae_times :: cache_times
  ae_timed_out :: bool
  ae_join_error :: "string option"
  ae_fetch :: "nat \<times> string + gateway_credential"
  ae_answering :: "cache_entries \<Rightarrow> cache_entries"
  ae_answer :: "upstream_request \<Rightarrow> gateway_answer"

record prepared =
  pp_head :: upstream_request
  pp_authenticated :: bool
  pp_controller_issued :: bool
  pp_cache_key :: "(string \<times> string) option"
  pp_client_token_sent :: bool
  pp_websocket :: bool

text \<open>The credential of the attempt, its expiry, and whether it came from the cache.\<close>

definition fetch_task ::
  "attempt_env \<Rightarrow> prepared \<Rightarrow> cache_entries \<Rightarrow> cache_entries \<times> (nat \<times> string + string \<times> deadline \<times> bool)" where
  "fetch_task env pp cache =
     (case pp_cache_key pp of
        Some (key, device_id) \<Rightarrow> get_or_fetch (ae_times env) key device_id (ae_fetch env) cache
      | None \<Rightarrow>
          (cache, case ae_fetch env of
                    Inl e \<Rightarrow> Inl e
                  | Inr f \<Rightarrow> Inr (gc_credential f, deadline_from_unix (ct_deadline (ae_times env)) (gc_expires_at f), False)))"

definition obtain_credential ::
  "attempt_env \<Rightarrow> prepared \<Rightarrow> cache_entries \<Rightarrow> cache_entries \<times> (proxy_error + string \<times> deadline \<times> bool)" where
  "obtain_credential env pp cache =
     (case Option.bind (pp_cache_key pp) (\<lambda>(key, device_id). cache_lookup (ae_lookup env) key device_id cache) of
        Some (credential, deadline) \<Rightarrow> (cache, Inr (credential, deadline, True))
      | None \<Rightarrow>
          if pp_controller_issued pp \<and> ae_timed_out env
          then (ae_waiting env cache, Inl (credential_error (504,
                  ''the credential fetch (token refresh or controller call) did not finish in time'')))
          else case ae_join_error env of
                 Some e \<Rightarrow> (ae_waiting env cache, Inl (credential_error (500, ''credential fetch failed: '' @ e)))
               | None \<Rightarrow>
                   (case fetch_task env pp (ae_waiting env cache) of
                      (cache', Inl e) \<Rightarrow> (cache', Inl (credential_error e))
                    | (cache', Inr r) \<Rightarrow> (cache', Inr r)))"

datatype attempt_end =
    Again
  | Finished "proxy_error + proxy_response" "deadline option option"

definition upgrade_response :: "http_lib \<Rightarrow> proxy_response \<Rightarrow> proxy_response" where
  "upgrade_response lib response =
     (let stripped = header_insert ''connection'' ''Upgrade'' (strip_hop_headers lib (rs_headers response))
      in response\<lparr>rs_headers := (case header_get (rs_headers response) ''upgrade'' of
                                   Some value \<Rightarrow> header_insert ''upgrade'' value stripped
                                 | None \<Rightarrow> stripped),
                 rs_body := []\<rparr>)"

definition plain_response :: "http_lib \<Rightarrow> proxy_response \<Rightarrow> proxy_response" where
  "plain_response lib response = response\<lparr>rs_headers := strip_hop_headers lib (rs_headers response)\<rparr>"

text \<open>
  The attempt from the request on: \<open>used\<close> is the credential that was sent, with its expiry and
  whether it came from the cache.
\<close>

definition send_attempt ::
  "http_lib \<Rightarrow> attempt_env \<Rightarrow> prepared \<Rightarrow> bool \<Rightarrow> (string \<times> deadline \<times> bool) option \<Rightarrow> upstream_request
     \<Rightarrow> cache_entries \<Rightarrow> cache_entries \<times> attempt_end" where
  "send_attempt lib env pp retried used request cache =
     (let from_cache = (case used of Some (_, _, cached) \<Rightarrow> cached | None \<Rightarrow> False);
          fetched_now = (case used of Some (_, _, cached) \<Rightarrow> \<not> cached | None \<Rightarrow> False);
          cache1 = ae_answering env cache;
          drop_entry = (\<lambda>entries. case (pp_cache_key pp, used) of
                           (Some (key, _), Some (credential, _, _)) \<Rightarrow> invalidate_if key credential entries
                         | _ \<Rightarrow> entries)
      in case ae_answer env request of
           NoAnswer \<Rightarrow> (cache1, Finished (Inl (proxy_error_new 504 ''gateway_timeout''
                          ''agentdesktop proxy: the gateway did not answer in time'')) None)
         | Unreachable e \<Rightarrow> (cache1, Finished (Inl (unreachable (''agentdesktop proxy: gateway unreachable: '' @ e))) None)
         | Answered response \<Rightarrow>
             if rs_status response = 401 \<and> from_cache \<and> \<not> pp_client_token_sent pp \<and> \<not> retried
             then (drop_entry cache1, Again)
             else
               (let cache2 = (if rs_status response = 401 \<and> fetched_now then drop_entry cache1 else cache1)
                in if pp_websocket pp \<and> rs_status response = 101
                   then (cache2, Finished (Inr (upgrade_response lib response))
                                   (Some (map_option (\<lambda>(_, deadline, _). deadline) used)))
                   else (cache2, Finished (Inr (plain_response lib response)) None)))"

definition attempt ::
  "http_lib \<Rightarrow> attempt_env \<Rightarrow> prepared \<Rightarrow> bool \<Rightarrow> cache_entries \<Rightarrow> cache_entries \<times> upstream_request list \<times> attempt_end" where
  "attempt lib env pp retried cache =
     (if pp_authenticated pp
      then (case obtain_credential env pp (ae_before env cache) of
              (cache1, Inl e) \<Rightarrow> (cache1, [], Finished (Inl e) None)
            | (cache1, Inr (credential, deadline, cached)) \<Rightarrow>
                (case hl_from_str lib (''Bearer '' @ credential) of
                   None \<Rightarrow> (cache1, [], Finished (Inl (unreachable ''invalid gateway credential header'')) None)
                 | Some value \<Rightarrow>
                     (let request = (pp_head pp)\<lparr>ur_headers := header_insert ''authorization'' value (ur_headers (pp_head pp))\<rparr>
                      in case send_attempt lib env pp retried (Some (credential, deadline, cached)) request cache1 of
                           (cache2, r) \<Rightarrow> (cache2, [request], r))))
      else (case send_attempt lib env pp retried None (pp_head pp) (ae_before env cache) of
              (cache2, r) \<Rightarrow> (cache2, [pp_head pp], r)))"

lemma send_attempt_Again:
  "send_attempt lib env pp retried used request cache = (cache', Again) \<Longrightarrow>
   \<not> retried \<and> \<not> pp_client_token_sent pp
   \<and> (\<exists>response credential deadline. ae_answer env request = Answered response \<and> rs_status response = 401
        \<and> used = Some (credential, deadline, True))"
  by (auto simp: send_attempt_def Let_def split: gateway_answer.splits if_splits option.splits prod.splits)

lemma attempt_Again_first: "attempt lib env pp retried cache = (cache', sent, Again) \<Longrightarrow> \<not> retried"
  by (auto simp: attempt_def Let_def split: outcome_splits dest: send_attempt_Again)

function attempts ::
  "http_lib \<Rightarrow> (nat \<Rightarrow> attempt_env) \<Rightarrow> prepared \<Rightarrow> nat \<Rightarrow> bool \<Rightarrow> cache_entries
     \<Rightarrow> cache_entries \<times> upstream_request list \<times> (proxy_error + proxy_response) \<times> deadline option option" where
  "attempts lib env pp n retried cache =
     (case attempt lib (env n) pp retried cache of
        (cache', sent, Finished r tunnel) \<Rightarrow> (cache', sent, r, tunnel)
      | (cache', sent, Again) \<Rightarrow>
          (case attempts lib env pp (Suc n) True cache' of
             (cache'', sent', r) \<Rightarrow> (cache'', sent @ sent', r)))"
  by pat_completeness auto
termination
  by (relation "measure (\<lambda>(_, _, _, _, retried, _). if retried then 0 else 1)")
     (auto dest: attempt_Again_first [OF sym])

declare attempts.simps [simp del]

text \<open>
  The expiry of a tunnel: \<open>check k\<close> are the clocks at the \<open>k\<close>-th check, between which the task sleeps
  until the deadline, at most ten seconds. The result is the check that closed the tunnel.
\<close>

definition tunnel_expired :: "deadline \<Rightarrow> clocks \<Rightarrow> bool" where
  "tunnel_expired deadline now \<longleftrightarrow> ck_mono now \<ge> dl_monotonic deadline \<or> ck_unix now \<ge> dl_unix deadline"

definition tunnel_sleep :: "deadline \<Rightarrow> clocks \<Rightarrow> duration" where
  "tunnel_sleep deadline now = min (dl_monotonic deadline - ck_mono now) (from_secs 10)"

partial_function (option) tunnel_expiry :: "(nat \<Rightarrow> clocks) \<Rightarrow> deadline \<Rightarrow> nat \<Rightarrow> nat option" where
  "tunnel_expiry check deadline k =
     (if tunnel_expired deadline (check k) then Some k else tunnel_expiry check deadline (Suc k))"

section \<open>The handler\<close>

text \<open>
  \<open>device\<close> is the id in the identity file; the request keeps its body for a second attempt.
\<close>

definition prepare ::
  "http_lib \<Rightarrow> (string \<Rightarrow> anyhow + string) \<Rightarrow> proxy_config \<Rightarrow> daemon_config \<Rightarrow> anyhow + string option
     \<Rightarrow> proxy_request \<Rightarrow> checked \<Rightarrow> proxy_error + prepared" where
  "prepare lib github config effective device request c =
     (case dc_llm_gateway effective of
        None \<Rightarrow> Inl (unavailable 503 ''agentdesktop: no LLM gateway configured on this device yet'')
      | Some gateway \<Rightarrow>
     (case choose_upstream config gateway c of
        Inl e \<Rightarrow> Inl e
      | Inr (client_id, mode, base, rest) \<Rightarrow>
     (let uri = upstream_uri lib base rest (cr_query c)
      in case hl_parse_uri lib uri of
        Inl e \<Rightarrow> Inl (unreachable e)
      | Inr authority \<Rightarrow>
     (let credential = client_credential lib config (rq_headers request);
          ping = credential_less_ping c (rq_method request) credential
      in case read_body request of
        Inl e \<Rightarrow> Inl e
      | Inr body \<Rightarrow>
     (case upstream_token github gateway mode ping credential of
        Inl e \<Rightarrow> Inl e
      | Inr token \<Rightarrow>
     (let subscription = (token \<noteq> None \<and> (case cr_matched c of Some (route, _) \<Rightarrow> pr_prefix route = codex_route | None \<Rightarrow> False)
                          \<and> program_subscription_auth (dc_programs effective) client_id = Some ClientPassthrough)
      in case with_token lib token (outbound_headers lib (cr_websocket c) (rq_headers request)) of
        Inl e \<Rightarrow> Inl e
      | Inr hs \<Rightarrow>
     (case with_host lib authority hs of
        Inl e \<Rightarrow> Inl e
      | Inr hs' \<Rightarrow>
          Inr \<lparr>pp_head = \<lparr>ur_method = rq_method request, ur_uri = uri, ur_headers = hs', ur_body = body\<rparr>,
               pp_authenticated = (gw_authentication gateway \<noteq> None),
               pp_controller_issued = (case gw_authentication gateway of Some (ControllerJwt _ _) \<Rightarrow> True | _ \<Rightarrow> False),
               pp_cache_key = gateway_cache_key lib gateway client_id subscription device,
               pp_client_token_sent = (token \<noteq> None), pp_websocket = cr_websocket c\<rparr>)))))))"

definition forward ::
  "http_lib \<Rightarrow> (string \<Rightarrow> anyhow + string) \<Rightarrow> proxy_config \<Rightarrow> anyhow + daemon_config \<Rightarrow> anyhow + string option
     \<Rightarrow> (nat \<Rightarrow> attempt_env) \<Rightarrow> proxy_request \<Rightarrow> cache_entries
     \<Rightarrow> cache_entries \<times> upstream_request list \<times> (proxy_error + proxy_response) \<times> deadline option option" where
  "forward lib github config effective device env request cache =
     (case check_request lib config request of
        Inl e \<Rightarrow> (cache, [], Inl e, None)
      | Inr c \<Rightarrow>
          (case effective of
             Inl _ \<Rightarrow> (cache, [], Inl (unavailable 500
               ''agentdesktop: could not read the applied configuration; see the daemon log''), None)
           | Inr eff \<Rightarrow>
               (case prepare lib github config eff device request c of
                  Inl e \<Rightarrow> (cache, [], Inl e, None)
                | Inr pp \<Rightarrow> attempts lib env pp 0 False cache)))"

end
