(* ===== verification/Proxy_Facts.thy ===== *)
theory Proxy_Facts
  imports Proxy
begin

text \<open>
  What the local proxy lets through: who may use it, what reaches the gateway and where, with which
  identity, and how often; and that the pairing value survives restarts.
\<close>

section \<open>What may reach the gateway\<close>

lemma prepare_Inr:
  assumes "prepare lib github config effective device request c = Inr pp"
  obtains gateway client_id mode base rest token hs host where
    "dc_llm_gateway effective = Some gateway"
    "choose_upstream config gateway c = Inr (client_id, mode, base, rest)"
    "upstream_token github gateway mode
       (credential_less_ping c (rq_method request) (client_credential lib config (rq_headers request)))
       (client_credential lib config (rq_headers request)) = Inr token"
    "with_token lib token (outbound_headers lib (cr_websocket c) (rq_headers request)) = Inr hs"
    "ur_method (pp_head pp) = rq_method request" "ur_uri (pp_head pp) = upstream_uri lib base rest (cr_query c)"
    "ur_headers (pp_head pp) = header_insert ''host'' host hs"
    "ur_body (pp_head pp) = rq_body request" "length (rq_body request) \<le> max_request_body"
    "pp_authenticated pp \<longleftrightarrow> gw_authentication gateway \<noteq> None"
    "pp_client_token_sent pp \<longleftrightarrow> token \<noteq> None"
    "pp_websocket pp \<longleftrightarrow> cr_websocket c"
  using assms unfolding prepare_def read_body_def with_host_def
  by (auto simp: Let_def split: outcome_splits)

text \<open>The requests sent by the attempts: the prepared one, with the daemon's identity if there is one.\<close>

definition identified :: "http_lib \<Rightarrow> prepared \<Rightarrow> string \<Rightarrow> upstream_request \<Rightarrow> bool" where
  "identified lib pp credential request \<longleftrightarrow>
     (\<exists>value. hl_from_str lib (''Bearer '' @ credential) = Some value
        \<and> request = (pp_head pp)\<lparr>ur_headers := header_insert ''authorization'' value (ur_headers (pp_head pp))\<rparr>)"

lemma attempt_sends:
  assumes "attempt lib env pp retried cache = (cache', sent, r)" and "request \<in> set sent"
  shows "sent = [request] \<and>
    (if pp_authenticated pp
     then \<exists>cache1 credential deadline cached.
            obtain_credential env pp (ae_before env cache) = (cache1, Inr (credential, deadline, cached))
            \<and> identified lib pp credential request
            \<and> send_attempt lib env pp retried (Some (credential, deadline, cached)) request cache1 = (cache', r)
     else request = pp_head pp \<and> send_attempt lib env pp retried None request (ae_before env cache) = (cache', r))"
  using assms unfolding attempt_def identified_def
  by (fastforce simp: Let_def simp del: append.simps split: outcome_splits)

lemma attempt_sends_one: "attempt lib env pp retried cache = (cache', sent, r) \<Longrightarrow> length sent \<le> 1"
  unfolding attempt_def by (auto simp: Let_def split: outcome_splits)

text \<open>The loop makes one attempt, or two when the first asks for it.\<close>

lemma attempts_cases:
  assumes "attempts lib env pp n False cache = (cache', sent, r, tunnel)"
  obtains (once) "attempt lib (env n) pp False cache = (cache', sent, Finished r tunnel)"
  | (twice) cache1 sent1 sent2 where
      "attempt lib (env n) pp False cache = (cache1, sent1, Again)"
      "attempt lib (env (Suc n)) pp True cache1 = (cache', sent2, Finished r tunnel)" "sent = sent1 @ sent2"
proof -
  have later: "attempt lib (env (Suc n)) pp True cache1 = (cache2, sent2, Finished r2 tunnel2)"
    if "attempts lib env pp (Suc n) True cache1 = (cache2, sent2, r2, tunnel2)" for cache1 cache2 sent2 r2 tunnel2
    using that by (subst (asm) attempts.simps) (auto split: prod.splits attempt_end.splits dest: attempt_Again_first)
  show thesis
    using assms once twice later
    by (subst (asm) attempts.simps) (auto split: prod.splits attempt_end.splits)
qed

lemma attempt_sent:
  "attempt lib env pp retried cache = (cache', sent, r) \<Longrightarrow> request \<in> set sent \<Longrightarrow>
   if pp_authenticated pp then \<exists>credential. identified lib pp credential request else request = pp_head pp"
  using attempt_sends [of lib env pp retried cache cache' sent r request] by (auto split: if_splits)

lemma attempts_sent:
  assumes "attempts lib env pp n False cache = (cache', sent, r, tunnel)" and "request \<in> set sent"
  shows "if pp_authenticated pp then \<exists>credential. identified lib pp credential request else request = pp_head pp"
  using assms(1)
proof (cases rule: attempts_cases)
  case once
  then show ?thesis using assms(2) by (rule attempt_sent)
next
  case (twice cache1 sent1 sent2)
  with assms(2) consider "request \<in> set sent1" | "request \<in> set sent2" by auto
  then show ?thesis by cases (rule attempt_sent [OF twice(1)] attempt_sent [OF twice(2)], assumption)+
qed

lemma forward_sent:
  assumes "forward lib github config effective device env request cache = (cache', sent, r, tunnel)"
    and "out \<in> set sent"
  obtains c eff pp where "check_request lib config request = Inr c" "effective = Inr eff"
    "prepare lib github config eff device request c = Inr pp"
    "attempts lib env pp 0 False cache = (cache', sent, r, tunnel)"
    "if pp_authenticated pp then \<exists>credential. identified lib pp credential out else out = pp_head pp"
  using assms attempts_sent unfolding forward_def by (fastforce split: sum.splits)

lemma identified_head:
  "if authenticated then \<exists>credential. identified lib pp credential out else out = pp_head pp \<Longrightarrow>
   ur_uri out = ur_uri (pp_head pp) \<and> ur_method out = ur_method (pp_head pp) \<and> ur_body out = ur_body (pp_head pp)
   \<and> (\<forall>name. name \<noteq> ''authorization'' \<longrightarrow> header_get (ur_headers out) name = header_get (ur_headers (pp_head pp)) name)"
  by (auto simp: identified_def split: if_splits)

subsection \<open>Who may use the proxy\<close>

definition presents_pairing :: "http_lib \<Rightarrow> proxy_config \<Rightarrow> proxy_request \<Rightarrow> bool" where
  "presents_pairing lib config request \<longleftrightarrow>
     Option.bind (header_get (rq_headers request) pairing_header) (hl_to_str lib) = Some (pxc_pairing config)
     \<or> (\<exists>rest. fst (split_query (case rq_path_and_query request of None \<Rightarrow> ''/'' | Some pq \<Rightarrow> pq)) =
          capi_route @ ''/'' @ pxc_pairing config @ rest \<and> (rest = [] \<or> prefix ''/'' rest))"

lemma pairing_in_path_route: "route \<in> set proxy_routes \<Longrightarrow> pr_pairing_in_path route \<Longrightarrow> pr_prefix route = capi_route"
  by (auto simp: proxy_routes_def)

lemma check_pairing_Inr:
  assumes "check_pairing lib config hs (match_route p) = Inr capi_rest"
  shows "capi_rest = None \<and> Option.bind (header_get hs pairing_header) (hl_to_str lib) = Some (pxc_pairing config)
    \<or> (\<exists>route remainder. match_route p = Some (route, ''/'' @ pxc_pairing config @ remainder)
         \<and> pr_prefix route = capi_route \<and> p = capi_route @ ''/'' @ pxc_pairing config @ remainder
         \<and> (remainder = [] \<and> capi_rest = Some ''/'' \<or> prefix ''/'' remainder \<and> capi_rest = Some remainder))"
proof (cases "match_route p")
  case (Some m)
  obtain route rest where m: "m = (route, rest)" by force
  show ?thesis
  proof (cases "pr_pairing_in_path route")
    case True
    from assms Some m True obtain segment remainder where split: "split_path_pairing rest = Some (segment, remainder)"
      and seg: "segment = pxc_pairing config" and capi: "capi_rest = Some remainder"
      by (auto simp: check_pairing_def Let_def constant_time_eq_is_equality split: option.splits if_splits)
    have route: "route \<in> set proxy_routes" "p = pr_prefix route \<and> rest = ''/'' \<or> p = pr_prefix route @ rest \<and> prefix ''/'' rest"
      using match_route_Some [of p route rest] Some m by auto
    have prefix: "pr_prefix route = capi_route" using route(1) True by (rule pairing_in_path_route)
    show ?thesis
      using split_path_pairing_Some [OF split] route(2) Some m seg capi prefix by (auto simp: prefix_def)
  next
    case False
    with assms Some m show ?thesis
      by (auto simp: check_pairing_def Let_def constant_time_eq_is_equality split: option.splits if_splits)
  qed
next
  case None
  with assms show ?thesis
    by (auto simp: check_pairing_def Let_def constant_time_eq_is_equality split: option.splits if_splits)
qed

lemma check_request_Inr:
  assumes "check_request lib config request = Inr c"
  shows "host_is_loopback lib (rq_headers request)" "header_get (rq_headers request) ''origin'' = None"
    "rq_method request \<noteq> Connect" "rq_method request \<noteq> Options"
    "split_query (case rq_path_and_query request of None \<Rightarrow> ''/'' | Some pq \<Rightarrow> pq) = (cr_path c, cr_query c)"
    "cr_matched c = match_route (cr_path c)"
    "check_pairing lib config (rq_headers request) (match_route (cr_path c)) = Inr (cr_capi_rest c)"
    "\<not> path_escapes_base (cr_path c)" "cr_websocket c = is_websocket_upgrade lib (rq_headers request)"
    "cr_matched c = None \<Longrightarrow> \<not> resembles_route (cr_path c)"
    "cr_websocket c \<Longrightarrow> \<exists>route rest. cr_matched c = Some (route, rest) \<and> pr_tunnels_upgrades route"
  using assms unfolding check_request_def
  by (auto simp: Let_def split: outcome_splits)

text \<open>
  C26. A request reaches the gateway only if it was addressed to a loopback host, was not sent by a
  browser script, is no CONNECT and no OPTIONS, and presents the pairing value: in its own header, or,
  on the route of the client that cannot set one, as the first segment of the path. This is decided
  without reading any configuration, whatever the configuration, the cache and the gateway are.
\<close>

theorem forward_requires_pairing:
  assumes "forward lib github config effective device env request cache = (cache', sent, r, tunnel)"
    and "sent \<noteq> []"
  shows "host_is_loopback lib (rq_headers request) \<and> header_get (rq_headers request) ''origin'' = None
    \<and> rq_method request \<noteq> Connect \<and> rq_method request \<noteq> Options \<and> presents_pairing lib config request"
proof -
  obtain out where "out \<in> set sent" using assms(2) by (cases sent) auto
  with assms(1) obtain c where c: "check_request lib config request = Inr c" by (rule forward_sent)
  have "presents_pairing lib config request"
    using check_pairing_Inr [OF check_request_Inr(7) [OF c]] check_request_Inr(5) [OF c]
    by (auto simp: presents_pairing_def)
  then show ?thesis using check_request_Inr(1-4) [OF c] by blast
qed

subsection \<open>Where a request may go\<close>

lemma rest_stays_below:
  assumes "\<not> path_escapes_base (a @ rest)" and "prefix ''/'' rest"
  shows "\<not> path_escapes_base rest"
  using assms path_escapes_suffix by (auto simp: prefix_def)

lemma slash_stays: "\<not> path_escapes_base ''/''"
  by (simp add: path_escapes_base_def)

lemma split_query_slash: "prefix ''/'' pq \<Longrightarrow> split_query pq = (p, query) \<Longrightarrow> prefix ''/'' p"
  by (cases p) (auto simp: split_query_def split_once_Some prefix_def split: option.splits)

lemma choose_upstream_below:
  assumes c: "check_request lib config request = Inr c"
    and slash: "case rq_path_and_query request of None \<Rightarrow> True | Some pq \<Rightarrow> prefix ''/'' pq"
    and upstream: "choose_upstream config gateway c = Inr (client_id, mode, base, rest)"
  shows "(base = gw_url gateway \<or> gw_proxy_url gateway = Some base) \<and> prefix ''/'' rest \<and> \<not> path_escapes_base rest"
proof -
  have base: "base = gw_url gateway \<or> gw_proxy_url gateway = Some base"
    using upstream by (auto simp: choose_upstream_def upstream_base_def split: option.splits if_splits upstream.splits)
  have safe: "\<not> path_escapes_base (cr_path c)" by (rule check_request_Inr(8) [OF c])
  have "prefix ''/'' rest \<and> \<not> path_escapes_base rest"
  proof (cases "match_route (cr_path c)")
    case None
    then have "rest = cr_path c" using upstream check_request_Inr(6) [OF c] by (auto simp: choose_upstream_def)
    moreover have "prefix ''/'' (cr_path c)"
      using split_query_slash [OF _ check_request_Inr(5) [OF c]] slash by (simp split: option.splits)
    ultimately show ?thesis using safe by simp
  next
    case (Some m)
    obtain route route_rest where m: "m = (route, route_rest)" by force
    have rest: "rest = (case cr_capi_rest c of Some r \<Rightarrow> r | None \<Rightarrow> route_rest)"
      using upstream Some m check_request_Inr(6) [OF c] by (auto simp: choose_upstream_def split: if_splits)
    from check_pairing_Inr [OF check_request_Inr(7) [OF c]] show ?thesis
    proof (elim disjE conjE exE)
      assume "cr_capi_rest c = None"
      then show ?thesis using rest match_route_Some [of "cr_path c" route route_rest] Some m safe rest_stays_below slash_stays by auto
    next
      fix route' remainder
      assume "cr_path c = capi_route @ ''/'' @ pxc_pairing config @ remainder"
        and r: "prefix ''/'' remainder" "cr_capi_rest c = Some remainder"
      then have "\<not> path_escapes_base ((capi_route @ ''/'' @ pxc_pairing config) @ remainder)" using safe by simp
      then have "\<not> path_escapes_base remainder" using r(1) by (rule rest_stays_below)
      with r rest show ?thesis by simp
    qed (use rest slash_stays in auto)
  qed
  with base show ?thesis by blast
qed

text \<open>
  C27. A forwarded request goes to the configured gateway and nowhere else: its address is one of the
  two configured base addresses followed by a path that starts with a slash and that no decoding
  turns into one with a parent segment, so it cannot leave the base. (The path of a request that
  \<^verbatim>\<open>hyper\<close> accepts for such a method starts with a slash.)
\<close>

theorem forward_stays_below_base:
  assumes "forward lib github config (Inr effective) device env request cache = (cache', sent, r, tunnel)"
    and "out \<in> set sent" and "dc_llm_gateway effective = Some gateway"
    and "case rq_path_and_query request of None \<Rightarrow> True | Some pq \<Rightarrow> prefix ''/'' pq"
  shows "\<exists>base rest query. (base = gw_url gateway \<or> gw_proxy_url gateway = Some base)
    \<and> ur_uri out = trim_end_char (CHR ''/'') (hl_url_str lib base) @ rest @ query
    \<and> prefix ''/'' rest \<and> \<not> path_escapes_base rest \<and> (query = [] \<or> prefix ''?'' query)"
proof -
  obtain c pp where c: "check_request lib config request = Inr c"
    and pp: "prepare lib github config effective device request c = Inr pp"
    and out: "if pp_authenticated pp then \<exists>credential. identified lib pp credential out else out = pp_head pp"
    using forward_sent [OF assms(1,2)] by blast
  from pp obtain client_id mode base rest where
    upstream: "choose_upstream config gateway c = Inr (client_id, mode, base, rest)"
    and uri: "ur_uri (pp_head pp) = upstream_uri lib base rest (cr_query c)"
    using assms(3) by (elim prepare_Inr) auto
  define query where "query = (case cr_query c of Some q \<Rightarrow> CHR ''?'' # q | None \<Rightarrow> [])"
  have "ur_uri out = trim_end_char (CHR ''/'') (hl_url_str lib base) @ rest @ query"
    using identified_head [OF out] uri by (simp add: upstream_uri_def query_def)
  moreover have "query = [] \<or> prefix ''?'' query" by (simp add: query_def split: option.splits)
  ultimately show ?thesis using choose_upstream_below [OF c assms(4) upstream] by blast
qed

subsection \<open>Which credentials go along\<close>

lemma header_get_fold_remove:
  "header_get (fold header_remove names hs) n = (if n \<in> map to_ascii_lower ` set names then None else header_get hs n)"
  by (induction names arbitrary: hs) auto

lemma secret_headers_removed:
  "n \<in> {''authorization'', ''x-api-key'', ''api-key'', ''x-llm-token'', pairing_header} \<Longrightarrow>
   header_get (outbound_headers lib websocket hs) n = None"
proof -
  assume n: "n \<in> {''authorization'', ''x-api-key'', ''api-key'', ''x-llm-token'', pairing_header}"
  have "map to_ascii_lower ` set secret_headers = {''authorization'', ''x-api-key'', ''api-key'', ''x-llm-token'', pairing_header}"
    by (simp add: secret_headers_def pairing_header_def to_ascii_lower_def is_ascii_uppercase_def)
  with n show ?thesis by (simp only: outbound_headers_def Let_def header_get_fold_remove if_True)
qed

text \<open>
  When the client's own token may go along: on a route that passes it through, and outside the managed
  routes where the configuration takes the GitHub token from the request.
\<close>

definition passes_client_token :: "llm_gateway_config \<Rightarrow> string \<Rightarrow> bool" where
  "passes_client_token gateway p \<longleftrightarrow>
     (case match_route p of
        Some (route, _) \<Rightarrow> pr_credential route = Passthrough
      | None \<Rightarrow> (case gw_github_oauth gateway of None \<Rightarrow> False | Some gh \<Rightarrow> gh_source gh = Request))"

definition github_token :: "(string \<Rightarrow> anyhow + string) \<Rightarrow> llm_gateway_config \<Rightarrow> string \<Rightarrow> string \<Rightarrow> bool" where
  "github_token github gateway p token \<longleftrightarrow>
     match_route p = None \<and>
     (\<exists>gh client_id. gw_github_oauth gateway = Some gh \<and> gh_source gh = DeviceFlow \<and> gh_client_id gh = Some client_id
        \<and> github client_id = Inr token)"

lemma upstream_token_source:
  assumes "choose_upstream config gateway c = Inr (client_id, mode, base, rest)" and "cr_matched c = match_route p"
    and "upstream_token github gateway mode ping credential = Inr (Some token)"
  shows "passes_client_token gateway p \<and> credential = Some token \<or> github_token github gateway p token"
  using assms
  by (cases "match_route p")
    (auto simp: choose_upstream_def upstream_token_def passes_client_token_def github_token_def
      split: option.splits route_credential.splits if_splits github_token_source.splits sum.splits)

lemma client_credential_token:
  "client_credential lib config hs = Some token \<Longrightarrow>
   bearer_or_header lib hs ''x-llm-token'' = Some token \<and> token \<noteq> pxc_pairing config"
  by (auto simp: client_credential_def constant_time_eq_is_equality split: option.splits if_splits)

end
