(* ===== verification/Proxy_Identity.thy ===== *)
theory Proxy_Identity
  imports Proxy_Facts
begin

text \<open>
  Which credentials the proxy sends to the gateway and whose identity, how many attempts a request makes, and when the
  tunnel of an upgraded request closes.
\<close>

section \<open>Whose identity is sent\<close>

text \<open>
  \<open>P d c\<close> reads: the credential \<open>c\<close> was issued to the device \<open>d\<close>. Every entry of the cache is tagged
  with the device its credential was issued to.
\<close>

definition cache_holds :: "(string \<Rightarrow> string \<Rightarrow> bool) \<Rightarrow> cache_entries \<Rightarrow> bool" where
  "cache_holds P entries \<longleftrightarrow> (\<forall>key entry. entries key = Some entry \<longrightarrow> P (ca_device_id entry) (ca_credential entry))"

definition others_keep :: "(string \<Rightarrow> string \<Rightarrow> bool) \<Rightarrow> attempt_env \<Rightarrow> bool" where
  "others_keep P env \<longleftrightarrow> (\<forall>entries. cache_holds P entries \<longrightarrow>
     cache_holds P (ae_before env entries) \<and> cache_holds P (ae_waiting env entries) \<and> cache_holds P (ae_answering env entries))"

lemma cache_insert_holds:
  "cache_holds P entries \<Longrightarrow> P device_id (gc_credential f) \<Longrightarrow> cache_holds P (cache_insert n m1 m2 key device_id f entries)"
  by (auto simp: cache_holds_def cache_insert_stored)

lemma invalidate_if_holds: "cache_holds P entries \<Longrightarrow> cache_holds P (invalidate_if key credential entries)"
  by (auto simp: cache_holds_def invalidate_if_def split: option.splits)

lemma cache_lookup_holds:
  "cache_holds P entries \<Longrightarrow> cache_lookup now key device_id entries = Some (credential, expiry) \<Longrightarrow> P device_id credential"
  by (auto simp: cache_holds_def cache_lookup_def split: option.splits if_splits)

lemma get_or_fetch_holds:
  assumes "get_or_fetch ct key device_id fetch entries = (entries', r)" and "cache_holds P entries"
    and "\<And>f. fetch = Inr f \<Longrightarrow> P device_id (gc_credential f)"
  shows "cache_holds P entries' \<and> (\<forall>credential expiry cached. r = Inr (credential, expiry, cached) \<longrightarrow> P device_id credential)"
  using assms by (auto simp: get_or_fetch_def split: option.splits sum.splits intro: cache_insert_holds cache_lookup_holds)

lemma obtain_credential_holds:
  assumes "obtain_credential env pp entries = (entries', r)" and "cache_holds P entries" and "others_keep P env"
    and "\<And>f. ae_fetch env = Inr f \<Longrightarrow> P device_id (gc_credential f)"
    and "\<And>key d. pp_cache_key pp = Some (key, d) \<Longrightarrow> d = device_id"
  shows "cache_holds P entries' \<and> (\<forall>credential expiry cached. r = Inr (credential, expiry, cached) \<longrightarrow> P device_id credential)"
proof (cases "Option.bind (pp_cache_key pp) (\<lambda>(key, device_id). cache_lookup (ae_lookup env) key device_id entries)")
  case (Some hit)
  then show ?thesis using assms(1,2,5)
    by (auto simp: obtain_credential_def bind_eq_Some_conv split: prod.splits intro: cache_lookup_holds)
next
  case None
  have waiting: "cache_holds P (ae_waiting env entries)" using assms(2,3) by (simp add: others_keep_def)
  have "cache_holds P e \<and> (\<forall>credential expiry cached. fetched = Inr (credential, expiry, cached) \<longrightarrow> P device_id credential)"
    if task: "fetch_task env pp (ae_waiting env entries) = (e, fetched)" for e fetched
  proof (cases "pp_cache_key pp")
    case None
    then show ?thesis using task waiting assms(4) by (auto simp: fetch_task_def split: sum.splits)
  next
    case (Some k)
    with assms(5) obtain key where "pp_cache_key pp = Some (key, device_id)" by (metis surj_pair)
    then have "get_or_fetch (ae_times env) key device_id (ae_fetch env) (ae_waiting env entries) = (e, fetched)"
      using task by (simp add: fetch_task_def)
    then show ?thesis using waiting assms(4) by (rule get_or_fetch_holds)
  qed
  then show ?thesis using assms(1) None waiting
    by (fastforce simp: obtain_credential_def split: outcome_splits)
qed

lemma send_attempt_holds:
  assumes "send_attempt lib env pp retried used request entries = (entries', r)" and "cache_holds P entries"
    and "others_keep P env"
  shows "cache_holds P entries'"
proof -
  have answering: "cache_holds P (ae_answering env entries)" using assms(2,3) by (simp add: others_keep_def)
  then show ?thesis using assms(1)
    by (auto simp: send_attempt_def Let_def invalidate_if_holds
        split: gateway_answer.splits if_splits option.splits prod.splits)
qed

lemma attempt_holds:
  assumes "attempt lib env pp retried entries = (entries', sent, r)" and "cache_holds P entries" and "others_keep P env"
    and "\<And>f. ae_fetch env = Inr f \<Longrightarrow> P device_id (gc_credential f)"
    and "\<And>key d. pp_cache_key pp = Some (key, d) \<Longrightarrow> d = device_id"
  shows "cache_holds P entries' \<and> (\<forall>out \<in> set sent. pp_authenticated pp \<longrightarrow> (\<exists>credential. P device_id credential \<and> identified lib pp credential out))"
proof -
  have before: "cache_holds P (ae_before env entries)" using assms(2,3) by (simp add: others_keep_def)
  have got: "cache_holds P e \<and> (\<forall>credential expiry cached. fetched = Inr (credential, expiry, cached) \<longrightarrow> P device_id credential)"
    if "obtain_credential env pp (ae_before env entries) = (e, fetched)" for e fetched
    using that before assms(3-5) by (rule obtain_credential_holds)
  have cache: "cache_holds P entries'"
    using assms(1) got before send_attempt_holds [OF _ _ assms(3)]
    by (fastforce simp: attempt_def Let_def split: outcome_splits)
  moreover have "\<exists>credential. P device_id credential \<and> identified lib pp credential out"
    if "out \<in> set sent" "pp_authenticated pp" for out
    using attempt_sends [OF assms(1) that(1)] that(2) got by fastforce
  ultimately show ?thesis by blast
qed

lemma attempts_hold:
  assumes "attempts lib env pp 0 False cache = (cache', sent, r, tunnel)"
    and "cache_holds P cache" and "\<And>n. others_keep P (env n)"
    and "\<And>n f. ae_fetch (env n) = Inr f \<Longrightarrow> P device_id (gc_credential f)"
    and "\<And>key d. pp_cache_key pp = Some (key, d) \<Longrightarrow> d = device_id"
  shows "cache_holds P cache' \<and> (\<forall>out \<in> set sent. pp_authenticated pp \<longrightarrow> (\<exists>credential. P device_id credential \<and> identified lib pp credential out))"
proof -
  have one: "cache_holds P e' \<and> (\<forall>out \<in> set s. pp_authenticated pp \<longrightarrow> (\<exists>credential. P device_id credential \<and> identified lib pp credential out))"
    if "attempt lib (env n) pp retried e = (e', s, fin)" "cache_holds P e" for n retried e e' s fin
    using that(1,2) assms(3-5) by (rule attempt_holds)
  from assms(1) show ?thesis
  proof (cases rule: attempts_cases)
    case once
    then show ?thesis using one assms(2) by blast
  next
    case (twice cache1 sent1 sent2)
    then show ?thesis using one [OF twice(1) assms(2)] one [OF twice(2)] by auto
  qed
qed

text \<open>
  C28. None of the client's own credentials goes through as it came. Let \<open>C\<close> contain the credentials that
  the daemon has in its cache and those that it fetches. Then no forwarded request carries the pairing
  header or an API key header; its authorization is absent if the gateway has no authentication, and
  otherwise is the bearer form of a credential in \<open>C\<close>, whatever authorization the client sent. The
  one exception is by design: in the separate pass-through header a request carries the client's own
  token, never the pairing value, where the route or the configuration passes it on, or the token of
  the GitHub sign-in that the configuration asks for; nothing else is ever sent in that header.
\<close>

theorem forward_replaces_credentials:
  assumes "forward lib github config (Inr effective) device env request cache = (cache', sent, r, tunnel)"
    and "out \<in> set sent" and "dc_llm_gateway effective = Some gateway"
    and "cache_holds (\<lambda>_ credential. credential \<in> C) cache" and "\<And>n. others_keep (\<lambda>_ credential. credential \<in> C) (env n)"
    and "\<And>n f. ae_fetch (env n) = Inr f \<Longrightarrow> gc_credential f \<in> C"
    and "split_query (case rq_path_and_query request of None \<Rightarrow> ''/'' | Some pq \<Rightarrow> pq) = (p, query)"
  shows "header_get (ur_headers out) pairing_header = None
    \<and> header_get (ur_headers out) ''x-api-key'' = None \<and> header_get (ur_headers out) ''api-key'' = None
    \<and> (case header_get (ur_headers out) ''authorization'' of
         None \<Rightarrow> gw_authentication gateway = None
       | Some value \<Rightarrow> gw_authentication gateway \<noteq> None
           \<and> (\<exists>credential \<in> C. hl_from_str lib (''Bearer '' @ credential) = Some value))
    \<and> (case header_get (ur_headers out) ''x-llm-token'' of
         None \<Rightarrow> True
       | Some value \<Rightarrow> \<exists>token. hl_from_str lib token = Some value
           \<and> (passes_client_token gateway p
                \<and> bearer_or_header lib (rq_headers request) ''x-llm-token'' = Some token \<and> token \<noteq> pxc_pairing config
              \<or> github_token github gateway p token))"
  (is "_ \<and> _ \<and> _ \<and> _ \<and> (case _ of None \<Rightarrow> True | Some value \<Rightarrow> \<exists>token. hl_from_str lib token = Some value \<and> ?passed token)")
proof -
  obtain c pp where c: "check_request lib config request = Inr c"
    and pp: "prepare lib github config effective device request c = Inr pp"
    and run: "attempts lib env pp 0 False cache = (cache', sent, r, tunnel)"
    and sent: "if pp_authenticated pp then \<exists>credential. identified lib pp credential out else out = pp_head pp"
    using forward_sent [OF assms(1,2)] by blast
  obtain d where d: "\<And>key d'. pp_cache_key pp = Some (key, d') \<Longrightarrow> d' = d" by (cases "pp_cache_key pp") auto
  have "\<exists>credential \<in> C. identified lib pp credential out" if "pp_authenticated pp"
  proof -
    have "cache_holds (\<lambda>_ credential. credential \<in> C) cache' \<and> (\<forall>out \<in> set sent. pp_authenticated pp \<longrightarrow>
        (\<exists>credential. credential \<in> C \<and> identified lib pp credential out))"
      by (rule attempts_hold [OF run assms(4,5), of d]) (use assms(6) d in blast)+
    then show ?thesis using assms(2) that by blast
  qed
  with sent have out: "if pp_authenticated pp then \<exists>credential \<in> C. identified lib pp credential out else out = pp_head pp"
    by simp
  from pp obtain client_id mode base rest token hs host where
    upstream: "choose_upstream config gateway c = Inr (client_id, mode, base, rest)"
    and token: "upstream_token github gateway mode
       (credential_less_ping c (rq_method request) (client_credential lib config (rq_headers request)))
       (client_credential lib config (rq_headers request)) = Inr token"
    and hs: "with_token lib token (outbound_headers lib (cr_websocket c) (rq_headers request)) = Inr hs"
    and head: "ur_headers (pp_head pp) = header_insert ''host'' host hs"
    and auth: "pp_authenticated pp \<longleftrightarrow> gw_authentication gateway \<noteq> None"
    using assms(3) by (elim prepare_Inr) auto
  have matched: "cr_matched c = match_route p" using check_request_Inr(5,6) [OF c] assms(7) by simp
  note gone = secret_headers_removed [of _ lib "cr_websocket c" "rq_headers request"]
  have kept: "header_get hs n = None" if "n \<in> {''authorization'', ''x-api-key'', ''api-key'', pairing_header}" for n
  proof -
    have "n \<noteq> ''x-llm-token''" using that by (auto simp: pairing_header_def)
    then show ?thesis using hs gone [of n] that by (auto simp: with_token_def split: option.splits)
  qed
  have same: "header_get (ur_headers out) n = header_get hs n" if "n \<noteq> ''authorization''" "n \<noteq> ''host''" for n
    using identified_head [OF sent] that by (simp add: head)
  have secrets: "header_get (ur_headers out) pairing_header = None"
    "header_get (ur_headers out) ''x-api-key'' = None" "header_get (ur_headers out) ''api-key'' = None"
    by (subst same; simp add: kept pairing_header_def)+
  have llm: "\<exists>t. hl_from_str lib t = Some v \<and> ?passed t" if "header_get (ur_headers out) ''x-llm-token'' = Some v" for v
  proof -
    have "header_get hs ''x-llm-token'' = Some v" using that same [of "''x-llm-token''"] by simp
    then obtain t where t: "hl_from_str lib t = Some v" "token = Some t"
      using hs gone [of "''x-llm-token''"] by (auto simp: with_token_def split: option.splits)
    then show ?thesis using upstream_token_source [OF upstream matched token [unfolded t(2)]] client_credential_token by blast
  qed
  have identity: "case header_get (ur_headers out) ''authorization'' of
      None \<Rightarrow> gw_authentication gateway = None
    | Some v \<Rightarrow> gw_authentication gateway \<noteq> None \<and> (\<exists>credential \<in> C. hl_from_str lib (''Bearer '' @ credential) = Some v)"
  proof (cases "pp_authenticated pp")
    case True
    with out obtain credential v where "credential \<in> C" "hl_from_str lib (''Bearer '' @ credential) = Some v"
      and "out = (pp_head pp)\<lparr>ur_headers := header_insert ''authorization'' v (ur_headers (pp_head pp))\<rparr>"
      unfolding identified_def by auto
    with True auth show ?thesis by (auto simp del: append.simps)
  next
    case False
    then have "header_get (ur_headers out) ''authorization'' = None" using out kept [of "''authorization''"] by (simp add: head)
    with False auth show ?thesis by simp
  qed
  show ?thesis using secrets identity llm by (auto split: option.split simp del: append.simps)
qed

text \<open>
  C29. The identity sent to the gateway was issued to the device enrolled now: if every cached
  credential is tagged with the device it was issued to, other requests keep it so, and a fetch
  returns a credential of the enrolled device, then so does this request, and every authorization it
  sends is the bearer form of a credential issued to the enrolled device. A sign-out or a new
  enrolment therefore never sends an old device's credential, whatever the cache still holds.
\<close>

theorem forward_sends_own_identity:
  assumes "forward lib github config effective (Inr (Some device_id)) env request cache = (cache', sent, r, tunnel)"
    and "cache_holds P cache" and "\<And>n. others_keep P (env n)"
    and "\<And>n f. ae_fetch (env n) = Inr f \<Longrightarrow> P device_id (gc_credential f)"
  shows "cache_holds P cache' \<and> (\<forall>out \<in> set sent. \<forall>sent_value. header_get (ur_headers out) ''authorization'' = Some sent_value \<longrightarrow>
           (\<exists>credential. P device_id credential \<and> hl_from_str lib (''Bearer '' @ credential) = Some sent_value))"
proof (cases "sent = [] \<and> cache' = cache")
  case False
  then obtain eff pp c where eff: "effective = Inr eff"
    and pp: "prepare lib github config eff (Inr (Some device_id)) request c = Inr pp"
    and run: "attempts lib env pp 0 False cache = (cache', sent, r, tunnel)"
    using assms(1) by (auto simp: forward_def split: sum.splits)
  have key: "d = device_id" if "pp_cache_key pp = Some (key, d)" for key d
    using that pp unfolding prepare_def gateway_cache_key_def
    by (auto simp: Let_def split: option.splits sum.splits prod.splits gateway_authentication.splits)
  have "cache_holds P cache' \<and> (\<forall>out \<in> set sent. pp_authenticated pp \<longrightarrow> (\<exists>credential. P device_id credential \<and> identified lib pp credential out))"
    by (rule attempts_hold [OF run assms(2,3)]) (use assms(4) key in blast)+
  moreover have "header_get (ur_headers (pp_head pp)) ''authorization'' = None"
    using pp by (elim prepare_Inr) (auto simp: with_token_def secret_headers_removed split: option.splits)
  ultimately show ?thesis using attempts_sent [OF run]
    by (fastforce simp: identified_def simp del: append.simps split: if_splits)
qed (use assms(2) in auto)

section \<open>Attempts and tunnels\<close>

text \<open>
  A request is sent at most twice. It is sent again only when the gateway answered the first
  attempt with 401 and no client token went along, and then it is the same request but for the
  identity.
\<close>

lemma forward_attempts_bounded:
  assumes "forward lib github config effective device env request cache = (cache', sent, r, tunnel)"
  shows "length sent \<le> 2 \<and> (\<forall>first second. sent = [first, second] \<longrightarrow>
      (\<exists>response. ae_answer (env 0) first = Answered response \<and> rs_status response = 401)
      \<and> header_get (ur_headers second) ''x-llm-token'' = None
      \<and> ur_uri first = ur_uri second \<and> ur_method first = ur_method second \<and> ur_body first = ur_body second)"
proof (cases "sent = []")
  case False
  then obtain out where "out \<in> set sent" by (cases sent) auto
  with assms obtain c eff pp where pp: "prepare lib github config eff device request c = Inr pp"
    and run: "attempts lib env pp 0 False cache = (cache', sent, r, tunnel)" by (rule forward_sent)
  have head: "ur_uri o1 = ur_uri (pp_head pp) \<and> ur_method o1 = ur_method (pp_head pp) \<and> ur_body o1 = ur_body (pp_head pp)
      \<and> header_get (ur_headers o1) ''x-llm-token'' = header_get (ur_headers (pp_head pp)) ''x-llm-token''"
    if "o1 \<in> set sent" for o1 using identified_head [OF attempts_sent [OF run that]] by simp
  from run show ?thesis
  proof (cases rule: attempts_cases)
    case once
    then show ?thesis using attempt_sends_one [OF once] by auto
  next
    case (twice cache1 sent1 sent2)
    have again: "(\<exists>response. ae_answer (env 0) o1 = Answered response \<and> rs_status response = 401) \<and> \<not> pp_client_token_sent pp"
      if o1: "o1 \<in> set sent1" for o1
    proof -
      obtain used e where "send_attempt lib (env 0) pp False used o1 e = (cache1, Again)"
        using attempt_sends [OF twice(1) o1] by (auto split: if_splits)
      from send_attempt_Again [OF this] show ?thesis by blast
    qed
    have tokenless: "header_get (ur_headers (pp_head pp)) ''x-llm-token'' = None" if "\<not> pp_client_token_sent pp"
      using pp that by (elim prepare_Inr) (auto simp: with_token_def secret_headers_removed split: option.splits)
    have lengths: "length sent1 \<le> 1" "length sent2 \<le> 1"
      using attempt_sends_one [OF twice(1)] attempt_sends_one [OF twice(2)] by auto
    have "o1 \<in> set sent1 \<and> o1 \<in> set sent \<and> o2 \<in> set sent" if "sent = [o1, o2]" for o1 o2
      using that lengths twice(3) by (cases sent1) (auto simp: append_eq_Cons_conv)
    moreover have "length sent \<le> 2" using lengths twice(3) by simp
    ultimately show ?thesis using head again tokenless by metis
  qed
qed simp

text \<open>
  C30. A tunnel always closes: if a sleep lasts at least as long as asked, the expiry loop returns
  after at most one check for every ten seconds left of the credential and one more, at the first
  check at which either clock has reached the expiry. A wall clock past the expiry, as after a
  suspend, closes the tunnel at the next check whatever the monotonic clock says.
\<close>

theorem tunnel_closes:
  assumes "\<And>k. ck_mono (check k) + tunnel_sleep deadline (check k) \<le> ck_mono (check (Suc k))"
  shows "\<exists>k. tunnel_expiry check deadline n = Some k
    \<and> n \<le> k \<and> k \<le> n + (dl_monotonic deadline - ck_mono (check n)) div from_secs 10 + 1
    \<and> tunnel_expired deadline (check k) \<and> (\<forall>j. n \<le> j \<and> j < k \<longrightarrow> \<not> tunnel_expired deadline (check j))"
proof (induction "dl_monotonic deadline - ck_mono (check n)" arbitrary: n rule: less_induct)
  case (less n)
  define left where "left = dl_monotonic deadline - ck_mono (check n)"
  define left' where "left' = dl_monotonic deadline - ck_mono (check (Suc n))"
  show ?case
  proof (cases "tunnel_expired deadline (check n)")
    case True
    then show ?thesis by (subst tunnel_expiry.simps) auto
  next
    case False
    then have "0 < left" by (auto simp: tunnel_expired_def left_def)
    moreover have slept: "left' \<le> left - min left (from_secs 10)"
      using assms [of n] by (simp add: left_def left'_def tunnel_sleep_def)
    ultimately have "left' < left" by (auto simp: from_secs_def)
    then obtain k where k: "tunnel_expiry check deadline (Suc n) = Some k" "Suc n \<le> k"
      "k \<le> Suc n + left' div from_secs 10 + 1" "tunnel_expired deadline (check k)"
      "\<And>j. Suc n \<le> j \<Longrightarrow> j < k \<Longrightarrow> \<not> tunnel_expired deadline (check j)"
      using less [of "Suc n"] unfolding left_def left'_def by blast
    have bound: "k \<le> n + left div from_secs 10 + 1"
    proof (cases "left < from_secs 10")
      case True
      then have "left' = 0" using slept by simp
      then have "tunnel_expired deadline (check (Suc n))" by (simp add: left'_def tunnel_expired_def)
      with k have "k = Suc n" by (metis le_eq_less_or_eq order_refl)
      then show ?thesis by simp
    next
      case False
      then have "left' div from_secs 10 \<le> (left - from_secs 10) div from_secs 10"
        using slept by (intro div_le_mono) simp
      also have "\<dots> = left div from_secs 10 - 1" using False by (simp add: from_secs_def)
      finally show ?thesis using k(3) False div_greater_zero_iff [of left "from_secs 10"]
        by (simp add: from_secs_def)
    qed
    have "\<not> tunnel_expired deadline (check j)" if "n \<le> j" "j < k" for j
      using k(5) [of j] False that by (cases "j = n") auto
    then show ?thesis using False k(1,2,4) bound unfolding left_def
      by (subst tunnel_expiry.simps) auto
  qed
qed

section \<open>The pairing value\<close>

text \<open>
  The pairing value, once there, stays: whatever value would be generated next, a later start
  finds the same one and writes nothing, so the client files that hold it remain valid. What is
  generated is a text of at least 32 printable bytes, and so is every pairing value.
\<close>

lemma pairing_survives_restarts:
  assumes "load_or_create_pairing generated s d = (t, Inr pairing)"
    and "32 \<le> length generated" and "trim generated = generated" and "valid_utf8 generated"
  shows "load_or_create_pairing other t d = (t, Inr pairing) \<and> 32 \<le> length pairing"
proof -
  define p where "p = path_join d [Normal pairing_file]"
  have "(\<exists>contents. read_to_string t p = Inr contents \<and> pairing = trim contents \<and> 32 \<le> length (trim contents))"
  proof (cases "\<exists>contents. read_to_string s p = Inr contents \<and> 32 \<le> length (trim contents)")
    case True
    then show ?thesis using assms(1) by (auto simp: load_or_create_pairing_def p_def [symmetric] Let_def)
  next
    case False
    then obtain s1 where dir: "ensure_private_dir s d = (s1, Inr ())"
      and w: "atomic_write s1 p generated 0x180 = (t, Inr ())" and "pairing = generated"
      using assms(1)
      by (auto simp: load_or_create_pairing_def p_def [symmetric] Let_def split: sum.splits if_splits prod.splits)
    then have "read_to_string t p = Inr generated"
      using atomic_write_cases [OF w] assms(4) by (auto simp: read_to_string_def fs_read_def)
    then show ?thesis using assms(2,3) \<open>pairing = generated\<close> by simp
  qed
  then show ?thesis by (auto simp: load_or_create_pairing_def p_def [symmetric] Let_def)
qed

section \<open>An example\<close>

text \<open>
  A request on the Copilot CLI route. The cached credential is rejected, the fetched one is accepted.
\<close>

definition demo_http :: http_lib where
  "demo_http = \<lparr>hl_to_str = Some, hl_from_str = Some, hl_url_str = (\<lambda>_. ''https://gw.example/''),
     hl_parse_uri = (\<lambda>_. Inr (Some ''gw.example''))\<rparr>"

definition demo_px :: proxy_config where
  "demo_px = \<lparr>pxc_default_client_id = ''default'', pxc_pairing = ''secret''\<rparr>"

definition demo_gateway :: llm_gateway_config where
  "demo_gateway = \<lparr>gw_url = \<lparr>url_scheme = ''https'', url_username = [], url_password = None, url_host = Some ''gw.example'',
       url_path = ''/'', url_query = None, url_fragment = None\<rparr>,
     gw_authentication = Some (ControllerJwt ''aud'' [''copilot-cli'']), gw_proxy_url = None, gw_github_oauth = None,
     gw_when_proxy_unavailable = FailClosed\<rparr>"

definition demo_effective :: daemon_config where
  "demo_effective = default_daemon_config\<lparr>dc_llm_gateway := Some demo_gateway\<rparr>"

definition demo_request :: proxy_request where
  "demo_request = \<lparr>rq_method = Get, rq_path_and_query = Some ''/copilot-cli/v1/models'',
     rq_headers = [(''host'', ''localhost:8080''), (''x-agentdesktop-pairing'', ''secret''), (''authorization'', ''Bearer mine'')],
     rq_body = [], rq_body_error = None\<rparr>"

definition demo_env :: "nat \<Rightarrow> attempt_env" where
  "demo_env n =
     (let now = \<lparr>ck_mono = 0, ck_unix = 0\<rparr>
      in \<lparr>ae_before = id, ae_lookup = now, ae_waiting = id,
          ae_times = \<lparr>ct_lookup = now, ct_insert = 0, ct_mono1 = 0, ct_mono2 = 0, ct_deadline = now\<rparr>,
          ae_timed_out = False, ae_join_error = None,
          ae_fetch = Inr \<lparr>gc_credential = ''fresh'', gc_expires_at = 100\<rparr>, ae_answering = id,
          ae_answer = (\<lambda>r. Answered \<lparr>rs_status = (if header_get (ur_headers r) ''authorization'' = Some ''Bearer stale'' then 401 else 200),
             rs_headers = [], rs_body = []\<rparr>)\<rparr>)"

definition demo_key :: string where
  "demo_key = ''copilot-cli'' @ CHR 0x00 # ''https://gw.example/'' @ CHR 0x00 # ''aud''"

definition demo_cache :: cache_entries where
  "demo_cache = [demo_key \<mapsto> stored_entry 0 0 0 ''device'' \<lparr>gc_credential = ''stale'', gc_expires_at = 100\<rparr>]"

definition demo_sent :: "string \<Rightarrow> upstream_request" where
  "demo_sent credential = \<lparr>ur_method = Get, ur_uri = ''https://gw.example/v1/models'',
     ur_headers = [(''host'', ''gw.example''), (''authorization'', ''Bearer '' @ credential)], ur_body = []\<rparr>"

lemma demo_checked:
  "check_request demo_http demo_px demo_request =
   Inr \<lparr>cr_path = ''/copilot-cli/v1/models'', cr_query = None, cr_matched = match_route ''/copilot-cli/v1/models'',
        cr_capi_rest = None, cr_websocket = False\<rparr>"
  by code_simp

definition demo_prepared :: prepared where
  "demo_prepared = \<lparr>pp_head = \<lparr>ur_method = Get, ur_uri = ''https://gw.example/v1/models'',
       ur_headers = [(''host'', ''gw.example'')], ur_body = []\<rparr>,
     pp_authenticated = True, pp_controller_issued = True, pp_cache_key = Some (demo_key, ''device''),
     pp_client_token_sent = False, pp_websocket = False\<rparr>"

lemma demo_route:
  "match_route ''/copilot-cli/v1/models'' =
   Some (\<lparr>pr_prefix = ''/copilot-cli'', pr_client_id = ''copilot-cli'', pr_credential = GatewayOnly,
       pr_upstream = UpstreamUrl, pr_pairing_in_path = False, pr_tunnels_upgrades = False,
       pr_credential_less_ping = False\<rparr>, ''/v1/models'')"
  by code_simp

lemma demo_outbound: "outbound_headers demo_http False (rq_headers demo_request) = [(''host'', ''localhost:8080'')]"
  by code_simp

lemma demo_prepare:
  assumes "check_request demo_http demo_px demo_request = Inr c"
  shows "prepare demo_http (\<lambda>_. Inl []) demo_px demo_effective (Inr (Some ''device'')) demo_request c = Inr demo_prepared"
proof -
  have c: "c = \<lparr>cr_path = ''/copilot-cli/v1/models'', cr_query = None, cr_matched = match_route ''/copilot-cli/v1/models'',
        cr_capi_rest = None, cr_websocket = False\<rparr>" using assms demo_checked by simp
  have uri: "upstream_uri demo_http u ''/v1/models'' None = ''https://gw.example/v1/models''" for u
    by (simp add: upstream_uri_def demo_http_def trim_end_char_def)
  have body: "read_body demo_request = Inr []" by (simp add: read_body_def demo_request_def)
  have parsed: "hl_parse_uri demo_http u = Inr (Some ''gw.example'')" for u by (simp add: demo_http_def)
  have key: "gateway_cache_key demo_http demo_gateway ''copilot-cli'' False (Inr (Some ''device'')) = Some (demo_key, ''device'')"
    by (simp add: gateway_cache_key_def demo_gateway_def demo_http_def demo_key_def)
  have host: "with_host demo_http (Some ''gw.example'') [(''host'', ''localhost:8080'')] = Inr [(''host'', ''gw.example'')]"
    by (simp add: with_host_def demo_http_def header_insert_def)
  show ?thesis unfolding prepare_def c demo_effective_def
    by (simp add: choose_upstream_def demo_route demo_gateway_def [THEN arg_cong, of gw_authentication] upstream_base_def
        uri parsed body upstream_token_def with_token_def demo_outbound host key demo_prepared_def
        demo_request_def [THEN arg_cong, of rq_method])
qed

lemma demo_lookup: "cache_lookup \<lparr>ck_mono = 0, ck_unix = 0\<rparr> demo_key ''device'' demo_cache =
    Some (''stale'', \<lparr>dl_monotonic = from_secs 100, dl_unix = 100\<rparr>)"
  by (simp add: cache_lookup_def demo_cache_def stored_entry_def Let_def from_secs_def)

lemma demo_first: "attempt demo_http (demo_env n) demo_prepared False demo_cache = (demo_cache(demo_key := None), [demo_sent ''stale''], Again)"
proof -
  have "obtain_credential (demo_env n) demo_prepared demo_cache =
      (demo_cache, Inr (''stale'', \<lparr>dl_monotonic = from_secs 100, dl_unix = 100\<rparr>, True))"
    by (simp add: obtain_credential_def demo_prepared_def demo_env_def Let_def demo_lookup)
  then show ?thesis
    by (simp add: attempt_def demo_env_def Let_def demo_prepared_def demo_sent_def demo_http_def send_attempt_def
        header_insert_def header_get_def invalidate_if_def demo_cache_def)
qed

definition demo_renewed :: cache_entries where
  "demo_renewed = cache_insert 0 0 0 demo_key ''device'' \<lparr>gc_credential = ''fresh'', gc_expires_at = 100\<rparr> (demo_cache(demo_key := None))"

definition demo_response :: proxy_response where
  "demo_response = \<lparr>rs_status = 200, rs_headers = [], rs_body = []\<rparr>"

lemma demo_second:
  "attempt demo_http (demo_env n) demo_prepared True (demo_cache(demo_key := None)) =
   (demo_renewed, [demo_sent ''fresh''], Finished (Inr demo_response) None)"
proof -
  have miss: "cache_lookup now demo_key ''device'' (demo_cache(demo_key := None)) = None" for now
    by (simp add: cache_lookup_def)
  have "obtain_credential (demo_env n) demo_prepared (demo_cache(demo_key := None)) =
      (demo_renewed, Inr (''fresh'', \<lparr>dl_monotonic = from_secs 100, dl_unix = 100\<rparr>, False))"
    by (simp add: obtain_credential_def demo_prepared_def demo_env_def Let_def miss fetch_task_def get_or_fetch_def
        demo_renewed_def deadline_from_unix_def)
  then show ?thesis
    by (simp add: attempt_def demo_env_def Let_def demo_prepared_def demo_sent_def demo_http_def send_attempt_def
        header_insert_def header_get_def plain_response_def strip_hop_headers_def header_lists_def header_get_all_def
        hop_headers_def header_remove_def demo_response_def)
qed

lemma demo_forward:
  "forward demo_http (\<lambda>_. Inl []) demo_px (Inr demo_effective) (Inr (Some ''device'')) demo_env demo_request demo_cache =
   (demo_renewed, [demo_sent ''stale'', demo_sent ''fresh''], Inr demo_response, None)"
proof -
  have "attempts demo_http demo_env demo_prepared 0 False demo_cache =
      (demo_renewed, [demo_sent ''stale'', demo_sent ''fresh''], Inr demo_response, None)"
    by (subst attempts.simps, simp add: demo_first, subst attempts.simps, simp add: demo_second)
  with demo_prepare [OF demo_checked] show ?thesis by (simp add: forward_def demo_checked)
qed

theorem forward_requires_pairing_witness: "presents_pairing demo_http demo_px demo_request"
  using forward_requires_pairing [OF demo_forward] by simp

theorem forward_stays_below_base_witness:
  "\<exists>rest query. ''https://gw.example/v1/models'' = trim_end_char (CHR ''/'') ''https://gw.example/'' @ rest @ query
     \<and> prefix ''/'' rest \<and> \<not> path_escapes_base rest"
  using forward_stays_below_base [OF demo_forward, of "demo_sent ''fresh''" demo_gateway]
  by (auto simp: demo_effective_def demo_request_def demo_sent_def demo_http_def)

theorem forward_replaces_credentials_witness:
  "header_get (ur_headers (demo_sent ''fresh'')) pairing_header = None
   \<and> header_get (ur_headers (demo_sent ''fresh'')) ''x-llm-token'' = None
   \<and> (\<exists>credential \<in> {''stale'', ''fresh''}. ''Bearer fresh'' = ''Bearer '' @ credential)"
proof -
  let ?C = "{''stale'', ''fresh''}"
  have cache: "cache_holds (\<lambda>_ credential. credential \<in> ?C) demo_cache" by (simp add: cache_holds_def demo_cache_def)
  have others: "others_keep (\<lambda>_ credential. credential \<in> ?C) (demo_env n)" for n
    by (simp add: others_keep_def demo_env_def Let_def)
  have fetch: "gc_credential f \<in> ?C" if "ae_fetch (demo_env n) = Inr f" for n f
    using that by (auto simp: demo_env_def Let_def)
  have query: "split_query (case rq_path_and_query demo_request of None \<Rightarrow> ''/'' | Some pq \<Rightarrow> pq) = (''/copilot-cli/v1/models'', None)"
    by code_simp
  have "dc_llm_gateway demo_effective = Some demo_gateway" by (simp add: demo_effective_def)
  moreover have "\<not> passes_client_token demo_gateway ''/copilot-cli/v1/models''"
    and "\<not> github_token (\<lambda>_. Inl []) demo_gateway ''/copilot-cli/v1/models'' t" for t
    by (simp_all add: passes_client_token_def github_token_def demo_route)
  ultimately show ?thesis
    using forward_replaces_credentials [OF demo_forward _ _ cache others fetch query, of "demo_sent ''fresh''" demo_gateway]
    by (auto simp: demo_sent_def demo_http_def header_get_def)
qed

theorem forward_sends_own_identity_witness:
  "cache_holds (\<lambda>device credential. device = ''device'' \<and> credential \<in> {''stale'', ''fresh''}) demo_renewed"
  (is "cache_holds ?P _")
proof -
  have "cache_holds ?P demo_cache" by (simp add: cache_holds_def demo_cache_def)
  moreover have "others_keep ?P (demo_env n)" for n by (simp add: others_keep_def demo_env_def Let_def)
  ultimately show ?thesis
    using forward_sends_own_identity [OF demo_forward, of ?P] by (simp add: demo_env_def Let_def)
qed

theorem tunnel_closes_witness:
  "\<exists>k \<le> 11. tunnel_expiry (\<lambda>k. \<lparr>ck_mono = from_secs (10 * k), ck_unix = 10 * k\<rparr>)
     \<lparr>dl_monotonic = from_secs 100, dl_unix = 1000\<rparr> 0 = Some k"
proof -
  let ?check = "\<lambda>k. \<lparr>ck_mono = from_secs (10 * k), ck_unix = 10 * k\<rparr>"
  let ?deadline = "\<lparr>dl_monotonic = from_secs 100, dl_unix = 1000\<rparr>"
  have "ck_mono (?check k) + tunnel_sleep ?deadline (?check k) \<le> ck_mono (?check (Suc k))" for k
    by (simp add: tunnel_sleep_def from_secs_def)
  from tunnel_closes [of ?check ?deadline 0, OF this] show ?thesis by (auto simp: from_secs_def)
qed

end
