(* ===== verification/Provider_Shared.thy ===== *)
theory Provider_Shared
  imports Merge_Facts Reconcile_Facts Routes
begin

text \<open>
  What the providers share (\<^verbatim>\<open>crates/agent/src/provider/shared.rs\<close>, \<^verbatim>\<open>provider/mod.rs\<close> and the fail-closed
  part of \<^verbatim>\<open>reconcile/mod.rs\<close>): quoted command lines, laying generated settings over pass-through ones,
  the scope of a daemon, managed files that carry a header, and the contract of a provider. The
  printers and the URL type are third-party code: they are the parameter \<open>lib\<close>.
\<close>

section \<open>Libraries and documents\<close>

text \<open>
  \<^verbatim>\<open>serde_json\<close> and \<^verbatim>\<open>json5\<close>, \<^verbatim>\<open>serde_json::to_string\<close>, the text of a JSON value (\<^verbatim>\<open>Value::to_string\<close>), the
  text \<^verbatim>\<open>{:?}\<close> of a string (which depends on Unicode's tables), \<^verbatim>\<open>plist::to_writer_xml\<close>,
  \<^verbatim>\<open>toml::to_string_pretty\<close>, the \<^verbatim>\<open>url\<close> crate's \<^verbatim>\<open>to_string\<close>, \<^verbatim>\<open>set_path\<close> and \<^verbatim>\<open>from_file_path\<close>,
  \<^verbatim>\<open>BASE64_STANDARD.encode\<close>, the working directory of the process, and whether the daemon was built
  for macOS.
\<close>

record provider_lib =
  pb_codec :: json_codec
  pb_to_string :: "json \<Rightarrow> string + string"
  pb_display :: "json \<Rightarrow> string"
  pb_debug :: "string \<Rightarrow> string"
  pb_plist :: "json \<Rightarrow> string + bytes"
  pb_toml_pretty :: "json \<Rightarrow> string + bytes"
  pb_url_str :: "url \<Rightarrow> string"
  pb_set_path :: "string \<Rightarrow> url \<Rightarrow> url"
  pb_from_file_path :: "path \<Rightarrow> string option"
  pb_base64 :: "bytes \<Rightarrow> string"
  pb_current_dir :: "io_error + path"
  pb_macos :: bool

text \<open>\<^verbatim>\<open>json!({ ... })\<close>, indexing a value by a key (\<^const>\<open>Null\<close> when absent), and \<^verbatim>\<open>get_mut\<close> of a field.\<close>

definition json_object :: "entries \<Rightarrow> json" where
  "json_object kvs = Object (insert_all kvs [])"

definition json_strings :: "string list \<Rightarrow> json" where
  "json_strings ss = Array (map String ss)"

definition index_field :: "json \<Rightarrow> string \<Rightarrow> json" where
  "index_field v k = (case get_field v k of None \<Rightarrow> Null | Some w \<Rightarrow> w)"

definition put_field :: "string \<Rightarrow> json \<Rightarrow> json \<Rightarrow> json" where
  "put_field k w v = (case v of Object m \<Rightarrow> Object (om_insert k w m) | v \<Rightarrow> v)"

definition update_field :: "string \<Rightarrow> (json \<Rightarrow> json) \<Rightarrow> json \<Rightarrow> json" where
  "update_field k f v = (case get_field v k of None \<Rightarrow> v | Some w \<Rightarrow> put_field k (f w) v)"

definition map_object :: "(entries \<Rightarrow> entries) \<Rightarrow> json \<Rightarrow> json" where
  "map_object f v = (case v of Object m \<Rightarrow> Object (f m) | v \<Rightarrow> v)"

definition to_string_lossy :: "path \<Rightarrow> string" where
  "to_string_lossy p = from_utf8_lossy (path_display p)"

definition number_of :: "nat \<Rightarrow> json" where
  "number_of n = Number (PosInt (of_nat n))"

section \<open>Socket addresses as text\<close>

definition ipv4_display :: "8 word \<Rightarrow> 8 word \<Rightarrow> 8 word \<Rightarrow> 8 word \<Rightarrow> string" where
  "ipv4_display a b c d = join_with ''.'' (map (\<lambda>w. decimal (unat w)) [a, b, c, d])"

definition ipv6_segments :: "128 word \<Rightarrow> nat list" where
  "ipv6_segments w = map (\<lambda>i. unat w div 2 ^ (16 * i) mod 2 ^ 16) (rev [0..<8])"

fun hexadecimal :: "nat \<Rightarrow> string" where
  "hexadecimal n = (if n < 16 then [hex_digit n] else hexadecimal (n div 16) @ [hex_digit (n mod 16)])"

declare hexadecimal.simps [simp del]

text \<open>The first longest run of zeros, as its start and length.\<close>

fun zero_run :: "nat list \<Rightarrow> nat \<Rightarrow> nat \<times> nat \<Rightarrow> nat \<times> nat \<Rightarrow> nat \<times> nat" where
  "zero_run [] i current longest = longest"
| "zero_run (g # gs) i current longest =
     (if g = 0 then
        (let current1 = (if snd current = 0 then i else fst current, snd current + 1)
         in zero_run gs (Suc i) current1 (if snd current1 > snd longest then current1 else longest))
      else zero_run gs (Suc i) (0, 0) longest)"

definition ipv6_display :: "128 word \<Rightarrow> string" where
  "ipv6_display w =
     (let segs = ipv6_segments w;
          groups = (\<lambda>gs. join_with '':'' (map hexadecimal gs));
          run = zero_run segs 0 (0, 0) (0, 0)
      in if take 5 segs = replicate 5 0 \<and> segs ! 5 = 0xFFFF
         then ''::ffff:'' @ join_with ''.'' (map decimal [segs ! 6 div 256, segs ! 6 mod 256, segs ! 7 div 256, segs ! 7 mod 256])
         else if snd run > 1
         then groups (take (fst run) segs) @ ''::'' @ groups (drop (fst run + snd run) segs)
         else groups segs)"

definition socket_addr_display :: "socket_addr \<Rightarrow> string" where
  "socket_addr_display a =
     (case sa_ip a of V4 b c d e \<Rightarrow> ipv4_display b c d e | V6 w \<Rightarrow> ''['' @ ipv6_display w @ '']'')
     @ '':'' @ decimal (unat (sa_port a))"

section \<open>Command lines\<close>

record command_spec =
  cmd_program :: string
  cmd_args :: "string list"

definition command_new :: "path \<Rightarrow> string list \<Rightarrow> command_spec" where
  "command_new program args = \<lparr>cmd_program = to_string_lossy program, cmd_args = args\<rparr>"

text \<open>\<^verbatim>\<open>str::replace\<close> of one character by a string.\<close>

definition replace_char :: "char \<Rightarrow> string \<Rightarrow> string \<Rightarrow> string" where
  "replace_char c r s = concat (map (\<lambda>x. if x = c then r else [x]) s)"

definition shell_quote :: "string \<Rightarrow> string" where
  "shell_quote v = [CHR 0x27] @ replace_char (CHR 0x27) [CHR 0x27, CHR 0x5C, CHR 0x27, CHR 0x27] v @ [CHR 0x27]"

definition powershell_quote :: "string \<Rightarrow> string" where
  "powershell_quote v = [CHR 0x27] @ replace_char (CHR 0x27) [CHR 0x27, CHR 0x27] v @ [CHR 0x27]"

definition render_posix_command :: "command_spec \<Rightarrow> string" where
  "render_posix_command c = join_with '' '' (map shell_quote (cmd_program c # cmd_args c))"

text \<open>\<^verbatim>\<open>str::encode_utf16\<close>: the code points of a UTF-8 string, as one or two 16-bit units each.\<close>

definition code_point :: "bytes \<Rightarrow> nat" where
  "code_point bs =
     foldl (\<lambda>a c. a * 64 + byte_of c mod 64)
       (case length bs of Suc 0 \<Rightarrow> byte_of (hd bs) | n \<Rightarrow> byte_of (hd bs) mod 2 ^ (7 - n)) (tl bs)"

function encode_utf16 :: "string \<Rightarrow> 16 word list" where
  "encode_utf16 [] = []"
| "encode_utf16 (c # rest) =
     (let n = snd (utf8_unit c rest);
          cp = code_point (take n (c # rest))
      in (if cp < 0x10000 then [of_nat cp]
          else [of_nat (0xD800 + (cp - 0x10000) div 0x400), of_nat (0xDC00 + (cp - 0x10000) mod 0x400)])
         @ encode_utf16 (drop n (c # rest)))"
  by pat_completeness auto
termination
  by (relation "measure length") (simp_all add: utf8_unit_positive [OF surjective_pairing])

definition to_le_bytes :: "16 word \<Rightarrow> bytes" where
  "to_le_bytes w = [char_of (unat w mod 256), char_of (unat w div 256)]"

definition powershell_script :: "command_spec \<Rightarrow> string" where
  "powershell_script c = ''& '' @ join_with '' '' (map powershell_quote (cmd_program c # cmd_args c))"

definition render_windows_command :: "provider_lib \<Rightarrow> command_spec \<Rightarrow> string" where
  "render_windows_command lib c =
     ''powershell.exe -NoLogo -NoProfile -NonInteractive -EncodedCommand ''
     @ pb_base64 lib (concat (map to_le_bytes (encode_utf16 (powershell_script c))))"

definition render_command :: "provider_lib \<Rightarrow> 'a os_scheme \<Rightarrow> command_spec \<Rightarrow> string" where
  "render_command lib s c = (if os_unix s then render_posix_command c else render_windows_command lib c)"

section \<open>Settings\<close>

text \<open>Generated settings over pass-through ones: objects are merged key by key, anything else is replaced.\<close>

function (sequential) deep_merge :: "json \<Rightarrow> json \<Rightarrow> json"
  and deep_entries :: "entries \<Rightarrow> entries \<Rightarrow> entries" where
  "deep_merge (Object base) (Object overlay) = Object (deep_entries base overlay)"
| "deep_merge base overlay = overlay"
| "deep_entries base [] = base"
| "deep_entries base ((k, v) # overlay) =
     deep_entries (om_insert k (deep_merge (case om_get base k of None \<Rightarrow> Null | Some b \<Rightarrow> b) v) base) overlay"
  by pat_completeness auto
termination
  by (relation "measure (case_sum (\<lambda>(b, v). size v) (\<lambda>(b, m). entries_size m))") auto

definition responses_base_url :: "provider_lib \<Rightarrow> llm_gateway_config \<Rightarrow> string" where
  "responses_base_url lib gateway =
     (let url = gw_url gateway;
          p = trim_end_char (CHR ''/'') (url_path url)
      in trim_end_char (CHR ''/'')
           (pb_url_str lib (if suffix ''/v1'' p then url else pb_set_path lib (p @ ''/v1'') url)))"

text \<open>\<^verbatim>\<open>gateway.authentication.is_some_and(uses_credential_helper)\<close>.\<close>

definition gateway_uses_helper :: "llm_gateway_config \<Rightarrow> bool" where
  "gateway_uses_helper gateway =
     (case gw_authentication gateway of None \<Rightarrow> False | Some a \<Rightarrow> uses_credential_helper a)"

text \<open>The program's settings with the gateway, when the program uses it.\<close>

definition with_gateway :: "daemon_config \<Rightarrow> ('p \<Rightarrow> bool) \<Rightarrow> 'p option \<Rightarrow> ('p \<times> llm_gateway_config option) option" where
  "with_gateway config uses program =
     map_option (\<lambda>p. (p, if uses p then dc_llm_gateway config else None)) program"

section \<open>Scope and availability\<close>

datatype daemon_scope = UserScope | SystemScope

definition skip_unless :: "reconcile_context \<Rightarrow> daemon_scope \<Rightarrow> bool \<Rightarrow> string \<Rightarrow> reconcile_plan option" where
  "skip_unless ctx required configured display_name =
     (if rc_merge_user_settings ctx = (required = UserScope) then None
      else Some (if configured
                 then (case required of
                         UserScope \<Rightarrow> skipped (display_name @ '' requires user mode (--user); skipped in system mode'')
                       | SystemScope \<Rightarrow> skipped (display_name @ '' requires system mode; skipped in user mode''))
                 else empty_plan))"

definition proxy_not_available :: string where
  "proxy_not_available = ''local LLM proxy not available; see llmProxy.error in daemon-info, or set daemon.llmProxy.listen''"

definition fail_closed_reason :: string where
  "fail_closed_reason =
     proxy_not_available @ ''; the managed entries stay and the tool fails until the proxy is back (whenProxyUnavailable: failClosed)''"

definition fail_closed_not_in_place_reason :: string where
  "fail_closed_not_in_place_reason =
     proxy_not_available @ ''; no managed entries are in place, so the tool keeps its own settings until the proxy is back (whenProxyUnavailable: failClosed)''"

definition fail_open_reason :: string where
  "fail_open_reason =
     proxy_not_available @ ''; the managed entries are removed until the proxy is back (whenProxyUnavailable: failOpen)''"

text \<open>The closure \<^verbatim>\<open>in_place\<close> reads through the plan, so it is a planning step.\<close>

definition fail_closed_without_proxy ::
  "llm_gateway_config \<Rightarrow> (reconcile_plan \<Rightarrow> reconcile_plan \<times> bool) \<Rightarrow> reconcile_plan \<Rightarrow> reconcile_plan \<times> bool" where
  "fail_closed_without_proxy gateway in_place plan =
     (if gw_when_proxy_unavailable gateway \<noteq> FailClosed then (plan, False)
      else case in_place plan of
        (plan1, present) \<Rightarrow>
          (set_inactive (if present then fail_closed_reason else fail_closed_not_in_place_reason) plan1, True))"

section \<open>Managed files that carry a header\<close>

text \<open>
  A file that belongs to the daemon when it starts with a header. Codex, Grok and OpenCode reconcile
  theirs the same way; they differ in the texts, the mode and in how a change is recorded.
\<close>

record header_file =
  hf_header :: bytes
  hf_display_name :: string
  hf_description :: string
  hf_read_context :: string
  hf_remove_context :: string
  hf_record :: "string \<Rightarrow> path \<Rightarrow> bytes option \<Rightarrow> bytes option \<Rightarrow> reconcile_plan \<Rightarrow> reconcile_plan"

definition reconcile_header_file ::
  "header_file \<Rightarrow> 'a os_scheme \<Rightarrow> path \<Rightarrow> bytes \<Rightarrow> mode \<Rightarrow> reconcile_plan \<Rightarrow> reconcile_plan \<times> (anyhow + unit)" where
  "reconcile_header_file hf s p contents m plan =
     plan_seq (read_existing s (hf_read_context hf) p plan) (\<lambda>existing plan1.
     let write = (\<lambda>action. plan_seq (plan_write_file s p contents m plan1)
                     (\<lambda>_ plan2. (hf_record hf action p existing (Some contents) plan2, Inr ())))
     in case existing of
       Some e \<Rightarrow>
         if e = contents \<and> \<not> grants_beyond s p m
         then (plan_record s (hf_display_name hf) (hf_description hf) ''unchanged'' p plan1, Inr ())
         else if prefix (hf_header hf) e then write ''update''
         else (hf_record hf ''conflict'' p existing (Some contents) plan1, Inr ())
     | None \<Rightarrow> write ''create'')"

definition remove_header_file ::
  "header_file \<Rightarrow> (path \<Rightarrow> bytes \<Rightarrow> reconcile_plan \<Rightarrow> reconcile_plan) \<Rightarrow> 'a os_scheme \<Rightarrow> path
   \<Rightarrow> reconcile_plan \<Rightarrow> reconcile_plan \<times> (anyhow + unit)" where
  "remove_header_file hf record_removed s p plan =
     plan_seq (read_existing s (hf_read_context hf) p plan) (\<lambda>existing plan1.
     case existing of
       Some e \<Rightarrow>
         if prefix (hf_header hf) e
         then (case plan_remove_file s p plan1 of
                 (plan2, Inl err) \<Rightarrow> (plan2, Inl [hf_remove_context hf @ path_display p, io_message err])
               | (plan2, Inr _) \<Rightarrow> (record_removed p e plan2, Inr ()))
         else (plan_record s (hf_display_name hf) (hf_description hf) ''unchanged'' p plan1, Inr ())
     | None \<Rightarrow> (plan_record s (hf_display_name hf) (hf_description hf) ''unchanged'' p plan1, Inr ()))"

text \<open>The end of \<^verbatim>\<open>Provider::plan\<close>: the plan, unless the planning failed.\<close>

definition finish_plan :: "reconcile_plan \<times> (anyhow + unit) \<Rightarrow> anyhow + reconcile_plan" where
  "finish_plan r = (case r of (plan, Inl e) \<Rightarrow> Inl e | (plan, Inr _) \<Rightarrow> Inr plan)"

definition or_skip :: "reconcile_plan option \<Rightarrow> anyhow + reconcile_plan \<Rightarrow> anyhow + reconcile_plan" where
  "or_skip skip planned_otherwise = (case skip of Some plan \<Rightarrow> Inr plan | None \<Rightarrow> planned_otherwise)"

section \<open>What a shell makes of a command line\<close>

text \<open>
  The words a POSIX shell splits a command line into, for lines of quoted and plain characters:
  inside single quotes every character stands for itself, a backslash outside quotes quotes the next
  character, blanks separate words. A character that starts any other construct of the shell language
  gives \<^const>\<open>None\<close>, and so does an open quote.
\<close>

definition shell_active :: "char \<Rightarrow> bool" where
  "shell_active c \<longleftrightarrow> c \<in> set ''|&;<>()$`*?[]#~=%!{}'' \<union> {CHR 0x22, CHR 0x0A, CHR 0x0D}"

definition shell_word :: "string option \<Rightarrow> string list" where
  "shell_word w = (case w of None \<Rightarrow> [] | Some x \<Rightarrow> [x])"

definition grow :: "char \<Rightarrow> string option \<Rightarrow> string option" where
  "grow c w = Some ((case w of None \<Rightarrow> [] | Some x \<Rightarrow> x) @ [c])"

fun sh_words :: "bool \<Rightarrow> string option \<Rightarrow> string \<Rightarrow> string list option" where
  "sh_words True w [] = None"
| "sh_words False w [] = Some (shell_word w)"
| "sh_words True w (c # s) = (if c = CHR 0x27 then sh_words False w s else sh_words True (grow c w) s)"
| "sh_words False w (c # s) =
     (if c = CHR 0x27 then sh_words True (Some (case w of None \<Rightarrow> [] | Some x \<Rightarrow> x)) s
      else if c = CHR '' '' \<or> c = CHR 0x09 then map_option ((@) (shell_word w)) (sh_words False None s)
      else if c = CHR 0x5C then (case s of [] \<Rightarrow> None | d # s' \<Rightarrow> sh_words False (grow d w) s')
      else if shell_active c then None
      else sh_words False (grow c w) s)"

lemma sh_words_quoted:
  "sh_words True (Some w) (replace_char (CHR 0x27) [CHR 0x27, CHR 0x5C, CHR 0x27, CHR 0x27] v @ CHR 0x27 # rest)
   = sh_words False (Some (w @ v)) rest"
  by (induction v arbitrary: w) (simp_all add: replace_char_def grow_def)

lemma sh_words_shell_quote: "sh_words False None (shell_quote v @ rest) = sh_words False (Some v) rest"
  using sh_words_quoted [of "[]" v rest] by (simp add: shell_quote_def)

lemma sh_words_line:
  "vs \<noteq> [] \<Longrightarrow> sh_words False None (join_with '' '' (map shell_quote vs)) = Some vs"
proof (induction vs rule: induct_list012)
  case (2 v)
  then show ?case using sh_words_shell_quote [of v "[]"] by (simp add: shell_word_def)
next
  case (3 v w vs)
  then show ?case by (simp add: sh_words_shell_quote shell_word_def)
qed simp

text \<open>
  PowerShell's single-quoted strings: the typographic quotes U+2018 to U+201B end a string like the
  apostrophe does, and two quotes in a row stand for the first. The script is read up to the end of
  its last argument.
\<close>

definition ps_quote_prefix :: "string \<Rightarrow> nat" where
  "ps_quote_prefix s =
     (if s \<noteq> [] \<and> hd s = CHR 0x27 then 1
      else if length s \<ge> 3 \<and> map byte_of (take 3 s) \<in> {[0xE2, 0x80, 0x98], [0xE2, 0x80, 0x99], [0xE2, 0x80, 0x9A], [0xE2, 0x80, 0x9B]}
      then 3 else 0)"

function ps_string :: "string \<Rightarrow> (string \<times> string) option" where
  "ps_string [] = None"
| "ps_string (c # s) =
     (let n = ps_quote_prefix (c # s)
      in if n = 0 then map_option (\<lambda>(a, b). (c # a, b)) (ps_string s)
         else let rest = drop n (c # s); m = ps_quote_prefix rest
              in if m = 0 then Some ([], rest)
                 else map_option (\<lambda>(a, b). (take n (c # s) @ a, b)) (ps_string (drop m rest)))"
  by pat_completeness auto
termination
  by (relation "measure length") auto

definition ps_safe :: "string \<Rightarrow> bool" where
  "ps_safe v \<longleftrightarrow> CHR 0xE2 \<notin> set v"

lemma ps_quote_prefix_simps [simp]:
  "ps_quote_prefix [] = 0" "ps_quote_prefix (CHR 0x27 # s) = 1"
  "c \<noteq> CHR 0x27 \<Longrightarrow> c \<noteq> CHR 0xE2 \<Longrightarrow> ps_quote_prefix (c # s) = 0"
proof -
  assume "c \<noteq> CHR 0x27" and c: "c \<noteq> CHR 0xE2"
  moreover have "byte_of c \<noteq> 0xE2"
  proof
    assume "byte_of c = 0xE2"
    then have "byte_of c = byte_of (CHR 0xE2)" by simp
    with c show False by (simp only: of_char_eq_iff)
  qed
  ultimately show "ps_quote_prefix (c # s) = 0" by (auto simp: ps_quote_prefix_def)
qed (simp_all add: ps_quote_prefix_def)

declare ps_string.simps(2) [simp del]

lemma ps_string_steps:
  "ps_quote_prefix (c # s) = 0 \<Longrightarrow> ps_string (c # s) = map_option (\<lambda>(a, b). (c # a, b)) (ps_string s)"
  "ps_string (CHR 0x27 # CHR 0x27 # s) = map_option (\<lambda>(a, b). (CHR 0x27 # a, b)) (ps_string s)"
  "ps_quote_prefix s = 0 \<Longrightarrow> ps_string (CHR 0x27 # s) = Some ([], s)"
  by (simp_all add: ps_string.simps(2) Let_def)

lemma replace_char_Cons: "replace_char c r (x # s) = (if x = c then r else [x]) @ replace_char c r s"
  by (simp add: replace_char_def)

lemma ps_string_quoted:
  assumes "ps_safe v" and "ps_quote_prefix rest = 0"
  shows "ps_string (replace_char (CHR 0x27) [CHR 0x27, CHR 0x27] v @ CHR 0x27 # rest) = Some (v, rest)"
  using assms
proof (induction v)
  case (Cons c v)
  then have c: "c \<noteq> CHR 0xE2" and v: "ps_safe v" by (auto simp: ps_safe_def)
  with Cons.IH [OF v Cons.prems(2)] show ?case
    by (cases "c = CHR 0x27") (simp_all add: replace_char_Cons ps_string_steps)
qed (simp add: replace_char_def ps_string_steps)

text \<open>
  An argument with a typographic apostrophe (U+2019), such as a user's directory may have, is not what
  PowerShell reads back: the string ends there.
\<close>

lemma powershell_quote_typographic:
  "ps_string (tl (powershell_quote (''O'' @ [CHR 0xE2, CHR 0x80, CHR 0x99] @ ''Neil''))) = Some (''O'', ''Neil'' @ [CHR 0x27])"
  by (simp add: powershell_quote_def replace_char_def ps_quote_prefix_def ps_string.simps(2) Let_def)

end
