(* ===== verification/Provider_Contract.thy ===== *)
theory Provider_Contract
  imports Provider_Shared
begin

text \<open>
  What the reconciler can rely on of a provider, as the locale \<open>managed_provider\<close>: its plan is made of
  planning operations only and touches only the provider's own files. The shared planning steps of
  the providers keep what single planning operations keep, and an apply of contract-keeping
  providers stays in their files.
\<close>

section \<open>Generated settings win\<close>

lemma insert_all_wf [simp]: "om_wf m \<Longrightarrow> om_wf (insert_all kvs m)"
  by (induction kvs arbitrary: m) (auto simp: insert_all_def)

lemma insert_all_simps:
  "insert_all [] m = m" "insert_all ((k, v) # kvs) m = insert_all kvs (om_insert k v m)"
  by (simp_all add: insert_all_def)

lemma deep_entries_other: "k \<notin> fst ` set overlay \<Longrightarrow> om_get (deep_entries base overlay) k = om_get base k"
  by (induction overlay arbitrary: base) auto

lemma deep_entries_get:
  "om_wf overlay \<Longrightarrow> om_get overlay k = Some v \<Longrightarrow>
   om_get (deep_entries base overlay) k
   = Some (deep_merge (case om_get base k of None \<Rightarrow> Null | Some b \<Rightarrow> b) v)"
proof (induction overlay arbitrary: base)
  case (Cons e overlay)
  obtain l w where e: "e = (l, w)" by force
  have wf': "om_wf overlay" and fresh: "l \<notin> fst ` set overlay"
    using Cons.prems(1) by (auto simp: e om_wf_Cons dest: om_wf_distinct)
  show ?case
  proof (cases "k = l")
    case True
    then have "w = v" using Cons.prems(2) e by simp
    with True fresh show ?thesis by (simp add: e deep_entries_other)
  next
    case False
    then have "om_get overlay k = Some v" using Cons.prems(2) e by simp
    from Cons.IH [OF wf' this] False show ?thesis by (simp add: e)
  qed
qed simp

text \<open>What the generated object holds at a key is there after the merge, whatever was below it.\<close>

lemma deep_merge_pointer:
  assumes "om_wf overlay" and "om_get overlay k = Some v"
    and "\<And>base. pointer (deep_merge base v) ts = Some w"
  shows "pointer (deep_merge base (Object overlay)) (k # ts) = Some w"
proof (cases base)
  case (Object m)
  with assms show ?thesis by (simp add: deep_entries_get)
next
  case Null
  with assms show ?thesis using assms(3) [of Null] by (cases v) simp_all
qed (use assms assms(3) [of Null] in \<open>cases v; simp\<close>)+

section \<open>The shared planning steps\<close>

text \<open>Recording a change of a managed file only adds to the report.\<close>

context plan_steps
begin

lemma keeps_reconcile_header_file:
  assumes "p \<in> own" and "\<And>a q b c plan. keeps plan \<Longrightarrow> keeps (hf_record hf a q b c plan)" and "keeps plan"
  shows "keeps (fst (reconcile_header_file hf s p contents m plan))"
  unfolding reconcile_header_file_def Let_def
  using assms by (auto intro!: keeps_intros split: option.split)

lemma keeps_remove_header_file:
  assumes "p \<in> own" and "\<And>q b plan. keeps plan \<Longrightarrow> keeps (record_removed q b plan)" and "keeps plan"
  shows "keeps (fst (remove_header_file hf record_removed s p plan))"
  unfolding remove_header_file_def
proof (rule keeps_seq)
  show "keeps (fst (read_existing s (hf_read_context hf) p plan))"
    using assms(3) by (rule keeps_read_existing)
next
  fix existing plan
  assume k: "keeps plan"
  then have "keeps (fst (plan_remove_file s p plan))" using assms(1) by (intro remove_step)
  then show "keeps (fst (case existing of
       Some e \<Rightarrow>
         if prefix (hf_header hf) e
         then (case plan_remove_file s p plan of
                 (plan2, Inl err) \<Rightarrow> (plan2, Inl [hf_remove_context hf @ path_display p, io_message err])
               | (plan2, Inr _) \<Rightarrow> (record_removed p e plan2, Inr ()))
         else (plan_record s (hf_display_name hf) (hf_description hf) ''unchanged'' p plan, Inr ())
     | None \<Rightarrow> (plan_record s (hf_display_name hf) (hf_description hf) ''unchanged'' p plan, Inr ())))"
    using k assms(2) by (auto intro!: keeps_record split: option.split prod.split sum.split)
qed

lemma keeps_fail_closed:
  assumes "\<And>plan. keeps plan \<Longrightarrow> keeps (fst (in_place plan))" and "keeps plan"
  shows "keeps (fst (fail_closed_without_proxy gateway in_place plan))"
  using assms(1) [OF assms(2)] assms(2)
  by (auto simp: fail_closed_without_proxy_def intro!: inactive_step split: prod.split)

lemma keeps_failed_closed:
  assumes "\<And>plan. keeps plan \<Longrightarrow> keeps (fst (in_place plan))" and "keeps plan"
    and "fail_closed_without_proxy gw in_place plan = (plan1, b)"
  shows "keeps plan1"
proof -
  have "keeps (fst (fail_closed_without_proxy gw in_place plan))"
    using assms(1,2) by (rule keeps_fail_closed)
  with assms(3) show ?thesis by simp
qed

end

text \<open>
  A file that is there without the header, and that is not what the daemon would write, is never
  touched; nor is it removed.
\<close>

lemma reconcile_foreign_file:
  assumes "fs_read s p = Inr b" and "\<not> prefix (hf_header hf) b" and "b \<noteq> contents"
  shows "reconcile_header_file hf s p contents m empty_plan
    = (hf_record hf ''conflict'' p (Some b) (Some contents) (fst (plan_read s p empty_plan)), Inr ())"
  using assms
  by (simp add: reconcile_header_file_def read_existing_def plan_read_def read_optional_def empty_plan_def Let_def)

lemma remove_foreign_file:
  assumes "fs_read s p = Inr b" and "\<not> prefix (hf_header hf) b"
  shows "remove_header_file hf removed s p empty_plan
    = (plan_record s (hf_display_name hf) (hf_description hf) ''unchanged'' p (fst (plan_read s p empty_plan)), Inr ())"
  using assms
  by (simp add: remove_header_file_def read_existing_def plan_read_def read_optional_def empty_plan_def Let_def)

section \<open>The contract\<close>

locale managed_provider =
  fixes pv :: provider and own :: "path set"
  assumes proper: "pv_plan pv ctx config s = Inr plan \<Longrightarrow> proper_plan s plan"
    and within: "pv_plan pv ctx config s = Inr plan \<Longrightarrow> fc_path ` set (rp_operations plan) \<subseteq> own"

lemma proper_confined:
  "planned s plan \<Longrightarrow> confined s own dirs plan \<Longrightarrow> dirs_read plan \<Longrightarrow> proper_plan s plan"
  by (simp add: proper_plan_def confined_def dirs_read_def)

lemma finish_plan_Inr: "finish_plan r = Inr plan \<longleftrightarrow> r = (plan, Inr ())"
  by (cases r; cases "snd r") (auto simp: finish_plan_def)

lemma skip_unless_confined:
  "skip_unless ctx scope configured n = Some plan \<Longrightarrow> planned s plan \<and> confined s own dirs plan \<and> dirs_read plan"
  by (auto simp: skip_unless_def planned_empty planned_skipped split: if_splits daemon_scope.splits)

section \<open>An apply stays in the providers' files\<close>

lemma apply_tracked_frame:
  assumes "apply_tracked plan s = (t, r)" and "q \<notin> fc_path ` set (rp_operations plan)"
  shows "same_node q (os_node s q) (os_node t q)"
proof -
  obtain s1 r1 where dirs: "try_each 0 make_private_dir (rp_private_dirs plan) s = (s1, r1)" by force
  obtain s2 r2 where files: "try_each 0 (apply_operation (rp_observed plan)) (rp_operations plan) s1 = (s2, r2)" by force
  obtain s3 r3 where keys: "try_each 0 apply_registry (rp_registry plan) s2 = (s3, r3)" by force
  have "t \<in> {s, s1, s2, s3}"
    using assms(1) by (auto simp: apply_tracked_def dirs files keys split: outcome_splits)
  moreover have "same_path q s s1" using dirs by (rule private_dirs_same)
  moreover have "same_path q s s2"
    using private_dirs_same [OF dirs] file_steps.untouched [OF files assms(2)] by (rule same_path_trans)
  moreover have "os_node s3 = os_node s2" using files_after_registry [OF keys] by (simp add: reg_frame_def)
  ultimately show ?thesis by (auto simp: same_path_def same_node_def)
qed

lemma append_operations_subset: "set (fst (append_operations ops cs)) \<subseteq> set ops \<union> set cs"
  by (induction ops cs rule: append_operations.induct) auto

lemma append_attributed_operations:
  "set (rp_operations (fst (append_attributed plan other))) \<subseteq> set (rp_operations plan) \<union> set (rp_operations other)"
  using append_operations_subset [of "rp_operations plan" "rp_operations other"]
  by (auto simp: append_attributed_def Let_def split: prod.split sum.split)

lemma plan_provider_operations:
  assumes "managed_provider pv own" and "fc_path ` set (rp_operations (ap_plan ap)) \<subseteq> own"
  shows "fc_path ` set (rp_operations (ap_plan (plan_provider ctx config oo s pv ap))) \<subseteq> own"
proof (cases "pv_plan pv ctx config s")
  case (Inl e)
  with assms(2) show ?thesis by (simp add: plan_provider_def)
next
  case (Inr plan)
  have "fc_path ` set (rp_operations (fst (append_attributed (ap_plan ap) plan))) \<subseteq> own"
    using image_mono [OF append_attributed_operations, of fc_path "ap_plan ap" plan]
      managed_provider.within [OF assms(1) Inr] assms(2)
    unfolding image_Un by (meson Un_least subset_trans)
  moreover obtain plan' r where "append_attributed (ap_plan ap) plan = (plan', r)" by force
  ultimately show ?thesis using Inr by (cases r) (auto simp: plan_provider_def Let_def)
qed

lemma plan_with_report_operations:
  assumes "\<forall>pv \<in> set (re_providers r). managed_provider pv own"
  shows "fc_path ` set (rp_operations (ap_plan (plan_with_report r config s))) \<subseteq> own"
proof -
  have "fc_path ` set (rp_operations (ap_plan (fold (plan_provider ctx c oo s) pvs ap))) \<subseteq> own"
    if "\<forall>pv \<in> set pvs. managed_provider pv own" and "fc_path ` set (rp_operations (ap_plan ap)) \<subseteq> own" for pvs ap ctx c oo
    using that by (induction pvs arbitrary: ap) (simp_all add: plan_provider_operations)
  with assms show ?thesis
    by (simp add: plan_with_report_def empty_attributed_def empty_plan_def split: prod.split)
qed

lemma managed_providers_plan:
  "\<forall>pv \<in> set (re_providers r). \<exists>own. managed_provider pv own \<Longrightarrow> providers_plan r config s"
  unfolding providers_plan_def using managed_provider.proper by blast

lemma run_attributed_frame:
  assumes "run_attributed ap s = (t, result, stop)" and "q \<notin> fc_path ` set (rp_operations (ap_plan ap))"
  shows "same_node q (os_node s q) (os_node t q)"
  using assms(1)
proof (cases rule: run_attributed_cases)
  case (refused e)
  then show ?thesis by (simp add: same_node_def)
next
  case conflicting
  then obtain r where "apply_tracked (ap_plan ap) s = (t, r)"
    by (auto simp: apply_plan_def split: prod.splits sum.splits)
  then show ?thesis using assms(2) by (rule apply_tracked_frame)
next
  case applied
  from applied(3) assms(2) show ?thesis by (rule apply_tracked_frame)
next
  case (failing e place)
  from failing(3) assms(2) show ?thesis by (rule apply_tracked_frame)
qed

end
