(* ===== verification/Provider_Copilot.thy ===== *)
theory Provider_Copilot
  imports Provider_Contract
begin

text \<open>
  The GitHub Copilot CLI (\<^verbatim>\<open>provider/copilot\<close>): entries of the user's \<^verbatim>\<open>providers.json\<close> that point at the
  local LLM proxy and carry its pairing value. They are merged by key, removed through the sidecar or,
  without one, by their pairing value, and entries of the user's are never taken over.
\<close>

section \<open>The file\<close>

text \<open>\<^verbatim>\<open>PathBuf::from\<close> a string, on Unix: empty parts and inner dots are no components.\<close>

definition path_from :: "string \<Rightarrow> path" where
  "path_from s =
     (if s = [] then []
      else let parts = split_on (CHR ''/'') s
           in (if hd s = CHR ''/'' then [RootDir] else if hd parts = ''.'' then [CurDir] else [])
              @ List.map_filter (\<lambda>p. if p = [] \<or> p = ''.'' then None else Some (if p = ''..'' then ParentDir else Normal p)) parts)"

definition providers_path :: "(string \<Rightarrow> string option) \<Rightarrow> anyhow + path" where
  "providers_path env =
     (let get = (\<lambda>name. case env name of None \<Rightarrow> None | Some v \<Rightarrow> if v = [] then None else Some v)
      in case get ''COPILOT_PROVIDERS_CONFIG'' of
        Some explicit \<Rightarrow> Inr (path_from explicit)
      | None \<Rightarrow>
          (case get ''COPILOT_HOME'' of
             Some home \<Rightarrow> Inr (path_join (path_from home) [Normal ''providers.json''])
           | None \<Rightarrow>
               (case (case get ''HOME'' of None \<Rightarrow> get ''USERPROFILE'' | Some h \<Rightarrow> Some h) of
                  None \<Rightarrow> Inl [''the GitHub Copilot CLI providers file needs HOME, USERPROFILE or COPILOT_HOME'']
                | Some home \<Rightarrow> Inr (path_join (path_join (path_from home) [Normal ''.copilot'']) [Normal ''providers.json'']))))"

definition copilot_name :: string where
  "copilot_name = ''GitHub Copilot CLI''"

definition copilot_managed_document :: "copilot_config \<Rightarrow> socket_addr \<Rightarrow> string \<Rightarrow> json" where
  "copilot_managed_document config listen pairing =
     (let headers = json_object [(pairing_header, String pairing)];
          base = ''http://'' @ socket_addr_display listen @ ''/copilot-cli''
      in json_object
           [(''providers'', Array
              [json_object [(''name'', String (provider_name Agentdesktop)), (''type'', String ''openai''),
                            (''baseUrl'', String (base @ ''/v1'')), (''headers'', headers)],
               json_object [(''name'', String (provider_name AgentdesktopAnthropic)), (''type'', String ''anthropic''),
                            (''baseUrl'', String base), (''headers'', headers)]]),
            (''models'', Array (copilot_model_documents config))])"

definition copilot_keyed :: "keyed_array_spec list" where
  "copilot_keyed =
     [\<lparr>ka_field = ''providers'', ka_keys = [''name'']\<rparr>, \<lparr>ka_field = ''models'', ka_keys = [''provider'', ''id'']\<rparr>]"

definition copilot_options :: merge_options where
  "copilot_options = default_merge_options\<lparr>mo_mode := 0x180, mo_keyed_arrays := copilot_keyed, mo_redact_diff := True\<rparr>"

section \<open>What the file holds\<close>

definition read_object ::
  "json_codec \<Rightarrow> win_os \<Rightarrow> path \<Rightarrow> reconcile_plan \<Rightarrow> reconcile_plan \<times> (anyhow + entries option)" where
  "read_object codec s p plan =
     plan_seq (read_existing s (''read '' @ copilot_name @ '' providers from '') p plan) (\<lambda>contents plan1.
     (plan1, Inr (Option.bind (Option.bind contents (from_slice codec)) as_object)))"

text \<open>The elements of an array field, none when it is absent or something else.\<close>

definition array_field :: "entries \<Rightarrow> string \<Rightarrow> json list" where
  "array_field m k = (case Option.bind (om_get m k) as_array of None \<Rightarrow> [] | Some xs \<Rightarrow> xs)"

abbreviation pairing_of :: "json \<Rightarrow> json" where
  "pairing_of provider \<equiv> index_field (index_field provider ''headers'') pairing_header"

abbreviation name_of :: "json \<Rightarrow> string option" where
  "name_of provider \<equiv> as_str (index_field provider ''name'')"

definition paired :: "string option \<Rightarrow> json \<Rightarrow> bool" where
  "paired pairing provider \<longleftrightarrow>
     (case name_of provider of None \<Rightarrow> False | Some n \<Rightarrow> n \<in> {provider_name Agentdesktop, provider_name AgentdesktopAnthropic})
     \<and> (case pairing of Some v \<Rightarrow> pairing_of provider = String v | None \<Rightarrow> pairing_of provider \<noteq> Null)"

definition copilot_in_place :: "json_codec \<Rightarrow> win_os \<Rightarrow> path \<Rightarrow> reconcile_plan \<Rightarrow> reconcile_plan \<times> bool" where
  "copilot_in_place codec s p plan =
     (case read_object codec s p plan of
        (plan1, Inr (Some current)) \<Rightarrow> (plan1, list_ex (paired None) (array_field current ''providers''))
      | (plan1, _) \<Rightarrow> (plan1, False))"

text \<open>The entries of the user's under a managed key, and the first of them as a reason to refuse.\<close>

definition written_by_agentdesktop :: "entries \<Rightarrow> string list" where
  "written_by_agentdesktop current =
     List.map_filter name_of (filter (\<lambda>p. pairing_of p \<noteq> Null) (array_field current ''providers''))"

definition foreign_provider :: "string list \<Rightarrow> string list \<Rightarrow> json \<Rightarrow> string option" where
  "foreign_provider managed written provider =
     (case name_of provider of
        Some n \<Rightarrow>
          if n \<in> set managed \<and> n \<notin> set written
          then Some (''provider '' @ n @ '' exists but was not written by agentdesktop'') else None
      | None \<Rightarrow> None)"

definition foreign_model :: "string list \<Rightarrow> string list \<Rightarrow> json \<Rightarrow> string option" where
  "foreign_model managed written model =
     (case (as_str (index_field model ''provider''), as_str (index_field model ''id'')) of
        (Some p, Some i) \<Rightarrow>
          if p \<in> set managed \<and> p \<notin> set written
          then Some (''model '' @ p @ ''/'' @ i @ '' exists under a managed provider name that was not written by agentdesktop'')
          else None
      | _ \<Rightarrow> None)"

definition foreign_reason :: "json \<Rightarrow> entries \<Rightarrow> string option" where
  "foreign_reason managed current =
     (let managed_providers = List.map_filter name_of
            (case as_array (index_field managed ''providers'') of None \<Rightarrow> [] | Some xs \<Rightarrow> xs);
          written = written_by_agentdesktop current
      in case find_map (foreign_provider managed_providers written) (array_field current ''providers'') of
        Some reason \<Rightarrow> Some reason
      | None \<Rightarrow> find_map (foreign_model managed_providers written) (array_field current ''models''))"

definition foreign_managed_entry ::
  "json_codec \<Rightarrow> win_os \<Rightarrow> path \<Rightarrow> path \<Rightarrow> json \<Rightarrow> reconcile_plan \<Rightarrow> reconcile_plan \<times> (anyhow + string option)" where
  "foreign_managed_entry codec s p sp managed plan =
     plan_seq (managed_after codec s sp copilot_name plan) (\<lambda>after plan1.
     if after \<noteq> None then (plan1, Inr None)
     else plan_seq (read_object codec s p plan1) (\<lambda>current plan2.
     (plan2, Inr (Option.bind current (foreign_reason managed)))))"

section \<open>Planning\<close>

definition retain_elements :: "string \<Rightarrow> (json \<Rightarrow> bool) \<Rightarrow> json \<Rightarrow> json" where
  "retain_elements k keep v =
     update_field k (\<lambda>w. case w of Array xs \<Rightarrow> Array (filter keep xs) | w \<Rightarrow> w) v"

definition not_named :: "string \<Rightarrow> string list \<Rightarrow> json \<Rightarrow> bool" where
  "not_named k names v \<longleftrightarrow> (case as_str (index_field v k) of None \<Rightarrow> True | Some n \<Rightarrow> n \<notin> set names)"

text \<open>The document without the given providers and the models under them.\<close>

definition without_orphans :: "string list \<Rightarrow> entries \<Rightarrow> json" where
  "without_orphans orphaned current =
     retain_elements ''models'' (not_named ''provider'' orphaned)
       (retain_elements ''providers'' (not_named ''name'' orphaned) (Object current))"

definition plan_remove_orphaned ::
  "json_codec \<Rightarrow> win_os \<Rightarrow> path \<Rightarrow> string option \<Rightarrow> reconcile_plan \<Rightarrow> reconcile_plan \<times> (anyhow + unit)" where
  "plan_remove_orphaned codec s p pairing plan =
     (case read_object codec s p plan of
        (plan1, Inr (Some current)) \<Rightarrow>
          (let orphaned = List.map_filter name_of (filter (paired pairing) (array_field current ''providers''))
           in if orphaned = [] then (plan1, Inr ())
              else
                (case plan_read s p plan1 of
                   (plan2, Inl e) \<Rightarrow> (plan2, Inl [io_message e])
                 | (plan2, Inr existing) \<Rightarrow>
                     plan_seq (plan2, serialized (''serialize '' @ copilot_name @ '' providers'')
                                 (to_vec_pretty codec (without_orphans orphaned current))) (\<lambda>contents plan3.
                     if contents = existing then (plan3, Inr ())
                     else plan_write_file s p contents (case current_mode s p of None \<Rightarrow> 0x180 | Some m \<Rightarrow> m)
                            (plan_record_diff copilot_name ''providers'' ''update'' p None None plan3))))
      | (plan1, _) \<Rightarrow> (plan1, Inr ()))"

definition copilot_remove ::
  "json_codec \<Rightarrow> win_os \<Rightarrow> path \<Rightarrow> path \<Rightarrow> string option \<Rightarrow> reconcile_plan \<Rightarrow> reconcile_plan \<times> (anyhow + unit)" where
  "copilot_remove codec s p sp pairing plan =
     plan_seq (plan_remove_with codec s p sp ''providers'' copilot_name copilot_options plan) (\<lambda>removed plan1.
     if removed then (plan1, Inr ()) else plan_remove_orphaned codec s p pairing plan1)"

text \<open>The directory that holds the file, when it is to be created.\<close>

definition missing_parent :: "win_os \<Rightarrow> path \<Rightarrow> path option" where
  "missing_parent s p =
     (case path_parent p of None \<Rightarrow> None | Some d \<Rightarrow> if d \<noteq> [] \<and> \<not> fs_exists s d then Some d else None)"

definition plan_missing_parent :: "win_os \<Rightarrow> path \<Rightarrow> reconcile_plan \<Rightarrow> reconcile_plan" where
  "plan_missing_parent s p plan = (case missing_parent s p of None \<Rightarrow> plan | Some d \<Rightarrow> plan_ensure_private_dir d plan)"

definition copilot_plan ::
  "json_codec \<Rightarrow> win_os \<Rightarrow> path \<Rightarrow> llm_proxy_context option \<Rightarrow> (copilot_config \<times> llm_gateway_config option) option
   \<Rightarrow> reconcile_plan \<Rightarrow> reconcile_plan \<times> (anyhow + unit)" where
  "copilot_plan codec s p proxy configured plan =
     (let sp = state_path p
      in case configured of
        Some (config, Some gateway) \<Rightarrow>
          (case proxy of
             None \<Rightarrow>
               (case fail_closed_without_proxy gateway (copilot_in_place codec s p) plan of
                  (plan1, True) \<Rightarrow> (plan1, Inr ())
                | (plan1, False) \<Rightarrow> copilot_remove codec s p sp None (set_inactive fail_open_reason plan1))
           | Some px \<Rightarrow>
               (let managed = copilot_managed_document config (px_address px) (px_pairing px)
                in plan_seq (foreign_managed_entry codec s p sp managed plan) (\<lambda>foreign plan1.
                   case foreign of
                     Some reason \<Rightarrow>
                       (plan_record s copilot_name (''providers ('' @ reason @ '')'') ''conflict'' p plan1, Inr ())
                   | None \<Rightarrow>
                       plan_merge_with codec s p sp managed False ''providers'' copilot_name copilot_options
                         (plan_missing_parent s p plan1))))
      | _ \<Rightarrow> copilot_remove codec s p sp (map_option px_pairing proxy) plan)"

definition copilot_cli :: "json_codec \<Rightarrow> path option \<Rightarrow> provider" where
  "copilot_cli codec path =
     \<lparr>pv_id = ''copilot'',
      pv_plan = (\<lambda>ctx config s.
        let configured = with_gateway config cp_use_llm_gateway (pg_copilot (dc_programs config))
        in or_skip (skip_unless ctx UserScope (configured \<noteq> None) copilot_name)
             (case path of
                None \<Rightarrow> if configured \<noteq> None then Inl [copilot_name @ '' user configuration path is unavailable''] else Inr empty_plan
              | Some p \<Rightarrow> finish_plan (copilot_plan codec s p (rc_llm_proxy ctx) configured empty_plan)))\<rparr>"

section \<open>The contract\<close>

context plan_steps
begin

lemma keeps_read_object: "keeps plan \<Longrightarrow> keeps (fst (read_object codec s p plan))"
  unfolding read_object_def by (intro keeps_seq keeps_read_existing) simp_all

lemma keeps_in_place: "keeps plan \<Longrightarrow> keeps (fst (copilot_in_place codec s p plan))"
  using keeps_read_object [of plan codec p]
  by (auto simp: copilot_in_place_def split: prod.splits sum.splits option.splits)

lemma keeps_foreign: "keeps plan \<Longrightarrow> keeps (fst (foreign_managed_entry codec s p sp managed plan))"
  unfolding foreign_managed_entry_def by (auto intro!: keeps_seq keeps_managed_after keeps_read_object)

lemma keeps_remove_orphaned:
  assumes "p \<in> own" and "keeps plan"
  shows "keeps (fst (plan_remove_orphaned codec s p pairing plan))"
proof -
  obtain plan1 r where rd: "read_object codec s p plan = (plan1, r)" by force
  then have k1: "keeps plan1" using keeps_read_object [OF assms(2), of codec p] by simp
  obtain plan2 r2 where rd2: "plan_read s p plan1 = (plan2, r2)" by force
  then have k2: "keeps plan2" using read_step [OF k1, of p] by simp
  show ?thesis
    using k1 k2 assms(1)
    by (auto simp: plan_remove_orphaned_def rd rd2 Let_def intro!: keeps_seq write_step diff_step
        split: sum.split option.split)
qed

lemma keeps_copilot_remove:
  "p \<in> own \<Longrightarrow> sp \<in> own \<Longrightarrow> keeps plan \<Longrightarrow> keeps (fst (copilot_remove codec s p sp pairing plan))"
  unfolding copilot_remove_def by (auto intro!: keeps_seq keeps_remove_with keeps_remove_orphaned)

lemma keeps_missing_parent:
  "set_option (missing_parent s p) \<subseteq> dirs \<Longrightarrow> keeps plan \<Longrightarrow> keeps (plan_missing_parent s p plan)"
  by (auto simp: plan_missing_parent_def intro: dir_step split: option.split)

lemma keeps_copilot_plan:
  assumes "p \<in> own" and "state_path p \<in> own" and "set_option (missing_parent s p) \<subseteq> dirs" and "keeps plan"
  shows "keeps (fst (copilot_plan codec s p proxy configured plan))"
proof (cases "\<exists>c gw. configured = Some (c, Some gw)")
  case False
  then show ?thesis
    using keeps_copilot_remove [OF assms(1,2,4)] by (auto simp: copilot_plan_def Let_def split: option.splits)
next
  case True
  then obtain c gw where c: "configured = Some (c, Some gw)" by blast
  obtain plan1 b where fc: "fail_closed_without_proxy gw (copilot_in_place codec s p) plan = (plan1, b)" by force
  have "keeps plan1" using keeps_in_place assms(4) fc by (rule keeps_failed_closed)
  with assms show ?thesis
    by (cases proxy; cases b)
      (auto simp: copilot_plan_def c fc Let_def intro!: keeps_copilot_remove inactive_step keeps_seq keeps_foreign
        keeps_record keeps_merge_with keeps_missing_parent split: option.split)
qed

end

definition copilot_files :: "path option \<Rightarrow> path set" where
  "copilot_files path = (\<Union>p \<in> set_option path. {p, state_path p})"

lemma path_parent_prefix: "path_parent p = Some d \<Longrightarrow> prefix d p"
  by (auto simp: path_parent_def prefixeq_butlast split: if_splits component.splits)

lemma read_below_missing_parent:
  assumes "read_existing s ctx p (plan_missing_parent s p plan) = (plan', Inr c)" and "dirs_read plan"
  shows "dirs_read plan'"
proof (cases "missing_parent s p")
  case None
  then show ?thesis
    using assms dir_reads.keeps_read_existing [of plan s ctx p] by (simp add: plan_missing_parent_def)
next
  case (Some d)
  then have "prefix d p" by (auto simp: missing_parent_def split: option.splits if_splits dest: path_parent_prefix)
  with assms Some show ?thesis
    by (auto simp: plan_missing_parent_def plan_ensure_private_dir_def intro: dirs_read_before [where ds = "rp_private_dirs plan"])
qed

text \<open>A merge into a file whose directory is planned first.\<close>

lemma merge_below_missing_parent:
  assumes "plan_merge_with codec s p sp managed legacy desc n options (plan_missing_parent s p plan) = (plan', Inr ())"
    and "dirs_read plan"
  shows "dirs_read plan'"
proof -
  obtain plan1 c where rd: "read_existing s (''read '' @ n @ '' from '') p (plan_missing_parent s p plan) = (plan1, Inr c)"
    and merge: "plan_merge_with codec s p sp managed legacy desc n options plan1 = (plan', Inr ())"
    using assms(1) by (rule merge_after_read)
  have "dirs_read plan1" using rd assms(2) by (rule read_below_missing_parent)
  with dir_reads.keeps_merge_with [OF UNIV_I UNIV_I, of plan1 codec s p sp managed legacy desc n options] merge
  show ?thesis by simp
qed

lemma copilot_plan_dirs:
  assumes "copilot_plan codec s p proxy configured empty_plan = (plan, Inr ())"
  shows "dirs_read plan"
proof (cases "\<exists>c gw px. configured = Some (c, Some gw) \<and> proxy = Some px")
  case True
  then obtain c gw px where conf: "configured = Some (c, Some gw)" "proxy = Some px" by blast
  let ?managed = "copilot_managed_document c (px_address px) (px_pairing px)"
  obtain plan1 foreign where f: "foreign_managed_entry codec s p (state_path p) ?managed empty_plan = (plan1, Inr foreign)"
    and rest: "(case foreign of
       Some reason \<Rightarrow> (plan_record s copilot_name (''providers ('' @ reason @ '')'') ''conflict'' p plan1, Inr ())
     | None \<Rightarrow> plan_merge_with codec s p (state_path p) ?managed False ''providers'' copilot_name copilot_options
                (plan_missing_parent s p plan1)) = (plan, Inr ())"
    using assms unfolding copilot_plan_def Let_def conf by (auto dest!: plan_seq_Inr)
  have "dirs_read plan1"
    using dir_reads.keeps_foreign [OF dirs_read_empty(1), of codec s p "state_path p" ?managed] f by simp
  with rest show ?thesis
    by (auto intro: merge_below_missing_parent dir_reads.keeps_record split: option.splits)
next
  case False
  note remove = dir_reads.keeps_copilot_remove [OF UNIV_I UNIV_I]
  have "dirs_read (fst (copilot_plan codec s p proxy configured empty_plan))"
  proof (cases "\<exists>c gw. configured = Some (c, Some gw)")
    case True
    with False obtain c gw where conf: "configured = Some (c, Some gw)" "proxy = None" by (cases proxy) auto
    obtain plan1 b where fc: "fail_closed_without_proxy gw (copilot_in_place codec s p) empty_plan = (plan1, b)" by force
    have "dirs_read plan1"
      using dir_reads.keeps_in_place dirs_read_empty(1) fc by (rule dir_reads.keeps_failed_closed)
    with conf fc remove show ?thesis
      by (cases b) (simp_all add: copilot_plan_def Let_def dir_reads.inactive_step)
  next
    case False
    with remove show ?thesis by (auto simp: copilot_plan_def Let_def split: option.splits)
  qed
  with assms show ?thesis by simp
qed

interpretation copilot_contract: managed_provider "copilot_cli codec path" "copilot_files path" for codec path
proof
  fix ctx config s plan
  assume "pv_plan (copilot_cli codec path) ctx config s = Inr plan"
  then consider (quiet) "planned s plan" "confined s {} {} plan" "dirs_read plan"
    | (planned) p configured where "path = Some p"
        "copilot_plan codec s p (rc_llm_proxy ctx) configured empty_plan = (plan, Inr ())"
    by (auto simp: copilot_cli_def or_skip_def finish_plan_Inr Let_def planned_empty split: option.splits if_splits
        dest: skip_unless_confined)
  then have "proper_plan s plan \<and> fc_path ` set (rp_operations plan) \<subseteq> copilot_files path"
  proof cases
    case quiet
    then show ?thesis by (auto intro: proper_confined simp: confined_def)
  next
    case planned
    let ?own = "{p, state_path p}" and ?dirs = "set_option (missing_parent s p)"
    have "planned s plan"
      using planning.keeps_copilot_plan [of p s empty_plan codec "rc_llm_proxy ctx" configured] planned planned_empty by simp
    moreover have "confined s ?own ?dirs plan"
      using confinement.keeps_copilot_plan [of p ?own s ?dirs empty_plan codec "rc_llm_proxy ctx" configured] planned by simp
    ultimately show ?thesis
      using copilot_plan_dirs [OF planned(2)] planned(1)
      by (auto intro: proper_confined simp: confined_def copilot_files_def)
  qed
  then show "proper_plan s plan" and "fc_path ` set (rp_operations plan) \<subseteq> copilot_files path" by simp_all
qed

end
