(* ===== verification/Provider_Vscode.thy ===== *)
theory Provider_Vscode
  imports Provider_Copilot
begin

text \<open>
  VS Code (\<^verbatim>\<open>provider/vscode\<close>): the vendor entry of the user's \<^verbatim>\<open>chatLanguageModels.json\<close>
  (\<^verbatim>\<open>reconcile.rs\<close>) and the two keys of the user's \<^verbatim>\<open>settings.json\<close> (\<^verbatim>\<open>settings.rs\<close>). The settings file is
  edited in place through the syntax tree of the \<^verbatim>\<open>jsonc-parser\<close> crate: its operations are the record
  \<open>cst_lib\<close> over an arbitrary type of trees, a parameter of the definitions.
\<close>

section \<open>Chat language models\<close>

definition vscode_vendor :: string where
  "vscode_vendor = ''agentdesktop''"

definition vscode_managed_document :: "vscode_config \<Rightarrow> socket_addr \<Rightarrow> string \<Rightarrow> json" where
  "vscode_managed_document config listen pairing =
     (let pointed = map_object (\<lambda>m.
            om_insert ''requestHeaders'' (json_object [(pairing_header, String pairing)])
              (om_insert ''url'' (String (''http://'' @ socket_addr_display listen @ ''/vscode-copilot/v1/chat/completions'')) m))
      in Array [json_object
           [(''name'', String vscode_vendor), (''vendor'', String ''customendpoint''), (''apiKey'', String ''unused''),
            (''apiType'', String ''chat-completions''), (''models'', Array (map pointed (vscode_model_documents config)))]])"

definition vscode_options :: merge_options where
  "vscode_options =
     default_merge_options\<lparr>mo_mode := 0x180, mo_keyed_arrays := [\<lparr>ka_field = [], ka_keys = [''name'']\<rparr>], mo_redact_diff := True\<rparr>"

definition read_array ::
  "json_codec \<Rightarrow> win_os \<Rightarrow> path \<Rightarrow> reconcile_plan \<Rightarrow> reconcile_plan \<times> (anyhow + json list option)" where
  "read_array codec s p plan =
     plan_seq (read_existing s ''read VS Code chat language models from '' p plan) (\<lambda>contents plan1.
     (plan1, Inr (Option.bind (Option.bind contents (from_slice codec)) as_array)))"

definition vendor_paired :: "string option \<Rightarrow> json \<Rightarrow> bool" where
  "vendor_paired v vendor =
     list_ex (\<lambda>model. let header = index_field (index_field model ''requestHeaders'') pairing_header
                      in case v of Some x \<Rightarrow> header = String x | None \<Rightarrow> header \<noteq> Null)
       (case as_array (index_field vendor ''models'') of None \<Rightarrow> [] | Some ms \<Rightarrow> ms)"

definition is_vendor :: "json \<Rightarrow> bool" where
  "is_vendor vendor \<longleftrightarrow> index_field vendor ''name'' = String vscode_vendor"

definition vscode_in_place :: "json_codec \<Rightarrow> win_os \<Rightarrow> path \<Rightarrow> reconcile_plan \<Rightarrow> reconcile_plan \<times> bool" where
  "vscode_in_place codec s p plan =
     (case read_array codec s p plan of
        (plan1, Inr (Some current)) \<Rightarrow> (plan1, list_ex (\<lambda>v. is_vendor v \<and> vendor_paired None v) current)
      | (plan1, _) \<Rightarrow> (plan1, False))"

definition vscode_foreign_entry ::
  "json_codec \<Rightarrow> win_os \<Rightarrow> path \<Rightarrow> path \<Rightarrow> reconcile_plan \<Rightarrow> reconcile_plan \<times> (anyhow + string option)" where
  "vscode_foreign_entry codec s p sp plan =
     plan_seq (managed_after codec s sp ''VS Code'' plan) (\<lambda>after plan1.
     if after \<noteq> None then (plan1, Inr None)
     else plan_seq (read_array codec s p plan1) (\<lambda>current plan2.
     (plan2, Inr (case current of
        None \<Rightarrow> None
      | Some vendors \<Rightarrow>
          if list_ex (\<lambda>v. is_vendor v \<and> \<not> vendor_paired None v) vendors
          then Some (''vendor entry '' @ vscode_vendor @ '' exists but was not written by agentdesktop'') else None))))"

definition vscode_remove_orphaned ::
  "json_codec \<Rightarrow> win_os \<Rightarrow> path \<Rightarrow> string option \<Rightarrow> reconcile_plan \<Rightarrow> reconcile_plan \<times> (anyhow + unit)" where
  "vscode_remove_orphaned codec s p pairing plan =
     (case read_array codec s p plan of
        (plan1, Inr (Some current)) \<Rightarrow>
          (let remaining = filter (\<lambda>v. \<not> (is_vendor v \<and> vendor_paired pairing v)) current
           in if length remaining = length current then (plan1, Inr ())
              else
                (case plan_read s p plan1 of
                   (plan2, Inl e) \<Rightarrow> (plan2, Inl [io_message e])
                 | (plan2, Inr existing) \<Rightarrow>
                     plan_seq (plan2, serialized ''serialize VS Code chat language models'' (to_vec_pretty codec (Array remaining)))
                       (\<lambda>contents plan3.
                     if contents = existing then (plan3, Inr ())
                     else plan_write_file s p contents (case current_mode s p of None \<Rightarrow> 0x180 | Some m \<Rightarrow> m)
                            (plan_record_diff ''VS Code'' ''chat language models'' ''update'' p None None plan3))))
      | (plan1, _) \<Rightarrow> (plan1, Inr ()))"

definition vscode_remove ::
  "json_codec \<Rightarrow> win_os \<Rightarrow> path \<Rightarrow> path \<Rightarrow> string option \<Rightarrow> reconcile_plan \<Rightarrow> reconcile_plan \<times> (anyhow + unit)" where
  "vscode_remove codec s p sp pairing plan =
     plan_seq (plan_remove_with codec s p sp ''chat language models'' ''VS Code'' vscode_options plan) (\<lambda>removed plan1.
     if removed then (plan1, Inr ()) else vscode_remove_orphaned codec s p pairing plan1)"

definition chat_models_plan ::
  "json_codec \<Rightarrow> win_os \<Rightarrow> path \<Rightarrow> llm_proxy_context option \<Rightarrow> (vscode_config \<times> llm_gateway_config option) option
   \<Rightarrow> reconcile_plan \<Rightarrow> reconcile_plan \<times> (anyhow + unit)" where
  "chat_models_plan codec s p proxy configured plan =
     (let sp = state_path p
      in case configured of
        Some (config, Some gateway) \<Rightarrow>
          (case proxy of
             None \<Rightarrow>
               (case fail_closed_without_proxy gateway (vscode_in_place codec s p) plan of
                  (plan1, True) \<Rightarrow> (plan1, Inr ())
                | (plan1, False) \<Rightarrow> vscode_remove codec s p sp None (set_inactive fail_open_reason plan1))
           | Some px \<Rightarrow>
               plan_seq (vscode_foreign_entry codec s p sp plan) (\<lambda>foreign plan1.
               case foreign of
                 Some reason \<Rightarrow>
                   (plan_record s ''VS Code'' (''chat language models ('' @ reason @ '')'') ''conflict'' p plan1, Inr ())
               | None \<Rightarrow>
                   plan_merge_with codec s p sp (vscode_managed_document config (px_address px) (px_pairing px)) False
                     ''chat language models'' ''VS Code'' vscode_options (plan_missing_parent s p plan1)))
      | _ \<Rightarrow> vscode_remove codec s p sp (map_option px_pairing proxy) plan)"

section \<open>The settings file\<close>

definition override_key :: string where
  "override_key = ''github.copilot.advanced.debug.overrideCapiUrl''"

definition capi_alias_key :: string where
  "capi_alias_key = ''github.copilot.internal.capiUrl''"

definition ignored_settings_key :: string where
  "ignored_settings_key = ''settingsSync.ignoredSettings''"

definition override_url :: "socket_addr \<Rightarrow> string \<Rightarrow> string" where
  "override_url listen pairing = ''http://'' @ socket_addr_display listen @ capi_route @ ''/'' @ pairing"

datatype settings_conflict = Parse | NotAnObject | IgnoredNotArray | DuplicateKey

record settings_state =
  ss_version :: "32 word"
  ss_created :: bool
  ss_override_before :: "json option"
  ss_added_ignored :: "string list"
  ss_ignored_created :: bool

datatype removal = RemovalUnchanged | RemovalWrite string | RemovalDelete

text \<open>
  The syntax tree of the crate: parsing with VS Code's options, the root object (created in a document
  without a value), the names of its properties, a property's value and the elements of an array
  property as JSON values (\<^verbatim>\<open>to_serde_value\<close>), the edits, and printing.
\<close>

record 'd cst_lib =
  ct_parse :: "string \<Rightarrow> 'd option"
  ct_object :: "'d \<Rightarrow> 'd option"
  ct_names :: "'d \<Rightarrow> string list"
  ct_value :: "'d \<Rightarrow> string \<Rightarrow> json option"
  ct_elements :: "'d \<Rightarrow> string \<Rightarrow> json list option"
  ct_set :: "string \<Rightarrow> json \<Rightarrow> 'd \<Rightarrow> 'd"
  ct_insert :: "nat \<Rightarrow> string \<Rightarrow> json \<Rightarrow> 'd \<Rightarrow> 'd"
  ct_append :: "string \<Rightarrow> json \<Rightarrow> 'd \<Rightarrow> 'd"
  ct_remove :: "string \<Rightarrow> 'd \<Rightarrow> 'd"
  ct_push :: "string \<Rightarrow> json \<Rightarrow> 'd \<Rightarrow> 'd"
  ct_retain :: "string \<Rightarrow> (json \<Rightarrow> bool) \<Rightarrow> 'd \<Rightarrow> 'd"
  ct_print :: "'d \<Rightarrow> string"

definition ct_has :: "'d cst_lib \<Rightarrow> 'd \<Rightarrow> string \<Rightarrow> bool" where
  "ct_has cst d k \<longleftrightarrow> k \<in> set (ct_names cst d)"

definition parse_object :: "'d cst_lib \<Rightarrow> string \<Rightarrow> settings_conflict + 'd" where
  "parse_object cst t =
     (case ct_parse cst t of
        None \<Rightarrow> Inl Parse
      | Some tree \<Rightarrow>
          (case ct_object cst tree of
             None \<Rightarrow> Inl NotAnObject
           | Some d \<Rightarrow>
               if list_ex (\<lambda>k. count_list (ct_names cst d) k > 1) [override_key, ignored_settings_key] then Inl DuplicateKey
               else if ct_has cst d ignored_settings_key \<and> ct_elements cst d ignored_settings_key = None
               then Inl IgnoredNotArray
               else Inr d))"

definition bom :: string where
  "bom = [CHR 0xEF, CHR 0xBB, CHR 0xBF]"

definition split_bom :: "string \<Rightarrow> string \<times> string" where
  "split_bom t = (case strip_prefix bom t of Some rest \<Rightarrow> (bom, rest) | None \<Rightarrow> ([], t))"

text \<open>\<^verbatim>\<open>SocketAddr::from_str\<close>, as far as the address is asked for.\<close>

definition read_port :: "string \<Rightarrow> bool" where
  "read_port s =
     (case s of
        c # rest \<Rightarrow> c = CHR '':'' \<and> (case read_number 10 (length rest) True (Some 65536) rest of Some (_, []) \<Rightarrow> True | _ \<Rightarrow> False)
      | [] \<Rightarrow> False)"

definition read_scope :: "string \<Rightarrow> string" where
  "read_scope s =
     (case s of
        c # rest \<Rightarrow>
          if c = CHR ''%'' then (case read_number 10 (length rest) True (Some (2 ^ 32)) rest of Some (_, r) \<Rightarrow> r | None \<Rightarrow> s) else s
      | [] \<Rightarrow> s)"

definition parse_socket_ip :: "string \<Rightarrow> ip_addr option" where
  "parse_socket_ip s =
     (case read_ipv4 s of
        Some (o4, rest) \<Rightarrow>
          if read_port rest then Some (V4 (of_nat (o4 ! 0)) (of_nat (o4 ! 1)) (of_nat (o4 ! 2)) (of_nat (o4 ! 3))) else None
      | None \<Rightarrow>
          (case strip_prefix ''['' s of
             None \<Rightarrow> None
           | Some inner \<Rightarrow>
               (case read_ipv6 inner of
                  None \<Rightarrow> None
                | Some (gs, rest) \<Rightarrow>
                    (case strip_prefix '']'' (read_scope rest) of
                       None \<Rightarrow> None
                     | Some port \<Rightarrow>
                         if read_port port then Some (V6 (of_nat (foldl (\<lambda>a g. a * 65536 + g) 0 gs))) else None))))"

definition is_daemon_capi_url :: "string \<Rightarrow> bool" where
  "is_daemon_capi_url v =
     (case strip_prefix ''http://'' v of
        None \<Rightarrow> False
      | Some rest \<Rightarrow>
          (let authority = takeWhile (\<lambda>c. c \<noteq> CHR ''/'') rest;
               tail = dropWhile (\<lambda>c. c \<noteq> CHR ''/'') rest;
               loopback = ((case parse_socket_ip authority of None \<Rightarrow> False | Some ip \<Rightarrow> ip_is_loopback ip)
                 \<or> (case rsplit_once (CHR '':'') authority of None \<Rightarrow> False | Some (host, _) \<Rightarrow> eq_ignore_ascii_case host ''localhost''))
           in loopback
              \<and> (case strip_prefix capi_route tail of
                   None \<Rightarrow> False
                 | Some t \<Rightarrow> prefix ''/'' t \<and> length t > 1)))"

text \<open>The override with its value as a string, if it is one, and the entries the daemon adds to the ignore list.\<close>

definition override_string :: "'d cst_lib \<Rightarrow> 'd \<Rightarrow> string option" where
  "override_string cst d = Option.bind (ct_value cst d override_key) as_str"

abbreviation own_entries :: "string list" where
  "own_entries \<equiv> [override_key, capi_alias_key]"

definition is_own_entry :: "json \<Rightarrow> bool" where
  "is_own_entry v \<longleftrightarrow> v = String override_key \<or> v = String capi_alias_key"

text \<open>Setting the override: in place, or at the top of the object; the number of properties inserted.\<close>

definition put_override :: "'d cst_lib \<Rightarrow> string \<Rightarrow> 'd \<Rightarrow> 'd \<times> nat" where
  "put_override cst url d =
     (if ct_has cst d override_key then (ct_set cst override_key (String url) d, 0)
      else (ct_insert cst 0 override_key (String url) d, 1))"

text \<open>Adding an entry to the ignore list when it is missing.\<close>

definition push_entry :: "'d cst_lib \<Rightarrow> string \<Rightarrow> 'd \<times> string list \<Rightarrow> 'd \<times> string list" where
  "push_entry cst entry st =
     (case st of (d, appended) \<Rightarrow>
        if list_ex (\<lambda>v. v = String entry) (case ct_elements cst d ignored_settings_key of None \<Rightarrow> [] | Some vs \<Rightarrow> vs)
        then (d, appended)
        else (ct_push cst ignored_settings_key (String entry) d, appended @ [entry]))"

definition put_ignored :: "'d cst_lib \<Rightarrow> nat \<Rightarrow> 'd \<Rightarrow> 'd \<times> string list" where
  "put_ignored cst inserted d =
     (if \<not> ct_has cst d ignored_settings_key
      then (ct_insert cst inserted ignored_settings_key (json_strings own_entries) d, own_entries)
      else fold (push_entry cst) own_entries (d, []))"

definition next_state :: "string \<Rightarrow> bool \<Rightarrow> json option \<Rightarrow> string list \<Rightarrow> bool \<Rightarrow> bool \<Rightarrow> settings_state option \<Rightarrow> settings_state" where
  "next_state url absent existing appended ignored_created only_ours state =
     (case state of
        Some previous \<Rightarrow>
          \<lparr>ss_version = 2, ss_created = (ss_created previous \<or> absent), ss_override_before = ss_override_before previous,
           ss_added_ignored = foldl (\<lambda>added e. if e \<in> set added then added else added @ [e]) (ss_added_ignored previous) appended,
           ss_ignored_created = (ss_ignored_created previous \<or> ignored_created)\<rparr>
      | None \<Rightarrow>
          (let ours = (case Option.bind existing as_str of None \<Rightarrow> False | Some v \<Rightarrow> v = url \<or> is_daemon_capi_url v)
           in \<lparr>ss_version = 2, ss_created = absent, ss_override_before = (if ours then None else existing),
               ss_added_ignored = (if ours then own_entries else appended),
               ss_ignored_created = (ignored_created \<or> (ours \<and> only_ours))\<rparr>))"

definition edit_settings ::
  "'d cst_lib \<Rightarrow> string option \<Rightarrow> string \<Rightarrow> settings_state option \<Rightarrow> settings_conflict + string \<times> settings_state" where
  "edit_settings cst t url state =
     (let (mark, body) = (case t of None \<Rightarrow> ([], None) | Some x \<Rightarrow> map_prod (\<lambda>b. b) Some (split_bom x));
          source = (case body of Some x \<Rightarrow> if \<not> blank x then x else ''{}'' @ [CHR 0x0A] | None \<Rightarrow> ''{}'' @ [CHR 0x0A])
      in case parse_object cst source of
        Inl e \<Rightarrow> Inl e
      | Inr d \<Rightarrow>
          (let existing = ct_value cst d override_key;
               (d1, inserted) = put_override cst url d;
               ignored_created = (\<not> ct_has cst d1 ignored_settings_key);
               (d2, appended) = put_ignored cst inserted d1;
               only_ours = (case ct_elements cst d2 ignored_settings_key of None \<Rightarrow> False | Some vs \<Rightarrow> list_all is_own_entry vs)
           in Inr (mark @ ct_print cst d2,
                   next_state url (body = None) existing appended ignored_created only_ours state)))"

function without_white :: "string \<Rightarrow> string" where
  "without_white [] = []"
| "without_white (c # s) = (case strip_white (c # s) of None \<Rightarrow> c # without_white s | Some t \<Rightarrow> without_white t)"
  by pat_completeness auto
termination
  by (relation "measure length") (auto dest: strip_white_shorter)

declare without_white.simps(2) [simp del]

text \<open>What a removal restores, which entries it takes out, and whether an emptied list goes; \<^const>\<open>None\<close> when nothing is ours.\<close>

definition removal_goal ::
  "'d cst_lib \<Rightarrow> 'd \<Rightarrow> settings_state option \<Rightarrow> string option \<Rightarrow> (json option \<times> string list \<times> bool) option" where
  "removal_goal cst d state own_url =
     (case state of
        Some st \<Rightarrow> Some (ss_override_before st, ss_added_ignored st, ss_ignored_created st)
      | None \<Rightarrow>
          (case override_string cst d of
             Some v \<Rightarrow> if own_url = Some v \<or> is_daemon_capi_url v then Some (None, own_entries, True) else None
           | None \<Rightarrow> None))"

definition restore_override :: "'d cst_lib \<Rightarrow> json option \<Rightarrow> 'd \<Rightarrow> 'd" where
  "restore_override cst restore d =
     (case (ct_has cst d override_key, restore) of
        (True, Some v) \<Rightarrow> ct_set cst override_key v d
      | (True, None) \<Rightarrow> ct_remove cst override_key d
      | (False, Some v) \<Rightarrow> ct_append cst override_key v d
      | (False, None) \<Rightarrow> d)"

definition drop_entries :: "'d cst_lib \<Rightarrow> string list \<Rightarrow> bool \<Rightarrow> 'd \<Rightarrow> 'd" where
  "drop_entries cst entries drop_empty d =
     (if ct_elements cst d ignored_settings_key = None then d
      else
        (let d1 = ct_retain cst ignored_settings_key (\<lambda>v. v \<notin> set (map String entries)) d
         in if drop_empty \<and> ct_elements cst d1 ignored_settings_key = Some [] \<and> ct_has cst d1 ignored_settings_key
            then ct_remove cst ignored_settings_key d1 else d1))"

definition remove_settings ::
  "'d cst_lib \<Rightarrow> string \<Rightarrow> settings_state option \<Rightarrow> string option \<Rightarrow> settings_conflict + removal" where
  "remove_settings cst t state own_url =
     (let (mark, body) = split_bom t;
          created = (case state of None \<Rightarrow> False | Some st \<Rightarrow> ss_created st)
      in if blank body then Inr (if created then RemovalDelete else RemovalUnchanged)
         else
           case parse_object cst body of
             Inl e \<Rightarrow> if state \<noteq> None then Inl e else Inr RemovalUnchanged
           | Inr d \<Rightarrow>
               (case removal_goal cst d state own_url of
                  None \<Rightarrow> Inr RemovalUnchanged
                | Some (restore, entries, drop_empty) \<Rightarrow>
                    (let printed = ct_print cst (drop_entries cst entries drop_empty (restore_override cst restore d))
                     in if created \<and> without_white printed = ''{}'' then Inr RemovalDelete
                        else Inr (if mark @ printed = t then RemovalUnchanged else RemovalWrite (mark @ printed)))))"

section \<open>The sidecar\<close>

text \<open>
  \<^verbatim>\<open>from_value::<SettingsState>\<close>: the fields by their camel-case names, no others; a present \<^verbatim>\<open>null\<close> override
  is kept as such.
\<close>

definition state_fields :: "string list" where
  "state_fields = [''version'', ''created'', ''overrideBefore'', ''addedIgnored'', ''ignoredCreated'']"

definition as_strings :: "json \<Rightarrow> string list option" where
  "as_strings v = Option.bind (as_array v) (\<lambda>xs. collect_options (map as_str xs))"

definition as_u32 :: "json \<Rightarrow> 32 word option" where
  "as_u32 v = (case v of Number (PosInt n) \<Rightarrow> if unat n < 2 ^ 32 then Some (of_nat (unat n)) else None | _ \<Rightarrow> None)"

definition decode_state :: "entries \<Rightarrow> settings_state option" where
  "decode_state m =
     (if \<not> set (om_keys m) \<subseteq> set state_fields then None
      else
        (case (Option.bind (om_get m ''version'') as_u32, Option.bind (om_get m ''created'') as_bool,
               Option.bind (om_get m ''addedIgnored'') as_strings, Option.bind (om_get m ''ignoredCreated'') as_bool) of
           (Some version, Some created, Some added, Some ignored) \<Rightarrow>
             Some \<lparr>ss_version = version, ss_created = created, ss_override_before = om_get m ''overrideBefore'',
                   ss_added_ignored = added, ss_ignored_created = ignored\<rparr>
         | _ \<Rightarrow> None))"

text \<open>\<^verbatim>\<open>LegacyMergeState\<close>: a struct is also read from an array of its fields.\<close>

definition decode_legacy :: "json \<Rightarrow> (bool \<times> json) option" where
  "decode_legacy v =
     (case v of
        Object m \<Rightarrow>
          (case (Option.bind (om_get m ''created'') as_bool, om_get m ''before'') of
             (Some created, Some before) \<Rightarrow> Some (created, before) | _ \<Rightarrow> None)
      | Array [Bool created, before] \<Rightarrow> Some (created, before)
      | _ \<Rightarrow> None)"

definition upgrade_state :: "bool \<Rightarrow> json \<Rightarrow> settings_state" where
  "upgrade_state created before =
     (let before_ignored = get_field before ignored_settings_key;
          held = (\<lambda>e. case Option.bind before_ignored as_array of None \<Rightarrow> False | Some vs \<Rightarrow> String e \<in> set vs)
      in \<lparr>ss_version = 2, ss_created = created, ss_override_before = get_field before override_key,
          ss_added_ignored = filter (\<lambda>e. \<not> held e) own_entries, ss_ignored_created = (before_ignored = None)\<rparr>)"

definition read_settings_state :: "json_codec \<Rightarrow> bytes \<Rightarrow> settings_state option" where
  "read_settings_state codec b =
     (case from_slice codec b of
        None \<Rightarrow> None
      | Some v \<Rightarrow>
          if get_field v ''version'' \<noteq> None
          then (case Option.bind (as_object v) decode_state of
                  Some st \<Rightarrow> if ss_version st = 2 then Some st else None
                | None \<Rightarrow> None)
          else map_option (\<lambda>(created, before). upgrade_state created before) (decode_legacy v))"

text \<open>
  The libraries of the settings file: the JSON codec with the place of a syntax error, the syntax tree,
  and the printer of a sidecar.
\<close>

record 'd settings_lib =
  sl_codec :: json_codec
  sl_error_at :: "bytes \<Rightarrow> (string \<times> string) option"
  sl_cst :: "'d cst_lib"
  sl_print_state :: "settings_state \<Rightarrow> string + bytes"

definition unreadable_sidecar :: "'d settings_lib \<Rightarrow> path \<Rightarrow> bytes \<Rightarrow> anyhow" where
  "unreadable_sidecar lib sp b =
     [''parse VS Code settings state from '' @ path_display sp @ '': not a valid settings state''
      @ (case sl_error_at lib b of None \<Rightarrow> [] | Some (line, column) \<Rightarrow> '' (line '' @ line @ '', column '' @ column @ '')'')
      @ ''; fix it, or delete it (the override's earlier value is then not restored)'']"

definition read_sidecar ::
  "'d settings_lib \<Rightarrow> win_os \<Rightarrow> path \<Rightarrow> reconcile_plan
   \<Rightarrow> reconcile_plan \<times> (anyhow + bytes option \<times> settings_state option)" where
  "read_sidecar lib s sp plan =
     plan_seq (read_existing s ''read '' sp plan) (\<lambda>contents plan1.
     (plan1,
      case contents of
        None \<Rightarrow> Inr (None, None)
      | Some b \<Rightarrow>
          (let body = (case strip_prefix bom b of Some rest \<Rightarrow> rest | None \<Rightarrow> b)
           in case read_settings_state (sl_codec lib) body of
             Some st \<Rightarrow> Inr (Some b, Some st)
           | None \<Rightarrow> Inl (unreadable_sidecar lib sp body))))"

section \<open>Planning the settings\<close>

definition settings_conflict_plan :: "win_os \<Rightarrow> path \<Rightarrow> reconcile_plan \<Rightarrow> reconcile_plan \<times> (anyhow + unit)" where
  "settings_conflict_plan s p plan = (plan_record s ''VS Code'' ''settings'' ''conflict'' p plan, Inr ())"

definition override_in_place :: "'d settings_lib \<Rightarrow> win_os \<Rightarrow> path \<Rightarrow> reconcile_plan \<Rightarrow> reconcile_plan \<times> bool" where
  "override_in_place lib s p plan =
     (case read_existing s ''read '' p plan of
        (plan1, Inr (Some b)) \<Rightarrow>
          (plan1,
           valid_utf8 b
           \<and> (case parse_object (sl_cst lib) (snd (split_bom b)) of
                Inl e \<Rightarrow> False
              | Inr d \<Rightarrow> (case override_string (sl_cst lib) d of None \<Rightarrow> False | Some v \<Rightarrow> is_daemon_capi_url v)))
      | (plan1, _) \<Rightarrow> (plan1, False))"

text \<open>What the removal of the managed keys does to the file, and the sidecar going with it.\<close>

definition removal_of :: "'d settings_lib \<Rightarrow> bytes \<Rightarrow> settings_state option \<Rightarrow> string option \<Rightarrow> settings_conflict + removal" where
  "removal_of lib existing state own_url =
     (if valid_utf8 existing then remove_settings (sl_cst lib) existing state own_url
      else if state \<noteq> None then Inl Parse else Inr RemovalUnchanged)"

definition remove_sidecar :: "win_os \<Rightarrow> path \<Rightarrow> bytes option \<Rightarrow> reconcile_plan \<Rightarrow> reconcile_plan \<times> (anyhow + unit)" where
  "remove_sidecar s sp side plan =
     (if side = None then (plan, Inr ())
      else case plan_remove_file s sp plan of
        (plan1, Inl e) \<Rightarrow> (plan1, Inl [''remove '' @ path_display sp, io_message e])
      | (plan1, Inr _) \<Rightarrow> (plan1, Inr ()))"

definition perform_removal ::
  "win_os \<Rightarrow> path \<Rightarrow> bytes option \<Rightarrow> removal \<Rightarrow> reconcile_plan \<Rightarrow> reconcile_plan \<times> (anyhow + unit)" where
  "perform_removal s p side r plan =
     (case r of
        RemovalUnchanged \<Rightarrow>
          (if side \<noteq> None then plan_record s ''VS Code'' ''settings'' ''unchanged'' p plan else plan, Inr ())
      | RemovalWrite t \<Rightarrow>
          plan_write_file s p t (case current_mode s p of None \<Rightarrow> 0x180 | Some m \<Rightarrow> m)
            (plan_record_diff ''VS Code'' ''settings'' ''update'' p None None plan)
      | RemovalDelete \<Rightarrow>
          (case plan_remove_file s p (plan_record s ''VS Code'' ''settings'' ''remove'' p plan) of
             (plan1, Inl e) \<Rightarrow> (plan1, Inl [''remove '' @ path_display p, io_message e])
           | (plan1, Inr _) \<Rightarrow> (plan1, Inr ())))"

definition settings_remove_read ::
  "'d settings_lib \<Rightarrow> win_os \<Rightarrow> path \<Rightarrow> path \<Rightarrow> llm_proxy_context option \<Rightarrow> bytes option \<times> settings_state option
   \<Rightarrow> reconcile_plan \<Rightarrow> reconcile_plan \<times> (anyhow + unit)" where
  "settings_remove_read lib s p sp proxy side_state plan =
     (case side_state of (side, state) \<Rightarrow>
      case read_existing s ''read '' p plan of
        (plan1, Inl e) \<Rightarrow> if state = None then (plan1, Inr ()) else (plan1, Inl e)
      | (plan1, Inr None) \<Rightarrow>
          remove_sidecar s sp side
            (if side \<noteq> None then plan_record s ''VS Code'' ''settings'' ''unchanged'' p plan1 else plan1)
      | (plan1, Inr (Some existing)) \<Rightarrow>
          (case removal_of lib existing state (map_option (\<lambda>px. override_url (px_address px) (px_pairing px)) proxy) of
             Inl e \<Rightarrow> settings_conflict_plan s p plan1
           | Inr r \<Rightarrow> plan_seq (perform_removal s p side r plan1) (\<lambda>_ plan2. remove_sidecar s sp side plan2)))"

definition settings_remove ::
  "'d settings_lib \<Rightarrow> win_os \<Rightarrow> path \<Rightarrow> path \<Rightarrow> llm_proxy_context option \<Rightarrow> reconcile_plan \<Rightarrow> reconcile_plan \<times> (anyhow + unit)" where
  "settings_remove lib s p sp proxy plan =
     plan_seq (read_sidecar lib s sp plan) (settings_remove_read lib s p sp proxy)"

text \<open>The edit: the sidecar is written first, then the file, each only when it changes or is too widely readable.\<close>

definition settings_write ::
  "'d settings_lib \<Rightarrow> win_os \<Rightarrow> path \<Rightarrow> path \<Rightarrow> bytes option \<Rightarrow> bytes option \<Rightarrow> string \<Rightarrow> settings_state
   \<Rightarrow> reconcile_plan \<Rightarrow> reconcile_plan \<times> (anyhow + unit)" where
  "settings_write lib s p sp existing side edited new_state plan =
     (let action = (case existing of
                      None \<Rightarrow> ''create''
                    | Some t \<Rightarrow> if t = edited \<and> \<not> grants_beyond s p 0x180 then ''unchanged'' else ''update'')
      in plan_seq (plan, serialized ''serialize VS Code settings state'' (sl_print_state lib new_state)) (\<lambda>b plan1.
         plan_seq (if side \<noteq> Some b \<or> grants_beyond s sp 0x180 then plan_write_file s sp b 0x180 plan1
                   else (plan1, Inr ())) (\<lambda>_ plan2.
         if action = ''unchanged'' then (plan_record s ''VS Code'' ''settings'' action p plan2, Inr ())
         else plan_write_file s p edited 0x180
                (plan_record_diff ''VS Code'' ''settings'' action p None None plan2))))"

definition settings_edit ::
  "'d settings_lib \<Rightarrow> win_os \<Rightarrow> path \<Rightarrow> path \<Rightarrow> string \<Rightarrow> reconcile_plan \<Rightarrow> reconcile_plan \<times> (anyhow + unit)" where
  "settings_edit lib s p sp url plan =
     plan_seq (read_existing s ''read '' p (plan_missing_parent s p plan)) (\<lambda>existing plan1.
     plan_seq (read_sidecar lib s sp plan1) (\<lambda>side_state plan2.
     if \<not> none_or valid_utf8 existing then settings_conflict_plan s p plan2
     else
       case edit_settings (sl_cst lib) existing url (snd side_state) of
         Inl e \<Rightarrow> settings_conflict_plan s p plan2
       | Inr (edited, new_state) \<Rightarrow> settings_write lib s p sp existing (fst side_state) edited new_state plan2))"

definition settings_plan ::
  "'d settings_lib \<Rightarrow> win_os \<Rightarrow> path \<Rightarrow> llm_proxy_context option \<Rightarrow> (vscode_config \<times> llm_gateway_config option) option
   \<Rightarrow> reconcile_plan \<Rightarrow> reconcile_plan \<times> (anyhow + unit)" where
  "settings_plan lib s p proxy configured plan =
     (let sp = state_path p
      in case configured of
        Some (config, Some gateway) \<Rightarrow>
          if vs_copilot_chat config = GithubModels \<and> gw_proxy_url gateway \<noteq> None
          then (case proxy of
                  None \<Rightarrow>
                    (case fail_closed_without_proxy gateway (override_in_place lib s p) plan of
                       (plan1, True) \<Rightarrow> (plan1, Inr ())
                     | (plan1, False) \<Rightarrow> settings_remove lib s p sp None (set_inactive fail_open_reason plan1))
                | Some px \<Rightarrow> settings_edit lib s p sp (override_url (px_address px) (px_pairing px)) plan)
          else settings_remove lib s p sp proxy plan
      | _ \<Rightarrow> settings_remove lib s p sp proxy plan)"

definition own_models :: "(vscode_config \<times> 'g) option \<Rightarrow> (vscode_config \<times> 'g) option" where
  "own_models configured =
     (case configured of Some (c, g) \<Rightarrow> if vs_copilot_chat c = OwnModels then Some (c, g) else None | None \<Rightarrow> None)"

definition vscode_plan ::
  "'d settings_lib \<Rightarrow> win_os \<Rightarrow> path \<Rightarrow> path \<Rightarrow> llm_proxy_context option \<Rightarrow> (vscode_config \<times> llm_gateway_config option) option
   \<Rightarrow> reconcile_plan \<Rightarrow> reconcile_plan \<times> (anyhow + unit)" where
  "vscode_plan lib s chat_models settings proxy configured plan =
     plan_seq (chat_models_plan (sl_codec lib) s chat_models proxy (own_models configured) plan) (\<lambda>_ plan1.
     settings_plan lib s settings proxy configured plan1)"

definition vscode :: "'d settings_lib \<Rightarrow> path option \<Rightarrow> path option \<Rightarrow> provider" where
  "vscode lib chat_models_path settings_path =
     \<lparr>pv_id = ''vscode'',
      pv_plan = (\<lambda>ctx config s.
        let configured = with_gateway config vs_use_llm_gateway (pg_vscode (dc_programs config))
        in or_skip (skip_unless ctx UserScope (configured \<noteq> None) ''VS Code'')
             (case (chat_models_path, settings_path) of
                (Some chat_models, Some settings) \<Rightarrow>
                  finish_plan (vscode_plan lib s chat_models settings (rc_llm_proxy ctx) configured empty_plan)
              | _ \<Rightarrow> if configured \<noteq> None then Inl [''VS Code user configuration paths are unavailable''] else Inr empty_plan))\<rparr>"

section \<open>The contract\<close>

context plan_steps
begin

lemma keeps_read_array: "keeps plan \<Longrightarrow> keeps (fst (read_array codec s p plan))"
  unfolding read_array_def by (intro keeps_seq keeps_read_existing) simp_all

lemma keeps_vscode_in_place: "keeps plan \<Longrightarrow> keeps (fst (vscode_in_place codec s p plan))"
  using keeps_read_array [of plan codec p]
  by (auto simp: vscode_in_place_def split: prod.splits sum.splits option.splits)

lemma keeps_vscode_foreign: "keeps plan \<Longrightarrow> keeps (fst (vscode_foreign_entry codec s p sp plan))"
  unfolding vscode_foreign_entry_def by (auto intro!: keeps_seq keeps_managed_after keeps_read_array)

lemma keeps_vscode_orphaned:
  assumes "p \<in> own" and "keeps plan"
  shows "keeps (fst (vscode_remove_orphaned codec s p pairing plan))"
proof -
  obtain plan1 r where rd: "read_array codec s p plan = (plan1, r)" by force
  then have k1: "keeps plan1" using keeps_read_array [OF assms(2), of codec p] by simp
  obtain plan2 r2 where rd2: "plan_read s p plan1 = (plan2, r2)" by force
  then have k2: "keeps plan2" using read_step [OF k1, of p] by simp
  show ?thesis
    using k1 k2 assms(1)
    by (auto simp: vscode_remove_orphaned_def rd rd2 Let_def intro!: keeps_seq write_step diff_step
        split: sum.split option.split)
qed

lemma keeps_vscode_remove:
  "p \<in> own \<Longrightarrow> sp \<in> own \<Longrightarrow> keeps plan \<Longrightarrow> keeps (fst (vscode_remove codec s p sp pairing plan))"
  unfolding vscode_remove_def by (auto intro!: keeps_seq keeps_remove_with keeps_vscode_orphaned)

lemma keeps_chat_models_without_proxy:
  assumes "p \<in> own" and "state_path p \<in> own" and "keeps plan"
    and "proxy = None \<or> (\<forall>c gw. configured \<noteq> Some (c, Some gw))"
  shows "keeps (fst (chat_models_plan codec s p proxy configured plan))"
proof (cases "\<exists>c gw. configured = Some (c, Some gw)")
  case False
  then show ?thesis
    using keeps_vscode_remove [OF assms(1-3)] by (auto simp: chat_models_plan_def Let_def split: option.splits)
next
  case True
  with assms(4) obtain c gw where c: "configured = Some (c, Some gw)" "proxy = None" by blast
  obtain plan1 b where fc: "fail_closed_without_proxy gw (vscode_in_place codec s p) plan = (plan1, b)" by force
  have "keeps plan1" using keeps_vscode_in_place assms(3) fc by (rule keeps_failed_closed)
  with assms show ?thesis
    by (cases b) (auto simp: chat_models_plan_def c fc Let_def intro!: keeps_vscode_remove inactive_step)
qed

lemma keeps_chat_models_plan:
  assumes "p \<in> own" and "state_path p \<in> own" and "set_option (missing_parent s p) \<subseteq> dirs" and "keeps plan"
  shows "keeps (fst (chat_models_plan codec s p proxy configured plan))"
proof (cases "proxy = None \<or> (\<forall>c gw. configured \<noteq> Some (c, Some gw))")
  case True
  with assms show ?thesis by (intro keeps_chat_models_without_proxy)
next
  case False
  then obtain c gw px where c: "configured = Some (c, Some gw)" "proxy = Some px" by (cases proxy) auto
  with assms show ?thesis
    by (auto simp: chat_models_plan_def Let_def intro!: keeps_seq keeps_vscode_foreign keeps_record keeps_merge_with
        keeps_missing_parent split: option.split)
qed

lemma keeps_read_sidecar: "keeps plan \<Longrightarrow> keeps (fst (read_sidecar lib s sp plan))"
  unfolding read_sidecar_def by (intro keeps_seq keeps_read_existing) simp_all

lemma keeps_settings_conflict: "keeps plan \<Longrightarrow> keeps (fst (settings_conflict_plan s p plan))"
  by (simp add: settings_conflict_plan_def keeps_record)

lemma keeps_override_in_place: "keeps plan \<Longrightarrow> keeps (fst (override_in_place lib s p plan))"
  using keeps_read_existing [of plan "''read ''" p]
  by (auto simp: override_in_place_def split: prod.splits sum.splits option.splits)

lemma keeps_remove_sidecar: "sp \<in> own \<Longrightarrow> keeps plan \<Longrightarrow> keeps (fst (remove_sidecar s sp side plan))"
  using remove_step [of sp plan] by (auto simp: remove_sidecar_def split: prod.splits sum.splits)

lemma keeps_perform_removal: "p \<in> own \<Longrightarrow> keeps plan \<Longrightarrow> keeps (fst (perform_removal s p side r plan))"
  using remove_step [of p "plan_record s ''VS Code'' ''settings'' ''remove'' p plan"]
    keeps_record [of plan "''VS Code''" "''settings''"]
  by (auto simp: perform_removal_def intro!: write_step diff_step split: removal.split prod.splits sum.splits)

lemma keeps_settings_remove:
  assumes "p \<in> own" and "sp \<in> own" and "keeps plan"
  shows "keeps (fst (settings_remove lib s p sp proxy plan))"
  unfolding settings_remove_def
proof (rule keeps_seq)
  show "keeps (fst (read_sidecar lib s sp plan))" using assms(3) by (rule keeps_read_sidecar)
next
  fix x plan
  assume k: "keeps plan"
  obtain plan1 r where rd: "read_existing s ''read '' p plan = (plan1, r)" by force
  then have "keeps plan1" using keeps_read_existing [OF k, of "''read ''" p] by simp
  with assms show "keeps (fst (settings_remove_read lib s p sp proxy x plan))"
    by (auto simp: settings_remove_read_def rd intro!: keeps_seq keeps_remove_sidecar keeps_record
        keeps_settings_conflict keeps_perform_removal split: sum.split option.split prod.split)
qed

lemma keeps_settings_write:
  assumes "p \<in> own" and "sp \<in> own" and "keeps plan"
  shows "keeps (fst (settings_write lib s p sp existing side edited st plan))"
  using assms unfolding settings_write_def Let_def by (auto intro!: keeps_seq write_step keeps_record diff_step)

text \<open>An edit that gets to read its file keeps what the reading keeps.\<close>

lemma keeps_settings_edit_read:
  assumes "p \<in> own" and "sp \<in> own" and "keeps (fst (read_existing s ''read '' p (plan_missing_parent s p plan)))"
  shows "keeps (fst (settings_edit lib s p sp url plan))"
  unfolding settings_edit_def
  using assms
  by (auto intro!: keeps_seq keeps_read_sidecar keeps_settings_conflict keeps_settings_write split: sum.split prod.split)

lemma keeps_settings_edit:
  assumes "p \<in> own" and "sp \<in> own" and "set_option (missing_parent s p) \<subseteq> dirs" and "keeps plan"
  shows "keeps (fst (settings_edit lib s p sp url plan))"
  by (intro keeps_settings_edit_read keeps_read_existing keeps_missing_parent assms)

lemma keeps_settings_plan_if:
  assumes "p \<in> own" and "state_path p \<in> own" and "keeps plan"
    and "\<And>url. keeps (fst (settings_edit lib s p (state_path p) url plan))"
  shows "keeps (fst (settings_plan lib s p proxy configured plan))"
proof -
  note remove = keeps_settings_remove [OF assms(1,2)]
  show ?thesis
  proof (cases "\<exists>c gw. configured = Some (c, Some gw)")
    case False
    then show ?thesis using remove [OF assms(3)] by (auto simp: settings_plan_def Let_def split: option.splits)
  next
    case True
    then obtain c gw where c: "configured = Some (c, Some gw)" by blast
    obtain plan1 b where fc: "fail_closed_without_proxy gw (override_in_place lib s p) plan = (plan1, b)" by force
    have "keeps plan1" using keeps_override_in_place assms(3) fc by (rule keeps_failed_closed)
    with assms remove show ?thesis
      by (cases b; cases proxy) (auto simp: settings_plan_def c fc Let_def intro!: inactive_step)
  qed
qed

end

definition vscode_files :: "path option \<Rightarrow> path option \<Rightarrow> path set" where
  "vscode_files chat_models settings = (\<Union>p \<in> set_option chat_models \<union> set_option settings. {p, state_path p})"

lemma settings_edit_dirs:
  assumes "settings_edit lib s p sp url plan = (plan', Inr ())" and "dirs_read plan"
  shows "dirs_read plan'"
proof -
  from assms(1) obtain plan1 c where rd: "read_existing s ''read '' p (plan_missing_parent s p plan) = (plan1, Inr c)"
    unfolding settings_edit_def by (blast dest: plan_seq_Inr)
  then have "dirs_read (fst (read_existing s ''read '' p (plan_missing_parent s p plan)))"
    using read_below_missing_parent [OF rd assms(2)] by simp
  then have "dirs_read (fst (settings_edit lib s p sp url plan))"
    by (rule dir_reads.keeps_settings_edit_read [OF UNIV_I UNIV_I])
  with assms(1) show ?thesis by simp
qed

lemma chat_models_dirs:
  assumes "chat_models_plan codec s p proxy configured plan = (plan', Inr ())" and "dirs_read plan"
  shows "dirs_read plan'"
proof (cases "proxy = None \<or> (\<forall>c gw. configured \<noteq> Some (c, Some gw))")
  case True
  with dir_reads.keeps_chat_models_without_proxy [OF UNIV_I UNIV_I assms(2)] assms(1) show ?thesis
    by (metis fst_conv)
next
  case False
  then obtain c gw px where conf: "configured = Some (c, Some gw)" "proxy = Some px" by (cases proxy) auto
  obtain plan1 foreign where f: "vscode_foreign_entry codec s p (state_path p) plan = (plan1, Inr foreign)"
    and rest: "(case foreign of
       Some reason \<Rightarrow> (plan_record s ''VS Code'' (''chat language models ('' @ reason @ '')'') ''conflict'' p plan1, Inr ())
     | None \<Rightarrow> plan_merge_with codec s p (state_path p) (vscode_managed_document c (px_address px) (px_pairing px)) False
                ''chat language models'' ''VS Code'' vscode_options (plan_missing_parent s p plan1)) = (plan', Inr ())"
    using assms(1) unfolding chat_models_plan_def Let_def conf by (auto dest!: plan_seq_Inr)
  have "dirs_read plan1"
    using dir_reads.keeps_vscode_foreign [OF assms(2), of codec s p "state_path p"] f by simp
  with rest show ?thesis
    by (auto intro: merge_below_missing_parent dir_reads.keeps_record split: option.splits)
qed

lemma settings_dirs:
  assumes "settings_plan lib s p proxy configured plan = (plan', Inr ())" and "dirs_read plan"
  shows "dirs_read plan'"
proof (cases "\<exists>url. settings_plan lib s p proxy configured plan = settings_edit lib s p (state_path p) url plan")
  case True
  with assms settings_edit_dirs show ?thesis by metis
next
  case False
  note remove = dir_reads.keeps_settings_remove [OF UNIV_I UNIV_I]
  have "dirs_read (fst (settings_plan lib s p proxy configured plan))"
  proof (cases "\<exists>c gw. configured = Some (c, Some gw)")
    case True
    then obtain c gw where c: "configured = Some (c, Some gw)" by blast
    obtain plan1 b where fc: "fail_closed_without_proxy gw (override_in_place lib s p) plan = (plan1, b)" by force
    have "dirs_read plan1" using dir_reads.keeps_override_in_place assms(2) fc by (rule dir_reads.keeps_failed_closed)
    with False c fc assms(2) show ?thesis
      by (cases b; cases proxy)
        (auto simp: settings_plan_def Let_def intro!: remove dir_reads.inactive_step split: if_splits)
  next
    case False
    then show ?thesis using remove [OF assms(2)] by (auto simp: settings_plan_def Let_def split: option.splits)
  qed
  with assms(1) show ?thesis by simp
qed

lemma vscode_plan_steps:
  assumes "vscode_plan lib s chat settings proxy configured empty_plan = (plan, Inr ())"
  shows "planned s plan \<and> dirs_read plan
    \<and> confined s {chat, state_path chat, settings, state_path settings}
        (set_option (missing_parent s chat) \<union> set_option (missing_parent s settings)) plan"
proof -
  let ?own = "{chat, state_path chat, settings, state_path settings}"
  let ?dirs = "set_option (missing_parent s chat) \<union> set_option (missing_parent s settings)"
  from assms obtain plan1 where
    chat: "chat_models_plan (sl_codec lib) s chat proxy (own_models configured) empty_plan = (plan1, Inr ())"
    and rest: "settings_plan lib s settings proxy configured plan1 = (plan, Inr ())"
    unfolding vscode_plan_def by (auto dest!: plan_seq_Inr)
  have "planned s plan1"
    using planning.keeps_chat_models_plan [of chat s empty_plan "sl_codec lib" proxy "own_models configured"] chat planned_empty by simp
  then have "planned s (fst (settings_plan lib s settings proxy configured plan1))"
    by (intro planning.keeps_settings_plan_if planning.keeps_settings_edit) simp_all
  moreover have "confined s ?own ?dirs plan1"
    using confinement.keeps_chat_models_plan [of chat ?own s ?dirs empty_plan "sl_codec lib" proxy "own_models configured"] chat by simp
  then have "confined s ?own ?dirs (fst (settings_plan lib s settings proxy configured plan1))"
    by (intro confinement.keeps_settings_plan_if confinement.keeps_settings_edit) simp_all
  moreover have "dirs_read plan" using settings_dirs [OF rest chat_models_dirs [OF chat]] by simp
  ultimately show ?thesis by (simp add: rest)
qed

interpretation vscode_contract: managed_provider "vscode lib chat settings" "vscode_files chat settings" for lib chat settings
proof
  fix ctx config s plan
  assume "pv_plan (vscode lib chat settings) ctx config s = Inr plan"
  then consider (quiet) "planned s plan" "confined s {} {} plan" "dirs_read plan"
    | (planned) c p configured where "chat = Some c" "settings = Some p"
        "vscode_plan lib s c p (rc_llm_proxy ctx) configured empty_plan = (plan, Inr ())"
    by (auto simp: vscode_def or_skip_def finish_plan_Inr Let_def planned_empty split: option.splits if_splits
        dest: skip_unless_confined)
  then have "proper_plan s plan \<and> fc_path ` set (rp_operations plan) \<subseteq> vscode_files chat settings"
  proof cases
    case quiet
    then show ?thesis by (auto intro: proper_confined simp: confined_def)
  next
    case planned
    with vscode_plan_steps [OF planned(3)] show ?thesis
      by (auto intro: proper_confined simp: confined_def vscode_files_def)
  qed
  then show "proper_plan s plan" and "fc_path ` set (rp_operations plan) \<subseteq> vscode_files chat settings" by simp_all
qed

end
