(* ===== verification/Provider_Header.thy ===== *)
theory Provider_Header
  imports Provider_Contract
begin

text \<open>
  The providers whose managed file carries a header: Codex (\<^verbatim>\<open>provider/codex\<close>), Grok Build
  (\<^verbatim>\<open>provider/grok\<close>) and OpenCode (\<^verbatim>\<open>provider/opencode\<close>), with the settings they generate. A path of the
  configuration is UTF-8, as it comes from YAML; what is logged is left out.
\<close>

section \<open>Codex\<close>

definition codex_header :: string where
  "codex_header = ''# Managed by Agentdesktop. Manual changes will be replaced.'' @ [CHR 0x0A]"

text \<open>The arguments of the credential helper for a client.\<close>

definition credential_args :: "path \<Rightarrow> string \<Rightarrow> string list" where
  "credential_args socket client = [''--socket'', to_string_lossy socket, ''credential'', ''--client-id'', client]"

definition codex_responses_base_url :: "provider_lib \<Rightarrow> llm_gateway_config \<Rightarrow> bool \<Rightarrow> string" where
  "codex_responses_base_url lib gateway subscription =
     (if subscription \<and> suffix ''/backend-api/codex'' (trim_end_char (CHR ''/'') (url_path (gw_url gateway)))
      then trim_end_char (CHR ''/'') (pb_url_str lib (gw_url gateway))
      else responses_base_url lib gateway)"

text \<open>\<^verbatim>\<open>windows(n).any(...)\<close>: the header's name occurs in the contents.\<close>

definition carries_pairing :: "bytes \<Rightarrow> bool" where
  "carries_pairing contents \<longleftrightarrow> sublist pairing_header contents"

definition record_configuration ::
  "string \<Rightarrow> path \<Rightarrow> bytes option \<Rightarrow> bytes option \<Rightarrow> reconcile_plan \<Rightarrow> reconcile_plan" where
  "record_configuration action p before after =
     (let carries = (\<lambda>b. case b of None \<Rightarrow> False | Some c \<Rightarrow> carries_pairing c)
      in if carries before \<or> carries after then plan_record_diff ''Codex'' ''configuration'' action p None None
         else plan_record_diff ''Codex'' ''configuration'' action p before after)"

definition codex_file :: header_file where
  "codex_file =
     \<lparr>hf_header = codex_header, hf_display_name = ''Codex'', hf_description = ''configuration'',
      hf_read_context = ''read Codex managed configuration from '',
      hf_remove_context = ''remove Codex managed configuration at '', hf_record = record_configuration\<rparr>"

definition codex_sandbox :: "sandbox_config \<Rightarrow> json" where
  "codex_sandbox sandbox =
     (let filesystem = insert_all (map (\<lambda>p. (to_string_lossy p, String ''deny'')) (sf_denied (sb_filesystem sandbox)))
            (insert_all (map (\<lambda>p. (to_string_lossy p, String ''write'')) (sf_writable (sb_filesystem sandbox)))
              (insert_all [('':root'', String ''read''), ('':project_roots'', String ''write'')] []));
          domains = insert_all (map (\<lambda>d. (d, String ''allow'')) (sn_allowed_domains (sb_network sandbox))) [];
          enabled = (domains \<noteq> []);
          generated = json_object
            [(''default_permissions'', String ''agentdesktop''),
             (''permissions'', json_object
               [(''agentdesktop'', json_object
                 [(''filesystem'', Object filesystem),
                  (''network'', json_object
                    [(''enabled'', Bool enabled), (''mode'', String ''limited''), (''domains'', Object domains)])])])]
      in if enabled then put_field ''features'' (json_object [(''network_proxy'', Bool True)]) generated else generated)"

definition subscription_fields :: "string list" where
  "subscription_fields =
     [''auth'', ''env_key'', ''experimental_bearer_token'', ''aws'', ''gateway_oauth'', ''env_http_headers'', ''http_headers'']"

text \<open>With a subscription, pass-through settings that would authenticate some other way are dropped.\<close>

definition drop_codex_auth :: "json \<Rightarrow> json" where
  "drop_codex_auth settings =
     update_field ''model_providers'' (update_field ''agentdesktop'' (map_object (fold om_remove subscription_fields)))
       (remove_field ''forced_login_method'' settings)"

definition codex_model_provider :: "provider_lib \<Rightarrow> codex_config \<Rightarrow> llm_gateway_config \<Rightarrow> path \<Rightarrow> path \<Rightarrow> json" where
  "codex_model_provider lib config gateway credential_helper socket =
     (let subscription = (cx_auth config = Some Subscription);
          plain = json_object
            [(''name'', String ''Agentdesktop''),
             (''base_url'', String (codex_responses_base_url lib gateway subscription)),
             (''wire_api'', String ''responses'')];
          subscribed = (if subscription
            then put_field ''supports_websockets'' (Bool False) (put_field ''requires_openai_auth'' (Bool False) plain)
            else plain);
          timeout_ms = (if subscription \<or> (case gw_authentication gateway of Some (Oidc _ _ _ _ _ _) \<Rightarrow> True | _ \<Rightarrow> False)
                        then 600000 else 5000)
      in if gateway_uses_helper gateway
         then put_field ''auth'' (json_object
                [(''command'', String (to_string_lossy credential_helper)),
                 (''args'', json_strings (credential_args socket ''codex'')),
                 (''timeout_ms'', number_of timeout_ms), (''refresh_interval_ms'', number_of 60000)]) subscribed
         else subscribed)"

definition codex_managed_config ::
  "provider_lib \<Rightarrow> codex_config \<Rightarrow> llm_gateway_config option \<Rightarrow> path \<Rightarrow> path \<Rightarrow> sandbox_config option \<Rightarrow> json" where
  "codex_managed_config lib config gateway credential_helper socket sandbox =
     (let passed = Object (cx_managed_config config);
          settings = (case sandbox of None \<Rightarrow> passed | Some sb \<Rightarrow> deep_merge passed (codex_sandbox sb))
      in case gateway of
        None \<Rightarrow> settings
      | Some gw \<Rightarrow>
          deep_merge (if cx_auth config = Some Subscription then drop_codex_auth settings else settings)
            (json_object
              [(''model_provider'', String ''agentdesktop''),
               (''model_providers'', json_object
                 [(''agentdesktop'', codex_model_provider lib config gw credential_helper socket)])]))"

text \<open>The printed configuration below the header, with a newline at its end.\<close>

definition with_header :: "string \<Rightarrow> bytes \<Rightarrow> bytes" where
  "with_header header printed =
     (let contents = header @ printed in if contents \<noteq> [] \<and> last contents = CHR 0x0A then contents else contents @ [CHR 0x0A])"

definition toml_contents :: "provider_lib \<Rightarrow> string \<Rightarrow> string \<Rightarrow> json \<Rightarrow> anyhow + bytes" where
  "toml_contents lib context header settings =
     (case pb_toml_pretty lib settings of Inl e \<Rightarrow> Inl [context, e] | Inr printed \<Rightarrow> Inr (with_header header printed))"

definition codex_remove :: "win_os \<Rightarrow> path \<Rightarrow> reconcile_plan \<Rightarrow> reconcile_plan \<times> (anyhow + unit)" where
  "codex_remove s p = remove_header_file codex_file (\<lambda>q b. record_configuration ''remove'' q (Some b) None) s p"

definition codex_plan ::
  "provider_lib \<Rightarrow> win_os \<Rightarrow> path \<Rightarrow> path \<Rightarrow> path \<Rightarrow> sandbox_config option \<Rightarrow> bool
   \<Rightarrow> (codex_config \<times> llm_gateway_config option) option \<Rightarrow> reconcile_plan \<Rightarrow> reconcile_plan \<times> (anyhow + unit)" where
  "codex_plan lib s p credential_helper socket sandbox user_mode configured plan =
     (case configured of
        None \<Rightarrow> codex_remove s p plan
      | Some (config, gateway) \<Rightarrow>
          plan_seq (plan, toml_contents lib ''serialize Codex managed configuration as TOML'' codex_header
                      (codex_managed_config lib config gateway credential_helper socket sandbox))
            (\<lambda>contents plan1.
               reconcile_header_file codex_file s p contents
                 (if cx_auth config = Some Subscription \<and> user_mode then 0x180 else 0x1A4) plan1))"

definition codex :: "provider_lib \<Rightarrow> path \<Rightarrow> provider" where
  "codex lib managed_config_path =
     \<lparr>pv_id = ''codex'',
      pv_plan = (\<lambda>ctx config s.
        finish_plan (codex_plan lib s managed_config_path (rc_credential_helper ctx) (rc_socket ctx) (dc_sandbox config)
          (rc_user_mode ctx) (with_gateway config cx_use_llm_gateway (pg_codex (dc_programs config))) empty_plan))\<rparr>"

section \<open>Grok Build\<close>

definition grok_header :: string where
  "grok_header = ''# Managed by agentdesktop. Manual changes will be replaced.'' @ [CHR 0x0A]"

definition grok_file :: header_file where
  "grok_file =
     \<lparr>hf_header = grok_header, hf_display_name = ''Grok Build'', hf_description = ''configuration'',
      hf_read_context = ''read Grok managed configuration from '',
      hf_remove_context = ''remove Grok managed configuration at '',
      hf_record = plan_record_diff ''Grok Build'' ''configuration''\<rparr>"

definition grok_catalog :: "grok_config \<Rightarrow> string \<Rightarrow> entries" where
  "grok_catalog config default_model =
     (if gk_models config = []
      then [(default_model, json_object [(''model'', String default_model), (''name'', String ''agentdesktop'')])]
      else gk_models config)"

definition grok_entry :: "provider_lib \<Rightarrow> llm_gateway_config \<Rightarrow> string \<Rightarrow> json \<Rightarrow> json" where
  "grok_entry lib gateway model v =
     (let entry = (if is_object v then v else Object []);
          named = (if Option.bind (get_field entry ''model'') as_str = None then put_field ''model'' (String model) entry else entry);
          based = put_field ''base_url'' (String (responses_base_url lib gateway)) named
      in if gateway_uses_helper gateway then put_field ''auth_provider'' (String ''agentdesktop'') based else based)"

text \<open>The model of a gateway configuration: one that is set and not blank.\<close>

definition nonblank :: "string option \<Rightarrow> string option" where
  "nonblank m = (case m of None \<Rightarrow> None | Some s \<Rightarrow> if blank s then None else Some s)"

definition grok_generated :: "provider_lib \<Rightarrow> grok_config \<Rightarrow> llm_gateway_config \<Rightarrow> path \<Rightarrow> path \<Rightarrow> string \<Rightarrow> json" where
  "grok_generated lib config gateway credential_helper socket default_model =
     (let models = insert_all (map (\<lambda>(m, v). (m, grok_entry lib gateway m v)) (grok_catalog config default_model)) [];
          generated = json_object
            [(''models'', json_object [(''default'', String default_model)]), (''model'', Object models)]
      in if gateway_uses_helper gateway
         then put_field ''auth_provider'' (json_object
                [(''agentdesktop'', json_object
                   [(''command'', String (to_string_lossy credential_helper)),
                    (''args'', json_strings (credential_args socket ''grok'')),
                    (''timeout_secs'',
                      number_of (case gw_authentication gateway of Some (Oidc _ _ _ _ _ _) \<Rightarrow> 600 | _ \<Rightarrow> 5))])])
                generated
         else generated)"

text \<open>Static credentials of a catalogue entry go, so that they cannot shadow the credential helper.\<close>

definition clear_static_keys :: "string \<Rightarrow> json \<Rightarrow> json" where
  "clear_static_keys model settings =
     update_field ''model'' (update_field model (map_object (\<lambda>m. om_remove ''env_key'' (om_remove ''api_key'' m)))) settings"

definition grok_managed_config ::
  "provider_lib \<Rightarrow> grok_config \<Rightarrow> llm_gateway_config option \<Rightarrow> path \<Rightarrow> path \<Rightarrow> anyhow + json" where
  "grok_managed_config lib config gateway credential_helper socket =
     (let settings = Object (gk_managed_config config)
      in case gateway of
        None \<Rightarrow> Inr settings
      | Some gw \<Rightarrow>
          (case nonblank (gk_model config) of
             None \<Rightarrow> Inl [''Grok gateway configuration has no model'']
           | Some default_model \<Rightarrow>
               (let combined = deep_merge settings (grok_generated lib config gw credential_helper socket default_model)
                in Inr (if gateway_uses_helper gw
                        then fold (\<lambda>(m, _). clear_static_keys m) (grok_catalog config default_model) combined
                        else combined))))"

definition grok_remove :: "win_os \<Rightarrow> path \<Rightarrow> reconcile_plan \<Rightarrow> reconcile_plan \<times> (anyhow + unit)" where
  "grok_remove s p = remove_header_file grok_file (\<lambda>q _. plan_record s ''Grok Build'' ''configuration'' ''remove'' q) s p"

definition grok_plan ::
  "provider_lib \<Rightarrow> win_os \<Rightarrow> path \<Rightarrow> path \<Rightarrow> path \<Rightarrow> (grok_config \<times> llm_gateway_config option) option
   \<Rightarrow> reconcile_plan \<Rightarrow> reconcile_plan \<times> (anyhow + unit)" where
  "grok_plan lib s p credential_helper socket configured plan =
     (case configured of
        None \<Rightarrow> grok_remove s p plan
      | Some (config, gateway) \<Rightarrow>
          plan_seq (plan, grok_managed_config lib config gateway credential_helper socket) (\<lambda>settings plan1.
          plan_seq (plan1, toml_contents lib ''serialize Grok managed configuration as TOML'' grok_header settings)
            (\<lambda>contents plan2. reconcile_header_file grok_file s p contents 0x1A4 plan2)))"

definition grok :: "provider_lib \<Rightarrow> path \<Rightarrow> provider" where
  "grok lib managed_config_path =
     \<lparr>pv_id = ''grok'',
      pv_plan = (\<lambda>ctx config s.
        or_skip (skip_unless ctx SystemScope (pg_grok (dc_programs config) \<noteq> None) ''Grok Build'')
          (finish_plan (grok_plan lib s managed_config_path (rc_credential_helper ctx) (rc_socket ctx)
             (with_gateway config gk_use_llm_gateway (pg_grok (dc_programs config))) empty_plan)))\<rparr>"

section \<open>OpenCode\<close>

definition open_code_header :: string where
  "open_code_header = ''// Managed by Agentdesktop. Manual changes will be replaced.'' @ [CHR 0x0A]"

definition open_code_file :: "string \<Rightarrow> header_file" where
  "open_code_file description =
     \<lparr>hf_header = open_code_header, hf_display_name = ''OpenCode'', hf_description = description,
      hf_read_context = ''read '' @ description @ '' from '',
      hf_remove_context = ''remove '' @ description @ '' at '',
      hf_record = plan_record_diff ''OpenCode'' description\<rparr>"

definition append_plugin :: "string \<Rightarrow> json \<Rightarrow> json" where
  "append_plugin plugin_url settings =
     (let plugins = (case get_field settings ''plugin'' of Some (Array xs) \<Rightarrow> xs | _ \<Rightarrow> [])
      in put_field ''plugin''
           (Array (if list_ex (\<lambda>v. as_str v = Some plugin_url) plugins then plugins else plugins @ [String plugin_url]))
           settings)"

definition open_code_managed_config ::
  "provider_lib \<Rightarrow> open_code_config \<Rightarrow> llm_gateway_config option \<Rightarrow> string option \<Rightarrow> anyhow + json" where
  "open_code_managed_config lib config gateway plugin_url =
     (let settings = Object (oc_managed_config config)
      in case gateway of
        None \<Rightarrow> Inr settings
      | Some gw \<Rightarrow>
          (case oc_model config of
             None \<Rightarrow> Inl [''OpenCode gateway configuration has no model'']
           | Some model \<Rightarrow>
               (let npm = (case oc_api config of Some OpenaiCompletions \<Rightarrow> ''@ai-sdk/openai-compatible'' | _ \<Rightarrow> ''@ai-sdk/openai'');
                    provider = json_object
                      [(''npm'', String npm), (''name'', String ''Agentdesktop''),
                       (''options'', json_object
                         [(''baseURL'', String (responses_base_url lib gw)), (''apiKey'', String ''agentdesktop-managed'')]),
                       (''models'', Object (oc_models config))];
                    combined = deep_merge settings (json_object
                      [(''$schema'', String ''https://opencode.ai/config.json''),
                       (''enabled_providers'', json_strings [''agentdesktop'']),
                       (''model'', String (''agentdesktop/'' @ model)),
                       (''provider'', json_object [(''agentdesktop'', provider)])])
                in Inr (case plugin_url of None \<Rightarrow> combined | Some url \<Rightarrow> append_plugin url combined))))"

text \<open>The plugin's source after its two constants, line by line.\<close>

definition plugin_body :: "string list" where
  "plugin_body =
     [''let cachedToken = \"\";'',
      ''let refreshAfter = 0;'',
      '''',
      ''async function credential() {'',
      ''  if (cachedToken && Date.now() < refreshAfter) return cachedToken;'',
      ''  const child = Bun.spawn(command, { stdout: \"pipe\", stderr: \"pipe\" });'',
      ''  const [stdout, stderr, exitCode] = await Promise.all(['',
      ''    new Response(child.stdout).text(),'',
      ''    new Response(child.stderr).text(),'',
      ''    child.exited,'',
      ''  ]);'',
      ''  if (exitCode !== 0) {'',
      ''    throw new Error(`Agentdesktop credential helper failed: ${stderr.trim() || `exit ${exitCode}`}`);'',
      ''  }'',
      ''  const token = stdout.trim();'',
      ''  if (!token) throw new Error(\"Agentdesktop credential helper returned an empty token\");'',
      ''  cachedToken = token;'',
      ''  refreshAfter = Date.now() + 60_000;'',
      ''  return token;'',
      ''}'',
      '''',
      ''export const Agentdesktop = async () => ({'',
      ''  \"chat.headers\": async (input, output) => {'',
      ''    if (input.model.providerID !== provider) return;'',
      ''    output.headers.Authorization = `Bearer ${await credential()}`;'',
      ''  },'',
      ''});'']"

definition unlines :: "string list \<Rightarrow> string" where
  "unlines ls = concat (map (\<lambda>l. l @ [CHR 0x0A]) ls)"

text \<open>\<^verbatim>\<open>.context(...)\<close> on a printer's result.\<close>

definition printed :: "string \<Rightarrow> string + 'a \<Rightarrow> anyhow + 'a" where
  "printed context r = (case r of Inl e \<Rightarrow> Inl [context, e] | Inr x \<Rightarrow> Inr x)"

definition credential_plugin :: "provider_lib \<Rightarrow> path \<Rightarrow> path \<Rightarrow> anyhow + string" where
  "credential_plugin lib credential_helper socket =
     (case printed ''encode OpenCode provider ID'' (pb_to_string lib (String ''agentdesktop'')) of
        Inl e \<Rightarrow> Inl e
      | Inr provider \<Rightarrow>
          (case printed ''encode OpenCode credential command''
                  (pb_to_string lib (json_strings (to_string_lossy credential_helper # credential_args socket ''opencode''))) of
             Inl e \<Rightarrow> Inl e
           | Inr command \<Rightarrow>
               Inr (open_code_header
                    @ unlines ([''const provider = '' @ provider @ '';'', ''const command = '' @ command @ '';''] @ plugin_body))))"

definition file_url :: "provider_lib \<Rightarrow> path \<Rightarrow> anyhow + string" where
  "file_url lib p =
     (case (if is_absolute p then Inr p
            else case pb_current_dir lib of
              Inl e \<Rightarrow> Inl [''locate current directory for OpenCode plugin path'', io_message e]
            | Inr d \<Rightarrow> Inr (path_join d p)) of
        Inl e \<Rightarrow> Inl e
      | Inr absolute \<Rightarrow>
          (case pb_from_file_path lib absolute of
             None \<Rightarrow> Inl [''convert OpenCode plugin path '' @ path_display absolute @ '' to file URL'']
           | Some url \<Rightarrow> Inr url))"

definition open_code_reconcile_file ::
  "win_os \<Rightarrow> path \<Rightarrow> bytes \<Rightarrow> string \<Rightarrow> reconcile_plan \<Rightarrow> reconcile_plan \<times> (anyhow + unit)" where
  "open_code_reconcile_file s p contents description = reconcile_header_file (open_code_file description) s p contents 0x1A4"

definition open_code_remove_owned :: "win_os \<Rightarrow> path \<Rightarrow> string \<Rightarrow> reconcile_plan \<Rightarrow> reconcile_plan \<times> (anyhow + unit)" where
  "open_code_remove_owned s p description =
     remove_header_file (open_code_file description) (\<lambda>q _. plan_record s ''OpenCode'' description ''remove'' q) s p"

definition open_code_plan ::
  "provider_lib \<Rightarrow> win_os \<Rightarrow> path \<Rightarrow> path \<Rightarrow> path \<Rightarrow> path \<Rightarrow> (open_code_config \<times> llm_gateway_config option) option
   \<Rightarrow> reconcile_plan \<Rightarrow> reconcile_plan \<times> (anyhow + unit)" where
  "open_code_plan lib s config_path plugin_path credential_helper socket configured plan =
     (case configured of
        None \<Rightarrow>
          plan_seq (open_code_remove_owned s config_path ''managed configuration'' plan) (\<lambda>_ plan1.
          open_code_remove_owned s plugin_path ''credential plugin'' plan1)
      | Some (config, gateway) \<Rightarrow>
          plan_seq
            (if (case gateway of None \<Rightarrow> False | Some gw \<Rightarrow> gateway_uses_helper gw) then
               plan_seq (plan, credential_plugin lib credential_helper socket) (\<lambda>source plan1.
               plan_seq (open_code_reconcile_file s plugin_path source ''credential plugin'' plan1) (\<lambda>_ plan2.
               plan_seq (plan2, file_url lib plugin_path) (\<lambda>url plan3. (plan3, Inr (Some url)))))
             else plan_seq (open_code_remove_owned s plugin_path ''credential plugin'' plan) (\<lambda>_ plan1. (plan1, Inr None)))
            (\<lambda>plugin_url plan1.
          plan_seq (plan1, open_code_managed_config lib config gateway plugin_url) (\<lambda>settings plan2.
          plan_seq (plan2, printed ''serialize OpenCode managed configuration'' (to_vec_pretty (pb_codec lib) settings))
            (\<lambda>pretty plan3.
          open_code_reconcile_file s config_path (open_code_header @ pretty @ [CHR 0x0A]) ''managed configuration'' plan3))))"

definition open_code :: "provider_lib \<Rightarrow> path \<Rightarrow> path \<Rightarrow> provider" where
  "open_code lib managed_config_path plugin_path =
     \<lparr>pv_id = ''opencode'',
      pv_plan = (\<lambda>ctx config s.
        finish_plan (open_code_plan lib s managed_config_path plugin_path (rc_credential_helper ctx) (rc_socket ctx)
          (with_gateway config oc_use_llm_gateway (pg_open_code (dc_programs config))) empty_plan))\<rparr>"

section \<open>The contract\<close>

context plan_steps
begin

lemma keeps_codex_record: "keeps plan \<Longrightarrow> keeps (record_configuration a p b c plan)"
  by (simp add: record_configuration_def Let_def diff_step)

lemma keeps_codex_plan:
  assumes "p \<in> own" and "keeps plan"
  shows "keeps (fst (codex_plan lib s p helper socket sandbox user configured plan))"
  using assms unfolding codex_plan_def codex_remove_def
  by (auto intro!: keeps_seq keeps_reconcile_header_file keeps_remove_header_file keeps_codex_record
      simp: codex_file_def split: option.split)

lemma keeps_grok_plan:
  assumes "p \<in> own" and "keeps plan"
  shows "keeps (fst (grok_plan lib s p helper socket configured plan))"
  using assms unfolding grok_plan_def grok_remove_def
  by (auto intro!: keeps_seq keeps_reconcile_header_file keeps_remove_header_file diff_step keeps_record
      simp: grok_file_def split: option.split)

lemma keeps_open_code_steps:
  assumes "p \<in> own" and "keeps plan"
  shows "keeps (fst (open_code_reconcile_file s p contents d plan))"
    and "keeps (fst (open_code_remove_owned s p d plan))"
  using assms unfolding open_code_reconcile_file_def open_code_remove_owned_def
  by (auto intro!: keeps_reconcile_header_file keeps_remove_header_file diff_step keeps_record
      simp: open_code_file_def)

lemma keeps_open_code_plan:
  assumes "p \<in> own" and "q \<in> own" and "keeps plan"
  shows "keeps (fst (open_code_plan lib s p q helper socket configured plan))"
  using assms unfolding open_code_plan_def
  by (auto intro!: keeps_seq keeps_open_code_steps split: option.split)

end

interpretation codex_contract: managed_provider "codex lib p" "{p}" for lib p
proof
  fix ctx config s plan
  assume "pv_plan (codex lib p) ctx config s = Inr plan"
  then have plan: "plan = fst (codex_plan lib s p (rc_credential_helper ctx) (rc_socket ctx) (dc_sandbox config)
      (rc_user_mode ctx) (with_gateway config cx_use_llm_gateway (pg_codex (dc_programs config))) empty_plan)"
    by (simp add: codex_def finish_plan_Inr)
  have "planned s plan" and "confined s {p} {} plan" and "dirs_read plan"
    unfolding plan by (simp_all add: planning.keeps_codex_plan confinement.keeps_codex_plan dir_reads.keeps_codex_plan planned_empty)
  then show "proper_plan s plan" and "fc_path ` set (rp_operations plan) \<subseteq> {p}"
    by (auto intro: proper_confined simp: confined_def)
qed

interpretation grok_contract: managed_provider "grok lib p" "{p}" for lib p
proof
  fix ctx config s plan
  assume "pv_plan (grok lib p) ctx config s = Inr plan"
  then consider "skip_unless ctx SystemScope (pg_grok (dc_programs config) \<noteq> None) ''Grok Build'' = Some plan"
    | "plan = fst (grok_plan lib s p (rc_credential_helper ctx) (rc_socket ctx)
         (with_gateway config gk_use_llm_gateway (pg_grok (dc_programs config))) empty_plan)"
    by (auto simp: grok_def or_skip_def finish_plan_Inr split: option.splits)
  then have "planned s plan \<and> confined s {p} {} plan \<and> dirs_read plan"
    by cases (simp_all add: skip_unless_confined planning.keeps_grok_plan confinement.keeps_grok_plan dir_reads.keeps_grok_plan planned_empty)
  then show "proper_plan s plan" and "fc_path ` set (rp_operations plan) \<subseteq> {p}"
    by (auto intro: proper_confined simp: confined_def)
qed

interpretation open_code_contract: managed_provider "open_code lib p q" "{p, q}" for lib p q
proof
  fix ctx config s plan
  assume "pv_plan (open_code lib p q) ctx config s = Inr plan"
  then have plan: "plan = fst (open_code_plan lib s p q (rc_credential_helper ctx) (rc_socket ctx)
      (with_gateway config oc_use_llm_gateway (pg_open_code (dc_programs config))) empty_plan)"
    by (simp add: open_code_def finish_plan_Inr)
  have "planned s plan" and "confined s {p, q} {} plan" and "dirs_read plan"
    unfolding plan by (simp_all add: planning.keeps_open_code_plan confinement.keeps_open_code_plan dir_reads.keeps_open_code_plan planned_empty)
  then show "proper_plan s plan" and "fc_path ` set (rp_operations plan) \<subseteq> {p, q}"
    by (auto intro: proper_confined simp: confined_def)
qed

end
