(* ===== verification/Provider_Merge.thy ===== *)
theory Provider_Merge
  imports Provider_Header
begin

text \<open>
  The providers that merge into a user's settings: Claude Code (\<^verbatim>\<open>provider/claude_code\<close>), which outside
  user mode owns a whole file marked by a second file, and Pi (\<^verbatim>\<open>provider/pi\<close>).
\<close>

section \<open>Claude Code\<close>

definition owner_marker :: bytes where
  "owner_marker = ''Agentdesktop'' @ [CHR 0x0A]"

record hooks =
  hk_tool_use :: "command_spec option"
  hk_session_new :: "command_spec option"

definition owner_path :: "path \<Rightarrow> path" where
  "owner_path p =
     (let name = (case file_name p of
                    None \<Rightarrow> ''settings.json''
                  | Some n \<Rightarrow> if valid_utf8 n then n else ''settings.json'')
      in with_file_name p (''.'' @ name @ ''.owner''))"

text \<open>The hook groups of an event; an error when the settings do not have their shape.\<close>

definition append_hook :: "string \<Rightarrow> command_spec \<Rightarrow> json \<Rightarrow> anyhow + json" where
  "append_hook event command settings =
     (case settings of
        Object m \<Rightarrow>
          (case (case om_get m ''hooks'' of None \<Rightarrow> Object [] | Some v \<Rightarrow> v) of
             Object hooks \<Rightarrow>
               (case (case om_get hooks event of None \<Rightarrow> Array [] | Some v \<Rightarrow> v) of
                  Array event_hooks \<Rightarrow>
                    (let generated = json_object
                           [(''type'', String ''command''), (''command'', String (cmd_program command)),
                            (''args'', json_strings (cmd_args command))];
                         present = list_ex (\<lambda>group. case Option.bind (get_field group ''hooks'') as_array of
                                                      None \<Rightarrow> False
                                                    | Some hs \<Rightarrow> generated \<in> set hs) event_hooks;
                         group = json_object [(''matcher'', String []), (''hooks'', Array [generated])]
                     in Inr (Object (om_insert ''hooks''
                          (Object (om_insert event (Array (if present then event_hooks else event_hooks @ [group])) hooks)) m)))
                | _ \<Rightarrow> Inl [''Claude Code '' @ event @ '' hooks must be an array''])
           | _ \<Rightarrow> Inl [''Claude Code hooks must be an object''])
      | _ \<Rightarrow> Inl [''Claude Code managed settings must be an object''])"

definition append_optional_hook :: "string \<Rightarrow> command_spec option \<Rightarrow> json \<Rightarrow> anyhow + json" where
  "append_optional_hook event command settings =
     (case command of None \<Rightarrow> Inr settings | Some c \<Rightarrow> append_hook event c settings)"

definition claude_sandbox :: "sandbox_config \<Rightarrow> json" where
  "claude_sandbox sandbox =
     (let writable = json_strings (map path_display (sf_writable (sb_filesystem sandbox)));
          denied = json_strings (map path_display (sf_denied (sb_filesystem sandbox)))
      in json_object
           [(''sandbox'', json_object
              [(''enabled'', Bool True), (''failIfUnavailable'', Bool True), (''allowUnsandboxedCommands'', Bool False),
               (''filesystem'', json_object
                  [(''allowWrite'', writable), (''denyRead'', denied), (''denyWrite'', denied)]),
               (''network'', json_object
                  [(''allowedDomains'', json_strings (sn_allowed_domains (sb_network sandbox)))])])])"

definition claude_gateway :: "provider_lib \<Rightarrow> llm_gateway_config \<Rightarrow> string \<Rightarrow> json" where
  "claude_gateway lib gateway credential_helper =
     (let env = json_object [(''ANTHROPIC_BASE_URL'', String (pb_url_str lib (gw_url gateway)))]
      in if gateway_uses_helper gateway
         then json_object
                [(''env'', put_field ''CLAUDE_CODE_API_KEY_HELPER_TTL_MS'' (String ''60000'') env),
                 (''apiKeyHelper'', String credential_helper)]
         else json_object [(''env'', env)])"

definition claude_managed_settings ::
  "provider_lib \<Rightarrow> claude_code_config \<Rightarrow> llm_gateway_config option \<Rightarrow> string \<Rightarrow> hooks \<Rightarrow> sandbox_config option
   \<Rightarrow> anyhow + json" where
  "claude_managed_settings lib config gateway credential_helper hooks sandbox =
     (case append_optional_hook ''PreToolUse'' (hk_tool_use hooks) (Object (ccc_settings config)) of
        Inl e \<Rightarrow> Inl e
      | Inr settings1 \<Rightarrow>
          (case append_optional_hook ''SessionStart'' (hk_session_new hooks) settings1 of
             Inl e \<Rightarrow> Inl e
           | Inr settings2 \<Rightarrow>
               (let settings3 = (case sandbox of None \<Rightarrow> settings2 | Some sb \<Rightarrow> deep_merge settings2 (claude_sandbox sb))
                in Inr (case gateway of
                          None \<Rightarrow> settings3
                        | Some gw \<Rightarrow> deep_merge settings3 (claude_gateway lib gw credential_helper)))))"

definition is_owned :: "win_os \<Rightarrow> path \<Rightarrow> reconcile_plan \<Rightarrow> reconcile_plan \<times> (anyhow + bool)" where
  "is_owned s owner plan =
     plan_seq (read_existing s ''read ownership marker from '' owner plan) (\<lambda>contents plan1.
     (plan1, Inr (contents = Some owner_marker)))"

definition remove_owner_marker :: "win_os \<Rightarrow> path \<Rightarrow> reconcile_plan \<Rightarrow> reconcile_plan \<times> (anyhow + unit)" where
  "remove_owner_marker s owner plan =
     (case plan_remove_file s owner plan of
        (plan1, Inr _) \<Rightarrow> (plan1, Inr ())
      | (plan1, Inl e) \<Rightarrow>
          if kind e = NotFound then (plan1, Inr ())
          else (plan1, Inl [''remove ownership marker at '' @ path_display owner, io_message e]))"

definition claude_remove :: "win_os \<Rightarrow> path \<Rightarrow> path \<Rightarrow> reconcile_plan \<Rightarrow> reconcile_plan \<times> (anyhow + unit)" where
  "claude_remove s p owner plan =
     plan_seq (is_owned s owner plan) (\<lambda>owned plan1.
     if \<not> owned then (plan_record s ''Claude Code'' ''settings'' ''unchanged'' p plan1, Inr ())
     else plan_seq (read_existing s ''inspect Claude Code managed settings at '' p plan1) (\<lambda>contents plan2.
     case contents of
       Some _ \<Rightarrow>
         plan_seq (case plan_remove_file s p plan2 of
                     (plan3, Inl e) \<Rightarrow>
                       (plan3, Inl [''remove Claude Code managed settings at '' @ path_display p, io_message e])
                   | (plan3, Inr _) \<Rightarrow> (plan3, Inr ())) (\<lambda>_ plan3.
         plan_seq (remove_owner_marker s owner plan3) (\<lambda>_ plan4.
         (plan_record s ''Claude Code'' ''settings'' ''remove'' p plan4, Inr ())))
     | None \<Rightarrow>
         plan_seq (remove_owner_marker s owner plan2) (\<lambda>_ plan3.
         (plan_record s ''Claude Code'' ''settings'' ''unchanged'' p plan3, Inr ()))))"

text \<open>The file that the daemon owns as a whole.\<close>

definition claude_own_file :: "win_os \<Rightarrow> path \<Rightarrow> path \<Rightarrow> bytes \<Rightarrow> reconcile_plan \<Rightarrow> reconcile_plan \<times> (anyhow + unit)" where
  "claude_own_file s p owner contents plan =
     plan_seq (is_owned s owner plan) (\<lambda>owned plan1.
     plan_seq (read_existing s ''read Claude Code managed settings from '' p plan1) (\<lambda>existing plan2.
     let write = (\<lambda>action.
           plan_seq (plan_write_file s p contents 0x1A4 plan2) (\<lambda>_ plan3.
           plan_seq (plan_write_file s owner owner_marker 0x1A4 plan3) (\<lambda>_ plan4.
           (plan_record_diff ''Claude Code'' ''settings'' action p existing (Some contents) plan4, Inr ()))))
     in case existing of
       None \<Rightarrow> write ''create''
     | Some e \<Rightarrow>
         if e = contents \<and> \<not> grants_beyond s p 0x1A4 then
           plan_seq (if owned then (plan2, Inr ()) else plan_write_file s owner owner_marker 0x1A4 plan2) (\<lambda>_ plan3.
           (plan_record s ''Claude Code'' ''settings'' ''unchanged'' p plan3, Inr ()))
         else if owned \<or> e = contents then write ''update''
         else (plan_record_diff ''Claude Code'' ''settings'' ''conflict'' p existing (Some contents) plan2, Inr ())))"

definition claude_plan ::
  "provider_lib \<Rightarrow> win_os \<Rightarrow> path \<Rightarrow> bool \<Rightarrow> string \<Rightarrow> hooks \<Rightarrow> sandbox_config option
   \<Rightarrow> (claude_code_config \<times> llm_gateway_config option) option \<Rightarrow> reconcile_plan \<Rightarrow> reconcile_plan \<times> (anyhow + unit)" where
  "claude_plan lib s p merge_existing credential_helper hooks sandbox configured plan =
     (let owner = owner_path p; merge_state = state_path p; codec = pb_codec lib
      in case configured of
        None \<Rightarrow>
          plan_seq (if merge_existing then plan_remove codec s p merge_state ''settings'' ''Claude Code'' plan
                    else (plan, Inr False)) (\<lambda>removed plan1.
          if removed then remove_owner_marker s owner plan1 else claude_remove s p owner plan1)
      | Some (config, gateway) \<Rightarrow>
          plan_seq (plan, claude_managed_settings lib config gateway credential_helper hooks sandbox) (\<lambda>settings plan1.
          if merge_existing then
            plan_seq (is_owned s owner plan1) (\<lambda>owned plan2.
            plan_seq (plan_merge codec s p merge_state settings owned ''settings'' ''Claude Code'' plan2) (\<lambda>_ plan3.
            remove_owner_marker s owner plan3))
          else
            plan_seq (plan1, serialized ''serialize Claude Code managed settings'' (to_vec_pretty codec settings))
              (\<lambda>contents plan2. claude_own_file s p owner contents plan2)))"

definition credential_helper_command :: "provider_lib \<Rightarrow> win_os \<Rightarrow> reconcile_context \<Rightarrow> string" where
  "credential_helper_command lib s ctx =
     render_command lib s (command_new (rc_credential_helper ctx) (credential_args (rc_socket ctx) ''claude-code''))"

definition hook_command :: "reconcile_context \<Rightarrow> bool \<Rightarrow> command_spec" where
  "hook_command ctx include_input =
     command_new (rc_credential_helper ctx)
       ([''--socket'', to_string_lossy (rc_socket ctx), ''hook'', ''claude-pre-tool-use'']
        @ (if include_input then [''--include-input''] else []))"

definition session_hook_command :: "reconcile_context \<Rightarrow> command_spec" where
  "session_hook_command ctx =
     command_new (rc_credential_helper ctx) [''--socket'', to_string_lossy (rc_socket ctx), ''hook'', ''claude-session-start'']"

definition claude_hooks :: "reconcile_context \<Rightarrow> telemetry_config \<Rightarrow> hooks" where
  "claude_hooks ctx telemetry =
     \<lparr>hk_tool_use = (if collects_tool_use telemetry then Some (hook_command ctx (includes_tool_input telemetry)) else None),
      hk_session_new = (if collects_session_new telemetry then Some (session_hook_command ctx) else None)\<rparr>"

definition claude_code :: "provider_lib \<Rightarrow> path \<Rightarrow> provider" where
  "claude_code lib settings_path =
     \<lparr>pv_id = ''claude-code'',
      pv_plan = (\<lambda>ctx config s.
        finish_plan (claude_plan lib s settings_path (rc_merge_user_settings ctx) (credential_helper_command lib s ctx)
          (claude_hooks ctx (dc_telemetry config)) (dc_sandbox config)
          (with_gateway config ccc_use_llm_gateway (pg_claude_code (dc_programs config))) empty_plan))\<rparr>"

section \<open>Pi\<close>

definition pi_models_options :: merge_options where
  "pi_models_options =
     \<lparr>mo_mode = 0x180, mo_keyed_arrays = [], mo_redact_diff = True, mo_format = Jsonc, mo_replace_paths = []\<rparr>"

definition pi_base_url :: "provider_lib \<Rightarrow> llm_gateway_config \<Rightarrow> string \<Rightarrow> string" where
  "pi_base_url lib gateway api =
     (if api = ''openai-completions'' \<or> api = ''openai-responses'' then responses_base_url lib gateway
      else trim_end_char (CHR ''/'') (pb_url_str lib (gw_url gateway)))"

definition pi_catalog :: "pi_config \<Rightarrow> string \<Rightarrow> (string \<times> entries) list" where
  "pi_catalog config default_model =
     (if pi_models config = [] then [(default_model, [])]
      else map (\<lambda>(m, v). (m, case v of Object entry \<Rightarrow> entry | _ \<Rightarrow> [])) (pi_models config))"

text \<open>\<^verbatim>\<open>as_deref().map(str::trim).filter(non-empty).unwrap_or(DEFAULT_API)\<close>.\<close>

definition pi_default_api :: "pi_config \<Rightarrow> string" where
  "pi_default_api config =
     (case map_option trim (pi_api config) of
        Some api \<Rightarrow> if api = [] then ''anthropic-messages'' else api
      | None \<Rightarrow> ''anthropic-messages'')"

definition pi_model_entry :: "provider_lib \<Rightarrow> llm_gateway_config \<Rightarrow> string \<Rightarrow> string \<times> entries \<Rightarrow> json" where
  "pi_model_entry lib gateway api m =
     (let entry = om_insert ''id'' (String (fst m)) (snd m);
          model_api = (case Option.bind (om_get entry ''api'') as_str of None \<Rightarrow> api | Some a \<Rightarrow> a)
      in Object (om_insert ''baseUrl'' (String (pi_base_url lib gateway model_api)) entry))"

definition pi_managed_models ::
  "provider_lib \<Rightarrow> win_os \<Rightarrow> pi_config \<Rightarrow> llm_gateway_config option \<Rightarrow> path \<Rightarrow> path \<Rightarrow> anyhow + json" where
  "pi_managed_models lib s config gateway credential_helper socket =
     (let settings = Object (pi_managed_config config)
      in case gateway of
        None \<Rightarrow> Inr settings
      | Some gw \<Rightarrow>
          (case nonblank (pi_model config) of
             None \<Rightarrow> Inl [''Pi gateway configuration has no model'']
           | Some default_model \<Rightarrow>
               (let api = pi_default_api config;
                    api_key = (if gateway_uses_helper gw
                               then ''!'' @ render_command lib s (command_new credential_helper (credential_args socket ''pi''))
                               else ''agentdesktop-managed'')
                in Inr (deep_merge settings (json_object
                     [(''providers'', json_object
                        [(''agentdesktop'', json_object
                           [(''baseUrl'', String (pi_base_url lib gw api)), (''api'', String api), (''apiKey'', String api_key),
                            (''authHeader'', Bool True),
                            (''models'', Array (map (pi_model_entry lib gw api) (pi_catalog config default_model)))])])])))))"

definition pi_managed_settings :: "pi_config \<Rightarrow> llm_gateway_config option \<Rightarrow> anyhow + json" where
  "pi_managed_settings config gateway =
     (case gateway of
        None \<Rightarrow> Inr (json_object [])
      | Some _ \<Rightarrow>
          (case nonblank (pi_model config) of
             None \<Rightarrow> Inl [''Pi gateway configuration has no model'']
           | Some model \<Rightarrow>
               Inr (json_object [(''defaultProvider'', String ''agentdesktop''), (''defaultModel'', String model)])))"

definition pi_plan ::
  "provider_lib \<Rightarrow> win_os \<Rightarrow> path \<Rightarrow> path \<Rightarrow> path \<Rightarrow> path \<Rightarrow> (pi_config \<times> llm_gateway_config option) option
   \<Rightarrow> reconcile_plan \<Rightarrow> reconcile_plan \<times> (anyhow + unit)" where
  "pi_plan lib s models settings credential_helper socket configured plan =
     (let codec = pb_codec lib
      in case configured of
        None \<Rightarrow>
          plan_seq (plan_remove_with codec s models (state_path models) ''models'' ''Pi'' pi_models_options plan) (\<lambda>_ plan1.
          plan_seq (plan_remove codec s settings (state_path settings) ''settings'' ''Pi'' plan1) (\<lambda>_ plan2.
          (plan2, Inr ())))
      | Some (config, gateway) \<Rightarrow>
          plan_seq (plan, pi_managed_models lib s config gateway credential_helper socket) (\<lambda>managed plan1.
          plan_seq (plan_merge_with codec s models (state_path models) managed False ''models'' ''Pi''
                      (pi_models_options\<lparr>mo_replace_paths := if gateway \<noteq> None then [''/providers/agentdesktop/models''] else []\<rparr>)
                      plan1) (\<lambda>_ plan2.
          plan_seq (plan2, pi_managed_settings config gateway) (\<lambda>managed plan3.
          plan_merge codec s settings (state_path settings) managed False ''settings'' ''Pi'' plan3))))"

definition pi_agent :: "provider_lib \<Rightarrow> path option \<Rightarrow> path option \<Rightarrow> provider" where
  "pi_agent lib models_path settings_path =
     \<lparr>pv_id = ''pi'',
      pv_plan = (\<lambda>ctx config s.
        or_skip (skip_unless ctx UserScope (pg_pi (dc_programs config) \<noteq> None) ''Pi'')
          (case (models_path, settings_path) of
             (Some models, Some settings) \<Rightarrow>
               finish_plan (pi_plan lib s models settings (rc_credential_helper ctx) (rc_socket ctx)
                 (with_gateway config pi_use_llm_gateway (pg_pi (dc_programs config))) empty_plan)
           | _ \<Rightarrow> Inl [''Pi user configuration paths are unavailable'']))\<rparr>"

section \<open>The contract\<close>

context plan_steps
begin

lemma keeps_is_owned: "keeps plan \<Longrightarrow> keeps (fst (is_owned s owner plan))"
  unfolding is_owned_def by (intro keeps_seq keeps_read_existing) simp_all

lemma keeps_remove_owner_marker:
  "owner \<in> own \<Longrightarrow> keeps plan \<Longrightarrow> keeps (fst (remove_owner_marker s owner plan))"
  using remove_step [of owner plan] by (auto simp: remove_owner_marker_def split: prod.splits sum.splits)

lemma keeps_removed:
  "p \<in> own \<Longrightarrow> keeps plan \<Longrightarrow>
   keeps (fst (case plan_remove_file s p plan of (plan1, Inl e) \<Rightarrow> (plan1, Inl (f e)) | (plan1, Inr _) \<Rightarrow> (plan1, Inr ())))"
  using remove_step [of p plan] by (auto split: prod.splits sum.splits)

lemma keeps_claude_remove:
  assumes "p \<in> own" and "owner \<in> own" and "keeps plan"
  shows "keeps (fst (claude_remove s p owner plan))"
  using assms unfolding claude_remove_def
  by (auto intro!: keeps_seq keeps_is_owned keeps_record keeps_read_existing keeps_removed keeps_remove_owner_marker
      split: option.split)

lemma keeps_claude_own_file:
  assumes "p \<in> own" and "owner \<in> own" and "keeps plan"
  shows "keeps (fst (claude_own_file s p owner contents plan))"
  using assms unfolding claude_own_file_def Let_def
  by (auto intro!: keeps_intros keeps_is_owned split: option.split)

lemma keeps_claude_plan:
  assumes "{p, owner_path p, state_path p} \<subseteq> own" and "keeps plan"
  shows "keeps (fst (claude_plan lib s p merge helper hooks sandbox configured plan))"
  using assms unfolding claude_plan_def Let_def
  by (auto intro!: keeps_seq keeps_is_owned keeps_merge keeps_remove keeps_claude_remove keeps_claude_own_file
      keeps_remove_owner_marker split: option.split)

lemma keeps_pi_plan:
  assumes "{models, state_path models, settings, state_path settings} \<subseteq> own" and "keeps plan"
  shows "keeps (fst (pi_plan lib s models settings helper socket configured plan))"
  using assms unfolding pi_plan_def Let_def
  by (auto intro!: keeps_seq keeps_merge_with keeps_merge keeps_remove_with keeps_remove split: option.split)

end

definition claude_files :: "path \<Rightarrow> path set" where
  "claude_files p = {p, owner_path p, state_path p}"

definition pi_files :: "path option \<Rightarrow> path option \<Rightarrow> path set" where
  "pi_files models settings =
     (\<Union>p \<in> set_option models \<union> set_option settings. {p, state_path p})"

interpretation claude_contract: managed_provider "claude_code lib p" "claude_files p" for lib p
proof
  fix ctx config s plan
  assume "pv_plan (claude_code lib p) ctx config s = Inr plan"
  then have plan: "plan = fst (claude_plan lib s p (rc_merge_user_settings ctx) (credential_helper_command lib s ctx)
      (claude_hooks ctx (dc_telemetry config)) (dc_sandbox config)
      (with_gateway config ccc_use_llm_gateway (pg_claude_code (dc_programs config))) empty_plan)"
    by (simp add: claude_code_def finish_plan_Inr)
  have "planned s plan" and "confined s (claude_files p) {} plan" and "dirs_read plan"
    unfolding plan
    by (simp_all add: planning.keeps_claude_plan confinement.keeps_claude_plan dir_reads.keeps_claude_plan planned_empty claude_files_def)
  then show "proper_plan s plan" and "fc_path ` set (rp_operations plan) \<subseteq> claude_files p"
    by (auto intro: proper_confined simp: confined_def)
qed

interpretation pi_contract: managed_provider "pi_agent lib models settings" "pi_files models settings" for lib models settings
proof
  fix ctx config s plan
  assume "pv_plan (pi_agent lib models settings) ctx config s = Inr plan"
  then consider "skip_unless ctx UserScope (pg_pi (dc_programs config) \<noteq> None) ''Pi'' = Some plan"
    | m p where "models = Some m" "settings = Some p"
        "plan = fst (pi_plan lib s m p (rc_credential_helper ctx) (rc_socket ctx)
           (with_gateway config pi_use_llm_gateway (pg_pi (dc_programs config))) empty_plan)"
    by (auto simp: pi_agent_def or_skip_def finish_plan_Inr split: option.splits)
  then have "planned s plan \<and> confined s (pi_files models settings) {} plan \<and> dirs_read plan"
    by cases (simp_all add: skip_unless_confined planning.keeps_pi_plan confinement.keeps_pi_plan dir_reads.keeps_pi_plan planned_empty pi_files_def)
  then show "proper_plan s plan" and "fc_path ` set (rp_operations plan) \<subseteq> pi_files models settings"
    by (auto intro: proper_confined simp: confined_def)
qed

end
