(* ===== verification/Provider_Desktop.thy ===== *)
theory Provider_Desktop
  imports Provider_Merge
begin

text \<open>
  Claude Desktop (\<^verbatim>\<open>provider/claude_desktop\<close>): a managed settings file and a credential helper script,
  each marked by an ownership file; on Windows the settings are values of a registry key, marked by an
  ownership value. Value names match case-insensitively, as the registry matches them.
\<close>

section \<open>Owned files\<close>

definition desktop_owner_path :: "path \<Rightarrow> path" where
  "desktop_owner_path p =
     (let name = (case file_name p of None \<Rightarrow> ''managed'' | Some n \<Rightarrow> if valid_utf8 n then n else ''managed'')
      in with_file_name p (''.'' @ name @ ''.owner''))"

definition desktop_is_owned :: "win_os \<Rightarrow> path \<Rightarrow> reconcile_plan \<Rightarrow> reconcile_plan \<times> (anyhow + bool)" where
  "desktop_is_owned s owner plan =
     plan_seq (read_existing s ''read '' owner plan) (\<lambda>contents plan1. (plan1, Inr (contents = Some owner_marker)))"

definition desktop_remove_marker :: "win_os \<Rightarrow> path \<Rightarrow> reconcile_plan \<Rightarrow> reconcile_plan \<times> (anyhow + unit)" where
  "desktop_remove_marker s owner plan =
     (case plan_remove_file s owner plan of
        (plan1, Inr _) \<Rightarrow> (plan1, Inr ())
      | (plan1, Inl e) \<Rightarrow>
          if kind e = NotFound then (plan1, Inr ())
          else (plan1, Inl [''remove '' @ path_display owner, io_message e]))"

definition write_owned ::
  "win_os \<Rightarrow> path \<Rightarrow> path \<Rightarrow> bytes \<Rightarrow> mode \<Rightarrow> string \<Rightarrow> reconcile_plan \<Rightarrow> reconcile_plan \<times> (anyhow + unit)" where
  "write_owned s p owner contents m description plan =
     plan_seq (desktop_is_owned s owner plan) (\<lambda>owned plan1.
     plan_seq (read_existing s ''read '' p plan1) (\<lambda>existing plan2.
     let record = (\<lambda>action plan. (plan_record_diff ''Claude Desktop'' description action p existing (Some contents) plan, Inr ()));
         write = (\<lambda>action.
           plan_seq (plan_write_file s p contents m plan2) (\<lambda>_ plan3.
           plan_seq (plan_write_file s owner owner_marker 0x1A4 plan3) (\<lambda>_ plan4. record action plan4)))
     in case existing of
       None \<Rightarrow> write ''create''
     | Some e \<Rightarrow>
         if e = contents \<and> \<not> grants_beyond s p m then
           plan_seq (if owned then (plan2, Inr ()) else plan_write_file s owner owner_marker 0x1A4 plan2) (\<lambda>_ plan3.
           record ''unchanged'' plan3)
         else if owned \<or> e = contents then write ''update''
         else record ''conflict'' plan2))"

definition remove_owned :: "win_os \<Rightarrow> path \<Rightarrow> path \<Rightarrow> string \<Rightarrow> reconcile_plan \<Rightarrow> reconcile_plan \<times> (anyhow + unit)" where
  "remove_owned s p owner description plan =
     plan_seq (desktop_is_owned s owner plan) (\<lambda>owned plan1.
     if \<not> owned then (plan_record s ''Claude Desktop'' description ''unchanged'' p plan1, Inr ())
     else
       plan_seq (read_existing s ''inspect '' p plan1) (\<lambda>contents plan2.
       plan_seq (case contents of
                   None \<Rightarrow> (plan_record s ''Claude Desktop'' description ''unchanged'' p plan2, Inr ())
                 | Some _ \<Rightarrow>
                     plan_seq (case plan_remove_file s p plan2 of
                                 (plan3, Inl e) \<Rightarrow> (plan3, Inl [''remove '' @ path_display p, io_message e])
                               | (plan3, Inr _) \<Rightarrow> (plan3, Inr ())) (\<lambda>_ plan3.
                     (plan_record s ''Claude Desktop'' description ''remove'' p plan3, Inr ()))) (\<lambda>_ plan3.
       desktop_remove_marker s owner plan3)))"

section \<open>The credential helper and the settings\<close>

definition batch_quote :: "string \<Rightarrow> anyhow + string" where
  "batch_quote v =
     (if CHR 0x22 \<in> set v \<or> CHR 0x0D \<in> set v \<or> CHR 0x0A \<in> set v
      then Inl [''Windows helper argument contains an unsupported quote or newline'']
      else Inr ([CHR 0x22] @ replace_char (CHR ''%'') ''%%'' v @ [CHR 0x22]))"

definition posix_credential_helper :: "string \<Rightarrow> string \<Rightarrow> bytes" where
  "posix_credential_helper binary socket =
     ''#!/bin/sh'' @ [CHR 0x0A] @ ''exec '' @ shell_quote binary @ '' --socket '' @ shell_quote socket
     @ '' credential --client-id claude-desktop'' @ [CHR 0x0A]"

definition windows_credential_helper :: "string \<Rightarrow> string \<Rightarrow> anyhow + bytes" where
  "windows_credential_helper binary socket =
     (case batch_quote binary of
        Inl e \<Rightarrow> Inl e
      | Inr quoted_binary \<Rightarrow>
          (case batch_quote socket of
             Inl e \<Rightarrow> Inl e
           | Inr quoted_socket \<Rightarrow>
               Inr (''@echo off'' @ [CHR 0x0D, CHR 0x0A] @ quoted_binary @ '' --socket '' @ quoted_socket
                    @ '' credential --client-id claude-desktop'' @ [CHR 0x0D, CHR 0x0A])))"

definition credential_helper_contents :: "win_os \<Rightarrow> path \<Rightarrow> path \<Rightarrow> anyhow + bytes" where
  "credential_helper_contents s binary socket =
     (if os_unix s then Inr (posix_credential_helper (to_string_lossy binary) (to_string_lossy socket))
      else windows_credential_helper (to_string_lossy binary) (to_string_lossy socket))"

text \<open>\<^verbatim>\<open>json!(helper_path)\<close> needs a path in UTF-8, as the fixed default path and a decoded command line option are.\<close>

definition desktop_managed_settings ::
  "provider_lib \<Rightarrow> claude_desktop_config \<Rightarrow> llm_gateway_config option \<Rightarrow> path \<Rightarrow> json" where
  "desktop_managed_settings lib config gateway helper_path =
     (case gateway of
        None \<Rightarrow> Object (cdc_settings config)
      | Some gw \<Rightarrow>
          deep_merge (Object (cdc_settings config))
            (json_object
              ([(''inferenceProvider'', String ''gateway''), (''inferenceGatewayBaseUrl'', String (pb_url_str lib (gw_url gw)))]
               @ (if gateway_uses_helper gw
                  then [(''inferenceCredentialKind'', String ''helper-script''),
                        (''inferenceCredentialHelper'', String (path_display helper_path)),
                        (''inferenceCredentialHelperTtlSec'', number_of 60)]
                  else []))))"

section \<open>Registry values\<close>

definition registry_owner_value :: string where
  "registry_owner_value = ''.agentdesktop.owner''"

definition policy_key :: registry_key where
  "policy_key = local_machine (''SOFTWARE'' @ [backslash] @ ''Policies'' @ [backslash] @ ''Claude'')"

text \<open>The number of characters of a UTF-8 string.\<close>

definition char_count :: "string \<Rightarrow> nat" where
  "char_count s = length (filter (\<lambda>c. \<not> continuation_byte c) s)"

definition check_value_name :: "provider_lib \<Rightarrow> (string \<times> string) list \<Rightarrow> string \<Rightarrow> anyhow + unit" where
  "check_value_name lib folded name =
     (if eq_ignore_ascii_case name registry_owner_value
      then Inl [''Claude Desktop setting name '' @ registry_owner_value @ '' is reserved for agentdesktop's ownership marker'']
      else if CHR 0x00 \<in> set name
      then Inl [''Claude Desktop setting name '' @ pb_debug lib name @ '' contains an embedded NUL'']
      else if length (encode_utf16 name) > 16383
      then Inl [''Claude Desktop setting name of '' @ decimal (char_count name) @ '' characters is longer than a registry value name allows'']
      else case om_get folded (map to_ascii_lower name) of
        Some previous \<Rightarrow>
          Inl [''Claude Desktop setting names '' @ previous @ '' and '' @ name @ '' differ only in case and address the same registry value'']
      | None \<Rightarrow> Inr ())"

definition value_data :: "provider_lib \<Rightarrow> json \<Rightarrow> string" where
  "value_data lib v = (case v of String t \<Rightarrow> t | _ \<Rightarrow> pb_display lib v)"

fun flatten_settings ::
  "provider_lib \<Rightarrow> (string \<times> string) list \<Rightarrow> (string \<times> string) list \<Rightarrow> entries \<Rightarrow> anyhow + (string \<times> string) list" where
  "flatten_settings lib folded values [] = Inr values"
| "flatten_settings lib folded values ((name, v) # rest) =
     (case check_value_name lib folded name of
        Inl e \<Rightarrow> Inl e
      | Inr _ \<Rightarrow>
          if CHR 0x00 \<in> set (value_data lib v)
          then Inl [''Claude Desktop setting '' @ name @ '' contains an embedded NUL'']
          else flatten_settings lib (om_insert (map to_ascii_lower name) name folded)
                 (om_insert name (value_data lib v) values) rest)"

definition registry_values_of :: "provider_lib \<Rightarrow> json \<Rightarrow> anyhow + (string \<times> string) list" where
  "registry_values_of lib settings =
     (case settings of
        Object m \<Rightarrow> flatten_settings lib [] [] m
      | _ \<Rightarrow> Inl [''Claude Desktop managed settings serialize to an object''])"

definition observed_value :: "registry_values \<Rightarrow> string \<Rightarrow> string option option" where
  "observed_value observed name =
     find_map (\<lambda>(existing, data). if eq_ignore_ascii_case existing name then Some data else None) observed"

definition observes_name :: "registry_values \<Rightarrow> string \<Rightarrow> bool" where
  "observes_name observed name = list_ex (\<lambda>(existing, _). eq_ignore_ascii_case existing name) observed"

text \<open>The names that the data of an ownership marker claims.\<close>

definition marker_claims :: "provider_lib \<Rightarrow> string option option \<Rightarrow> string list" where
  "marker_claims lib marker =
     (case Option.bind (Option.bind marker (\<lambda>d. d))
             (\<lambda>d. Option.bind (from_slice (pb_codec lib) d) (\<lambda>v. Option.bind (as_array v) (\<lambda>xs. collect_options (map as_str xs)))) of
        None \<Rightarrow> []
      | Some names \<Rightarrow> btree_set names)"

definition registry_owned_values :: "provider_lib \<Rightarrow> registry_values \<Rightarrow> string list" where
  "registry_owned_values lib observed = marker_claims lib (observed_value observed registry_owner_value)"

definition registry_report :: "provider_lib \<Rightarrow> string list \<Rightarrow> registry_values \<Rightarrow> bytes" where
  "registry_report lib names observed =
     pb_display lib (json_object (List.map_filter
       (\<lambda>name. map_option (\<lambda>d. (name, case d of None \<Rightarrow> Null | Some t \<Rightarrow> String t)) (observed_value observed name)) names))"

definition registry_report_desired :: "provider_lib \<Rightarrow> (string \<times> string) list \<Rightarrow> bytes" where
  "registry_report_desired lib desired = pb_display lib (json_object (map (\<lambda>(n, d). (n, String d)) desired))"

definition claims :: "string list \<Rightarrow> string \<Rightarrow> bool" where
  "claims owned name = list_ex (\<lambda>claimed. eq_ignore_ascii_case claimed name) owned"

definition registry_removals :: "provider_lib \<Rightarrow> registry_values \<Rightarrow> (string \<times> string option) list" where
  "registry_removals lib observed =
     map (\<lambda>n. (n, None)) (filter (observes_name observed) (registry_owned_values lib observed)) @ [(registry_owner_value, None)]"

definition plan_registry_remove :: "provider_lib \<Rightarrow> registry_key \<Rightarrow> registry_values \<Rightarrow> reconcile_plan \<Rightarrow> reconcile_plan" where
  "plan_registry_remove lib k observed plan =
     (if \<not> observes_name observed registry_owner_value
      then plan_record_diff ''Claude Desktop'' ''managed settings'' ''unchanged'' (display_path k) None None plan
      else
        plan_registry_key
          \<lparr>rkp_key = k, rkp_observed = observed, rkp_changes = registry_removals lib observed, rkp_delete_key_when_empty = True\<rparr>
          (plan_record_diff ''Claude Desktop'' ''managed settings'' ''remove'' (display_path k)
             (Some (registry_report lib (registry_owned_values lib observed) observed)) None plan))"

text \<open>The claimed names that are no longer desired, and the values to write and to delete.\<close>

definition stale_names :: "provider_lib \<Rightarrow> registry_values \<Rightarrow> (string \<times> string) list \<Rightarrow> string list" where
  "stale_names lib observed desired = filter (\<lambda>n. \<not> claims (map fst desired) n) (registry_owned_values lib observed)"

definition value_changes ::
  "provider_lib \<Rightarrow> registry_values \<Rightarrow> (string \<times> string) list \<Rightarrow> (string \<times> string option) list" where
  "value_changes lib observed desired =
     List.map_filter (\<lambda>(n, d). if observed_value observed n = Some (Some d) then None else Some (n, Some d)) desired
     @ map (\<lambda>n. (n, None)) (filter (observes_name observed) (stale_names lib observed desired))"

definition full_claim :: "provider_lib \<Rightarrow> registry_values \<Rightarrow> (string \<times> string) list \<Rightarrow> string" where
  "full_claim lib observed desired =
     pb_display lib (json_strings (btree_set (map fst desired @ stale_names lib observed desired)))"

definition final_claim :: "provider_lib \<Rightarrow> (string \<times> string) list \<Rightarrow> string" where
  "final_claim lib desired = pb_display lib (json_strings (map fst desired))"

text \<open>
  The changes that bring the key to the desired values: the claim of every name comes first and shrinks
  to the desired names at the end, so that whatever is written meanwhile is claimed.
\<close>

definition registry_changes ::
  "provider_lib \<Rightarrow> registry_values \<Rightarrow> (string \<times> string) list \<Rightarrow> (string \<times> string option) list" where
  "registry_changes lib observed desired =
     (if Option.bind (observed_value observed registry_owner_value) (\<lambda>d. d) \<noteq> Some (full_claim lib observed desired)
      then [(registry_owner_value, Some (full_claim lib observed desired))] else [])
     @ value_changes lib observed desired
     @ (if final_claim lib desired \<noteq> full_claim lib observed desired
        then [(registry_owner_value, Some (final_claim lib desired))] else [])"

definition registry_conflict :: "provider_lib \<Rightarrow> registry_values \<Rightarrow> (string \<times> string) list \<Rightarrow> bool" where
  "registry_conflict lib observed desired =
     list_ex (\<lambda>(n, d). case observed_value observed n of
                None \<Rightarrow> False
              | Some existing \<Rightarrow> existing \<noteq> Some d \<and> \<not> claims (registry_owned_values lib observed) n) desired"

definition plan_registry_settings ::
  "provider_lib \<Rightarrow> registry_key \<Rightarrow> registry_values \<Rightarrow> (string \<times> string) list \<Rightarrow> reconcile_plan \<Rightarrow> reconcile_plan" where
  "plan_registry_settings lib k observed desired plan =
     (if desired = [] then plan_registry_remove lib k observed plan
      else
        (let before = registry_report lib (map fst desired @ registry_owned_values lib observed) observed;
             after = registry_report_desired lib desired;
             record = (\<lambda>action. plan_record_diff ''Claude Desktop'' ''managed settings'' action (display_path k) (Some before) (Some after))
         in if registry_conflict lib observed desired then record ''conflict'' plan
            else
              (let changes = registry_changes lib observed desired;
                   action = (if list_ex (\<lambda>(n, _). n \<noteq> registry_owner_value) changes
                             then (if observed = [] then ''create'' else ''update'') else ''unchanged'')
               in record action
                    (if changes = [] then plan
                     else plan_registry_key
                       \<lparr>rkp_key = k, rkp_observed = observed, rkp_changes = changes, rkp_delete_key_when_empty = False\<rparr> plan))))"

section \<open>Planning\<close>

record claude_desktop_paths =
  cd_settings_path :: path
  cd_helper_path :: path
  cd_policy_key :: registry_key

definition with_policy_values ::
  "win_os \<Rightarrow> registry_key \<Rightarrow> (registry_values \<Rightarrow> reconcile_plan \<Rightarrow> reconcile_plan \<times> (anyhow + unit))
   \<Rightarrow> reconcile_plan \<Rightarrow> reconcile_plan \<times> (anyhow + unit)" where
  "with_policy_values s k rest plan =
     (case read_values s k of
        Inl e \<Rightarrow> (plan, Inl [''read '' @ path_display (display_path k), io_message e])
      | Inr observed \<Rightarrow> rest observed plan)"

definition remove_legacy_settings_file :: "win_os \<Rightarrow> path \<Rightarrow> path \<Rightarrow> reconcile_plan \<Rightarrow> reconcile_plan \<times> (anyhow + unit)" where
  "remove_legacy_settings_file s p owner plan =
     plan_seq (desktop_is_owned s owner plan) (\<lambda>owned plan1.
     if owned then remove_owned s p owner ''managed settings'' plan1 else (plan1, Inr ()))"

definition serialize_managed_settings :: "provider_lib \<Rightarrow> json \<Rightarrow> anyhow + bytes" where
  "serialize_managed_settings lib settings =
     (if pb_macos lib
      then printed ''serialize Claude Desktop managed settings as a property list'' (pb_plist lib settings)
      else serialized ''serialize Claude Desktop managed settings'' (to_vec_pretty (pb_codec lib) settings))"

definition plan_managed_settings ::
  "provider_lib \<Rightarrow> win_os \<Rightarrow> claude_desktop_paths \<Rightarrow> path \<Rightarrow> json \<Rightarrow> reconcile_plan \<Rightarrow> reconcile_plan \<times> (anyhow + unit)" where
  "plan_managed_settings lib s desktop owner settings plan =
     (if os_unix s then
        plan_seq (plan, serialize_managed_settings lib settings) (\<lambda>contents plan1.
        write_owned s (cd_settings_path desktop) owner contents 0x1A4 ''managed settings'' plan1)
      else
        plan_seq (remove_legacy_settings_file s (cd_settings_path desktop) owner plan) (\<lambda>_ plan1.
        with_policy_values s (cd_policy_key desktop) (\<lambda>observed plan2.
        plan_seq (plan2, registry_values_of lib settings) (\<lambda>desired plan3.
        (plan_registry_settings lib (cd_policy_key desktop) observed desired plan3, Inr ()))) plan1))"

text \<open>The removal of what the daemon manages.\<close>

definition desktop_remove ::
  "provider_lib \<Rightarrow> win_os \<Rightarrow> claude_desktop_paths \<Rightarrow> bool \<Rightarrow> reconcile_plan \<Rightarrow> reconcile_plan \<times> (anyhow + unit)" where
  "desktop_remove lib s desktop merge_existing plan =
     (let settings = cd_settings_path desktop; owner = desktop_owner_path settings; helper = cd_helper_path desktop
      in plan_seq (if merge_existing
                   then plan_remove (pb_codec lib) s settings (state_path settings) ''managed settings'' ''Claude Desktop'' plan
                   else (plan, Inr False)) (\<lambda>removed plan1.
         plan_seq (if removed then desktop_remove_marker s owner plan1
                   else if os_unix s then remove_owned s settings owner ''managed settings'' plan1
                   else remove_legacy_settings_file s settings owner plan1) (\<lambda>_ plan2.
         plan_seq (if \<not> os_unix s \<and> \<not> merge_existing
                   then with_policy_values s (cd_policy_key desktop)
                          (\<lambda>observed plan3. (plan_registry_remove lib (cd_policy_key desktop) observed plan3, Inr ())) plan2
                   else (plan2, Inr ())) (\<lambda>_ plan3.
         remove_owned s helper (desktop_owner_path helper) ''credential helper'' plan3))))"

definition desktop_plan ::
  "provider_lib \<Rightarrow> win_os \<Rightarrow> claude_desktop_paths \<Rightarrow> bool \<Rightarrow> path \<Rightarrow> path
   \<Rightarrow> (claude_desktop_config \<times> llm_gateway_config option) option \<Rightarrow> reconcile_plan \<Rightarrow> reconcile_plan \<times> (anyhow + unit)" where
  "desktop_plan lib s desktop merge_existing binary socket configured plan =
     (case configured of
        None \<Rightarrow> desktop_remove lib s desktop merge_existing plan
      | Some (config, gateway) \<Rightarrow>
          (let helper = cd_helper_path desktop; helper_owner = desktop_owner_path helper
           in plan_seq (if (case gateway of None \<Rightarrow> False | Some gw \<Rightarrow> gateway_uses_helper gw)
                        then plan_seq (plan, credential_helper_contents s binary socket) (\<lambda>script plan1.
                             write_owned s helper helper_owner script 0x1ED ''credential helper'' plan1)
                        else remove_owned s helper helper_owner ''credential helper'' plan) (\<lambda>_ plan1.
              if merge_existing
              then (plan1, Inl [''Claude Desktop settings cannot be applied to its user preferences; use system-managed settings''])
              else plan_managed_settings lib s desktop (desktop_owner_path (cd_settings_path desktop))
                     (desktop_managed_settings lib config gateway helper) plan1)))"

definition claude_desktop :: "provider_lib \<Rightarrow> claude_desktop_paths \<Rightarrow> provider" where
  "claude_desktop lib desktop =
     \<lparr>pv_id = ''claude-desktop'',
      pv_plan = (\<lambda>ctx config s.
        or_skip (skip_unless ctx SystemScope (pg_claude_desktop (dc_programs config) \<noteq> None) ''Claude Desktop'')
          (finish_plan (desktop_plan lib s desktop (rc_merge_user_settings ctx) (rc_credential_helper ctx) (rc_socket ctx)
             (with_gateway config cdc_use_llm_gateway (pg_claude_desktop (dc_programs config))) empty_plan)))\<rparr>"

section \<open>The contract\<close>

context plan_steps
begin

lemma keeps_desktop_owned: "keeps plan \<Longrightarrow> keeps (fst (desktop_is_owned s owner plan))"
  unfolding desktop_is_owned_def by (intro keeps_seq keeps_read_existing) simp_all

lemma keeps_desktop_marker: "owner \<in> own \<Longrightarrow> keeps plan \<Longrightarrow> keeps (fst (desktop_remove_marker s owner plan))"
  using remove_step [of owner plan] by (auto simp: desktop_remove_marker_def split: prod.splits sum.splits)

lemma keeps_write_owned:
  assumes "p \<in> own" and "owner \<in> own" and "keeps plan"
  shows "keeps (fst (write_owned s p owner contents m d plan))"
  using assms unfolding write_owned_def Let_def
  by (auto intro!: keeps_intros keeps_desktop_owned split: option.split)

lemma keeps_remove_owned:
  assumes "p \<in> own" and "owner \<in> own" and "keeps plan"
  shows "keeps (fst (remove_owned s p owner d plan))"
  using assms unfolding remove_owned_def
  by (auto intro!: keeps_seq keeps_desktop_owned keeps_record keeps_read_existing keeps_removed keeps_desktop_marker
      split: option.split)

lemma keeps_legacy_file:
  "p \<in> own \<Longrightarrow> owner \<in> own \<Longrightarrow> keeps plan \<Longrightarrow> keeps (fst (remove_legacy_settings_file s p owner plan))"
  unfolding remove_legacy_settings_file_def by (auto intro!: keeps_seq keeps_desktop_owned keeps_remove_owned)

lemma keeps_registry_remove:
  "\<not> os_unix s \<Longrightarrow> read_values s k = Inr observed \<Longrightarrow> keeps plan \<Longrightarrow> keeps (plan_registry_remove lib k observed plan)"
  by (simp add: plan_registry_remove_def Let_def registry_step diff_step)

lemma keeps_registry_settings:
  "\<not> os_unix s \<Longrightarrow> read_values s k = Inr observed \<Longrightarrow> keeps plan
   \<Longrightarrow> keeps (plan_registry_settings lib k observed desired plan)"
  by (auto simp: plan_registry_settings_def Let_def intro!: registry_step diff_step keeps_registry_remove)

lemma keeps_policy_values:
  assumes "\<And>observed plan. read_values s k = Inr observed \<Longrightarrow> keeps plan \<Longrightarrow> keeps (fst (rest observed plan))" and "keeps plan"
  shows "keeps (fst (with_policy_values s k rest plan))"
  using assms by (simp add: with_policy_values_def split: sum.split)

lemma keeps_plan_managed_settings:
  assumes "cd_settings_path desktop \<in> own" and "owner \<in> own" and "keeps plan"
  shows "keeps (fst (plan_managed_settings lib s desktop owner settings plan))"
  using assms unfolding plan_managed_settings_def
  by (auto intro!: keeps_seq keeps_write_owned keeps_legacy_file keeps_policy_values keeps_registry_settings)

lemma keeps_desktop_plan:
  assumes "{cd_settings_path desktop, desktop_owner_path (cd_settings_path desktop), state_path (cd_settings_path desktop),
      cd_helper_path desktop, desktop_owner_path (cd_helper_path desktop)} \<subseteq> own" and "keeps plan"
  shows "keeps (fst (desktop_plan lib s desktop merge binary socket configured plan))"
  using assms unfolding desktop_plan_def desktop_remove_def Let_def
  by (auto intro!: keeps_seq keeps_remove keeps_write_owned keeps_remove_owned keeps_legacy_file keeps_desktop_marker
      keeps_policy_values keeps_registry_remove keeps_plan_managed_settings split: option.split)

end

definition desktop_files :: "claude_desktop_paths \<Rightarrow> path set" where
  "desktop_files desktop =
     {cd_settings_path desktop, desktop_owner_path (cd_settings_path desktop), state_path (cd_settings_path desktop),
      cd_helper_path desktop, desktop_owner_path (cd_helper_path desktop)}"

interpretation desktop_contract: managed_provider "claude_desktop lib desktop" "desktop_files desktop" for lib desktop
proof
  fix ctx config s plan
  assume "pv_plan (claude_desktop lib desktop) ctx config s = Inr plan"
  then consider "skip_unless ctx SystemScope (pg_claude_desktop (dc_programs config) \<noteq> None) ''Claude Desktop'' = Some plan"
    | "plan = fst (desktop_plan lib s desktop (rc_merge_user_settings ctx) (rc_credential_helper ctx) (rc_socket ctx)
         (with_gateway config cdc_use_llm_gateway (pg_claude_desktop (dc_programs config))) empty_plan)"
    by (auto simp: claude_desktop_def or_skip_def finish_plan_Inr split: option.splits)
  then have "planned s plan \<and> confined s (desktop_files desktop) {} plan \<and> dirs_read plan"
    by cases (simp_all add: skip_unless_confined planning.keeps_desktop_plan confinement.keeps_desktop_plan
        dir_reads.keeps_desktop_plan planned_empty desktop_files_def)
  then show "proper_plan s plan" and "fc_path ` set (rp_operations plan) \<subseteq> desktop_files desktop"
    by (auto intro: proper_confined simp: confined_def)
qed

end
