(* ===== verification/Provider_Facts.thy ===== *)
theory Provider_Facts
  imports Provider_Vscode Provider_Desktop
begin

text \<open>
  The reconciler with the providers that \<^verbatim>\<open>Reconciler::new\<close> gives it, and what their plans promise: they are
  plans the reconciler's theorems apply to, they stay within the files the daemon manages, and they leave
  alone what the user wrote.
\<close>

section \<open>The reconciler and its providers\<close>

text \<open>The arguments of \<^verbatim>\<open>Reconciler::new\<close>, and the libraries of its providers.\<close>

record managed_paths =
  mp_claude_code_settings :: path
  mp_claude_desktop_settings :: path
  mp_claude_desktop_helper :: path
  mp_codex_config :: path
  mp_open_code_config :: path
  mp_open_code_plugin :: path
  mp_grok_config :: path
  mp_copilot_providers :: "path option"
  mp_vscode_chat_models :: "path option"
  mp_vscode_settings :: "path option"
  mp_pi_models :: "path option"
  mp_pi_settings :: "path option"

text \<open>A provider that only discovers: the trait's own \<^verbatim>\<open>plan\<close> is empty.\<close>

definition discovery_only :: "string \<Rightarrow> provider" where
  "discovery_only program = \<lparr>pv_id = program, pv_plan = (\<lambda>_ _ _. Inr empty_plan)\<rparr>"

definition reconciler_new ::
  "provider_lib \<Rightarrow> 'd settings_lib \<Rightarrow> bool \<Rightarrow> managed_paths \<Rightarrow> path \<Rightarrow> path \<Rightarrow> reconciler" where
  "reconciler_new lib vlib merge_user_settings paths credential_helper socket =
     \<lparr>re_context = \<lparr>rc_merge_user_settings = merge_user_settings, rc_user_mode = merge_user_settings,
        rc_credential_helper = credential_helper, rc_socket = socket, rc_llm_proxy = None\<rparr>,
      re_providers =
        [claude_code lib (mp_claude_code_settings paths),
         claude_desktop lib \<lparr>cd_settings_path = mp_claude_desktop_settings paths,
           cd_helper_path = mp_claude_desktop_helper paths, cd_policy_key = policy_key\<rparr>,
         codex lib (mp_codex_config paths),
         open_code lib (mp_open_code_config paths) (mp_open_code_plugin paths),
         vscode vlib (mp_vscode_chat_models paths) (mp_vscode_settings paths),
         discovery_only ''cursor'',
         grok lib (mp_grok_config paths),
         copilot_cli (pb_codec lib) (mp_copilot_providers paths),
         pi_agent lib (mp_pi_models paths) (mp_pi_settings paths),
         discovery_only ''ollama''],
      re_last_apply = None, re_choice = AllPrograms\<rparr>"

definition managed_files :: "managed_paths \<Rightarrow> path set" where
  "managed_files paths =
     claude_files (mp_claude_code_settings paths)
     \<union> desktop_files \<lparr>cd_settings_path = mp_claude_desktop_settings paths,
         cd_helper_path = mp_claude_desktop_helper paths, cd_policy_key = policy_key\<rparr>
     \<union> {mp_codex_config paths, mp_open_code_config paths, mp_open_code_plugin paths, mp_grok_config paths}
     \<union> vscode_files (mp_vscode_chat_models paths) (mp_vscode_settings paths)
     \<union> copilot_files (mp_copilot_providers paths)
     \<union> pi_files (mp_pi_models paths) (mp_pi_settings paths)"

interpretation discovery_contract: managed_provider "discovery_only program" "{}" for program
proof
  fix ctx config s plan
  assume "pv_plan (discovery_only program) ctx config s = Inr plan"
  then have "plan = empty_plan" by (simp add: discovery_only_def)
  then show "proper_plan s plan" and "fc_path ` set (rp_operations plan) \<subseteq> {}"
    using proper_confined [OF planned_empty confined_empty dirs_read_empty(1)] by (simp_all add: empty_plan_def)
qed

lemma managed_provider_mono: "managed_provider pv own \<Longrightarrow> own \<subseteq> own' \<Longrightarrow> managed_provider pv own'"
  unfolding managed_provider_def by blast

lemma reconciler_providers_managed:
  assumes "pv \<in> set (re_providers (reconciler_new lib vlib merge paths helper socket))"
  shows "managed_provider pv (managed_files paths)"
  using assms unfolding reconciler_new_def managed_files_def
  by (auto intro: managed_provider_mono [OF claude_contract.managed_provider_axioms]
      managed_provider_mono [OF desktop_contract.managed_provider_axioms]
      managed_provider_mono [OF codex_contract.managed_provider_axioms]
      managed_provider_mono [OF open_code_contract.managed_provider_axioms]
      managed_provider_mono [OF vscode_contract.managed_provider_axioms]
      managed_provider_mono [OF grok_contract.managed_provider_axioms]
      managed_provider_mono [OF copilot_contract.managed_provider_axioms]
      managed_provider_mono [OF pi_contract.managed_provider_axioms]
      managed_provider_mono [OF discovery_contract.managed_provider_axioms])

text \<open>The reconciler as the daemon runs it: with its proxy attached and the user's choice of programs.\<close>

definition daemon_reconciler ::
  "provider_lib \<Rightarrow> 'd settings_lib \<Rightarrow> bool \<Rightarrow> managed_paths \<Rightarrow> path \<Rightarrow> path \<Rightarrow> llm_proxy_context option \<Rightarrow> program_choice
   \<Rightarrow> reconciler" where
  "daemon_reconciler lib vlib merge paths helper socket proxy choice =
     set_program_choice choice (with_llm_proxy proxy (reconciler_new lib vlib merge paths helper socket))"

lemma daemon_providers:
  "re_providers (daemon_reconciler lib vlib merge paths helper socket proxy choice)
   = re_providers (reconciler_new lib vlib merge paths helper socket)"
  by (simp add: daemon_reconciler_def set_program_choice_def with_llm_proxy_def)

text \<open>
  C12. The reconciler that the daemon builds satisfies what the reconciler's theorems ask of its providers,
  for every configuration and every state of the system: each of the ten providers only returns plans made
  of the planning operations, for what it read, and reports under a name of its own.
\<close>

theorem daemon_providers_plan:
  "providers_plan (daemon_reconciler lib vlib merge paths helper socket proxy choice) config s
   \<and> distinct (map pv_id (re_providers (daemon_reconciler lib vlib merge paths helper socket proxy choice)))"
proof
  show "providers_plan (daemon_reconciler lib vlib merge paths helper socket proxy choice) config s"
    using reconciler_providers_managed by (intro managed_providers_plan) (fastforce simp: daemon_providers)
  show "distinct (map pv_id (re_providers (daemon_reconciler lib vlib merge paths helper socket proxy choice)))"
    unfolding daemon_providers by (simp add: reconciler_new_def claude_code_def claude_desktop_def codex_def
      open_code_def vscode_def discovery_only_def grok_def copilot_cli_def pi_agent_def)
qed

text \<open>
  C13. Applying the daemon's configuration, whether it succeeds, is refused or fails half-way, leaves every
  file outside the files the daemon manages as it was: what exists there is not changed or removed, and
  nothing appears but directories above a managed file and temporary files.
\<close>

theorem apply_stays_in_managed_files:
  assumes "attributed_apply (plan_with_report (daemon_reconciler lib vlib merge paths helper socket proxy choice) config s) t
      = (t', report, result)"
    and "q \<notin> managed_files paths"
  shows "same_node q (os_node t q) (os_node t' q)"
proof -
  let ?ap = "plan_with_report (daemon_reconciler lib vlib merge paths helper socket proxy choice) config s"
  have "fc_path ` set (rp_operations (ap_plan ?ap)) \<subseteq> managed_files paths"
    using reconciler_providers_managed by (intro plan_with_report_operations) (fastforce simp: daemon_providers)
  with assms(2) have q: "q \<notin> fc_path ` set (rp_operations (ap_plan ?ap))" by blast
  obtain u res stop where run: "run_attributed ?ap t = (u, res, stop)" by (cases "run_attributed ?ap t") auto
  with assms(1) have "u = t'" by (simp add: attributed_apply_def Let_def split: prod.splits)
  with run_attributed_frame [OF run q] show ?thesis by simp
qed

section \<open>Files without the daemon's header\<close>

text \<open>Planning that never plans a write to, or the removal of, one given file.\<close>

definition spares :: "win_os \<Rightarrow> path \<Rightarrow> reconcile_plan \<Rightarrow> bool" where
  "spares s x plan \<longleftrightarrow> planned s plan \<and> confined s (- {x}) UNIV plan"

interpretation sparing: plan_steps s "- {x}" UNIV "spares s x" for s x
  by unfold_locales (simp_all add: spares_def planning.read_step confinement.read_step planning.write_step
      confinement.write_step planning.remove_step confinement.remove_step planning.dir_step confinement.dir_step
      planning.diff_step confinement.diff_step planning.inactive_step confinement.inactive_step
      planning.registry_step confinement.registry_step)

lemma spares_empty [simp]: "spares s x empty_plan"
  by (simp add: spares_def planned_empty)

lemma spares_operation: "spares s x plan \<Longrightarrow> x \<notin> fc_path ` set (rp_operations plan)"
  by (auto simp: spares_def confined_def)

lemma planned_read_existing:
  assumes "planned s plan" and "fs_read s p = Inr b"
  shows "read_existing s c p plan = (fst (plan_read s p plan), Inr (Some b))"
proof -
  have "\<And>c. om_get (rp_observed plan) p = Some c \<Longrightarrow> read_optional s p = Inr c"
    using planned_fresh [OF assms(1)] by (simp add: plan_fresh_def)
  then have "snd (plan_read s p plan) = Inr b"
    using assms(2) by (force simp: plan_read_def read_optional_def Let_def split: option.split)
  then show ?thesis by (cases "plan_read s p plan") (simp add: read_existing_def)
qed

lemma spares_foreign_reconcile:
  assumes "spares s p plan" and "fs_read s p = Inr b" and "\<not> prefix (hf_header hf) b" and "prefix (hf_header hf) contents"
    and "\<And>a e d plan. spares s p plan \<Longrightarrow> spares s p (hf_record hf a p e d plan)"
  shows "spares s p (fst (reconcile_header_file hf s p contents m plan))"
proof -
  have "b \<noteq> contents" using assms(3,4) by auto
  moreover have "spares s p (fst (plan_read s p plan))" using assms(1) by (rule sparing.read_step)
  ultimately show ?thesis
    using planned_read_existing [of s plan p b] assms by (simp add: reconcile_header_file_def Let_def spares_def)
qed

lemma spares_foreign_remove:
  assumes "spares s p plan" and "fs_read s p = Inr b" and "\<not> prefix (hf_header hf) b"
  shows "spares s p (fst (remove_header_file hf removed s p plan))"
proof -
  have "spares s p (fst (plan_read s p plan))" using assms(1) by (rule sparing.read_step)
  then have "spares s p (plan_record s n d a p (fst (plan_read s p plan)))" for n d a by (rule sparing.keeps_record)
  with planned_read_existing [of s plan p b] assms show ?thesis by (simp add: remove_header_file_def spares_def)
qed

lemma toml_contents_header: "toml_contents lib c header v = Inr contents \<Longrightarrow> prefix header contents"
  by (auto simp: toml_contents_def with_header_def Let_def split: sum.splits if_splits)

lemma spares_codex_plan:
  assumes "fs_read s p = Inr b" and "\<not> prefix codex_header b"
  shows "spares s p (fst (codex_plan lib s p helper socket sandbox user configured empty_plan))"
  using assms unfolding codex_plan_def codex_remove_def
  by (auto simp: codex_file_def toml_contents_header plan_seq_def split: option.split sum.split
      intro!: spares_foreign_reconcile spares_foreign_remove sparing.keeps_codex_record)

lemma spares_grok_plan:
  assumes "fs_read s p = Inr b" and "\<not> prefix grok_header b"
  shows "spares s p (fst (grok_plan lib s p helper socket configured empty_plan))"
  using assms unfolding grok_plan_def grok_remove_def
  by (auto simp: grok_file_def toml_contents_header plan_seq_def split: option.split sum.split
      intro!: spares_foreign_reconcile spares_foreign_remove sparing.diff_step)

lemma spares_open_code_steps:
  assumes "spares s x plan" and "fs_read s x = Inr b" and "\<not> prefix open_code_header b"
  shows "prefix open_code_header contents \<Longrightarrow> spares s x (fst (open_code_reconcile_file s y contents d plan))"
    and "spares s x (fst (open_code_remove_owned s y d plan))"
proof -
  show "spares s x (fst (open_code_remove_owned s y d plan))"
    using assms sparing.keeps_open_code_steps(2) [of y x s plan d]
    by (cases "y = x") (auto simp: open_code_remove_owned_def open_code_file_def intro: spares_foreign_remove)
  show "spares s x (fst (open_code_reconcile_file s y contents d plan))" if "prefix open_code_header contents"
    using assms that sparing.keeps_open_code_steps(1) [of y x s plan contents d]
    by (cases "y = x") (auto simp: open_code_reconcile_file_def open_code_file_def
        intro!: spares_foreign_reconcile sparing.diff_step)
qed

lemma plan_seq_spares:
  assumes "spares s x (fst m)" and "\<And>v. snd m = Inr v \<Longrightarrow> spares s x (fst (k v (fst m)))"
  shows "spares s x (fst (plan_seq m k))"
  using assms by (cases m; cases "snd m") auto

lemma spares_open_code_plan:
  assumes "fs_read s x = Inr b" and "\<not> prefix open_code_header b"
  shows "spares s x (fst (open_code_plan lib s p q helper socket configured empty_plan))"
proof -
  have "credential_plugin lib helper socket = Inr source \<Longrightarrow> prefix open_code_header source" for source
    by (auto simp: credential_plugin_def split: sum.splits)
  then show ?thesis
    unfolding open_code_plan_def
    by (auto intro!: plan_seq_spares spares_open_code_steps [OF _ assms] split: option.split)
qed

lemma codex_foreign_conflict:
  assumes "fs_read s p = Inr b" and "\<not> prefix codex_header b" and "configured \<noteq> None"
    and "codex_plan lib s p helper socket sandbox user configured empty_plan = (plan, Inr ())"
  shows "has_conflicts plan"
proof -
  obtain config gateway where configured: "configured = Some (config, gateway)" using assms(3) by auto
  with assms(4) obtain contents where toml: "toml_contents lib ''serialize Codex managed configuration as TOML'' codex_header
      (codex_managed_config lib config gateway helper socket sandbox) = Inr contents"
    by (auto simp: codex_plan_def plan_seq_def split: sum.splits)
  with assms(2) have "b \<noteq> contents" by (auto dest: toml_contents_header)
  then show ?thesis
    using assms(1,2,4) configured toml reconcile_foreign_file [of s p b codex_file contents]
    by (auto simp: codex_plan_def codex_file_def record_configuration_def has_conflicts_def plan_record_diff_def
        report_record_def Let_def)
qed

lemma grok_foreign_conflict:
  assumes "fs_read s p = Inr b" and "\<not> prefix grok_header b" and "configured \<noteq> None"
    and "grok_plan lib s p helper socket configured empty_plan = (plan, Inr ())"
  shows "has_conflicts plan"
proof -
  obtain config gateway where configured: "configured = Some (config, gateway)" using assms(3) by auto
  with assms(4) obtain settings contents where settings: "grok_managed_config lib config gateway helper socket = Inr settings"
    and toml: "toml_contents lib ''serialize Grok managed configuration as TOML'' grok_header settings = Inr contents"
    by (auto simp: grok_plan_def plan_seq_def split: sum.splits)
  with assms(2) have "b \<noteq> contents" by (auto dest: toml_contents_header)
  then show ?thesis
    using assms(1,2,4) configured settings toml reconcile_foreign_file [of s p b grok_file contents]
    by (auto simp: grok_plan_def grok_file_def has_conflicts_def plan_record_diff_def report_record_def)
qed

lemma skipped_fields [simp]:
  "rp_operations (skipped reason) = []" "rp_inactive (skipped reason) = Some reason" "\<not> has_conflicts (skipped reason)"
  by (simp_all add: skipped_def set_inactive_def Let_def empty_plan_def has_conflicts_def get_or_insert_def)

text \<open>In user mode Grok is skipped; in system mode its plan is made.\<close>

lemma grok_skipped:
  assumes "rc_merge_user_settings ctx"
  shows "pv_plan (grok lib x) ctx config s = Inr (if pg_grok (dc_programs config) = None then empty_plan
    else skipped ''Grok Build requires system mode; skipped in user mode'')"
  using assms by (simp add: grok_def or_skip_def skip_unless_def)

lemma grok_planned:
  assumes "pv_plan (grok lib x) ctx config s = Inr plan" and "\<not> rc_merge_user_settings ctx"
  shows "grok_plan lib s x (rc_credential_helper ctx) (rc_socket ctx)
    (with_gateway config gk_use_llm_gateway (pg_grok (dc_programs config))) empty_plan = (plan, Inr ())"
  using assms by (simp add: grok_def finish_plan_Inr or_skip_def skip_unless_def)

text \<open>
  C14. The files that Codex, Grok and OpenCode are configured with carry the daemon's header. Where such a
  file exists without the header, someone else wrote it, and no plan changes or removes it, whether the
  program is configured or not. For a configured Codex, and for a configured Grok in system mode, the
  plan reports the conflict, so that the apply is refused; in user mode Grok is skipped without looking
  at its file, and a configured Grok is reported as inactive with the reason.
\<close>

theorem foreign_files_are_left_alone:
  assumes "fs_read s x = Inr b"
  shows "(\<not> prefix codex_header b \<and> pv_plan (codex lib x) ctx config s = Inr plan \<longrightarrow>
        rp_operations plan = [] \<and> (pg_codex (dc_programs config) \<noteq> None \<longrightarrow> has_conflicts plan))
    \<and> (\<not> prefix grok_header b \<and> pv_plan (grok lib x) ctx config s = Inr plan \<longrightarrow>
        rp_operations plan = []
        \<and> (pg_grok (dc_programs config) \<noteq> None \<longrightarrow>
             (if rc_merge_user_settings ctx
              then rp_inactive plan = Some ''Grok Build requires system mode; skipped in user mode'' \<and> \<not> has_conflicts plan
              else has_conflicts plan)))
    \<and> (\<not> prefix open_code_header b \<and> pv_plan (open_code lib p q) ctx config s = Inr plan \<longrightarrow>
        x \<notin> fc_path ` set (rp_operations plan))"
proof (intro conjI impI; elim conjE)
  assume header: "\<not> prefix codex_header b" and plan: "pv_plan (codex lib x) ctx config s = Inr plan"
  let ?r = "codex_plan lib s x (rc_credential_helper ctx) (rc_socket ctx) (dc_sandbox config) (rc_user_mode ctx)
    (with_gateway config cx_use_llm_gateway (pg_codex (dc_programs config))) empty_plan"
  have r: "?r = (plan, Inr ())" using plan by (simp add: codex_def finish_plan_Inr)
  have "x \<notin> fc_path ` set (rp_operations plan)"
    using spares_operation [OF spares_codex_plan [OF assms header]] r by (metis fst_conv)
  moreover have "fc_path ` set (rp_operations plan) \<subseteq> {x}" using plan by (rule codex_contract.within)
  ultimately show "rp_operations plan = []" by (cases "rp_operations plan") auto
  show "has_conflicts plan" if "pg_codex (dc_programs config) \<noteq> None"
    using codex_foreign_conflict [OF assms header _ r] that by (simp add: with_gateway_def)
next
  assume header: "\<not> prefix grok_header b" and plan: "pv_plan (grok lib x) ctx config s = Inr plan"
  show "rp_operations plan = []"
  proof (cases "rc_merge_user_settings ctx")
    case True
    then show ?thesis using plan by (auto simp: grok_skipped split: if_splits)
  next
    case False
    note r = grok_planned [OF plan False]
    have "x \<notin> fc_path ` set (rp_operations plan)"
      using spares_operation [OF spares_grok_plan [OF assms header]] r by (metis fst_conv)
    moreover have "fc_path ` set (rp_operations plan) \<subseteq> {x}" using plan by (rule grok_contract.within)
    ultimately show ?thesis by (cases "rp_operations plan") auto
  qed
  show "if rc_merge_user_settings ctx
      then rp_inactive plan = Some ''Grok Build requires system mode; skipped in user mode'' \<and> \<not> has_conflicts plan
      else has_conflicts plan" if "pg_grok (dc_programs config) \<noteq> None"
  proof (cases "rc_merge_user_settings ctx")
    case True
    then show ?thesis using plan that by (auto simp: grok_skipped)
  next
    case False
    then show ?thesis using grok_foreign_conflict [OF assms header _ grok_planned [OF plan False]] that
      by (simp add: with_gateway_def)
  qed
next
  assume header: "\<not> prefix open_code_header b" and plan: "pv_plan (open_code lib p q) ctx config s = Inr plan"
  then show "x \<notin> fc_path ` set (rp_operations plan)"
    using spares_operation [OF spares_open_code_plan [OF assms header]]
    by (simp add: open_code_def finish_plan_Inr) (metis fst_conv)
qed

section \<open>Rendered commands\<close>

text \<open>
  C17. The command line that the daemon writes into a program's configuration on Unix is read back by the
  shell as exactly the program and the arguments it was rendered from, whatever characters they contain:
  no argument is split, expanded or joined with another.
\<close>

theorem posix_command_words:
  "sh_words False None (render_posix_command c) = Some (cmd_program c # cmd_args c)"
  unfolding render_posix_command_def by (rule sh_words_line) simp

section \<open>Examples\<close>

definition etc_file :: "string \<Rightarrow> path" where
  "etc_file name = [RootDir, Normal ''etc'', Normal name]"

definition demo_paths :: managed_paths where
  "demo_paths =
     \<lparr>mp_claude_code_settings = etc_file ''claude'', mp_claude_desktop_settings = etc_file ''desktop'',
      mp_claude_desktop_helper = etc_file ''helper'', mp_codex_config = etc_file ''codex'',
      mp_open_code_config = etc_file ''opencode'', mp_open_code_plugin = etc_file ''plugin'', mp_grok_config = etc_file ''grok'',
      mp_copilot_providers = None, mp_vscode_chat_models = None, mp_vscode_settings = None, mp_pi_models = None,
      mp_pi_settings = None\<rparr>"

definition demo_notes :: path where
  "demo_notes = [RootDir, Normal ''home'', Normal ''notes'']"

lemma etc_sidecars:
  "state_path (etc_file name) \<noteq> demo_notes" "owner_path (etc_file name) \<noteq> demo_notes"
  "desktop_owner_path (etc_file name) \<noteq> demo_notes" "etc_file name \<noteq> demo_notes"
  by (simp_all add: etc_file_def demo_notes_def state_path_def owner_path_def desktop_owner_path_def with_file_name_def
      file_name_def Let_def)

lemma demo_notes_unmanaged: "demo_notes \<notin> managed_files demo_paths"
  using etc_sidecars [symmetric]
  by (auto simp: managed_files_def claude_files_def desktop_files_def vscode_files_def copilot_files_def pi_files_def
      demo_paths_def)

theorem apply_stays_in_managed_files_witness:
  "\<forall>lib (vlib :: unit settings_lib). let s = set_node demo_notes (Some (File ''mine'' 0x180)) demo_win in
     os_node (fst (attributed_apply (plan_with_report
       (daemon_reconciler lib vlib False demo_paths [] [] None AllPrograms) demo_config s) s)) demo_notes
     = Some (File ''mine'' 0x180)"
proof (intro allI, unfold Let_def)
  fix lib and vlib :: "unit settings_lib"
  let ?s = "set_node demo_notes (Some (File ''mine'' 0x180)) demo_win"
  let ?r = "attributed_apply (plan_with_report
    (daemon_reconciler lib vlib False demo_paths [] [] None AllPrograms) demo_config ?s) ?s"
  have "?r = (fst ?r, fst (snd ?r), snd (snd ?r))" by simp
  from apply_stays_in_managed_files [OF this demo_notes_unmanaged]
  show "os_node (fst ?r) demo_notes = Some (File ''mine'' 0x180)" by simp
qed

definition demo_context :: reconcile_context where
  "demo_context = \<lparr>rc_merge_user_settings = False, rc_user_mode = False, rc_credential_helper = [], rc_socket = [],
     rc_llm_proxy = None\<rparr>"

definition codex_demo_config :: daemon_config where
  "codex_demo_config = demo_config\<lparr>dc_programs :=
     default_programs\<lparr>pg_codex := Some \<lparr>cx_use_llm_gateway = False, cx_auth = None, cx_managed_config = []\<rparr>\<rparr>\<rparr>"

definition silent_codec :: json_codec where
  "silent_codec = \<lparr>from_slice = (\<lambda>_. None), json5_from_str = (\<lambda>_. None), to_vec_pretty = (\<lambda>_. Inr []),
     state_from_slice = (\<lambda>_. Inl ([], [])), state_to_vec_pretty = (\<lambda>_. Inr [])\<rparr>"

definition silent_lib :: provider_lib where
  "silent_lib = \<lparr>pb_codec = silent_codec, pb_to_string = (\<lambda>_. Inr []), pb_display = (\<lambda>_. []), pb_debug = (\<lambda>s. s),
     pb_plist = (\<lambda>_. Inr []), pb_toml_pretty = (\<lambda>_. Inr []), pb_url_str = (\<lambda>_. []), pb_set_path = (\<lambda>_ u. u),
     pb_from_file_path = (\<lambda>_. None), pb_base64 = (\<lambda>b. b), pb_current_dir = Inr [], pb_macos = False\<rparr>"

theorem foreign_files_are_left_alone_witness:
  "\<exists>plan. pv_plan (codex silent_lib demo_notes) demo_context codex_demo_config
       (set_node demo_notes (Some (File ''model'' 0x180)) demo_win) = Inr plan
     \<and> rp_operations plan = [] \<and> has_conflicts plan"
proof -
  let ?s = "set_node demo_notes (Some (File ''model'' 0x180)) demo_win"
  have read: "fs_read ?s demo_notes = Inr ''model''"
    by (simp add: fs_read_def demo_win_def demo_os_def os.defs)
  have header: "\<not> prefix codex_header ''model''"
    by (simp add: codex_header_def)
  then have "with_header codex_header [] \<noteq> ''model''"
    by (simp add: with_header_def codex_header_def)
  then obtain plan where "pv_plan (codex silent_lib demo_notes) demo_context codex_demo_config ?s = Inr plan"
    using reconcile_foreign_file [of ?s demo_notes "''model''" codex_file "with_header codex_header []"] read header
    by (simp add: codex_def codex_plan_def with_gateway_def codex_demo_config_def default_programs_def toml_contents_def
        silent_lib_def codex_file_def finish_plan_def)
  with foreign_files_are_left_alone [OF read, of silent_lib demo_context codex_demo_config plan "[]" "[]"] header
  show ?thesis by (auto simp: codex_demo_config_def default_programs_def)
qed

end
