(* ===== verification/Desktop_Facts.thy ===== *)
theory Desktop_Facts
  imports Provider_Facts
begin

text \<open>
  The policy values of Claude Desktop in the registry: what the planned changes do to the key, at every
  point of their way, and that removing them gives back what was there.
\<close>

section \<open>Names and claims\<close>

lemma observed_value_under: "observed_value observed name = value_under observed name"
  by (induction observed) (auto simp: observed_value_def value_under_def same_name_def)

lemma observes_name_under: "observes_name observed name \<longleftrightarrow> value_under observed name \<noteq> None"
  by (induction observed) (auto simp: observes_name_def value_under_Cons same_name_def)

lemma eq_ignore_case_trans:
  "eq_ignore_ascii_case a b \<Longrightarrow> eq_ignore_ascii_case b c \<Longrightarrow> eq_ignore_ascii_case a c"
  by (simp add: eq_ignore_ascii_case_def)

lemma value_under_cong: "eq_ignore_ascii_case a b \<Longrightarrow> value_under vs a = value_under vs b"
  by (induction vs) (auto simp: value_under_Cons same_name_def eq_ignore_ascii_case_def)

lemma claims_iff: "claims names x \<longleftrightarrow> (\<exists>n \<in> set names. eq_ignore_ascii_case n x)"
  by (auto simp: claims_def list_ex_iff)

lemma collect_strings: "collect_options (map (as_str \<circ> String) xs) = Some xs"
  by (induction xs) simp_all

text \<open>The claims the daemon writes are read back.\<close>

definition claims_read_back :: "provider_lib \<Rightarrow> bool" where
  "claims_read_back lib \<longleftrightarrow>
     (\<forall>names. from_slice (pb_codec lib) (pb_display lib (json_strings names)) = Some (json_strings names))"

lemma marker_claims_written:
  "claims_read_back lib \<Longrightarrow> set (marker_claims lib (Some (Some (pb_display lib (json_strings names))))) = set names"
  by (simp add: claims_read_back_def marker_claims_def json_strings_def collect_strings)

section \<open>Sequences of changes\<close>

lemma changed_values_append: "changed_values (xs @ ys) m = changed_values ys (changed_values xs m)"
  by (induction xs m rule: changed_values.induct) simp_all

lemma changed_values_other:
  "\<forall>c \<in> set cs. \<not> eq_ignore_ascii_case (fst c) x \<Longrightarrow> changed_values cs m x = m x"
  by (induction cs m rule: changed_values.induct) auto

lemma changed_values_deleted:
  assumes "\<forall>c \<in> set cs. eq_ignore_ascii_case (fst c) x \<longrightarrow> snd c = None" and "\<exists>c \<in> set cs. eq_ignore_ascii_case (fst c) x"
  shows "changed_values cs m x = None"
  using assms
proof (induction cs m rule: changed_values.induct)
  case (2 name w cs m)
  let ?m = "\<lambda>other. if eq_ignore_ascii_case name other then map_option Some w else m other"
  show ?case
  proof (cases "\<exists>c \<in> set cs. eq_ignore_ascii_case (fst c) x")
    case True
    with 2 show ?thesis by simp
  next
    case False
    with 2(2,3) have "eq_ignore_ascii_case name x" and "w = None" by auto
    then have "?m x = None" by simp
    moreover have "changed_values cs ?m x = ?m x" using False by (intro changed_values_other) simp
    ultimately show ?thesis unfolding changed_values.simps by simp
  qed
qed simp

section \<open>What the daemon writes is claimed\<close>

lemma value_changes_named:
  "(n, v) \<in> set (value_changes lib observed desired) \<Longrightarrow>
     n \<in> set (map fst desired @ stale_names lib observed desired) \<and> (v = None \<longleftrightarrow> \<not> claims (map fst desired) n)"
  by (force simp: value_changes_def List.map_filter_def stale_names_def claims_iff split: if_splits)

lemma stale_observed_deleted:
  "n \<in> set (stale_names lib observed desired) \<Longrightarrow> value_under observed n \<noteq> None \<Longrightarrow>
   (n, None) \<in> set (value_changes lib observed desired)"
  by (auto simp: value_changes_def observes_name_under)

lemma owned_desired_or_stale:
  "n \<in> set (registry_owned_values lib observed) \<Longrightarrow> claims (map fst desired) n \<or> n \<in> set (stale_names lib observed desired)"
  by (auto simp: stale_names_def)

lemma claims_cong: "eq_ignore_ascii_case a b \<Longrightarrow> claims names a = claims names b"
  by (auto simp: claims_iff eq_ignore_ascii_case_def)

lemma take_bracketed:
  assumes "length pre \<le> 1" and "length post \<le> 1"
  shows "take n (pre @ body @ post) = [] \<or> (\<exists>j. take n (pre @ body @ post) = pre @ take j body)
    \<or> take n (pre @ body @ post) = pre @ body @ post"
proof (cases "n = 0")
  case False
  let ?a = "n - length pre" and ?b = "n - length pre - length body"
  have split: "take n (pre @ body @ post) = take n pre @ take ?a body @ take ?b post" by simp
  have pre: "take n pre = pre" using False assms(1) by simp
  show ?thesis
  proof (cases "?b = 0")
    case True
    then have "take n (pre @ body @ post) = pre @ take ?a body" using split pre by (simp only: take_0 append_Nil2)
    then show ?thesis by blast
  next
    case False
    then have "take ?a body = body" and "take ?b post = post" using assms(2) by simp_all
    then have "take n (pre @ body @ post) = pre @ body @ post" using split pre by (simp only:)
    then show ?thesis by blast
  qed
qed simp

text \<open>The changes are the claim, when it has to be written, the changes of values, and the smaller claim.\<close>

lemma registry_changes_bracketed:
  obtains pre post where "registry_changes lib observed desired = pre @ value_changes lib observed desired @ post"
    and "length pre \<le> 1" and "length post \<le> 1"
    and "changed_values pre (value_under observed) registry_owner_value = Some (Some (full_claim lib observed desired))"
    and "post = [] \<or> post = [(registry_owner_value, Some (final_claim lib desired))]"
    and "\<forall>c \<in> set (pre @ post). fst c = registry_owner_value"
proof -
  let ?pre = "if Option.bind (observed_value observed registry_owner_value) (\<lambda>d. d) \<noteq> Some (full_claim lib observed desired)
    then [(registry_owner_value, Some (full_claim lib observed desired))] else []"
  let ?post = "if final_claim lib desired \<noteq> full_claim lib observed desired
    then [(registry_owner_value, Some (final_claim lib desired))] else []"
  have marker: "changed_values ?pre (value_under observed) registry_owner_value = Some (Some (full_claim lib observed desired))"
    by (auto simp: observed_value_under bind_eq_Some_conv)
  have changes: "registry_changes lib observed desired = ?pre @ value_changes lib observed desired @ ?post"
    by (simp only: registry_changes_def)
  have shape: "length ?pre \<le> 1" "length ?post \<le> 1"
    "?post = [] \<or> ?post = [(registry_owner_value, Some (final_claim lib desired))]"
    "\<forall>c \<in> set (?pre @ ?post). fst c = registry_owner_value"
    by auto
  show thesis by (rule that [OF changes shape(1,2) marker shape(3,4)])
qed

lemma full_claim_claims:
  "claims_read_back lib \<Longrightarrow>
   set (marker_claims lib (Some (Some (full_claim lib observed desired)))) =
     set (map fst desired) \<union> set (stale_names lib observed desired)"
  by (simp add: full_claim_def marker_claims_written)

definition plain_names :: "string list \<Rightarrow> bool" where
  "plain_names names \<longleftrightarrow> \<not> claims names registry_owner_value"

lemma value_changes_plain:
  assumes "plain_names (map fst desired)" and "plain_names (registry_owned_values lib observed)"
    and "c \<in> set (value_changes lib observed desired)"
  shows "\<not> eq_ignore_ascii_case (fst c) registry_owner_value"
  using assms value_changes_named [of "fst c" "snd c" lib observed desired]
  by (auto simp: plain_names_def claims_iff stale_names_def)

lemma claimed_while_changing:
  assumes "claims_read_back lib" and "plain_names (map fst desired)" and "plain_names (registry_owned_values lib observed)"
    and "\<forall>c \<in> set pre. fst c = registry_owner_value"
    and "changed_values pre (value_under observed) registry_owner_value = Some (Some (full_claim lib observed desired))"
    and "m = changed_values (pre @ take j (value_changes lib observed desired)) (value_under observed)"
    and "\<not> eq_ignore_ascii_case registry_owner_value name"
    and "m name \<noteq> value_under observed name \<or> claims (registry_owned_values lib observed) name"
  shows "claims (marker_claims lib (m registry_owner_value)) name"
proof -
  let ?body = "take j (value_changes lib observed desired)"
  have "\<forall>c \<in> set ?body. \<not> eq_ignore_ascii_case (fst c) registry_owner_value"
    using value_changes_plain [OF assms(2,3)] by (auto dest: in_set_takeD)
  then have m: "m registry_owner_value = Some (Some (full_claim lib observed desired))"
    using assms(5,6) by (simp add: changed_values_append changed_values_other)
  have "claims (map fst desired @ stale_names lib observed desired) name"
  proof (cases "claims (registry_owned_values lib observed) name")
    case True
    then obtain n where "n \<in> set (registry_owned_values lib observed)" and n: "eq_ignore_ascii_case n name"
      by (auto simp: claims_iff)
    with owned_desired_or_stale [of n lib observed desired] claims_cong [OF n, of "map fst desired"]
    show ?thesis by (auto simp: claims_iff)
  next
    case False
    with assms(8) have "changed_values (pre @ ?body) (value_under observed) name \<noteq> value_under observed name"
      using assms(6) by simp
    then obtain c where c: "c \<in> set (pre @ ?body)" and n: "eq_ignore_ascii_case (fst c) name"
      using changed_values_other [of "pre @ ?body" name "value_under observed"] by blast
    then have "c \<in> set (value_changes lib observed desired)" using assms(4,7) by (auto dest: in_set_takeD)
    with n value_changes_named [of "fst c" "snd c" lib observed desired] show ?thesis by (auto simp: claims_iff)
  qed
  then show ?thesis by (auto simp: m claims_iff full_claim_claims [OF assms(1)])
qed

lemma left_after_changes:
  assumes "plain_names (map fst desired)" and "plain_names (registry_owned_values lib observed)"
    and "\<forall>c \<in> set (pre @ post). fst c = registry_owner_value"
    and "m = changed_values (pre @ value_changes lib observed desired @ post) (value_under observed)"
    and "\<not> eq_ignore_ascii_case registry_owner_value name" and "m name \<noteq> None"
    and "m name \<noteq> value_under observed name \<or> claims (registry_owned_values lib observed) name"
  shows "claims (map fst desired) name"
proof (rule ccontr)
  let ?body = "value_changes lib observed desired"
  assume not: "\<not> claims (map fst desired) name"
  have "\<forall>c \<in> set (pre @ post). \<not> eq_ignore_ascii_case (fst c) name" using assms(3,5) by simp
  then have "changed_values post f name = f name" and "changed_values pre f name = f name" for f
    by (simp_all add: changed_values_other)
  then have m: "m name = changed_values ?body (changed_values pre (value_under observed)) name"
    and pre: "changed_values pre (value_under observed) name = value_under observed name"
    using assms(4) by (simp_all add: changed_values_append)
  have deletes: "\<forall>c \<in> set ?body. eq_ignore_ascii_case (fst c) name \<longrightarrow> snd c = None"
  proof (intro ballI impI)
    fix c
    assume c: "c \<in> set ?body" and "eq_ignore_ascii_case (fst c) name"
    then have "\<not> claims (map fst desired) (fst c)" using not claims_cong by blast
    with c value_changes_named [of "fst c" "snd c" lib observed desired] show "snd c = None" by simp
  qed
  have none: "\<not> (\<exists>c \<in> set ?body. eq_ignore_ascii_case (fst c) name)"
  proof
    assume "\<exists>c \<in> set ?body. eq_ignore_ascii_case (fst c) name"
    from changed_values_deleted [OF deletes this] assms(6) m show False by simp
  qed
  then have same: "m name = value_under observed name"
    using m pre changed_values_other [of ?body name "changed_values pre (value_under observed)"] by simp
  with assms(7) obtain n where "n \<in> set (registry_owned_values lib observed)" and n: "eq_ignore_ascii_case n name"
    by (auto simp: claims_iff)
  then have "n \<in> set (stale_names lib observed desired)"
    using owned_desired_or_stale claims_cong [OF n] not by blast
  moreover have "value_under observed n \<noteq> None" using value_under_cong [OF n] same assms(6) by simp
  ultimately show False using stale_observed_deleted none n by fastforce
qed

text \<open>
  C18. The registry values of Claude Desktop's policy are claimed by the ownership marker at every moment:
  however many of the planned changes an apply got to make before it stopped, every value under the key
  that the apply wrote, and every value the daemon owned before and that is still there, is named by the
  marker as it then stands, so that a later plan can update it and a removal finds it.
\<close>

theorem registry_writes_are_claimed:
  assumes "claims_read_back lib" and "plain_names (map fst desired)" and "plain_names (registry_owned_values lib observed)"
    and "m = changed_values (take n (registry_changes lib observed desired)) (value_under observed)"
    and "\<not> eq_ignore_ascii_case registry_owner_value name" and "m name \<noteq> None"
    and "m name \<noteq> value_under observed name \<or> claims (registry_owned_values lib observed) name"
  shows "claims (marker_claims lib (m registry_owner_value)) name"
proof -
  obtain pre post where changes: "registry_changes lib observed desired = pre @ value_changes lib observed desired @ post"
    and len: "length pre \<le> 1" "length post \<le> 1"
    and marker: "changed_values pre (value_under observed) registry_owner_value = Some (Some (full_claim lib observed desired))"
    and post: "post = [] \<or> post = [(registry_owner_value, Some (final_claim lib desired))]"
    and own: "\<forall>c \<in> set (pre @ post). fst c = registry_owner_value"
    by (rule registry_changes_bracketed [of lib observed desired])
  note changing = claimed_while_changing [where m = m and pre = pre and name = name, OF assms(1-3) _ marker _ assms(5,7)]
  consider "take n (registry_changes lib observed desired) = []"
    | j where "take n (registry_changes lib observed desired) = pre @ take j (value_changes lib observed desired)"
    | "take n (registry_changes lib observed desired) = pre @ value_changes lib observed desired @ post"
    using take_bracketed [OF len] changes by metis
  then show ?thesis
  proof cases
    case 1
    with assms(4,7) show ?thesis by (simp add: registry_owned_values_def observed_value_under)
  next
    case (2 j)
    with own show ?thesis using assms(4) by (intro changing) auto
  next
    case 3
    show ?thesis
    proof (cases "post = []")
      case True
      with 3 own show ?thesis
        using assms(4) by (intro changing [of "length (value_changes lib observed desired)"]) auto
    next
      case False
      with post have "m registry_owner_value = Some (Some (final_claim lib desired))"
        using assms(4) 3 by (simp add: changed_values_append)
      moreover have "claims (map fst desired) name"
        using left_after_changes [where m = m and pre = pre and post = post and name = name, OF assms(2,3) own _ assms(5-7)] assms(4) 3 by simp
      ultimately show ?thesis by (simp add: claims_iff final_claim_def marker_claims_written [OF assms(1)])
    qed
  qed
qed

section \<open>Removal gives back what was there\<close>

lemma registry_removals_deleted:
  assumes "plain_names (registry_owned_values lib observed)"
  shows "changed_values (registry_removals lib observed) (value_under observed) x =
    (if eq_ignore_ascii_case registry_owner_value x \<or> claims (registry_owned_values lib observed) x then None
     else value_under observed x)"
proof (cases "\<exists>c \<in> set (registry_removals lib observed). eq_ignore_ascii_case (fst c) x")
  case True
  then have "eq_ignore_ascii_case registry_owner_value x \<or> claims (registry_owned_values lib observed) x"
    by (auto simp: registry_removals_def claims_iff)
  moreover have "\<forall>c \<in> set (registry_removals lib observed). eq_ignore_ascii_case (fst c) x \<longrightarrow> snd c = None"
    by (auto simp: registry_removals_def)
  ultimately show ?thesis using changed_values_deleted True by metis
next
  case False
  then have "\<not> eq_ignore_ascii_case registry_owner_value x" by (auto simp: registry_removals_def)
  moreover have "value_under observed x = None" if "claims (registry_owned_values lib observed) x"
    using that False value_under_cong by (fastforce simp: registry_removals_def claims_iff observes_name_under)
  ultimately show ?thesis using changed_values_other [of "registry_removals lib observed" x] False by auto
qed

text \<open>
  C19. On a key without an ownership marker, applying Claude Desktop's settings and later removing them
  leaves the key as it was, up to the values of the settings themselves: the marker and every value named
  by a setting are gone, and every other value is what it was before the daemon came.
\<close>

theorem registry_settings_then_removal:
  assumes "claims_read_back lib" and "plain_names (map fst desired)"
    and "value_under observed registry_owner_value = None"
    and "value_under written = changed_values (registry_changes lib observed desired) (value_under observed)"
  shows "changed_values (registry_removals lib written) (value_under written) x =
    (if eq_ignore_ascii_case registry_owner_value x \<or> claims (map fst desired) x then None else value_under observed x)"
proof -
  have owned: "registry_owned_values lib observed = []"
    using assms(3) by (simp add: registry_owned_values_def observed_value_under marker_claims_def)
  then have stale: "stale_names lib observed desired = []" by (simp add: stale_names_def)
  have "plain_names (registry_owned_values lib observed)" by (simp add: owned plain_names_def claims_def)
  note plain = value_changes_plain [OF assms(2) this]
  have other: "value_under written y = value_under observed y"
    if "\<not> eq_ignore_ascii_case registry_owner_value y" and "\<not> claims (map fst desired) y" for y
  proof -
    have "\<not> eq_ignore_ascii_case (fst c) y" if "c \<in> set (value_changes lib observed desired)" for c
      using value_changes_named [of "fst c" "snd c" lib observed desired] that \<open>\<not> claims (map fst desired) y\<close>
      by (auto simp: stale claims_iff)
    then have "\<forall>c \<in> set (registry_changes lib observed desired). \<not> eq_ignore_ascii_case (fst c) y"
      using \<open>\<not> eq_ignore_ascii_case registry_owner_value y\<close> by (auto simp: registry_changes_def)
    then show ?thesis using assms(4) by (simp add: changed_values_other)
  qed
  have "value_under written registry_owner_value \<in>
      {Some (Some (full_claim lib observed desired)), Some (Some (final_claim lib desired))}"
    using assms(3,4) plain
    by (auto simp: registry_changes_def changed_values_append changed_values_other observed_value_under)
  then have "set (registry_owned_values lib written) = set (map fst desired)"
    using assms(1) by (elim insertE emptyE) (simp_all add: registry_owned_values_def observed_value_under full_claim_claims
        stale final_claim_def marker_claims_written)
  then have "claims (registry_owned_values lib written) y = claims (map fst desired) y" for y
    by (auto simp: claims_iff)
  with registry_removals_deleted [of lib written x] assms(2) other show ?thesis by (auto simp: plain_names_def)
qed

section \<open>Examples\<close>

text \<open>A printer and parser of lists of names, for a library that reads its claims back.\<close>

definition print_names :: "string list \<Rightarrow> string" where
  "print_names names = concat (map (\<lambda>name. concat (map (\<lambda>c. [CHR ''1'', c]) name) @ ''0'') names)"

fun parse_names :: "string \<Rightarrow> string \<Rightarrow> string list" where
  "parse_names word (a # c # s) = (if a = CHR ''1'' then parse_names (word @ [c]) s else word # parse_names [] (c # s))"
| "parse_names word [a] = [word]"
| "parse_names word [] = []"

lemma parse_name:
  "parse_names word (concat (map (\<lambda>c. [CHR ''1'', c]) name) @ CHR ''0'' # rest) = (word @ name) # parse_names [] rest"
  by (induction name arbitrary: word) (cases rest; simp)+

lemma parse_print_names: "parse_names [] (print_names names) = names"
  by (induction names) (simp_all add: print_names_def parse_name)

definition names_lib :: provider_lib where
  "names_lib = silent_lib\<lparr>
     pb_display := (\<lambda>v. print_names (case v of Array xs \<Rightarrow> List.map_filter as_str xs | _ \<Rightarrow> [])),
     pb_codec := silent_codec\<lparr>from_slice := (\<lambda>b. Some (json_strings (parse_names [] b)))\<rparr>\<rparr>"

lemma names_lib_reads_back: "claims_read_back names_lib"
proof -
  have "List.map_filter as_str (map String names) = names" for names
    by (induction names) (simp_all add: List.map_filter_simps)
  then show ?thesis by (simp add: claims_read_back_def names_lib_def json_strings_def parse_print_names)
qed

definition demo_values :: registry_values where
  "demo_values = [(''other'', Some ''x'')]"

definition demo_desired :: "(string \<times> string) list" where
  "demo_desired = [(''a'', ''1''), (''b'', ''2'')]"

definition demo_claim :: string where
  "demo_claim = print_names [''a'', ''b'']"

lemma demo_changes:
  "registry_changes names_lib demo_values demo_desired =
     [(registry_owner_value, Some demo_claim), (''a'', Some ''1''), (''b'', Some ''2'')]"
  by code_simp

lemma demo_plain: "plain_names (map fst demo_desired)" "plain_names (registry_owned_values names_lib demo_values)"
  by code_simp+

theorem registry_writes_are_claimed_witness:
  "let m = changed_values (take 2 (registry_changes names_lib demo_values demo_desired)) (value_under demo_values)
   in m ''a'' = Some (Some ''1'') \<and> m ''b'' = None \<and> claims (marker_claims names_lib (m registry_owner_value)) ''a''"
proof -
  let ?m = "changed_values (take 2 (registry_changes names_lib demo_values demo_desired)) (value_under demo_values)"
  have name: "\<not> eq_ignore_ascii_case registry_owner_value ''a''" by code_simp
  moreover have vals: "?m ''a'' = Some (Some ''1'')" "?m ''b'' = None" "value_under demo_values ''a'' = None"
    by code_simp+
  ultimately have "claims (marker_claims names_lib (?m registry_owner_value)) ''a''"
    using registry_writes_are_claimed [OF names_lib_reads_back demo_plain, of ?m 2 "''a''"] by simp
  with vals show ?thesis by (simp add: Let_def)
qed

theorem registry_settings_then_removal_witness:
  "\<exists>written. value_under written = changed_values (registry_changes names_lib demo_values demo_desired) (value_under demo_values)
     \<and> value_under written ''a'' = Some (Some ''1'')
     \<and> changed_values (registry_removals names_lib written) (value_under written) ''a'' = None
     \<and> changed_values (registry_removals names_lib written) (value_under written) ''other'' = Some (Some ''x'')"
proof -
  let ?written = "set_value ''b'' ''2'' (set_value ''a'' ''1'' (set_value registry_owner_value demo_claim demo_values))"
  have written: "value_under ?written = changed_values (registry_changes names_lib demo_values demo_desired) (value_under demo_values)"
    by (rule ext) (simp add: demo_changes value_under_set_value)
  have "value_under demo_values registry_owner_value = None" by code_simp
  note removal = registry_settings_then_removal [OF names_lib_reads_back demo_plain(1) this written]
  have "claims (map fst demo_desired) ''a''" "\<not> claims (map fst demo_desired) ''other''"
    "\<not> eq_ignore_ascii_case registry_owner_value ''other''" "value_under demo_values ''other'' = Some (Some ''x'')"
    "value_under ?written ''a'' = Some (Some ''1'')"
    by code_simp+
  with removal [of "''a''"] removal [of "''other''"] written show ?thesis by auto
qed

end
