(* ===== verification/Settings_Facts.thy ===== *)
theory Settings_Facts
  imports Provider_Vscode "HOL-Library.Countable"
begin

text \<open>
  The edits of VS Code's \<^verbatim>\<open>settings.json\<close>: what the daemon writes into the user's settings, its removal
  takes out again, and gives back the settings as they were. The syntax tree of the \<^verbatim>\<open>jsonc_parser\<close> crate
  is a parameter; what the code relies on are the laws below, on the properties of a document in their order.
\<close>

section \<open>The syntax tree\<close>

definition set_property :: "string \<Rightarrow> json \<Rightarrow> (string \<times> json) list \<Rightarrow> (string \<times> json) list" where
  "set_property k v = map (\<lambda>p. if fst p = k then (k, v) else p)"

definition drop_property :: "string \<Rightarrow> (string \<times> json) list \<Rightarrow> (string \<times> json) list" where
  "drop_property k = filter (\<lambda>p. fst p \<noteq> k)"

text \<open>
  The laws of the crate: the names and values of the properties, the edits of a property that occurs once,
  and that a printed document is read back with the properties it had, and starts with no byte order mark.
\<close>

definition cst_laws :: "'d cst_lib \<Rightarrow> ('d \<Rightarrow> (string \<times> json) list) \<Rightarrow> bool" where
  "cst_laws cst props \<longleftrightarrow>
     (\<forall>d. ct_names cst d = map fst (props d))
     \<and> (\<forall>d k. ct_value cst d k = map_of (props d) k)
     \<and> (\<forall>d k. ct_elements cst d k = Option.bind (map_of (props d) k) as_array)
     \<and> (\<forall>d k v i. props (ct_insert cst i k v d) = take i (props d) @ (k, v) # drop i (props d))
     \<and> (\<forall>d k v. count_list (map fst (props d)) k = 1 \<longrightarrow> props (ct_set cst k v d) = set_property k v (props d))
     \<and> (\<forall>d k. count_list (map fst (props d)) k = 1 \<longrightarrow> props (ct_remove cst k d) = drop_property k (props d))
     \<and> (\<forall>d k v vs. count_list (map fst (props d)) k = 1 \<and> map_of (props d) k = Some (Array vs) \<longrightarrow>
          props (ct_push cst k v d) = set_property k (Array (vs @ [v])) (props d))
     \<and> (\<forall>d k keep vs. count_list (map fst (props d)) k = 1 \<and> map_of (props d) k = Some (Array vs) \<longrightarrow>
          props (ct_retain cst k keep d) = set_property k (Array (filter keep vs)) (props d))
     \<and> (\<forall>d. \<exists>tree d'. ct_parse cst (ct_print cst d) = Some tree \<and> ct_object cst tree = Some d' \<and> props d' = props d)
     \<and> (\<forall>d. \<not> blank (ct_print cst d) \<and> \<not> prefix bom (ct_print cst d))"

lemma cst_reads:
  assumes "cst_laws cst props"
  shows "ct_names cst d = map fst (props d)" and "ct_value cst d k = map_of (props d) k"
    and "ct_elements cst d k = Option.bind (map_of (props d) k) as_array"
    and "ct_has cst d k \<longleftrightarrow> k \<in> fst ` set (props d)"
  using assms by (simp_all add: cst_laws_def ct_has_def)

lemma cst_edits:
  assumes "cst_laws cst props"
  shows "props (ct_insert cst i k v d) = take i (props d) @ (k, v) # drop i (props d)"
    and "count_list (map fst (props d)) k = 1 \<Longrightarrow> props (ct_set cst k v d) = set_property k v (props d)"
    and "count_list (map fst (props d)) k = 1 \<Longrightarrow> props (ct_remove cst k d) = drop_property k (props d)"
    and "count_list (map fst (props d)) k = 1 \<Longrightarrow> map_of (props d) k = Some (Array vs) \<Longrightarrow>
      props (ct_push cst k v d) = set_property k (Array (vs @ [v])) (props d)"
    and "count_list (map fst (props d)) k = 1 \<Longrightarrow> map_of (props d) k = Some (Array vs) \<Longrightarrow>
      props (ct_retain cst k keep d) = set_property k (Array (filter keep vs)) (props d)"
  using assms by (simp_all add: cst_laws_def)

text \<open>A document the daemon can edit: neither of its keys occurs twice, and the ignore list is a list.\<close>

definition editable :: "(string \<times> json) list \<Rightarrow> bool" where
  "editable ps \<longleftrightarrow>
     count_list (map fst ps) override_key \<le> 1 \<and> count_list (map fst ps) ignored_settings_key \<le> 1
     \<and> (\<forall>v. map_of ps ignored_settings_key = Some v \<longrightarrow> (\<exists>vs. v = Array vs))"

lemma parse_object_editable:
  assumes "cst_laws cst props"
  shows "parse_object cst t = Inr d \<longleftrightarrow>
    (\<exists>tree. ct_parse cst t = Some tree \<and> ct_object cst tree = Some d) \<and> editable (props d)"
proof (cases "map_of (props d) ignored_settings_key")
  case None
  then have "ignored_settings_key \<notin> fst ` set (props d)" by (simp add: map_of_eq_None_iff)
  with None show ?thesis
    by (auto simp: parse_object_def editable_def cst_reads [OF assms] not_less split: option.splits if_splits)
next
  case (Some v)
  then have "ignored_settings_key \<in> fst ` set (props d)" by (force dest: map_of_SomeD)
  with Some show ?thesis
    by (cases v) (auto simp: parse_object_def editable_def cst_reads [OF assms] not_less split: option.splits if_splits)
qed

lemma printed_document:
  assumes "cst_laws cst props" and "editable (props d)"
  obtains d' where "parse_object cst (ct_print cst d) = Inr d'" and "props d' = props d"
proof -
  have "\<exists>tree d'. ct_parse cst (ct_print cst d) = Some tree \<and> ct_object cst tree = Some d' \<and> props d' = props d"
    using assms(1) by (simp add: cst_laws_def)
  then obtain tree d' where "ct_parse cst (ct_print cst d) = Some tree" "ct_object cst tree = Some d'" "props d' = props d"
    by blast
  with that [of d'] parse_object_editable [OF assms(1)] assms(2) show thesis by auto
qed

section \<open>Properties of a document\<close>

lemma set_property_names [simp]: "map fst (set_property k v ps) = map fst ps" "fst ` set (set_property k v ps) = fst ` set ps"
proof -
  show 1: "map fst (set_property k v ps) = map fst ps" by (simp add: set_property_def)
  show "fst ` set (set_property k v ps) = fst ` set ps" using arg_cong [OF 1, of set] by simp
qed

lemma map_of_set_property:
  "map_of (set_property k v ps) k' = (if k' = k \<and> k \<in> fst ` set ps then Some v else map_of ps k')"
  by (induction ps) (force simp: set_property_def)+

lemma set_property_absent: "k \<notin> fst ` set ps \<Longrightarrow> set_property k v ps = ps"
  by (induction ps) (auto simp: set_property_def)

lemma set_property_same: "count_list (map fst ps) k \<le> 1 \<Longrightarrow> map_of ps k = Some v \<Longrightarrow> set_property k v ps = ps"
proof (induction ps)
  case (Cons p ps)
  show ?case
  proof (cases "fst p = k")
    case True
    with Cons.prems have "k \<notin> fst ` set ps" by (simp add: count_list_0_iff)
    with True Cons.prems show ?thesis using set_property_absent [of k ps v] by (auto simp: set_property_def)
  next
    case False
    with Cons show ?thesis by (simp add: set_property_def)
  qed
qed simp

lemma set_property_twice [simp]: "set_property k v (set_property k w ps) = set_property k v ps"
  by (simp add: set_property_def)

lemma set_property_commute: "k \<noteq> k' \<Longrightarrow> set_property k v (set_property k' w ps) = set_property k' w (set_property k v ps)"
  by (simp add: set_property_def)

lemma set_property_Cons: "set_property k v ((k', w) # ps) = (k', if k' = k then v else w) # set_property k v ps"
  by (simp add: set_property_def)

lemma drop_property_Cons: "drop_property k ((k', w) # ps) = (if k' = k then [] else [(k', w)]) @ drop_property k ps"
  by (simp add: drop_property_def)

lemma drop_property_absent: "k \<notin> fst ` set ps \<Longrightarrow> drop_property k ps = ps"
  by (induction ps) (auto simp: drop_property_def)

lemma once: "count_list (map fst ps) k \<le> 1 \<Longrightarrow> k \<in> fst ` set ps \<Longrightarrow> count_list (map fst ps) k = 1"
  using count_list_0_iff [of "map fst ps" k] by (simp add: le_Suc_eq)

lemma editable_ignored:
  assumes "editable ps" and "ignored_settings_key \<in> fst ` set ps"
  obtains vs where "map_of ps ignored_settings_key = Some (Array vs)"
  using assms map_of_eq_None_iff [of ps ignored_settings_key] unfolding editable_def by fastforce

lemma keys_differ [simp]: "override_key \<noteq> ignored_settings_key" "ignored_settings_key \<noteq> override_key" "capi_alias_key \<noteq> override_key"
  by (simp_all add: override_key_def ignored_settings_key_def capi_alias_key_def)

section \<open>The edit\<close>

text \<open>The properties after the override is set, and after the ignore list has its entries.\<close>

definition with_override :: "string \<Rightarrow> (string \<times> json) list \<Rightarrow> (string \<times> json) list" where
  "with_override url ps =
     (if override_key \<in> fst ` set ps then set_property override_key (String url) ps else (override_key, String url) # ps)"

definition missing_entries :: "json list \<Rightarrow> string list" where
  "missing_entries vs = filter (\<lambda>e. String e \<notin> set vs) own_entries"

lemma put_override_properties:
  assumes "cst_laws cst props" and "editable (props d)"
  shows "props (fst (put_override cst url d)) = with_override url (props d)"
    and "snd (put_override cst url d) = (if override_key \<in> fst ` set (props d) then 0 else 1)"
  using assms(2) once [of "props d" override_key]
  by (auto simp: put_override_def with_override_def cst_reads [OF assms(1)] cst_edits [OF assms(1)] editable_def)

lemma editable_with_override: "editable ps \<Longrightarrow> editable (with_override url ps)"
  by (auto simp: editable_def with_override_def map_of_set_property count_list_0_iff)

lemma push_entry_properties:
  assumes "cst_laws cst props" and "count_list (map fst (props d)) ignored_settings_key = 1"
    and "map_of (props d) ignored_settings_key = Some (Array vs)"
  shows "props (fst (push_entry cst e (d, added))) =
      set_property ignored_settings_key (Array (vs @ (if String e \<in> set vs then [] else [String e]))) (props d)"
    and "snd (push_entry cst e (d, added)) = added @ (if String e \<in> set vs then [] else [e])"
  using assms set_property_same [of "props d" ignored_settings_key "Array vs"]
  by (auto simp: push_entry_def cst_reads [OF assms(1)] cst_edits [OF assms(1)] list_ex_iff)

lemma put_ignored_properties:
  assumes "cst_laws cst props" and "editable (props d)" and "map_of (props d) ignored_settings_key = Some (Array vs)"
  shows "props (fst (put_ignored cst i d)) =
      set_property ignored_settings_key (Array (vs @ map String (missing_entries vs))) (props d)"
    and "snd (put_ignored cst i d) = missing_entries vs"
proof -
  let ?es = "\<lambda>e vs. if String e \<in> set vs then [] else [e]"
  have present: "ignored_settings_key \<in> fst ` set (props d)" using assms(3) by (force dest: map_of_SomeD)
  then have one: "count_list (map fst (props d)) ignored_settings_key = 1"
    using assms(2) by (intro once) (auto simp: editable_def)
  let ?d1 = "fst (push_entry cst override_key (d, []))" and ?a1 = "snd (push_entry cst override_key (d, []))"
  let ?vs1 = "vs @ map String (?es override_key vs)"
  have d1: "props ?d1 = set_property ignored_settings_key (Array ?vs1) (props d)" and a1: "?a1 = ?es override_key vs"
    using push_entry_properties [OF assms(1) one assms(3), of override_key "[]"] by auto
  have 2: "count_list (map fst (props ?d1)) ignored_settings_key = 1"
    "map_of (props ?d1) ignored_settings_key = Some (Array ?vs1)"
    unfolding d1 using one present by (simp_all add: map_of_set_property)
  have "put_ignored cst i d = push_entry cst capi_alias_key (?d1, ?a1)"
    using present by (simp add: put_ignored_def cst_reads [OF assms(1)])
  moreover have "missing_entries vs = ?es override_key vs @ ?es capi_alias_key ?vs1"
    by (auto simp: missing_entries_def)
  ultimately show "props (fst (put_ignored cst i d)) =
      set_property ignored_settings_key (Array (vs @ map String (missing_entries vs))) (props d)"
    and "snd (put_ignored cst i d) = missing_entries vs"
    using push_entry_properties [OF assms(1) 2, of capi_alias_key ?a1] d1 a1 by auto
qed

lemma put_ignored_created:
  assumes "cst_laws cst props" and "ignored_settings_key \<notin> fst ` set (props d)"
  shows "props (fst (put_ignored cst i d)) =
      take i (props d) @ (ignored_settings_key, json_strings own_entries) # drop i (props d)"
    and "snd (put_ignored cst i d) = own_entries"
  using assms(2) by (simp_all add: put_ignored_def cst_reads [OF assms(1)] cst_edits [OF assms(1)])

text \<open>The document an edit prints, and what it remembers of the user's settings.\<close>

definition edited :: "string \<Rightarrow> (string \<times> json) list \<Rightarrow> (string \<times> json) list" where
  "edited url ps =
     (case map_of ps ignored_settings_key of
        Some (Array vs) \<Rightarrow>
          set_property ignored_settings_key (Array (vs @ map String (missing_entries vs))) (with_override url ps)
      | _ \<Rightarrow>
          if override_key \<in> fst ` set ps then (ignored_settings_key, json_strings own_entries) # with_override url ps
          else (override_key, String url) # (ignored_settings_key, json_strings own_entries) # ps)"

definition added_entries :: "(string \<times> json) list \<Rightarrow> string list" where
  "added_entries ps =
     (case map_of ps ignored_settings_key of Some (Array vs) \<Rightarrow> missing_entries vs | _ \<Rightarrow> own_entries)"

definition foreign_override :: "string \<Rightarrow> json option \<Rightarrow> bool" where
  "foreign_override url v \<longleftrightarrow>
     (case Option.bind v as_str of None \<Rightarrow> True | Some u \<Rightarrow> u \<noteq> url \<and> \<not> is_daemon_capi_url u)"

lemma ignored_after_override:
  "map_of (with_override url ps) ignored_settings_key = map_of ps ignored_settings_key"
  "ignored_settings_key \<in> fst ` set (with_override url ps) \<longleftrightarrow> ignored_settings_key \<in> fst ` set ps"
  by (auto simp: with_override_def map_of_set_property)

lemma edit_settings_document:
  assumes laws: "cst_laws cst props" and "split_bom t = (mark, body)" and "\<not> blank body" and parsed: "parse_object cst body = Inr d"
    and "foreign_override url (map_of (props d) override_key)"
    and edit: "edit_settings cst (Some t) url None = Inr (t1, st)"
  obtains d2 where "t1 = mark @ ct_print cst d2" and "props d2 = edited url (props d)"
    and "ss_override_before st = map_of (props d) override_key" and "ss_added_ignored st = added_entries (props d)"
    and "ss_ignored_created st \<longleftrightarrow> ignored_settings_key \<notin> fst ` set (props d)" and "\<not> ss_created st"
proof -
  let ?d1 = "fst (put_override cst url d)" and ?i = "snd (put_override cst url d)"
  let ?d2 = "fst (put_ignored cst ?i ?d1)"
  have ed: "editable (props d)" using parsed parse_object_editable [OF laws] by blast
  note put = put_override_properties [OF laws ed, of url]
  have ed1: "editable (props ?d1)" using editable_with_override [OF ed] put by simp
  have d2: "props ?d2 = edited url (props d)" and added: "snd (put_ignored cst ?i ?d1) = added_entries (props d)"
  proof (atomize (full), cases "ignored_settings_key \<in> fst ` set (props d)")
    case True
    with ed obtain vs where vs: "map_of (props d) ignored_settings_key = Some (Array vs)" by (rule editable_ignored)
    then have "map_of (props ?d1) ignored_settings_key = Some (Array vs)" by (simp add: put ignored_after_override)
    from put_ignored_properties [OF laws ed1 this] vs
    show "props ?d2 = edited url (props d) \<and> snd (put_ignored cst ?i ?d1) = added_entries (props d)"
      by (simp add: edited_def added_entries_def put)
  next
    case False
    then have "map_of (props d) ignored_settings_key = None" by (simp add: map_of_eq_None_iff)
    moreover have "ignored_settings_key \<notin> fst ` set (props ?d1)" using False by (simp add: put ignored_after_override)
    from put_ignored_created [OF laws this, of ?i]
    have "props ?d2 = take ?i (props ?d1) @ (ignored_settings_key, json_strings own_entries) # drop ?i (props ?d1)"
      and "snd (put_ignored cst ?i ?d1) = own_entries" .
    ultimately show "props ?d2 = edited url (props d) \<and> snd (put_ignored cst ?i ?d1) = added_entries (props d)"
      by (auto simp: edited_def added_entries_def put with_override_def)
  qed
  have "t1 = mark @ ct_print cst ?d2" and "ss_override_before st = map_of (props d) override_key"
    and "ss_added_ignored st = added_entries (props d)"
    and "ss_ignored_created st \<longleftrightarrow> ignored_settings_key \<notin> fst ` set (props d)" and "\<not> ss_created st"
    using edit assms(2-5) added
    by (auto simp: edit_settings_def next_state_def split_beta Let_def cst_reads [OF laws] put ignored_after_override
        foreign_override_def split: option.splits)
  with d2 that show thesis by blast
qed

section \<open>The removal\<close>

lemma restore_override_properties:
  assumes "cst_laws cst props" and "count_list (map fst (props d)) override_key = 1"
  shows "props (restore_override cst before d) =
    (case before of Some v \<Rightarrow> set_property override_key v (props d) | None \<Rightarrow> drop_property override_key (props d))"
proof -
  have "override_key \<in> fst ` set (props d)" using assms(2) count_list_0_iff [of "map fst (props d)" override_key] by auto
  then show ?thesis
    using assms(2) by (simp add: restore_override_def cst_reads [OF assms(1)] cst_edits [OF assms(1)] split: option.split)
qed

lemma drop_entries_properties:
  assumes "cst_laws cst props" and "count_list (map fst (props d)) ignored_settings_key = 1"
    and "map_of (props d) ignored_settings_key = Some (Array vs)" and "kept = filter (\<lambda>v. v \<notin> set (map String entries)) vs"
  shows "props (drop_entries cst entries created d) =
    (if created \<and> kept = [] then drop_property ignored_settings_key (props d)
     else set_property ignored_settings_key (Array kept) (props d))"
proof -
  let ?d1 = "ct_retain cst ignored_settings_key (\<lambda>v. v \<notin> set (map String entries)) d"
  have present: "ignored_settings_key \<in> fst ` set (props d)" using assms(3) by (force dest: map_of_SomeD)
  have d1: "props ?d1 = set_property ignored_settings_key (Array kept) (props d)"
    using assms by (simp add: cst_edits [OF assms(1)])
  then have "props (ct_remove cst ignored_settings_key ?d1) = drop_property ignored_settings_key (props ?d1)"
    using assms(2) by (intro cst_edits(3) [OF assms(1)]) simp
  moreover have "drop_property k (set_property k v ps) = drop_property k ps" for k v and ps :: "(string \<times> json) list"
    by (induction ps) (auto simp: drop_property_def set_property_def)
  moreover have "map_of (props ?d1) ignored_settings_key = Some (Array kept)"
    unfolding d1 using present by (simp add: map_of_set_property)
  ultimately show ?thesis
    using present assms(3) d1 by (simp add: drop_entries_def Let_def cst_reads [OF assms(1)])
qed

text \<open>The ignore list after an edit, and the document without the override.\<close>

lemma edited_override_once: "editable ps \<Longrightarrow> count_list (map fst (edited url ps)) override_key = 1"
  using once [of ps override_key]
  by (auto simp: edited_def with_override_def editable_def count_list_0_iff split: option.splits json.splits)

lemma edited_override: "map_of (edited url ps) override_key = Some (String url)"
  by (auto simp: edited_def with_override_def map_of_set_property split: option.split json.split)

lemma editable_edited:
  assumes "editable ps"
  shows "editable (edited url ps)"
proof -
  have "count_list (map fst (edited url ps)) override_key \<le> 1" using edited_override_once [OF assms] by simp
  then show ?thesis
    using assms by (auto simp: editable_def edited_def with_override_def map_of_set_property count_list_0_iff
        map_of_eq_None_iff json_strings_def split: option.splits json.splits)
qed

definition listed_entries :: "(string \<times> json) list \<Rightarrow> (string \<times> json) list" where
  "listed_entries ps =
     (case map_of ps ignored_settings_key of
        Some (Array vs) \<Rightarrow> set_property ignored_settings_key (Array (vs @ map String (missing_entries vs))) ps
      | _ \<Rightarrow> (ignored_settings_key, json_strings own_entries) # ps)"

lemma restored_override:
  assumes "editable ps"
  shows "(case map_of ps override_key of
      Some v \<Rightarrow> set_property override_key v (edited url ps) | None \<Rightarrow> drop_property override_key (edited url ps))
    = listed_entries ps"
proof (cases "map_of ps override_key")
  case None
  then have absent: "override_key \<notin> fst ` set ps" by (simp add: map_of_eq_None_iff)
  then show ?thesis
    using None by (auto simp: edited_def listed_entries_def with_override_def set_property_Cons drop_property_Cons
        drop_property_absent split: option.split json.split)
next
  case (Some v)
  then have "override_key \<in> fst ` set ps" by (force dest: map_of_SomeD)
  moreover have "set_property override_key v ps = ps" using Some assms by (intro set_property_same) (auto simp: editable_def)
  ultimately show ?thesis
    using Some by (auto simp: edited_def listed_entries_def with_override_def set_property_Cons
        set_property_commute [of override_key ignored_settings_key] split: option.split json.split)
qed

lemma removed_entries:
  assumes laws: "cst_laws cst props" and "editable ps" and d: "props d = listed_entries ps"
  shows "props (drop_entries cst (added_entries ps) (ignored_settings_key \<notin> fst ` set ps) d) = ps"
proof (cases "ignored_settings_key \<in> fst ` set ps")
  case True
  with assms(2) obtain vs where vs: "map_of ps ignored_settings_key = Some (Array vs)" by (rule editable_ignored)
  have one: "count_list (map fst ps) ignored_settings_key = 1" using True assms(2) by (intro once) (auto simp: editable_def)
  have "filter (\<lambda>v. v \<notin> set (map String (missing_entries vs))) (vs @ map String (missing_entries vs)) = vs"
    by (auto simp: missing_entries_def filter_id_conv)
  then show ?thesis
    using drop_entries_properties [OF laws, of d "vs @ map String (missing_entries vs)" vs "missing_entries vs"] one True
      set_property_same [of ps ignored_settings_key "Array vs"]
    by (simp add: d listed_entries_def added_entries_def vs map_of_set_property)
next
  case False
  then have none: "map_of ps ignored_settings_key = None" by (simp add: map_of_eq_None_iff)
  moreover have "count_list (map fst ps) ignored_settings_key = 0" using False by (simp add: count_list_0_iff)
  ultimately show ?thesis
    using drop_entries_properties [OF laws, of d "map String own_entries" "[]" own_entries] False
    by (simp add: d listed_entries_def added_entries_def json_strings_def drop_property_Cons drop_property_absent)
qed

text \<open>
  C20. Removing the daemon's override from VS Code's settings gives back the user's settings: the properties
  of the document after the removal are exactly those before the edit, in their order, with the user's own
  override and ignore list where there were any, and the byte order mark is kept. The text itself is the
  syntax tree's, which keeps the user's comments and layout.
\<close>

theorem settings_edit_then_remove:
  assumes "cst_laws cst props" and "split_bom t = (mark, body)" and "\<not> blank body" and "parse_object cst body = Inr d"
    and "foreign_override url (map_of (props d) override_key)"
    and "edit_settings cst (Some t) url None = Inr (t1, st)"
  shows "\<exists>t2 d2. remove_settings cst t1 (Some st) own_url = Inr (RemovalWrite t2)
    \<and> t2 = mark @ ct_print cst d2 \<and> props d2 = props d"
proof -
  note laws = assms(1)
  have ed: "editable (props d)" using assms(4) parse_object_editable [OF laws] by blast
  obtain d1 where t1: "t1 = mark @ ct_print cst d1" and d1: "props d1 = edited url (props d)"
    and st: "ss_override_before st = map_of (props d) override_key" "ss_added_ignored st = added_entries (props d)"
      "ss_ignored_created st \<longleftrightarrow> ignored_settings_key \<notin> fst ` set (props d)" "\<not> ss_created st"
    using edit_settings_document [OF assms] by metis
  have "editable (props d1)" using editable_edited [OF ed] by (simp add: d1)
  with laws obtain d' where d': "parse_object cst (ct_print cst d1) = Inr d'" "props d' = props d1"
    by (rule printed_document)
  let ?d3 = "restore_override cst (map_of (props d) override_key) d'"
  let ?d4 = "drop_entries cst (added_entries (props d)) (ignored_settings_key \<notin> fst ` set (props d)) ?d3"
  have pd: "props d' = edited url (props d)" using d' d1 by simp
  have "props ?d3 = listed_entries (props d)"
    unfolding restore_override_properties [OF laws edited_override_once [OF ed, of url, folded pd]] pd
    by (rule restored_override [OF ed])
  then have d4: "props ?d4 = props d" by (rule removed_entries [OF laws ed])
  have mark: "split_bom t1 = (mark, ct_print cst d1)" and "\<not> blank (ct_print cst d1)"
    using laws assms(2) by (auto simp: t1 cst_laws_def split_bom_def strip_prefix_def split: if_splits option.splits)
  then have removed: "remove_settings cst t1 (Some st) own_url =
      Inr (if mark @ ct_print cst ?d4 = t1 then RemovalUnchanged else RemovalWrite (mark @ ct_print cst ?d4))"
    using d' st by (simp add: remove_settings_def removal_goal_def Let_def)
  have "mark @ ct_print cst ?d4 \<noteq> t1"
  proof
    assume "mark @ ct_print cst ?d4 = t1"
    then have "ct_print cst ?d4 = ct_print cst d1" by (simp add: t1)
    moreover obtain e where "parse_object cst (ct_print cst ?d4) = Inr e" "props e = props ?d4"
      using printed_document [OF laws, of ?d4] ed d4 by auto
    ultimately have "props d1 = props d" using d' d4 by simp
    then have "map_of (props d) override_key = Some (String url)" using d1 edited_override [of url "props d"] by simp
    with assms(5) show False by (simp add: foreign_override_def)
  qed
  with removed d4 show ?thesis by auto
qed

section \<open>An example\<close>

text \<open>A library of documents that are their properties, printed as a number of marks between braces.\<close>

instance number :: countable
  by countable_datatype

instance json :: countable
  by countable_datatype

type_synonym document = "(string \<times> json) list"

definition print_document :: "document \<Rightarrow> string" where
  "print_document d = ''{'' @ replicate (to_nat d) (CHR ''x'') @ ''}''"

definition parse_document :: "string \<Rightarrow> document" where
  "parse_document t = from_nat (length t - 2)"

definition update_array :: "string \<Rightarrow> (json list \<Rightarrow> json list) \<Rightarrow> document \<Rightarrow> document" where
  "update_array k f d =
     (case map_of d k of Some (Array vs) \<Rightarrow> set_property k (Array (f vs)) d | _ \<Rightarrow> d)"

definition document_cst :: "document cst_lib" where
  "document_cst =
     \<lparr>ct_parse = (\<lambda>t. Some (parse_document t)), ct_object = Some, ct_names = map fst, ct_value = map_of,
      ct_elements = (\<lambda>d k. Option.bind (map_of d k) as_array), ct_set = set_property,
      ct_insert = (\<lambda>i k v d. take i d @ (k, v) # drop i d), ct_append = (\<lambda>k v d. d @ [(k, v)]), ct_remove = drop_property,
      ct_push = (\<lambda>k v. update_array k (\<lambda>vs. vs @ [v])), ct_retain = (\<lambda>k keep. update_array k (filter keep)),
      ct_print = print_document\<rparr>"

lemma parse_print_document [simp]: "parse_document (print_document d) = d"
  by (simp add: parse_document_def print_document_def)

lemma brace_not_white: "strip_white (CHR ''{'' # s) = None"
proof -
  have "list_all (\<lambda>w. \<not> prefix ''{'' (take 1 w) \<and> w \<noteq> []) white_space" by code_simp
  then have "\<not> prefix w (CHR ''{'' # s)" if "w \<in> set white_space" for w
    using that by (cases w) (auto simp: list_all_iff)
  then show ?thesis by (simp add: strip_white_def find_None_iff)
qed

lemma print_document_text: "\<not> blank (print_document d)" "\<not> prefix bom (print_document d)"
proof -
  have "trim_start (print_document d) = print_document d"
    unfolding print_document_def by (subst trim_start.simps) (simp add: brace_not_white)
  then show "\<not> blank (print_document d)" by (simp add: blank_def print_document_def)
  show "\<not> prefix bom (print_document d)" by (simp add: print_document_def bom_def)
qed

lemma document_cst_laws: "cst_laws document_cst (\<lambda>d. d)"
  by (simp add: cst_laws_def document_cst_def update_array_def print_document_text)

definition demo_settings_document :: document where
  "demo_settings_document = [(''editor.tabSize'', String ''4''), (override_key, String ''https://proxy.example'')]"

theorem settings_edit_then_remove_witness:
  "\<exists>t1 st. edit_settings document_cst (Some (print_document demo_settings_document)) ''http://127.0.0.1:1/capi/k'' None = Inr (t1, st)
     \<and> parse_document t1 \<noteq> demo_settings_document
     \<and> remove_settings document_cst t1 (Some st) None = Inr (RemovalWrite (print_document demo_settings_document))"
proof -
  let ?d = demo_settings_document and ?url = "''http://127.0.0.1:1/capi/k''"
  have split: "split_bom (print_document ?d) = ([], print_document ?d)"
    using print_document_text(2) [of ?d] by (simp add: split_bom_def strip_prefix_def)
  have "editable ?d" by (simp add: editable_def demo_settings_document_def override_key_def ignored_settings_key_def)
  then have parsed: "parse_object document_cst (print_document ?d) = Inr ?d"
    using parse_object_editable [OF document_cst_laws] by (simp add: document_cst_def)
  have "is_daemon_capi_url ''https://proxy.example'' = False" by code_simp
  then have foreign: "foreign_override ?url (map_of ?d override_key)"
    by (simp add: foreign_override_def demo_settings_document_def override_key_def)
  obtain t1 st where edit: "edit_settings document_cst (Some (print_document ?d)) ?url None = Inr (t1, st)"
    using split parsed print_document_text(1) [of ?d] by (simp add: edit_settings_def split_beta Let_def)
  from settings_edit_then_remove [OF document_cst_laws split print_document_text(1) parsed foreign edit, of None]
  have "remove_settings document_cst t1 (Some st) None = Inr (RemovalWrite (print_document ?d))"
    by (simp add: document_cst_def)
  moreover obtain d1 where "t1 = [] @ ct_print document_cst d1" and "d1 = edited ?url ?d"
    using edit_settings_document [OF document_cst_laws split print_document_text(1) parsed foreign edit] by metis
  then have "parse_document t1 \<noteq> ?d"
    using edited_override [of ?url ?d] by (auto simp: document_cst_def demo_settings_document_def override_key_def)
  ultimately show ?thesis using edit by blast
qed

end
