(* ===== verification/Spec2Isabelle.thy ===== *)
theory Spec2Isabelle
  imports Usage_Identity Fleet_Views Merge_Facts Config_Facts Remote_Facts Session Proxy_Identity Desktop_Facts Settings_Facts
begin

text \<open>
  A verification development of agentdesktop: the daemon that keeps the settings of developer tools as an
  organization's policy wants them, the local proxy through which those tools reach the model gateway, the
  controller of a fleet of daemons, and the collection of usage.

  \<^bold>\<open>The program.\<close> The daemon (\<^verbatim>\<open>src/crates/agent\<close>) receives a configuration from a file or from the controller,
  checks it (\<^verbatim>\<open>src/crates/core/src/config.rs\<close>), and reconciles every managed program with it: the providers
  (\<^verbatim>\<open>provider/*\<close>) read the user's files and plan changes, the plan is applied if nothing it read has changed
  meanwhile (\<^verbatim>\<open>reconcile/plan.rs\<close>, \<^verbatim>\<open>secure_fs.rs\<close>, \<^verbatim>\<open>reconcile/registry.rs\<close>), and a report says what became of
  each program. A timer repeats this (\<^verbatim>\<open>tick.rs\<close>); the connection to the controller (\<^verbatim>\<open>remote.rs\<close>) delivers new
  configurations and carries the reports back. The proxy (\<^verbatim>\<open>llm_proxy.rs\<close>) accepts requests of paired tools only
  and forwards them with the daemon's own credential. The controller (\<^verbatim>\<open>src/crates/controller\<close>) keeps what the
  devices report in a database. The usage crate (\<^verbatim>\<open>src/crates/usage\<close>) turns the gateway's access logs into
  rollups and reports.

  \<^bold>\<open>Conventions.\<close> A Rust string or byte vector is a \<^typ>\<open>string\<close> of bytes; a \<^verbatim>\<open>Result\<close> is a sum with the error on
  the left, an \<^verbatim>\<open>anyhow::Error\<close> the list of its messages; a \<^verbatim>\<open>BTreeMap\<close> is a sorted association list. Functions
  with effects pass the state explicitly. Third-party code (parsers, printers, digests, the SQL engine) is an
  argument of the definitions that call it, often as a record of functions; what is relied on of it is a
  hypothesis of the theorem, and the witness gives a function that satisfies it.

  \<^bold>\<open>Foundations.\<close> \<open>Prelude\<close>, \<open>Utf8\<close>, \<open>Ordered_Map\<close> (locale \<open>btree_map\<close>), \<open>Json\<close>, \<open>Rust_Numbers\<close> and \<open>Http\<close> hold
  what the sources use of the language and its libraries. \<open>Os_Model\<close> is the file system with calls that may be
  refused at any point, and \<^verbatim>\<open>secure_fs.rs\<close> over it: an atomic write happens entirely or not at all. \<open>Effects\<close>
  has the locales for loops that apply changes until the first error.

  \<^bold>\<open>Merging.\<close> \<open>Overlay\<close> (\<^verbatim>\<open>merge_overlay\<close>, \<^verbatim>\<open>rollback_value\<close>) and \<open>Json_Merge\<close> (\<^verbatim>\<open>plan_merge\<close>, \<^verbatim>\<open>plan_remove\<close> and the
  sidecar) model \<^verbatim>\<open>provider/json_merge.rs\<close>. \<open>Overlay\<close> shows at every path of a document what a merge keeps and
  what a rollback restores or leaves to the user. \<open>Merge_Facts\<close> shows that merging and removing leaves the document
  that the merge recorded as the user's, for all options (it is the document found, unless elements of a keyed
  array had to give way to managed ones or an earlier merge was in it), that merging again changes nothing, and
  that a redacted dry run shows none of the secret values.

  \<^bold>\<open>Plans.\<close> \<open>Registry\<close> and \<open>Plan\<close> model reading, planning and applying; \<open>Planning\<close> has the inductive relation of the
  plans that planning can produce, and \<open>Plan_Steps\<close> the locale \<open>plan_steps\<close> through which providers inherit what
  single operations keep. Shown: an apply completes when nothing is refused, stops between two changes
  otherwise, refuses a plan whose files changed, and a second apply changes nothing.

  \<^bold>\<open>Configuration.\<close> \<open>Config\<close>, \<open>Config_Check\<close> and \<open>Config_Facts\<close>: validation accepts exactly the configurations of a
  declarative description, the models of every program included.

  \<^bold>\<open>Reconciler.\<close> \<open>Reconcile\<close>, \<open>Reconcile_Facts\<close>, \<open>Report\<close>, \<open>Tick\<close> and \<open>Program_Control\<close>: the report agrees with what
  was written (a program reported as blocked is untouched if the plan has no registry changes, as on Unix;
  \<open>blocked_although_written\<close> is the other case), a program that cannot be planned keeps everything unwritten, the channel to the connection holds
  the newest outcome, and the stored program choice is read back.

  \<^bold>\<open>Providers.\<close> \<open>Provider_Shared\<close>, \<open>Provider_Contract\<close> (locale \<open>managed_provider\<close>), and one theory per family:
  \<open>Provider_Header\<close> (Codex, Grok, OpenCode), \<open>Provider_Merge\<close> (Claude Code, Pi), \<open>Provider_Desktop\<close>,
  \<open>Provider_Copilot\<close>, \<open>Provider_Vscode\<close>; \<open>Provider_Facts\<close>, \<open>Desktop_Facts\<close> and \<open>Settings_Facts\<close>: the daemon's providers
  keep the contract, write only managed files, leave foreign files alone (reporting a conflict, or skipping Grok in
  user mode), and their removals restore.

  \<^bold>\<open>Proxy.\<close> \<open>Routes\<close>, \<open>Cred_Cache\<close>, \<open>Proxy\<close>, \<open>Proxy_Facts\<close> and \<open>Proxy_Identity\<close>: only paired requests pass, they stay
  below the gateway's base path, are authorized by a credential of the daemon and never by the caller's (whose token
  goes along in a header of its own where the route passes it on), and a credential is served exactly while it is
  valid for its device; one fetch per key runs at a time.

  \<^bold>\<open>Connection.\<close> \<open>Remote\<close> and \<open>Remote_Facts\<close> (pushed configurations and reports), \<open>Session\<close> (the loop around them):
  an applied push survives a restart, one that failed is saved later unless another push or the end of the stream
  intervenes, the controller's view follows every outcome, and the states shown to the user fit the phase of the
  session, up to a failed sign-out.

  \<^bold>\<open>Usage.\<close> \<open>Usage\<close>, \<open>Usage_Store\<close>, \<open>Usage_Ledger\<close> (locale \<open>additive_column\<close>), \<open>Usage_Report\<close>, \<open>Usage_Otlp\<close> and
  \<open>Usage_Identity\<close>: a record is counted once, compaction never shows in a report, the parts of a report add up,
  records respect their limits, and the bytes behind an identifier determine the times, identifiers, body and
  attributes of a record, and nothing else of it.

  \<^bold>\<open>Controller.\<close> \<open>Fleet_Store\<close> (tables and writing queries of \<^verbatim>\<open>database.rs\<close>) and \<open>Fleet_Views\<close> (its reading queries and
  the administrator's handlers).

  \<^bold>\<open>Bounds.\<close> Loops are structural recursions or carry a termination proof. \<open>atomic_attempts\<close> is the source's own limit of
  attempts at a temporary name. \<open>batch_limit\<close> bounds the records of a batch so that no column of a rollup leaves
  the range of \<^verbatim>\<open>BIGINT\<close>: a request costs at most \<^verbatim>\<open>MAX_COST_NANOS_PER_REQUEST\<close>, and 9223 times that fits. A proxy
  request makes at most two attempts, as the source does.

  \<^bold>\<open>Not modelled.\<close> The daemon's process (startup, signals, sockets), the command lines, the sign-in flows against
  identity providers, GitHub and the model vendors, the platforms' secret stores and access control lists,
  the discovery of installed programs, file notifications, and the web pages: they are calls of system
  libraries and third-party crates with little logic of their own. Where a modelled part calls them, what they
  may answer is an event or an argument. Symbolic links are outside the model of the file system.
\<close>

end
